(* ===== verification/Prelude.thy ===== *)
theory Prelude
  imports Main "HOL-Library.AList" "HOL-Library.Multiset"
begin

text \<open>
  What the component theories share: the lemma collections, the result codes of the
  framework, ordered association lists as the model of \<^verbatim>\<open>std::map\<close>, and the interfaces
  (locales) that several components implement.

  \<^item> \<open>work_queue\<close>: a FIFO of pending work.  Implemented by the event queue of
    SystemTime, the action queue of the Analytics plugin and the request queues of RDKShell.
  \<^item> \<open>machine\<close>: an operation on a state that keeps an invariant, lifted to runs.
  \<^item> \<open>ledger\<close>: a machine whose operations move items about but never lose or invent one.
  \<^item> \<open>registry\<close>: a set of registered members with an accepting and a rejecting branch.
\<close>

named_theorems model_simps \<open>unfolding rules of the model's operations\<close>
named_theorems inv_intros \<open>preservation of the components' invariants\<close>

section \<open>Result codes\<close>

text \<open>The result codes (\<^verbatim>\<open>Core::ERROR_*\<close>) that the modelled code returns or compares.\<close>

datatype hresult =
    ERROR_NONE
  | ERROR_GENERAL
  | ERROR_UNAVAILABLE
  | ERROR_UNKNOWN_KEY
  | ERROR_INCORRECT_URL
  | ERROR_ALREADY_CONNECTED
  | ERROR_ILLEGAL_STATE
  | ERROR_INVALID_SIGNATURE
  | ERROR_NOT_EXIST
  | ERROR_ASYNC_FAILED
  | ERROR_TIMEDOUT
  | ERROR_INVALID_DESIGNATOR
  | ERROR_FAILED_REGISTERED
  | ERROR_FAILED_UNREGISTERED
  | ERROR_BAD_REQUEST
  | ERROR_INVALID_PARAMETER
  | ERROR_DUPLICATE_KEY

section \<open>Ordered maps\<close>

text \<open>
  A \<^verbatim>\<open>std::map\<close> is an association list sorted by key.  \<open>omap_put\<close> is
  \<^verbatim>\<open>m[k] = v\<close>, \<open>omap_lower_bound\<close> the entries from \<^verbatim>\<open>m.lower_bound(k)\<close> on
  (the empty list is \<^verbatim>\<open>m.end()\<close>).
\<close>

type_synonym ('k, 'v) omap = "('k \<times> 'v) list"

fun omap_put :: "'k::linorder \<Rightarrow> 'v \<Rightarrow> ('k, 'v) omap \<Rightarrow> ('k, 'v) omap" where
  "omap_put k v [] = [(k, v)]"
| "omap_put k v ((k', v') # m) =
     (if k < k' then (k, v) # (k', v') # m
      else if k = k' then (k, v) # m
      else (k', v') # omap_put k v m)"

fun omap_lower_bound :: "'k::linorder \<Rightarrow> ('k, 'v) omap \<Rightarrow> ('k, 'v) omap" where
  "omap_lower_bound k [] = []"
| "omap_lower_bound k ((k', v') # m) = (if k' < k then omap_lower_bound k m else (k', v') # m)"

definition omap_ok :: "('k::linorder, 'v) omap \<Rightarrow> bool" where
  "omap_ok m = sorted_wrt (<) (map fst m)"

lemma omap_ok_Nil [simp]: "omap_ok []"
  by (simp add: omap_ok_def)

lemma omap_ok_Cons:
  "omap_ok ((k, v) # m) = ((\<forall>k' \<in> fst ` set m. k < k') \<and> omap_ok m)"
  by (auto simp: omap_ok_def)

lemma omap_put_keys [simp]: "fst ` set (omap_put k v m) = insert k (fst ` set m)"
  by (induction k v m rule: omap_put.induct) auto

lemma omap_put_ok [inv_intros]: "omap_ok m \<Longrightarrow> omap_ok (omap_put k v m)"
  by (induction k v m rule: omap_put.induct) (auto simp: omap_ok_Cons)

lemma omap_put_not_Nil [simp]: "omap_put k v m \<noteq> []"
  by (induction k v m rule: omap_put.induct) auto

lemma omap_put_lookup: "omap_ok m \<Longrightarrow> map_of (omap_put k v m) = (map_of m)(k \<mapsto> v)"
proof (induction k v m rule: omap_put.induct)
  case (2 k v k' v' m)
  show ?case
  proof (cases "k < k'")
    case True
    then have "k \<notin> fst ` set m" using 2(2) by (auto simp: omap_ok_Cons)
    with True show ?thesis by (auto simp: fun_eq_iff)
  next
    case False
    with 2 show ?thesis by (auto simp: fun_eq_iff omap_ok_Cons)
  qed
qed auto

lemma lower_bound_eq_dropWhile: "omap_lower_bound k m = dropWhile (\<lambda>e. fst e < k) m"
  by (induction k m rule: omap_lower_bound.induct) auto

text \<open>\<^verbatim>\<open>lower_bound\<close> finds the least key that is not below the given one.\<close>

lemma lower_bound_least:
  assumes "omap_ok m" and "omap_lower_bound k m = (k', v) # r"
  shows "(k', v) \<in> set m \<and> k \<le> k' \<and> (\<forall>e \<in> set m. k \<le> fst e \<longrightarrow> k' \<le> fst e)"
  using assms
  by (induction k m rule: omap_lower_bound.induct)
     (fastforce simp: omap_ok_Cons split: if_splits)+

lemma lower_bound_none:
  "omap_lower_bound k m = [] \<longleftrightarrow> (\<forall>e \<in> set m. fst e < k)"
  by (induction k m rule: omap_lower_bound.induct) auto

section \<open>Interfaces\<close>

subsection \<open>FIFO work queues\<close>

fun popn :: "('q \<Rightarrow> ('a \<times> 'q) option) \<Rightarrow> nat \<Rightarrow> 'q \<Rightarrow> 'a list \<times> 'q" where
  "popn pop 0 q = ([], q)"
| "popn pop (Suc n) q =
     (case pop q of
        None \<Rightarrow> ([], q)
      | Some (a, q') \<Rightarrow> (let (as, q'') = popn pop n q' in (a # as, q'')))"

locale work_queue =
  fixes items :: "'q \<Rightarrow> 'a list"
    and push :: "'a \<Rightarrow> 'q \<Rightarrow> 'q"
    and pop :: "'q \<Rightarrow> ('a \<times> 'q) option"
  assumes items_push: "items (push a q) = items q @ [a]"
    and pop_empty: "items q = [] \<Longrightarrow> pop q = None"
    and pop_front: "items q = a # as \<Longrightarrow> \<exists>q'. pop q = Some (a, q') \<and> items q' = as"
begin

lemma items_pushes: "items (fold push as q) = items q @ as"
  by (induction as arbitrary: q) (auto simp: items_push)

lemma popn_items: "fst (popn pop n q) = take n (items q)"
proof (induction n arbitrary: q)
  case (Suc n)
  show ?case
  proof (cases "items q")
    case Nil then show ?thesis by (simp add: pop_empty)
  next
    case (Cons a as)
    then obtain q' where "pop q = Some (a, q')" "items q' = as" using pop_front by blast
    with Cons Suc[of q'] show ?thesis by (simp add: case_prod_unfold Let_def)
  qed
qed simp

lemma popn_rest: "items (snd (popn pop n q)) = drop n (items q)"
proof (induction n arbitrary: q)
  case (Suc n)
  show ?case
  proof (cases "items q")
    case Nil then show ?thesis by (simp add: pop_empty)
  next
    case (Cons a as)
    then obtain q' where "pop q = Some (a, q')" "items q' = as" using pop_front by blast
    with Cons Suc[of q'] show ?thesis by (simp add: case_prod_unfold Let_def)
  qed
qed simp

text \<open>Work is taken in the order in which it was pushed, whatever was pending before.\<close>

lemma fifo:
  "fst (popn pop (length (items q) + length as) (fold push as q)) = items q @ as"
  by (simp add: popn_items items_pushes)

lemma drained: "items (snd (popn pop (length (items q)) q)) = []"
  by (simp add: popn_rest)

end

subsection \<open>State machines and ledgers\<close>

locale machine =
  fixes step :: "'e \<Rightarrow> 's \<Rightarrow> 's"
    and inv :: "'s \<Rightarrow> bool"
  assumes step_inv: "inv s \<Longrightarrow> inv (step e s)"
begin

lemma run_inv: "inv s \<Longrightarrow> inv (fold step es s)"
  by (induction es arbitrary: s) (auto simp: step_inv)

end

fun credits :: "('e \<Rightarrow> 's \<Rightarrow> 's) \<Rightarrow> ('e \<Rightarrow> 's \<Rightarrow> 'x multiset) \<Rightarrow> 'e list \<Rightarrow> 's \<Rightarrow> 'x multiset" where
  "credits step credit [] s = {#}"
| "credits step credit (e # es) s = credit e s + credits step credit es (step e s)"

locale ledger = machine step inv
  for step :: "'e \<Rightarrow> 's \<Rightarrow> 's" and inv :: "'s \<Rightarrow> bool" +
  fixes balance :: "'s \<Rightarrow> 'x multiset"
    and credit :: "'e \<Rightarrow> 's \<Rightarrow> 'x multiset"
  assumes step_balance: "inv s \<Longrightarrow> balance (step e s) = balance s + credit e s"
begin

lemma run_balance:
  "inv s \<Longrightarrow> balance (fold step es s) = balance s + credits step credit es s"
  by (induction es arbitrary: s) (auto simp: step_balance step_inv ac_simps)

end

subsection \<open>Registries\<close>

locale registry =
  fixes members :: "'r \<Rightarrow> 'm \<Rightarrow> bool"
    and add :: "'m \<Rightarrow> 'r \<Rightarrow> bool \<times> 'r"
    and remove :: "'m \<Rightarrow> 'r \<Rightarrow> bool \<times> 'r"
    and ok :: "'r \<Rightarrow> bool"
  assumes add_ok: "ok r \<Longrightarrow> ok (snd (add m r))"
    and remove_ok: "ok r \<Longrightarrow> ok (snd (remove m r))"
    and add_result: "ok r \<Longrightarrow> fst (add m r) = (\<not> members r m)"
    and remove_result: "ok r \<Longrightarrow> fst (remove m r) = members r m"
    and add_members: "ok r \<Longrightarrow> members (snd (add m r)) m' = (m' = m \<or> members r m')"
    and remove_members: "ok r \<Longrightarrow> members (snd (remove m r)) m' = (m' \<noteq> m \<and> members r m')"
begin

lemma add_twice: "ok r \<Longrightarrow> fst (add m (snd (add m r))) = False"
  by (simp add: add_result add_members add_ok)

lemma remove_added: "ok r \<Longrightarrow> fst (remove m (snd (add m r)))"
  by (simp add: remove_result add_members add_ok)

lemma add_remove_members:
  "ok r \<Longrightarrow> \<not> members r m \<Longrightarrow>
   members (snd (remove m (snd (add m r)))) = members r"
  by (rule ext) (auto simp: remove_members add_members add_ok)

lemma remove_twice: "ok r \<Longrightarrow> fst (remove m (snd (remove m r))) = False"
  by (simp add: remove_result remove_members remove_ok)

end

text \<open>Every registry is a machine over its additions and removals.\<close>

datatype 'm registry_event = Add 'm | Remove 'm

fun registry_step ::
  "('m \<Rightarrow> 'r \<Rightarrow> bool \<times> 'r) \<Rightarrow> ('m \<Rightarrow> 'r \<Rightarrow> bool \<times> 'r) \<Rightarrow> 'm registry_event \<Rightarrow> 'r \<Rightarrow> 'r" where
  "registry_step add remove (Add m) r = snd (add m r)"
| "registry_step add remove (Remove m) r = snd (remove m r)"

sublocale registry \<subseteq> rm: machine "registry_step add remove" ok
proof
  fix s e
  show "ok s \<Longrightarrow> ok (registry_step add remove e s)"
    by (cases e) (auto simp: add_ok remove_ok)
qed

end
