(* ===== verification/Utils_Strings.thy ===== *)
theory Utils_Strings
  imports Prelude "HOL-Library.Word"
begin

text \<open>
  The string helpers of \<^verbatim>\<open>helpers/UtilsString.h\<close>, \<^verbatim>\<open>helpers/UtilsisValidInt.h\<close> and
  \<^verbatim>\<open>helpers/UtilsConnections.h\<close>, over the character operations of the C and C++ standard
  libraries that they call (C locale).  A \<^verbatim>\<open>std::string\<close> is a character list, a position
  \<^verbatim>\<open>npos\<close> is \<open>None\<close>, bytes are 8-bit words; \<^verbatim>\<open>s[i]\<close> reads the terminating NUL at
  \<^verbatim>\<open>i = s.size()\<close>.
\<close>

unbundle bit_operations_syntax

section \<open>Standard library\<close>

definition nul :: char where "nul = CHR 0x00"

definition isspace :: "char \<Rightarrow> bool" where
  "isspace c = (c = CHR '' '' \<or> (9 \<le> (of_char c :: nat) \<and> (of_char c :: nat) \<le> 13))"

definition isdigit :: "char \<Rightarrow> bool" where
  "isdigit c = (48 \<le> (of_char c :: nat) \<and> (of_char c :: nat) \<le> 57)"

definition digit_val :: "char \<Rightarrow> nat" where
  "digit_val c = of_char c - 48"

definition toupper :: "char \<Rightarrow> char" where
  "toupper c = (if 97 \<le> (of_char c :: nat) \<and> (of_char c :: nat) \<le> 122
                then char_of ((of_char c :: nat) - 32) else c)"

definition tolower :: "char \<Rightarrow> char" where
  "tolower c = (if 65 \<le> (of_char c :: nat) \<and> (of_char c :: nat) \<le> 90
                then char_of ((of_char c :: nat) + 32) else c)"

text \<open>\<open>cnth s i\<close> is \<^verbatim>\<open>s[i]\<close> for \<^verbatim>\<open>i <= s.size()\<close>.\<close>

definition cnth :: "string \<Rightarrow> nat \<Rightarrow> char" where
  "cnth s i = (if i < length s then s ! i else nul)"

fun starts_with :: "'a list \<Rightarrow> 'a list \<Rightarrow> bool" where
  "starts_with [] s = True"
| "starts_with (c # t) [] = False"
| "starts_with (c # t) (d # s) = (c = d \<and> starts_with t s)"

text \<open>\<open>str_find t s\<close> is \<^verbatim>\<open>s.find(t)\<close>.\<close>

fun str_find :: "'a list \<Rightarrow> 'a list \<Rightarrow> nat option" where
  "str_find t [] = (if t = [] then Some 0 else None)"
| "str_find t (c # s) =
     (if starts_with t (c # s) then Some 0 else map_option Suc (str_find t s))"

fun find_if :: "('a \<Rightarrow> bool) \<Rightarrow> 'a list \<Rightarrow> nat" where
  "find_if p [] = 0"
| "find_if p (c # s) = (if p c then 0 else Suc (find_if p s))"

text \<open>\<open>find_first_of s d from\<close> is \<^verbatim>\<open>s.find_first_of(d, from)\<close>.\<close>

definition find_first_of :: "string \<Rightarrow> string \<Rightarrow> nat \<Rightarrow> nat option" where
  "find_first_of s d i =
     (let n = find_if (\<lambda>c. c \<in> set d) (drop i s) in
      if n < length (drop i s) then Some (i + n) else None)"

lemma starts_with_iff: "starts_with t s = (\<exists>r. s = t @ r)"
  by (induction t s rule: starts_with.induct) auto

lemma starts_with_self [simp]: "starts_with t (t @ s)"
  by (auto simp: starts_with_iff)

lemma starts_with_same_length: "length t = length s \<Longrightarrow> starts_with t s = (t = s)"
  by (auto simp: starts_with_iff)

lemma str_find_Some:
  "str_find t s = Some n \<Longrightarrow> n \<le> length s \<and> starts_with t (drop n s)"
  by (induction t s arbitrary: n rule: str_find.induct) (auto split: if_splits)

lemma str_find_first:
  "str_find t s = Some n \<Longrightarrow> m < n \<Longrightarrow> \<not> starts_with t (drop m s)"
proof (induction t s arbitrary: n m rule: str_find.induct)
  case (2 t c s)
  then show ?case by (cases m) (auto split: if_splits)
qed (auto split: if_splits)

lemma str_find_None: "str_find t s = None \<Longrightarrow> \<not> starts_with t (drop m s)"
proof (induction t s arbitrary: m rule: str_find.induct)
  case (1 t)
  then show ?case by (cases t) (auto split: if_splits)
next
  case (2 t c s)
  then show ?case by (cases m) (auto split: if_splits)
qed

lemma str_find_char_absent: "c \<notin> set s \<Longrightarrow> str_find (c # t) s = None"
  by (induction s) auto

lemma str_find_char_first: "c \<notin> set s \<Longrightarrow> str_find [c] (s @ c # r) = Some (length s)"
  by (induction s) auto

lemma str_find_skip:
  "c \<notin> set s \<Longrightarrow> str_find (c # t) (s @ r) = map_option ((+) (length s)) (str_find (c # t) r)"
proof (induction s)
  case Nil
  show ?case by (cases "str_find (c # t) r") auto
next
  case (Cons a s)
  then show ?case by (cases "str_find (c # t) r") auto
qed

lemma str_find_zero: "s \<noteq> [] \<Longrightarrow> str_find t s = Some 0 \<longleftrightarrow> starts_with t s"
  by (cases s) (auto split: if_splits)

lemma find_if_le: "find_if p s \<le> length s"
  by (induction s) auto

lemma find_if_eq: "find_if p s = length (takeWhile (\<lambda>c. \<not> p c) s)"
  by (induction s) auto

lemma find_if_lt: "find_if p s < length s \<longleftrightarrow> (\<exists>c \<in> set s. p c)"
  by (induction s) auto

lemma find_first_of_None: "find_first_of s d i = None \<Longrightarrow> c \<in> set (drop i s) \<Longrightarrow> c \<notin> set d"
  using find_if_lt[of "\<lambda>c. c \<in> set d" "drop i s"]
  by (auto simp: find_first_of_def Let_def split: if_splits)

lemma find_first_of_Some:
  "find_first_of s d i = Some n \<Longrightarrow> i \<le> n \<and> n < length s"
  by (auto simp: find_first_of_def Let_def split: if_splits)

section \<open>Case-insensitive lookup\<close>

definition find_substr_ci :: "string \<Rightarrow> string \<Rightarrow> int" where
  "find_substr_ci s t =
     (case str_find (map toupper t) (map toupper s) of
        None \<Rightarrow> -1
      | Some p \<Rightarrow> if p \<noteq> length s then int p else -1)"

definition contains_ci :: "string \<Rightarrow> string \<Rightarrow> bool" where
  "contains_ci s t = (find_substr_ci s t \<noteq> -1)"

definition equal_ci :: "string \<Rightarrow> string \<Rightarrow> bool" where
  "equal_ci s t = (find_substr_ci s t = 0 \<and> length s = length t)"

definition stringContains :: "string \<Rightarrow> string \<Rightarrow> bool" where
  "stringContains s1 s2 =
     (case str_find (map toupper s2) (map toupper s1) of
        None \<Rightarrow> False
      | Some p \<Rightarrow> p \<noteq> length s1)"

text \<open>
  \<^verbatim>\<open>Utils::String::equal\<close> is equality up to case on non-empty strings; two empty
  strings are not found equal, because the search then ends at \<^verbatim>\<open>string.end()\<close>.
\<close>

theorem equal_ci_spec: "equal_ci s t = (s \<noteq> [] \<and> map toupper s = map toupper t)"
proof (cases "length s = length t")
  case False
  then show ?thesis by (auto simp: equal_ci_def dest: map_eq_imp_length_eq)
next
  case True
  then have sw: "starts_with (map toupper t) (map toupper s) = (map toupper t = map toupper s)"
    by (intro starts_with_same_length) simp
  show ?thesis
  proof (cases s)
    case Nil
    then show ?thesis by (simp add: equal_ci_def find_substr_ci_def)
  next
    case (Cons c r)
    then have "map toupper s \<noteq> []" by simp
    then have "str_find (map toupper t) (map toupper s) = Some 0 \<longleftrightarrow>
                 map toupper t = map toupper s"
      using str_find_zero[of "map toupper s" "map toupper t"] sw by blast
    moreover have "find_substr_ci s t = 0 \<longleftrightarrow> str_find (map toupper t) (map toupper s) = Some 0"
      unfolding find_substr_ci_def using Cons by (simp split: option.splits)
    ultimately show ?thesis
      unfolding equal_ci_def using True Cons by (metis list.discI)
  qed
qed

section \<open>Trimming and case conversion\<close>

definition ltrim :: "string \<Rightarrow> string" where
  "ltrim s = drop (find_if (\<lambda>c. \<not> isspace c) s) s"

definition rtrim :: "string \<Rightarrow> string" where
  "rtrim s = take (length s - find_if (\<lambda>c. \<not> isspace c) (rev s)) s"

definition trim :: "string \<Rightarrow> string" where
  "trim s = rtrim (ltrim s)"

definition toUpper :: "string \<Rightarrow> string" where "toUpper s = map toupper s"
definition toLower :: "string \<Rightarrow> string" where "toLower s = map tolower s"

lemma ltrim_eq: "ltrim s = dropWhile isspace s"
  by (simp add: ltrim_def find_if_eq dropWhile_eq_drop)

lemma rtrim_eq: "rtrim s = rev (dropWhile isspace (rev s))"
  by (simp add: rtrim_def find_if_eq dropWhile_eq_drop drop_rev)

lemma rev_dropWhile_split:
  "\<exists>w. s = rev (dropWhile p (rev s)) @ w \<and> (\<forall>c \<in> set w. p c)"
proof -
  have "rev s = takeWhile p (rev s) @ dropWhile p (rev s)" by simp
  then have "s = rev (dropWhile p (rev s)) @ rev (takeWhile p (rev s))"
    by (metis rev_append rev_rev_ident)
  moreover have "\<forall>c \<in> set (rev (takeWhile p (rev s))). p c"
    by (auto dest: set_takeWhileD)
  ultimately show ?thesis by blast
qed

lemma ltrim_split: "\<exists>w. s = w @ ltrim s \<and> (\<forall>c \<in> set w. isspace c)"
  unfolding ltrim_eq
  by (intro exI[of _ "takeWhile isspace s"]) (auto dest: set_takeWhileD)

lemma rtrim_split: "\<exists>w. s = rtrim s @ w \<and> (\<forall>c \<in> set w. isspace c)"
  unfolding rtrim_eq by (rule rev_dropWhile_split)

lemma hd_rtrim: "rtrim s \<noteq> [] \<Longrightarrow> hd (rtrim s) = hd s"
  by (metis rtrim_split hd_append2)

text \<open>
  \<^verbatim>\<open>trim\<close> removes white space from both ends and nothing else, and the result
  neither begins nor ends with white space.
\<close>

theorem trim_spec:
  "\<exists>w w'. s = w @ trim s @ w' \<and> Ball (set w) isspace \<and> Ball (set w') isspace \<and>
     (trim s = [] \<or> (\<not> isspace (hd (trim s)) \<and> \<not> isspace (last (trim s))))"
proof -
  obtain w where w: "s = w @ ltrim s" "Ball (set w) isspace" using ltrim_split by blast
  obtain w' where w': "ltrim s = rtrim (ltrim s) @ w'" "Ball (set w') isspace"
    using rtrim_split by blast
  have "trim s = [] \<or> (\<not> isspace (hd (trim s)) \<and> \<not> isspace (last (trim s)))"
  proof (cases "trim s = []")
    case False
    then have "hd (trim s) = hd (ltrim s)" by (simp add: trim_def hd_rtrim)
    moreover have "ltrim s \<noteq> []" using False by (auto simp: trim_def rtrim_eq)
    ultimately have "\<not> isspace (hd (trim s))" by (simp add: ltrim_eq hd_dropWhile)
    moreover have "\<not> isspace (last (trim s))"
      using False unfolding trim_def rtrim_eq by (simp add: last_rev hd_dropWhile)
    ultimately show ?thesis by blast
  qed simp
  with w w' show ?thesis unfolding trim_def by (metis append_assoc)
qed

section \<open>Splitting\<close>

text \<open>
  The loop of \<^verbatim>\<open>split\<close>: \<open>current\<close> starts at \<^verbatim>\<open>next + 1 = 0\<close> (\<^verbatim>\<open>size_t next = -1\<close>), and
  each round pushes \<^verbatim>\<open>s.substr(current, next - current)\<close>; with \<^verbatim>\<open>next == npos\<close> that is the
  rest of the string.
\<close>

function (sequential) split_loop :: "string \<Rightarrow> string \<Rightarrow> nat \<Rightarrow> string list" where
  "split_loop s delimiters current =
     (case find_first_of s delimiters current of
        None \<Rightarrow> [drop current s]
      | Some nxt \<Rightarrow> take (nxt - current) (drop current s) # split_loop s delimiters (nxt + 1))"
  by pat_completeness auto
termination
  by (relation "measure (\<lambda>(s, d, i). length s - i)") (auto dest: find_first_of_Some)

declare split_loop.simps [simp del]

definition split_str :: "string list \<Rightarrow> string \<Rightarrow> string \<Rightarrow> string list" where
  "split_str stringList s delimiters = stringList @ split_loop s delimiters 0"

fun join :: "'a list \<Rightarrow> 'a list list \<Rightarrow> 'a list" where
  "join d [] = []"
| "join d [p] = p"
| "join d (p # ps) = p @ d @ join d ps"

lemma join_Cons: "ps \<noteq> [] \<Longrightarrow> join d (p # ps) = p @ d @ join d ps"
  by (cases ps) auto

lemma split_loop_nonempty: "split_loop s d i \<noteq> []"
  by (subst split_loop.simps) (simp split: option.split)

lemma find_first_of_drop:
  assumes "find_first_of s d i = Some n"
  shows "take (n - i) (drop i s) = takeWhile (\<lambda>c. c \<notin> set d) (drop i s)"
    and "s ! n \<in> set d"
    and "drop i s = take (n - i) (drop i s) @ s ! n # drop (n + 1) s"
proof -
  let ?k = "find_if (\<lambda>c. c \<in> set d) (drop i s)"
  have k: "?k < length (drop i s)" "n = i + ?k"
    using assms by (auto simp: find_first_of_def Let_def split: if_splits)
  then show t: "take (n - i) (drop i s) = takeWhile (\<lambda>c. c \<notin> set d) (drop i s)"
    by (simp add: find_if_eq takeWhile_eq_take[symmetric])
  have "drop i s ! ?k \<in> set d"
    using k(1) nth_length_takeWhile[of "\<lambda>c. c \<notin> set d" "drop i s"] by (simp add: find_if_eq)
  then show "s ! n \<in> set d" using k by simp
  from id_take_nth_drop[OF k(1)]
  have "drop i s = take ?k (drop i s) @ drop i s ! ?k # drop (Suc ?k) (drop i s)" .
  then show "drop i s = take (n - i) (drop i s) @ s ! n # drop (n + 1) s"
    using k by (simp add: add.commute)
qed

lemma split_loop_join: "join [d] (split_loop s [d] i) = drop i s"
proof (induction s "[d]" i rule: split_loop.induct)
  case (1 s i)
  show ?case
  proof (cases "find_first_of s [d] i")
    case None
    then show ?thesis by (simp add: split_loop.simps[of s "[d]" i])
  next
    case (Some n)
    from find_first_of_drop(2)[OF Some] have "s ! n = d" by simp
    with find_first_of_drop(3)[OF Some] 1[OF Some] Some show ?thesis
      by (simp add: split_loop.simps[of s "[d]" i] join_Cons split_loop_nonempty)
  qed
qed

lemma split_loop_parts:
  "p \<in> set (split_loop s d i) \<Longrightarrow> c \<in> set p \<Longrightarrow> c \<notin> set d"
proof (induction s d i rule: split_loop.induct)
  case (1 s d i)
  show ?case
  proof (cases "find_first_of s d i")
    case None
    with 1(2,3) show ?thesis
      using find_first_of_None[OF None] by (simp add: split_loop.simps[of s d i])
  next
    case (Some n)
    with 1 show ?thesis
      using find_first_of_drop(1)[OF Some]
      by (auto simp: split_loop.simps[of s d i] dest: set_takeWhileD)
  qed
qed

text \<open>
  splitting at one delimiter loses nothing: joining the parts with it gives the
  string back, and no part contains a delimiter.  The parts are appended to the given list.
\<close>

theorem split_join:
  "\<exists>parts. split_str acc s [d] = acc @ parts \<and> join [d] parts = s \<and>
     (\<forall>p. p \<in> set parts \<longrightarrow> d \<notin> set p)"
  using split_loop_join[of d s 0] split_loop_parts[of _ s "[d]" 0]
  by (intro exI[of _ "split_loop s [d] 0"]) (auto simp: split_str_def)

lemma split_join_witness:
  "\<exists>parts. split_str [] ''/a/b'' ''/'' = [] @ parts \<and> join ''/'' parts = ''/a/b'' \<and>
     (\<forall>p. p \<in> set parts \<longrightarrow> CHR ''/'' \<notin> set p)"
  using split_join[of "[]" "''/a/b''" "CHR ''/''"] by simp

section \<open>Base64\<close>

definition base64_chars :: string where
  "base64_chars = ''ABCDEFGHIJKLMNOPQRSTUVWXYZabcdefghijklmnopqrstuvwxyz0123456789+/''"

definition b64_char :: "8 word \<Rightarrow> char" where
  "b64_char i = base64_chars ! unat i"

text \<open>The loop of \<^verbatim>\<open>imageEncoder\<close> over \<^verbatim>\<open>object\<close>: \<open>state\<close>, \<open>lastStuff\<close> and the \<open>result\<close> so far.\<close>

fun imageEncoder_loop :: "8 word list \<Rightarrow> nat \<Rightarrow> 8 word \<Rightarrow> string \<Rightarrow> nat \<times> 8 word \<times> string" where
  "imageEncoder_loop [] state lastStuff result = (state, lastStuff, result)"
| "imageEncoder_loop (x # object) state lastStuff result =
     (if state = 0 then
        imageEncoder_loop object 1 (push_bit 4 (x AND 0x03))
          (result @ [b64_char (drop_bit 2 (x AND 0xFC))])
      else if state = 1 then
        imageEncoder_loop object 2 (push_bit 2 (x AND 0x0F))
          (result @ [b64_char (drop_bit 4 (x AND 0xF0) OR lastStuff)])
      else if state = 2 then
        imageEncoder_loop object 0 lastStuff
          (result @ [b64_char (drop_bit 6 (x AND 0xC0) OR lastStuff), b64_char (x AND 0x3F)])
      else imageEncoder_loop object state lastStuff result)"

definition imageEncoder :: "8 word list \<Rightarrow> bool \<Rightarrow> string \<Rightarrow> string" where
  "imageEncoder object padding result =
     (let (state, lastStuff, result) = imageEncoder_loop object 0 0 result in
      if state \<noteq> 0 then
        let result = result @ [b64_char lastStuff] in
        if padding then (if state = 1 then result @ ''=='' else result @ ''='') else result
      else result)"

text \<open>A decoder, as the format defines it, to compare the encoder with.\<close>

fun index_of :: "'a \<Rightarrow> 'a list \<Rightarrow> nat" where
  "index_of c [] = 0"
| "index_of c (d # s) = (if c = d then 0 else Suc (index_of c s))"

fun sextets_bytes :: "8 word list \<Rightarrow> 8 word list" where
  "sextets_bytes (a # b # c # d # r) =
     (push_bit 2 a OR drop_bit 4 b) # (push_bit 4 b OR drop_bit 2 c) # (push_bit 6 c OR d)
       # sextets_bytes r"
| "sextets_bytes [a, b, c] = [push_bit 2 a OR drop_bit 4 b, push_bit 4 b OR drop_bit 2 c]"
| "sextets_bytes [a, b] = [push_bit 2 a OR drop_bit 4 b]"
| "sextets_bytes _ = []"

definition base64_decode :: "string \<Rightarrow> 8 word list" where
  "base64_decode s =
     sextets_bytes (map (\<lambda>c. word_of_nat (index_of c base64_chars)) (filter (\<lambda>c. c \<noteq> CHR ''='') s))"

fun bytes_sextets :: "8 word list \<Rightarrow> 8 word list" where
  "bytes_sextets (a # b # c # r) =
     drop_bit 2 (a AND 0xFC) # (drop_bit 4 (b AND 0xF0) OR push_bit 4 (a AND 0x03))
       # (drop_bit 6 (c AND 0xC0) OR push_bit 2 (b AND 0x0F)) # (c AND 0x3F) # bytes_sextets r"
| "bytes_sextets [a, b] =
     [drop_bit 2 (a AND 0xFC), drop_bit 4 (b AND 0xF0) OR push_bit 4 (a AND 0x03),
      push_bit 2 (b AND 0x0F)]"
| "bytes_sextets [a] = [drop_bit 2 (a AND 0xFC), push_bit 4 (a AND 0x03)]"
| "bytes_sextets [] = []"

definition pad_of :: "nat \<Rightarrow> string" where
  "pad_of n = (if n mod 3 = 1 then ''=='' else if n mod 3 = 2 then ''='' else [])"

lemma imageEncoder_sextets_aux:
  "(let (state, ls, res) = imageEncoder_loop object 0 l result in
      if state \<noteq> 0 then
        let res = res @ [b64_char ls] in
        if padding then (if state = 1 then res @ ''=='' else res @ ''='') else res
      else res)
   = result @ map b64_char (bytes_sextets object) @ (if padding then pad_of (length object) else [])"
proof (induction object arbitrary: l result rule: bytes_sextets.induct)
  case (1 a b c r)
  have "pad_of (length (a # b # c # r)) = pad_of (length r)"
    by (simp add: pad_of_def mod_Suc)
  with 1 show ?case by simp
qed (simp_all add: pad_of_def)

lemma imageEncoder_sextets:
  "imageEncoder object padding result =
   result @ map b64_char (bytes_sextets object) @ (if padding then pad_of (length object) else [])"
  unfolding imageEncoder_def by (rule imageEncoder_sextets_aux)

lemma index_of_base64_all:
  "list_all (\<lambda>i. index_of (base64_chars ! i) base64_chars = i \<and> base64_chars ! i \<noteq> CHR ''='') [0..<64]"
  by code_simp

lemma b64_char_index:
  assumes "i < 64"
  shows "word_of_nat (index_of (b64_char i) base64_chars) = i" and "b64_char i \<noteq> CHR ''=''"
proof -
  have "unat i \<in> set [0..<64]" using assms by (simp add: word_less_nat_alt)
  with index_of_base64_all
  have "index_of (base64_chars ! unat i) base64_chars = unat i"
    and "base64_chars ! unat i \<noteq> CHR ''=''"
    unfolding list_all_iff by blast+
  then show "word_of_nat (index_of (b64_char i) base64_chars) = i" "b64_char i \<noteq> CHR ''=''"
    by (simp_all add: b64_char_def)
qed

lemma b64_masks: "(a::8 word) AND 3 = take_bit 2 a" "a AND 0xF = take_bit 4 a" "a AND 0x3F = take_bit 6 a"
  by (simp_all add: take_bit_eq_mask mask_eq_exp_minus_1)
lemma b64_high: "drop_bit 2 ((a::8 word) AND 0xFC) = drop_bit 2 a"
 "drop_bit 4 ((a::8 word) AND 0xF0) = drop_bit 4 a"
 "drop_bit 6 ((a::8 word) AND 0xC0) = drop_bit 6 a"
proof -
  have "(0xFC::8 word) = NOT (mask 2)" "(0xF0::8 word) = NOT (mask 4)" "(0xC0::8 word) = NOT (mask 6)"
    by (simp_all add: mask_eq_exp_minus_1)
  moreover have "drop_bit n (a AND NOT (mask n)) = drop_bit n a" for n
    by (rule bit_word_eqI) (auto simp: bit_simps dest: bit_imp_le_length)
  ultimately show "drop_bit 2 ((a::8 word) AND 0xFC) = drop_bit 2 a"
 "drop_bit 4 ((a::8 word) AND 0xF0) = drop_bit 4 a"
 "drop_bit 6 ((a::8 word) AND 0xC0) = drop_bit 6 a"
    by (simp_all only:)
qed
lemma b64_index: "2 \<le> n \<Longrightarrow> Suc (Suc (n - 2)) = n" "\<not> n < 4 \<Longrightarrow> Suc (Suc (n - 2)) = n" "\<not> n < 2 \<Longrightarrow> Suc (Suc (n - 2)) = n"
"\<not> n < 4 \<Longrightarrow> 4 + (n - 4) = n"
  by simp_all
lemma b64_byte1: "push_bit 2 (drop_bit 2 a) OR drop_bit 4 (drop_bit 4 b OR push_bit 4 (take_bit 2 a)) = (a::8 word)"
  by (rule bit_word_eqI, rename_tac n, case_tac "n < 2"; case_tac "n < 4") (auto simp: bit_simps b64_index)
lemma b64_byte2: "push_bit 4 (drop_bit 4 b OR push_bit 4 (take_bit 2 a)) OR drop_bit 2 (drop_bit 6 c OR push_bit 2 (take_bit 4 b)) = (b::8 word)"
  by (rule bit_word_eqI, rename_tac n, case_tac "n < 2"; case_tac "n < 4") (auto simp: bit_simps b64_index)
lemma b64_byte3: "push_bit 6 (drop_bit 6 c OR push_bit 2 (take_bit 4 b)) OR take_bit 6 c = (c::8 word)"
  by (rule bit_word_eqI) (auto simp: bit_simps)
lemma b64_last1: "push_bit 2 (drop_bit 2 a) OR drop_bit 4 (push_bit 4 (take_bit 2 a)) = (a::8 word)"
  using b64_byte1[of a 0] by simp

lemma b64_last2:
  "push_bit 4 (drop_bit 4 b OR push_bit 4 (take_bit 2 a)) OR drop_bit 2 (push_bit 2 (take_bit 4 b)) = (b::8 word)"
  using b64_byte2[of b a 0] by simp

lemma b64_range: "take_bit 6 (x::8 word) = x \<Longrightarrow> x < 64"
proof -
  assume a: "take_bit 6 x = x"
  have "unat (take_bit 6 x) < 64" using take_bit_nat_less_exp[of 6 "unat x"]
    by (simp add: unsigned_take_bit_eq)
  with a show ?thesis by (simp add: word_less_nat_alt)
qed
lemma b64_sextets: "take_bit 6 (drop_bit 2 (a::8 word)) = drop_bit 2 a"
  "take_bit 6 (drop_bit 4 b OR push_bit 4 (take_bit 2 a)) = drop_bit 4 (b::8 word) OR push_bit 4 (take_bit 2 a)"
  "take_bit 6 (drop_bit 6 c OR push_bit 2 (take_bit 4 b)) = drop_bit 6 (c::8 word) OR push_bit 2 (take_bit 4 b)"
  "take_bit 6 (push_bit 2 (take_bit 4 b)) = push_bit 2 (take_bit 4 (b::8 word))"
  "take_bit 6 (push_bit 4 (take_bit 2 b)) = push_bit 4 (take_bit 2 (b::8 word))"
  by (rule bit_word_eqI; auto simp: bit_simps dest: bit_imp_le_length)+

lemmas b64_simps =
  b64_masks b64_high b64_byte1 b64_byte2 b64_byte3 b64_last1 b64_last2

lemma sextets_bytes_inverse: "sextets_bytes (bytes_sextets bs) = bs"
  by (induction bs rule: bytes_sextets.induct) 
     (simp_all only: sextets_bytes.simps bytes_sextets.simps b64_simps)

lemma b64_take6: "take_bit 6 (x :: 8 word) < 64"
  by (rule b64_range) simp

lemma bytes_sextets_range: "x \<in> set (bytes_sextets bs) \<Longrightarrow> x < 64"
proof -
  have "list_all (\<lambda>x. x < 64) (bytes_sextets bs)"
    by (induction bs rule: bytes_sextets.induct)
       (simp_all only: bytes_sextets.simps list.pred_inject simp_thms b64_masks b64_high b64_take6
          b64_sextets[THEN b64_range])
  then show "x \<in> set (bytes_sextets bs) \<Longrightarrow> x < 64" by (simp add: list_all_iff)
qed

lemma b64_chars_decode:
  "(\<And>x. x \<in> set xs \<Longrightarrow> x < 64) \<Longrightarrow>
   map (\<lambda>c. word_of_nat (index_of c base64_chars))
     (filter (\<lambda>c. c \<noteq> CHR ''='') (map b64_char xs)) = xs"
  by (induction xs) (auto simp: b64_char_index)

text \<open>
  what \<^verbatim>\<open>imageEncoder\<close> appends for an image decodes to exactly the bytes of the image,
  for every length and with or without padding.
\<close>

theorem imageEncoder_roundtrip:
  "\<exists>enc. imageEncoder object padding result = result @ enc \<and> base64_decode enc = object"
proof (intro exI conjI)
  show "imageEncoder object padding result = result @
      map b64_char (bytes_sextets object) @ (if padding then pad_of (length object) else [])"
    by (rule imageEncoder_sextets)
  have "filter (\<lambda>c. c \<noteq> CHR ''='') (if padding then pad_of (length object) else []) = []"
    by (simp add: pad_of_def)
  then show "base64_decode (map b64_char (bytes_sextets object) @
      (if padding then pad_of (length object) else [])) = object"
    using b64_chars_decode[of "bytes_sextets object"] bytes_sextets_range
    by (simp add: base64_decode_def sextets_bytes_inverse)
qed

section \<open>White space inside a string\<close>

text \<open>The inner and the outer loop of \<^verbatim>\<open>removeExtraWhitespaces\<close>.\<close>

function skip_blanks :: "string \<Rightarrow> nat \<Rightarrow> nat" where
  "skip_blanks s idx = (if cnth s (idx + 1) = CHR '' '' then skip_blanks s (idx + 1) else idx)"
  by pat_completeness auto
termination
  by (relation "measure (\<lambda>(s, i). length s - i)") (auto simp: cnth_def nul_def split: if_splits)

declare skip_blanks.simps [simp del]

lemma skip_blanks_ge: "idx \<le> skip_blanks s idx"
  by (induction s idx rule: skip_blanks.induct) (subst skip_blanks.simps, force)

function squeeze_loop :: "string \<Rightarrow> nat \<Rightarrow> string \<Rightarrow> string" where
  "squeeze_loop s idx out =
     (if cnth s idx = nul then out
      else squeeze_loop s
             ((if cnth s idx = CHR '' '' then skip_blanks s idx else idx) + 1)
             (out @ [cnth s idx]))"
  by pat_completeness auto
termination
proof (relation "measure (\<lambda>(s, i, out). length s - i)")
  fix s :: string and idx and out :: string
  assume "cnth s idx \<noteq> nul"
  then have "idx < length s" by (auto simp: cnth_def split: if_splits)
  then show "((s, (if cnth s idx = CHR '' '' then skip_blanks s idx else idx) + 1, out @ [cnth s idx]),
              s, idx, out) \<in> measure (\<lambda>(s, i, out). length s - i)"
    using skip_blanks_ge[of idx s] by auto
qed simp

declare squeeze_loop.simps [simp del]

definition removeExtraWhitespaces :: "string \<Rightarrow> string \<Rightarrow> bool \<times> string" where
  "removeExtraWhitespaces in_str out_str =
     (if in_str \<noteq> [] then (True, squeeze_loop in_str 0 out_str) else (False, out_str))"

text \<open>The specification: every run of blanks becomes one blank, up to the first NUL.\<close>

function squeeze :: "string \<Rightarrow> string" where
  "squeeze [] = []"
| "squeeze (c # s) =
     c # squeeze (if c = CHR '' '' then dropWhile (\<lambda>d. d = CHR '' '') s else s)"
  by pat_completeness auto
termination
  by (relation "measure length") (auto simp: length_dropWhile_le less_Suc_eq_le)


lemma drop_cnth:
  "cnth s i \<noteq> nul \<Longrightarrow> i < length s"
  "i < length s \<Longrightarrow> drop i s = cnth s i # drop (i + 1) s"
  by (auto simp: cnth_def Cons_nth_drop_Suc split: if_splits)

lemma skip_blanks_drop:
  "drop (skip_blanks s i + 1) s = dropWhile (\<lambda>d. d = CHR '' '') (drop (i + 1) s)"
proof (induction s i rule: skip_blanks.induct)
  case (1 s i)
  show ?case
  proof (cases "cnth s (i + 1) = CHR '' ''")
    case True
    then have "i + 1 < length s" by (auto simp: cnth_def nul_def split: if_splits)
    with True 1 drop_cnth(2)[of "i + 1" s] show ?thesis
      by (subst skip_blanks.simps) simp
  next
    case False
    then show ?thesis
      using drop_cnth(2)[of "i + 1" s]
      by (subst skip_blanks.simps) (cases "i + 1 < length s", auto)
  qed
qed

lemma takeWhile_dropWhile_blank:
  "takeWhile (\<lambda>c. c \<noteq> nul) (dropWhile (\<lambda>d. d = CHR '' '') s) =
   dropWhile (\<lambda>d. d = CHR '' '') (takeWhile (\<lambda>c. c \<noteq> nul) s)"
  by (induction s) (auto simp: nul_def)

lemma squeeze_loop_eq:
  "squeeze_loop s i out = out @ squeeze (takeWhile (\<lambda>c. c \<noteq> nul) (drop i s))"
proof (induction s i out rule: squeeze_loop.induct)
  case (1 s i out)
  show ?case
  proof (cases "cnth s i = nul")
    case True
    then have "takeWhile (\<lambda>c. c \<noteq> nul) (drop i s) = []"
      by (cases "i < length s") (auto simp: drop_cnth(2))
    with True show ?thesis by (simp add: squeeze_loop.simps[of s i])
  next
    case False
    with drop_cnth(2)[of i s] drop_cnth(1)[of s i] have d: "drop i s = cnth s i # drop (i + 1) s" by simp
    with False 1[OF False] show ?thesis
      using skip_blanks_drop[of s i]
      by (simp add: squeeze_loop.simps[of s i] d takeWhile_dropWhile_blank)
  qed
qed

lemma squeeze_hd: "squeeze s \<noteq> [] \<Longrightarrow> hd (squeeze s) = hd s"
  by (cases s) simp_all

lemma squeeze_eq_Nil [simp]: "squeeze s = [] \<longleftrightarrow> s = []"
  by (cases s) simp_all

lemma squeeze_no_double:
  "successively (\<lambda>a b. \<not> (a = CHR '' '' \<and> b = CHR '' '')) (squeeze s)"
proof (induction s rule: squeeze.induct)
  case (2 c s)
  let ?r = "if c = CHR '' '' then dropWhile (\<lambda>d. d = CHR '' '') s else s"
  have "c \<noteq> CHR '' '' \<or> hd (squeeze ?r) \<noteq> CHR '' ''" if "squeeze ?r \<noteq> []"
  proof (cases "c = CHR '' ''")
    case True
    with that have "dropWhile (\<lambda>d. d = CHR '' '') s \<noteq> []" by simp
    from hd_dropWhile[OF this] True show ?thesis using squeeze_hd[OF that] by simp
  qed simp
  with 2 show ?case unfolding squeeze.simps successively_Cons by blast
qed simp

text \<open>
  \<^verbatim>\<open>removeExtraWhitespaces\<close> reports failure exactly on the empty string; otherwise it
  appends the input up to its first NUL with every run of blanks made one blank, and what it
  appends has no two adjacent blanks.
\<close>

theorem removeExtraWhitespaces_spec:
  "removeExtraWhitespaces s out =
     (s \<noteq> [], out @ squeeze (takeWhile (\<lambda>c. c \<noteq> nul) s)) \<and>
   successively (\<lambda>a b. \<not> (a = CHR '' '' \<and> b = CHR '' ''))
     (squeeze (takeWhile (\<lambda>c. c \<noteq> nul) s))"
  by (intro conjI squeeze_no_double) (simp add: removeExtraWhitespaces_def squeeze_loop_eq)

section \<open>Integers in strings\<close>

text \<open>The do-while loop of \<^verbatim>\<open>isValidInt\<close> and \<^verbatim>\<open>isValidUnsignedInt\<close> from index \<open>i\<close>.\<close>

function valid_digits :: "string \<Rightarrow> nat \<Rightarrow> bool" where
  "valid_digits x i =
     (if isdigit (cnth x i) then
        (if cnth x (i + 1) \<noteq> nul then valid_digits x (i + 1) else True)
      else False)"
  by pat_completeness auto
termination
  by (relation "measure (\<lambda>(x, i). length x - i)") (auto simp: cnth_def split: if_splits)

declare valid_digits.simps [simp del]

definition isValidInt :: "string \<Rightarrow> bool" where
  "isValidInt x = valid_digits x (if cnth x 0 = CHR ''-'' then 1 else 0)"

definition isValidUnsignedInt :: "string \<Rightarrow> bool" where
  "isValidUnsignedInt x = valid_digits x 0"

lemma isdigit_nul [simp]: "\<not> isdigit nul"
  by (simp add: isdigit_def nul_def)

lemma valid_digits_eq:
  "nul \<notin> set x \<Longrightarrow> valid_digits x i = (drop i x \<noteq> [] \<and> list_all isdigit (drop i x))"
proof (induction x i rule: valid_digits.induct)
  case (1 x i)
  have nn: "cnth x j \<noteq> nul \<longleftrightarrow> j < length x" for j
    using 1(2) by (metis cnth_def nth_mem)
  show ?case
  proof (cases "i < length x")
    case True
    then have "drop i x = cnth x i # drop (i + 1) x" by (rule drop_cnth(2))
    then show ?thesis
      using 1 nn[of "i + 1"] by (subst valid_digits.simps) auto
  next
    case False
    then show ?thesis by (subst valid_digits.simps) (simp add: cnth_def)
  qed
qed

text \<open>
  on a C string (no NUL inside) \<^verbatim>\<open>isValidInt\<close> accepts exactly an optional minus sign
  followed by one or more decimal digits, and \<^verbatim>\<open>isValidUnsignedInt\<close> exactly one or more digits.
\<close>

theorem isValidInt_spec:
  assumes "nul \<notin> set x"
  shows "(isValidInt x \<longleftrightarrow>
      (let ds = (if starts_with ''-'' x then tl x else x) in ds \<noteq> [] \<and> list_all isdigit ds)) \<and>
    (isValidUnsignedInt x \<longleftrightarrow> x \<noteq> [] \<and> list_all isdigit x)"
proof -
  have "starts_with ''-'' x \<longleftrightarrow> cnth x 0 = CHR ''-''"
    by (cases x) (auto simp: cnth_def nul_def)
  then show ?thesis
    using valid_digits_eq[OF assms]
    by (cases x) (auto simp: isValidInt_def isValidUnsignedInt_def Let_def)
qed

lemma isValidInt_spec_witness: "isValidInt ''-42'' \<and> isValidUnsignedInt ''7''"
  using isValidInt_spec[of "''-42''"] isValidInt_spec[of "''7''"]
  by (simp add: nul_def isdigit_def)

section \<open>Query parameters\<close>

text \<open>
  \<^verbatim>\<open>ResolveQuery\<close>.  \<open>None\<close> is the exception \<^verbatim>\<open>std::out_of_range\<close> that \<^verbatim>\<open>substr\<close> throws when
  its position is beyond the end of the string.
\<close>

definition ResolveQuery :: "string \<Rightarrow> string \<Rightarrow> string option" where
  "ResolveQuery query key =
     (if query = [] then Some []
      else case str_find key query of
        None \<Rightarrow> Some []
      | Some pos \<Rightarrow>
          if pos + length key + 1 > length query then None
          else
            let value = drop (pos + length key + 1) query in
            if value = [] then Some [] else Some value)"

text \<open>
  \<^verbatim>\<open>ResolveQuery\<close> returns what follows the separator after the first occurrence of the
  key; it throws exactly when that first occurrence is the end of the query, as in
  \<^verbatim>\<open>"token"\<close>, where the code means to report a missing value.
\<close>

theorem ResolveQuery_spec:
  "(ResolveQuery query key = None \<longleftrightarrow>
      query \<noteq> [] \<and> (\<exists>pos. str_find key query = Some pos \<and> query = take pos query @ key)) \<and>
   (query = pre @ key @ sep # value \<and> str_find key query = Some (length pre) \<longrightarrow>
      ResolveQuery query key = Some value)"
proof -
  have "query = take pos query @ key \<longleftrightarrow> length query < pos + length key + 1"
    if found: "str_find key query = Some pos" for pos
  proof -
    from str_find_Some[OF found] obtain r where r: "drop pos query = key @ r" "pos \<le> length query"
      by (auto simp: starts_with_iff)
    then have q: "query = take pos query @ key @ r" by (metis append_take_drop_id)
    have "length (drop pos query) = length key + length r" using r by simp
    with r(2) have "length query = pos + length key + length r"
      by (simp only: length_drop)
    moreover have "query = take pos query @ key \<longleftrightarrow> r = []"
      using q by (metis append_Nil2 same_append_eq)
    ultimately show ?thesis by simp
  qed
  then have "ResolveQuery query key = None \<longleftrightarrow>
      query \<noteq> [] \<and> (\<exists>pos. str_find key query = Some pos \<and> query = take pos query @ key)"
    by (cases "str_find key query") (simp_all add: ResolveQuery_def Let_def not_le)
  moreover have "ResolveQuery (pre @ key @ sep # value) key = Some value"
    if "str_find key (pre @ key @ sep # value) = Some (length pre)"
    using that by (simp add: ResolveQuery_def Let_def)
  ultimately show ?thesis by blast
qed

lemma ResolveQuery_spec_witness:
  "ResolveQuery ''token=x'' ''token'' = Some ''x'' \<and> ResolveQuery ''token'' ''token'' = None"
  using ResolveQuery_spec[of "''token=x''" "''token''" "[]" "CHR ''=''" "''x''"]
    ResolveQuery_spec[of "''token''" "''token''"] by simp

section \<open>Decimal numbers\<close>

definition cstr :: "string \<Rightarrow> string" where
  "cstr s = takeWhile (\<lambda>c. c \<noteq> nul) s"

definition skip_space :: "string \<Rightarrow> string" where
  "skip_space s = dropWhile isspace s"

fun digits_value :: "nat \<Rightarrow> string \<Rightarrow> nat" where
  "digits_value v [] = v"
| "digits_value v (c # s) = digits_value (v * 10 + digit_val c) s"

text \<open>\<^verbatim>\<open>%d\<close> of \<^verbatim>\<open>sscanf\<close>: white space, an optional sign, digits.\<close>

definition scan_int :: "string \<Rightarrow> (int \<times> string) option" where
  "scan_int s =
     (let s = skip_space s;
          neg = starts_with ''-'' s;
          s = (if starts_with ''-'' s \<or> starts_with ''+'' s then tl s else s);
          ds = takeWhile isdigit s
      in if ds = [] then None
         else Some ((if neg then - int (digits_value 0 ds) else int (digits_value 0 ds)),
                    dropWhile isdigit s))"

text \<open>\<^verbatim>\<open>std::stoi\<close>: \<open>None\<close> when it throws (no number, or none that fits \<^verbatim>\<open>int\<close>).\<close>

definition stoi :: "string \<Rightarrow> int option" where
  "stoi s = (case scan_int s of
       None \<Rightarrow> None
     | Some (i, _) \<Rightarrow> if - (2 ^ 31) \<le> i \<and> i < 2 ^ 31 then Some i else None)"

text \<open>\<open>show_nat\<close> and \<open>show_int\<close> print a number in decimal, as \<^verbatim>\<open>std::to_string\<close> and \<^verbatim>\<open>printf\<close> do.\<close>

definition digit :: "nat \<Rightarrow> char" where
  "digit n = char_of (48 + n mod 10)"

lemma of_char_digit: "of_char (digit n) = 48 + n mod 10"
  by (simp add: digit_def)

lemma digit_neq: "(of_char c :: nat) < 48 \<or> 57 < (of_char c :: nat) \<Longrightarrow> digit n \<noteq> c"
proof
  assume "(of_char c :: nat) < 48 \<or> 57 < (of_char c :: nat)" and "digit n = c"
  then show False using of_char_digit[of n] mod_less_divisor[of 10 n] by auto
qed

lemma digit_facts [simp]:
  "isdigit (digit n)" "digit_val (digit n) = n mod 10" "\<not> isspace (digit n)"
  using of_char_digit[of n] digit_neq[of "CHR '' ''" n]
  by (simp_all add: isdigit_def digit_val_def isspace_def)

fun show_nat :: "nat \<Rightarrow> string" where
  "show_nat n = (if n < 10 then [digit n] else show_nat (n div 10) @ [digit n])"

declare show_nat.simps [simp del]

definition show_int :: "int \<Rightarrow> string" where
  "show_int i = (if i < 0 then CHR ''-'' # show_nat (nat (- i)) else show_nat (nat i))"

lemma digits_value_append: "digits_value v (ds @ [c]) = digits_value v ds * 10 + digit_val c"
  by (induction ds arbitrary: v) auto

lemma digits_value_show: "digits_value 0 (show_nat n) = n"
  by (induction n rule: show_nat.induct) (subst show_nat.simps, simp add: digits_value_append)

lemma show_nat_digits: "list_all isdigit (show_nat n)" "show_nat n \<noteq> []"
  by (induction n rule: show_nat.induct; subst show_nat.simps; simp)+

lemma digit_not: "isdigit c \<Longrightarrow> \<not> isspace c \<and> c \<noteq> CHR ''-'' \<and> c \<noteq> CHR ''+'' \<and> c \<noteq> nul"
  by (auto simp: isdigit_def isspace_def nul_def)

lemma takeWhile_all_append:
  "list_all P s \<Longrightarrow> r = [] \<or> \<not> P (hd r) \<Longrightarrow> takeWhile P (s @ r) = s \<and> dropWhile P (s @ r) = r"
  by (induction s) (auto, (cases r; simp)+)

lemma scan_int_show:
  assumes "r = [] \<or> \<not> isdigit (hd r)"
  shows "scan_int (show_int i @ r) = Some (i, r)"
proof -
  have nat: "takeWhile isdigit (show_nat n @ r) = show_nat n \<and> dropWhile isdigit (show_nat n @ r) = r" for n
    using assms show_nat_digits(1)[of n] by (rule takeWhile_all_append[rotated])
  have hd: "\<exists>c s. show_nat n @ r = c # s \<and> isdigit c" for n
    using show_nat_digits[of n] by (cases "show_nat n") auto
  show ?thesis
  proof (cases "i < 0")
    case True
    have "skip_space (CHR ''-'' # s) = CHR ''-'' # s" for s by (simp add: skip_space_def isspace_def)
    with True nat[of "nat (- i)"] show ?thesis
      by (simp add: scan_int_def show_int_def Let_def show_nat_digits digits_value_show)
  next
    case False
    obtain c s where c: "show_nat (nat i) @ r = c # s" "isdigit c" using hd by blast
    then have "skip_space (show_nat (nat i) @ r) = show_nat (nat i) @ r"
      using digit_not[of c] by (simp add: skip_space_def)
    moreover have "\<not> starts_with ''-'' (show_nat (nat i) @ r)" "\<not> starts_with ''+'' (show_nat (nat i) @ r)"
      using c digit_not[of c] by auto
    ultimately show ?thesis
      using False nat[of "nat i"]
      by (simp add: scan_int_def show_int_def Let_def show_nat_digits digits_value_show)
  qed
qed

lemma cstr_id: "nul \<notin> set s \<Longrightarrow> cstr s = s"
  by (auto simp: cstr_def takeWhile_eq_all_conv)

end
