(* ===== verification/Json.thy ===== *)
theory Json
  imports Prelude
begin

text \<open>
  JSON values as the code handles them.  The parser, the printer and the conversions of a
  value (\<^verbatim>\<open>String()\<close>, \<^verbatim>\<open>Number()\<close>, \<^verbatim>\<open>Boolean()\<close>, ...) belong to the framework
  (\<^verbatim>\<open>Core::JSON::Variant\<close>, \<^verbatim>\<open>JsonObject\<close>), which is not part of the repository: they are the
  fields of \<open>json_lib\<close>, a parameter of every definition that converts.  An object is an
  association list; assigning to a label replaces its value or appends the label.
\<close>

datatype json =
    JNull
  | JBool bool
  | JNumber int
  | JString string
  | JArray "json list"
  | JObject "(string \<times> json) list"

type_synonym jobject = "(string \<times> json) list"

record json_lib =
  js_String :: "json \<Rightarrow> string"
  js_Number :: "json \<Rightarrow> int"
  js_Boolean :: "json \<Rightarrow> bool"
  js_Array :: "json \<Rightarrow> json list"
  js_Object :: "json \<Rightarrow> jobject"
  js_ToString :: "jobject \<Rightarrow> string"
  js_FromString :: "string \<Rightarrow> jobject"
  js_ArrayFromString :: "string \<Rightarrow> json list"

definition HasLabel :: "jobject \<Rightarrow> string \<Rightarrow> bool" where
  "HasLabel ob k = (map_of ob k \<noteq> None)"

definition jget :: "jobject \<Rightarrow> string \<Rightarrow> json" where
  "jget ob k = (case map_of ob k of None \<Rightarrow> JNull | Some v \<Rightarrow> v)"

abbreviation jset :: "string \<Rightarrow> json \<Rightarrow> jobject \<Rightarrow> jobject" where
  "jset k v ob \<equiv> AList.update k v ob"

lemma HasLabel_Nil [simp]: "HasLabel [] k = False"
  by (simp add: HasLabel_def)

lemma HasLabel_Cons [simp]: "HasLabel ((l, v) # ob) k = (k = l \<or> HasLabel ob k)"
  by (simp add: HasLabel_def)

lemma jget_Nil [simp]: "jget [] k = JNull"
  by (simp add: jget_def)

lemma jget_Cons [simp]: "jget ((l, v) # ob) k = (if k = l then v else jget ob k)"
  by (simp add: jget_def)

lemma HasLabel_update [simp]: "HasLabel (jset l v ob) k = (k = l \<or> HasLabel ob k)"
  by (simp add: HasLabel_def update_conv')

lemma jget_update [simp]: "jget (jset l v ob) k = (if k = l then v else jget ob k)"
  by (simp add: jget_def update_conv')

text \<open>
  Conversions at the obvious values, used where a theorem is applied to concrete input:
  a value of another kind converts to the empty value.
\<close>

fun plain_String :: "json \<Rightarrow> string" where
  "plain_String (JString s) = s" | "plain_String _ = []"

fun plain_Number :: "json \<Rightarrow> int" where
  "plain_Number (JNumber n) = n" | "plain_Number _ = 0"

fun plain_Boolean :: "json \<Rightarrow> bool" where
  "plain_Boolean (JBool b) = b" | "plain_Boolean _ = False"

fun plain_Array :: "json \<Rightarrow> json list" where
  "plain_Array (JArray a) = a" | "plain_Array _ = []"

fun plain_Object :: "json \<Rightarrow> jobject" where
  "plain_Object (JObject ob) = ob" | "plain_Object _ = []"

definition plain_json :: json_lib where
  "plain_json = \<lparr> js_String = plain_String, js_Number = plain_Number, js_Boolean = plain_Boolean,
     js_Array = plain_Array, js_Object = plain_Object,
     js_ToString = (\<lambda>ob. concat (map (\<lambda>(k, v). k @ ''='' @ plain_String v @ '';'') ob)),
     js_FromString = (\<lambda>s. []), js_ArrayFromString = (\<lambda>s. []) \<rparr>"

lemma plain_json_simps [simp]:
  "js_String plain_json = plain_String" "js_Number plain_json = plain_Number"
  "js_Boolean plain_json = plain_Boolean" "js_Array plain_json = plain_Array"
  "js_Object plain_json = plain_Object"
  by (simp_all add: plain_json_def)

text \<open>
  What the code relies on where it prints an object of strings into a payload and parses it
  back: nothing is lost.  \<open>text_json\<close> is a library for which this holds.
\<close>

definition string_object :: "jobject \<Rightarrow> bool" where
  "string_object ob = list_all (\<lambda>(k, v). case v of JString s \<Rightarrow> True | _ \<Rightarrow> False) ob"

definition json_faithful :: "json_lib \<Rightarrow> bool" where
  "json_faithful lib =
     ((\<forall>ob. string_object ob \<longrightarrow> js_FromString lib (js_ToString lib ob) = ob) \<and>
      (\<forall>s. js_String lib (JString s) = s))"

definition text_quote :: "string \<Rightarrow> string" where
  "text_quote s = replicate (length s) CHR ''.'' @ CHR ''|'' # s"

definition text_unquote :: "string \<Rightarrow> string \<times> string" where
  "text_unquote s =
     (let n = length (takeWhile (\<lambda>c. c = CHR ''.'') s) in
      (take n (drop (n + 1) s), drop n (drop (n + 1) s)))"

fun text_parse :: "nat \<Rightarrow> string \<Rightarrow> jobject" where
  "text_parse 0 s = []"
| "text_parse (Suc n) s =
     (if s = [] then []
      else let (k, s) = text_unquote s; (v, s) = text_unquote s in
           (k, JString v) # text_parse n s)"

definition text_print :: "jobject \<Rightarrow> string" where
  "text_print ob = concat (map (\<lambda>(k, v). text_quote k @ text_quote (plain_String v)) ob)"

definition text_json :: json_lib where
  "text_json = plain_json\<lparr> js_ToString := text_print,
     js_FromString := (\<lambda>s. text_parse (length s) s) \<rparr>"

lemma text_unquote_quote [simp]: "text_unquote (text_quote s @ r) = (s, r)"
proof -
  have "takeWhile (\<lambda>c. c = CHR ''.'') (text_quote s @ r) = replicate (length s) CHR ''.''"
    by (simp add: text_quote_def takeWhile_append)
  then show ?thesis by (simp add: text_unquote_def text_quote_def)
qed

lemma text_parse_print:
  "string_object ob \<Longrightarrow> length ob \<le> n \<Longrightarrow> text_parse n (text_print ob) = ob"
proof (induction ob arbitrary: n)
  case Nil
  show ?case by (cases n) (auto simp: text_print_def)
next
  case (Cons e ob)
  obtain k v where e: "e = (k, v)" by force
  from Cons(2) e obtain s where v: "v = JString s"
    by (auto simp: string_object_def split: json.splits)
  have ob: "string_object ob" using Cons(2) by (simp add: string_object_def)
  obtain m where n: "n = Suc m" using Cons(3) by (cases n) auto
  have "text_quote k \<noteq> []" by (simp add: text_quote_def)
  then show ?case
    using Cons(1)[OF ob, of m] Cons(3) e v n by (simp add: text_print_def)
qed

lemma text_print_length: "length ob \<le> length (text_print ob)"
  by (induction ob) (auto simp: text_print_def text_quote_def)

lemma text_json_faithful: "json_faithful text_json"
  by (auto simp: json_faithful_def text_json_def text_parse_print text_print_length)

end
