(* ===== verification/Analytics_SystemTime.thy ===== *)
theory Analytics_SystemTime
  imports Json Utils_Strings
begin

text \<open>
  \<^verbatim>\<open>Analytics/Implementation/SystemTime\<close>: the component that tells the Analytics plugin
  whether the wall clock can be trusted and what the offset of the time zone is.

  The record \<open>system_time\<close> is the object's state: the event queue, the time quality, the time
  zone with its accuracy, the table of transitions and the availability flag.  The event
  thread is \<open>EventLoop\<close>, one iteration at a time; the notifications of the System plugin are
  \<open>onTimeStatusChanged\<close> and \<open>onTimeZoneDSTChanged\<close>.  The transition table is read from the text
  that \<^verbatim>\<open>zdump -v\<close> prints, line by line, with the string surgery of the source; the model of
  the C library functions it calls (\<^verbatim>\<open>strptime\<close>, \<^verbatim>\<open>sscanf\<close>, \<^verbatim>\<open>timegm\<close>) is given for the formats
  used.  Undefined behaviour (the overflow of \<^verbatim>\<open>char timeZone[5]\<close>) is \<open>None\<close>.
  The replies of the System plugin, the output of \<^verbatim>\<open>zdump\<close> and the current time are parameters.
  Time values and offsets are integers (the values that occur fit their types).
\<close>

section \<open>C library: dates\<close>

text \<open>A number field of \<^verbatim>\<open>strptime\<close>: at most \<open>n\<close> digits, a value between \<open>lo\<close> and \<open>hi\<close>.\<close>

fun number_digits :: "nat \<Rightarrow> nat \<Rightarrow> nat \<Rightarrow> string \<Rightarrow> nat \<times> string" where
  "number_digits hi v 0 s = (v, s)"
| "number_digits hi v (Suc n) [] = (v, [])"
| "number_digits hi v (Suc n) (c # s) =
     (if isdigit c \<and> v * 10 \<le> hi then number_digits hi (v * 10 + digit_val c) n s else (v, c # s))"

definition get_number :: "nat \<Rightarrow> nat \<Rightarrow> nat \<Rightarrow> string \<Rightarrow> (nat \<times> string) option" where
  "get_number lo hi n s =
     (case skip_space s of
        [] \<Rightarrow> None
      | c # r \<Rightarrow>
          if \<not> isdigit c then None
          else let (v, rest) = number_digits hi (digit_val c) (n - 1) r in
               if lo \<le> v \<and> v \<le> hi then Some (v, rest) else None)"

definition weekday_names :: "(string \<times> string) list" where
  "weekday_names = [(''sunday'', ''sun''), (''monday'', ''mon''), (''tuesday'', ''tue''),
     (''wednesday'', ''wed''), (''thursday'', ''thu''), (''friday'', ''fri''), (''saturday'', ''sat'')]"

definition month_names :: "(string \<times> string) list" where
  "month_names = [(''january'', ''jan''), (''february'', ''feb''), (''march'', ''mar''),
     (''april'', ''apr''), (''may'', ''may''), (''june'', ''jun''), (''july'', ''jul''),
     (''august'', ''aug''), (''september'', ''sep''), (''october'', ''oct''),
     (''november'', ''nov''), (''december'', ''dec'')]"

text \<open>A name, full or abbreviated, in either case: its index and the rest of the input.\<close>

fun match_name :: "(string \<times> string) list \<Rightarrow> nat \<Rightarrow> string \<Rightarrow> (nat \<times> string) option" where
  "match_name [] i s = None"
| "match_name ((full, abbr) # names) i s =
     (if starts_with full (map tolower s) then Some (i, drop (length full) s)
      else if starts_with abbr (map tolower s) then Some (i, drop (length abbr) s)
      else match_name names (Suc i) s)"

definition match_char :: "char \<Rightarrow> string \<Rightarrow> string option" where
  "match_char c s = (case s of [] \<Rightarrow> None | d # r \<Rightarrow> if c = d then Some r else None)"

record tm =
  tm_sec :: nat
  tm_min :: nat
  tm_hour :: nat
  tm_mday :: nat
  tm_mon :: nat
  tm_year :: int

definition tm_zero :: tm where
  "tm_zero = \<lparr> tm_sec = 0, tm_min = 0, tm_hour = 0, tm_mday = 0, tm_mon = 0, tm_year = 0 \<rparr>"

text \<open>
  \<^verbatim>\<open>strptime(s, "%A %B %d %H:%M:%S %Y", &tm)\<close> on a zeroed \<^verbatim>\<open>tm\<close>; on a mismatch the fields read
  so far are kept.
\<close>

definition strptime :: "string \<Rightarrow> tm" where
  "strptime s =
    (case match_name weekday_names 0 s of None \<Rightarrow> tm_zero | Some (_, s) \<Rightarrow>
     (case match_name month_names 0 (skip_space s) of None \<Rightarrow> tm_zero | Some (mon, s) \<Rightarrow>
      let t = tm_zero\<lparr>tm_mon := mon\<rparr> in
      (case get_number 1 31 2 (skip_space s) of None \<Rightarrow> t | Some (d, s) \<Rightarrow>
       let t = t\<lparr>tm_mday := d\<rparr> in
       (case get_number 0 23 2 (skip_space s) of None \<Rightarrow> t | Some (h, s) \<Rightarrow>
        let t = t\<lparr>tm_hour := h\<rparr> in
        (case match_char CHR '':'' s of None \<Rightarrow> t | Some s \<Rightarrow>
         (case get_number 0 59 2 s of None \<Rightarrow> t | Some (m, s) \<Rightarrow>
          let t = t\<lparr>tm_min := m\<rparr> in
          (case match_char CHR '':'' s of None \<Rightarrow> t | Some s \<Rightarrow>
           (case get_number 0 61 2 s of None \<Rightarrow> t | Some (sec, s) \<Rightarrow>
            let t = t\<lparr>tm_sec := sec\<rparr> in
            (case get_number 0 9999 4 (skip_space s) of None \<Rightarrow> t | Some (y, s) \<Rightarrow>
             t\<lparr>tm_year := int y - 1900\<rparr>)))))))))"

definition is_leap :: "int \<Rightarrow> bool" where
  "is_leap y = (y mod 4 = 0 \<and> (y mod 100 \<noteq> 0 \<or> y mod 400 = 0))"

definition month_start :: "int list" where
  "month_start = [0, 31, 59, 90, 120, 151, 181, 212, 243, 273, 304, 334]"

text \<open>Seconds since the epoch, by the formula of POSIX.\<close>

definition timegm :: "tm \<Rightarrow> int" where
  "timegm t =
     (let y = tm_year t;
          yday = month_start ! tm_mon t + int (tm_mday t) - 1
                 + (if is_leap (y + 1900) \<and> 2 \<le> tm_mon t then 1 else 0)
      in int (tm_sec t) + int (tm_min t) * 60 + int (tm_hour t) * 3600 + yday * 86400
         + (y - 70) * 31536000 + ((y - 69) div 4) * 86400 - ((y - 1) div 100) * 86400
         + ((y + 299) div 400) * 86400)"

section \<open>Reading the output of zdump\<close>

text \<open>\<open>pos_plus p k\<close> is \<^verbatim>\<open>p + k\<close> for a position \<open>p\<close> (\<open>k > 0\<close>): \<^verbatim>\<open>npos + k\<close> wraps to \<^verbatim>\<open>k - 1\<close>.\<close>

definition pos_plus :: "nat option \<Rightarrow> nat \<Rightarrow> nat" where
  "pos_plus p k = (case p of None \<Rightarrow> k - 1 | Some n \<Rightarrow> n + k)"

text \<open>The loop that drops the local date, field by field; \<open>n\<close> is \<^verbatim>\<open>spaceCount\<close>.\<close>

fun drop_fields :: "nat \<Rightarrow> string \<Rightarrow> string" where
  "drop_fields 0 line = line"
| "drop_fields (Suc n) line =
     (let spOff = str_find '' '' line in
      drop_fields n
        (if Suc n = 4 then drop (pos_plus spOff 2) line else drop (pos_plus spOff 1) line))"

text \<open>
  \<^verbatim>\<open>sscanf(line, "%s isdst=%d gmtoff=%d", timeZone, &isDst, &gmtOff)\<close> and the resulting
  \<^verbatim>\<open>gmtOff\<close> (initially 0).  The word and its terminating NUL must fit \<^verbatim>\<open>char timeZone[5]\<close>;
  a longer one is undefined behaviour.
\<close>

definition timeZone_size :: nat where "timeZone_size = 5"

definition scan_zone :: "string \<Rightarrow> int option" where
  "scan_zone line =
     (let s = skip_space line;
          word = takeWhile (\<lambda>c. \<not> isspace c) s;
          s = skip_space (dropWhile (\<lambda>c. \<not> isspace c) s)
      in if word = [] then Some 0
         else if timeZone_size < length word + 1 then None
         else if \<not> starts_with ''isdst='' s then Some 0
         else case scan_int (drop 6 s) of
                None \<Rightarrow> Some 0
              | Some (_, s) \<Rightarrow>
                  let s = skip_space s in
                  if \<not> starts_with ''gmtoff='' s then Some 0
                  else case scan_int (drop 7 s) of None \<Rightarrow> Some 0 | Some (off, _) \<Rightarrow> Some off)"

text \<open>One line of the output: the UTC date and the offset.\<close>

definition read_line :: "string \<Rightarrow> (tm \<times> int) option" where
  "read_line line =
     (let line = drop (pos_plus (str_find '' '' line) 2) line;
          utOff = str_find '' UT = '' line;
          date = (case utOff of None \<Rightarrow> line | Some n \<Rightarrow> take n line);
          line = drop (pos_plus utOff 6) line;
          line = drop_fields 5 line
      in case scan_zone (cstr line) of
           None \<Rightarrow> None
         | Some gmtOff \<Rightarrow> Some (strptime (cstr date), gmtOff))"

type_synonym transitions = "(int, int) omap"

fun read_lines :: "string list \<Rightarrow> transitions \<Rightarrow> transitions option" where
  "read_lines [] m = Some m"
| "read_lines (line # lines) m =
     (case read_line line of
        None \<Rightarrow> None
      | Some (utcTime, gmtOff) \<Rightarrow>
          if 70 < tm_year utcTime then
            (if tm_year utcTime < 138 then read_lines lines (omap_put (timegm utcTime) gmtOff m)
             else Some m)
          else if 0 < tm_year utcTime then read_lines lines (omap_put (tm_year utcTime) gmtOff m)
          else read_lines lines m)"

function getlines :: "string \<Rightarrow> string list" where
  "getlines s =
     (if s = [] then []
      else takeWhile (\<lambda>c. c \<noteq> CHR 0x0A) s # getlines (drop 1 (dropWhile (\<lambda>c. c \<noteq> CHR 0x0A) s)))"
  by pat_completeness auto
termination
proof (relation "measure length")
  fix s :: string
  assume "s \<noteq> []"
  then have "0 < length s" by simp
  moreover have "length (dropWhile (\<lambda>c. c \<noteq> CHR 0x0A) s) \<le> length s"
    by (rule length_dropWhile_le)
  ultimately show "(drop 1 (dropWhile (\<lambda>c. c \<noteq> CHR 0x0A) s), s) \<in> measure length"
    by (simp only: in_measure length_drop)
qed simp

declare getlines.simps [simp del]

section \<open>State\<close>

datatype TimeZoneAccuracy = INITIAL | INTERIM | FINAL | ACC_UNDEFINED

datatype EventType =
    EVENT_UNDEF
  | EVENT_INITIALISE
  | EVENT_TIME_STATUS_CHANGED
  | EVENT_TIME_ZONE_CHANGED
  | EVENT_SHUTDOWN

record st_event =
  st_type :: EventType
  st_payload :: string

record system_time =
  mQueue :: "st_event list"
  mTimeQuality :: string
  mTimeZone :: string
  mTimeZoneAccuracyString :: string
  mTransitionMap :: transitions
  mIsSystemTimeAvailable :: bool
  st_looping :: bool

text \<open>What the System plugin answers, when it can be reached.\<close>

record system_services =
  svc_GetTimeStatus :: "hresult \<times> string \<times> string \<times> string \<times> bool"
  svc_GetTimeZoneDST :: "hresult \<times> string \<times> string \<times> bool"

definition st_push :: "st_event \<Rightarrow> system_time \<Rightarrow> system_time" where
  "st_push e st = st\<lparr>mQueue := mQueue st @ [e]\<rparr>"

definition st_pop :: "system_time \<Rightarrow> (st_event \<times> system_time) option" where
  "st_pop st = (case mQueue st of [] \<Rightarrow> None | e # q \<Rightarrow> Some (e, st\<lparr>mQueue := q\<rparr>))"

definition TIME_QUALITY_STALE :: string where "TIME_QUALITY_STALE = ''Stale''"
definition TIME_QUALITY_GOOD :: string where "TIME_QUALITY_GOOD = ''Good''"
definition TIME_QUALITY_SECURE :: string where "TIME_QUALITY_SECURE = ''Secure''"

definition SystemTime_init :: system_time where
  "SystemTime_init =
     st_push \<lparr> st_type = EVENT_INITIALISE, st_payload = [] \<rparr>
       \<lparr> mQueue = [], mTimeQuality = TIME_QUALITY_STALE, mTimeZone = [],
         mTimeZoneAccuracyString = [], mTransitionMap = [], mIsSystemTimeAvailable = False,
         st_looping = True \<rparr>"

definition SystemTime_destroy :: "system_time \<Rightarrow> system_time" where
  "SystemTime_destroy st = st_push \<lparr> st_type = EVENT_SHUTDOWN, st_payload = [] \<rparr> st"

section \<open>Notifications\<close>

definition onTimeStatusChanged ::
  "json_lib \<Rightarrow> string \<Rightarrow> string \<Rightarrow> string \<Rightarrow> system_time \<Rightarrow> system_time" where
  "onTimeStatusChanged lib TimeQuality TimeSrc Time st =
     (let parameters = jset ''Time'' (JString Time) (jset ''TimeSrc'' (JString TimeSrc)
                         (jset ''TimeQuality'' (JString TimeQuality) []))
      in st_push \<lparr> st_type = EVENT_TIME_STATUS_CHANGED, st_payload = js_ToString lib parameters \<rparr> st)"

definition onTimeZoneDSTChanged ::
  "json_lib \<Rightarrow> string \<Rightarrow> string \<Rightarrow> string \<Rightarrow> string \<Rightarrow> system_time \<Rightarrow> system_time" where
  "onTimeZoneDSTChanged lib oldTimeZone newTimeZone oldAccuracy newAccuracy st =
     (let parameters = jset ''newAccuracy'' (JString newAccuracy)
                        (jset ''oldAccuracy'' (JString oldAccuracy)
                         (jset ''newTimeZone'' (JString newTimeZone)
                          (jset ''oldTimeZone'' (JString oldTimeZone) [])))
      in st_push \<lparr> st_type = EVENT_TIME_ZONE_CHANGED, st_payload = js_ToString lib parameters \<rparr> st)"

section \<open>Updates\<close>

definition set_quality :: "string \<Rightarrow> system_time \<Rightarrow> system_time" where
  "set_quality quality st =
     st\<lparr> mTimeQuality := quality,
         mIsSystemTimeAvailable := (quality = TIME_QUALITY_GOOD \<or> quality = TIME_QUALITY_SECURE) \<rparr>"

definition set_zone :: "string \<Rightarrow> string \<Rightarrow> system_time \<Rightarrow> system_time" where
  "set_zone tz accuracy st =
     (let st = st\<lparr> mTimeZoneAccuracyString := accuracy \<rparr> in
      if accuracy = ''FINAL'' then
        (if mTimeZone st \<noteq> tz then st\<lparr> mTransitionMap := [], mTimeZone := tz \<rparr> else st)
      else st\<lparr> mTimeZone := [], mTransitionMap := [] \<rparr>)"

definition UpdateTimeStatus :: "system_services option \<Rightarrow> system_time \<Rightarrow> system_time" where
  "UpdateTimeStatus svc st =
     (case svc of
        None \<Rightarrow> st\<lparr> mIsSystemTimeAvailable := True \<rparr>
      | Some p \<Rightarrow>
          (case svc_GetTimeStatus p of (result, TimeQuality, TimeSrc, Time, success) \<Rightarrow>
             if result = ERROR_NONE \<and> success then set_quality TimeQuality st
             else st\<lparr> mIsSystemTimeAvailable := True \<rparr>))"

definition UpdateTimeZone :: "system_services option \<Rightarrow> system_time \<Rightarrow> system_time" where
  "UpdateTimeZone svc st =
     (case svc of
        None \<Rightarrow> st
      | Some p \<Rightarrow>
          (case svc_GetTimeZoneDST p of (result, timeZone, accuracy, success) \<Rightarrow>
             if result = ERROR_NONE \<and> success then set_zone timeZone accuracy st else st))"

text \<open>One iteration of the event loop; with an empty queue the thread waits.\<close>

definition handle_event ::
  "json_lib \<Rightarrow> system_services option \<Rightarrow> st_event \<Rightarrow> system_time \<Rightarrow> system_time" where
  "handle_event lib svc event st =
     (case st_type event of
        EVENT_INITIALISE \<Rightarrow> UpdateTimeZone svc (UpdateTimeStatus svc st)
      | EVENT_TIME_STATUS_CHANGED \<Rightarrow>
          let response = js_FromString lib (st_payload event) in
          if HasLabel response ''TimeQuality''
          then set_quality (js_String lib (jget response ''TimeQuality'')) st else st
      | EVENT_TIME_ZONE_CHANGED \<Rightarrow>
          let response = js_FromString lib (st_payload event) in
          if HasLabel response ''newTimeZone'' \<and> HasLabel response ''newAccuracy''
          then set_zone (js_String lib (jget response ''newTimeZone''))
                 (js_String lib (jget response ''newAccuracy'')) st
          else st
      | EVENT_SHUTDOWN \<Rightarrow> st\<lparr> st_looping := False \<rparr>
      | EVENT_UNDEF \<Rightarrow> st)"

definition EventLoop ::
  "json_lib \<Rightarrow> system_services option \<Rightarrow> system_time \<Rightarrow> system_time" where
  "EventLoop lib svc st =
     (if \<not> st_looping st then st
      else case st_pop st of
             None \<Rightarrow> st
           | Some (event, st) \<Rightarrow> handle_event lib svc event st)"

section \<open>Queries\<close>

definition IsSystemTimeAvailable :: "system_time \<Rightarrow> bool" where
  "IsSystemTimeAvailable st = mIsSystemTimeAvailable st"

text \<open>\<open>zdump tz\<close> is the text that \<^verbatim>\<open>zdump -v tz\<close> prints, \<open>None\<close> when \<^verbatim>\<open>popen\<close> fails.\<close>

definition PopulateTimeZoneTransitionMap ::
  "(string \<Rightarrow> string option) \<Rightarrow> system_time \<Rightarrow> system_time option" where
  "PopulateTimeZoneTransitionMap zdump st =
     (if mTransitionMap st = [] \<and> mTimeZone st \<noteq> [] then
        (case zdump (mTimeZone st) of
           None \<Rightarrow> Some st
         | Some out \<Rightarrow>
             map_option (\<lambda>m. st\<lparr> mTransitionMap := m \<rparr>) (read_lines (getlines out) (mTransitionMap st)))
      else Some st)"

definition accuracyMap :: "(string \<times> TimeZoneAccuracy) list" where
  "accuracyMap = [(''INITIAL'', INITIAL), (''INTERIM'', INTERIM), (''FINAL'', FINAL)]"

definition transition_offset :: "transitions \<Rightarrow> int \<Rightarrow> int option" where
  "transition_offset m currentTime =
     (case omap_lower_bound currentTime m of
        (t, off) # r \<Rightarrow> Some off
      | [] \<Rightarrow> if m \<noteq> [] then Some (snd (last m)) else None)"

definition ParseTimeZone ::
  "(string \<Rightarrow> string option) \<Rightarrow> int \<Rightarrow> system_time \<Rightarrow>
   ((TimeZoneAccuracy \<times> int) \<times> system_time) option" where
  "ParseTimeZone zdump currentTime st =
     (if mTimeZone st = [] then Some ((ACC_UNDEFINED, 0), st)
      else
        let acc = (case map_of accuracyMap (mTimeZoneAccuracyString st) of
                     None \<Rightarrow> ACC_UNDEFINED | Some a \<Rightarrow> a)
        in if mTimeZone st = ''Universal'' then Some ((acc, 0), st)
           else case PopulateTimeZoneTransitionMap zdump st of
                  None \<Rightarrow> None
                | Some st \<Rightarrow>
                    if mTransitionMap st = [] then Some ((ACC_UNDEFINED, 0), st)
                    else case transition_offset (mTransitionMap st) currentTime of
                           Some off \<Rightarrow> Some ((acc, off), st)
                         | None \<Rightarrow> Some ((ACC_UNDEFINED, 0), st))"

text \<open>
  \<^verbatim>\<open>GetTimeZoneOffset(offsetSec)\<close>: the accuracy, the value of \<^verbatim>\<open>offsetSec\<close> afterwards and
  the state; \<open>None\<close> when reading the table ran into undefined behaviour.
\<close>

definition GetTimeZoneOffset ::
  "(string \<Rightarrow> string option) \<Rightarrow> int \<Rightarrow> int \<Rightarrow> system_time \<Rightarrow>
   (TimeZoneAccuracy \<times> int \<times> system_time) option" where
  "GetTimeZoneOffset zdump currentTime offsetSec st =
     (if mIsSystemTimeAvailable st then
        (case ParseTimeZone zdump currentTime st of
           None \<Rightarrow> None
         | Some ((acc, off), st) \<Rightarrow> Some (acc, off, st))
      else Some (ACC_UNDEFINED, offsetSec, st))"

section \<open>The component as a machine\<close>

text \<open>
  Everything that can happen to the object, in any order: a notification, an iteration of the
  event thread, a query, destruction.  \<open>None\<close> is a state after undefined behaviour.
\<close>

datatype st_op =
    St_status string string string
  | St_zone string string string string
  | St_loop "system_services option"
  | St_offset int
  | St_destroy

fun st_step ::
  "json_lib \<Rightarrow> (string \<Rightarrow> string option) \<Rightarrow> st_op \<Rightarrow> system_time option \<Rightarrow> system_time option" where
  "st_step lib zdump e None = None"
| "st_step lib zdump (St_status q s t) (Some st) = Some (onTimeStatusChanged lib q s t st)"
| "st_step lib zdump (St_zone z z' a a') (Some st) = Some (onTimeZoneDSTChanged lib z z' a a' st)"
| "st_step lib zdump (St_loop svc) (Some st) = Some (EventLoop lib svc st)"
| "st_step lib zdump (St_offset now) (Some st) =
     map_option (\<lambda>(acc, off, st). st) (GetTimeZoneOffset zdump now 0 st)"
| "st_step lib zdump St_destroy (Some st) = Some (SystemTime_destroy st)"

definition st_ok :: "system_time \<Rightarrow> bool" where
  "st_ok st =
     (omap_ok (mTransitionMap st) \<and>
      (mTimeZone st = [] \<longrightarrow> mTransitionMap st = []) \<and>
      (mTimeZone st \<noteq> [] \<longrightarrow> mTimeZoneAccuracyString st = ''FINAL''))"

definition st_inv :: "system_time option \<Rightarrow> bool" where
  "st_inv so = (case so of None \<Rightarrow> True | Some st \<Rightarrow> st_ok st)"

lemma st_push_ok [simp]: "st_ok (st_push e st) = st_ok st"
  by (simp add: st_ok_def st_push_def)

lemma set_quality_ok [simp]: "st_ok (set_quality q st) = st_ok st"
  by (simp add: st_ok_def set_quality_def)

lemma set_zone_ok [inv_intros]: "st_ok st \<Longrightarrow> st_ok (set_zone tz acc st)"
  by (auto simp: st_ok_def set_zone_def Let_def)

lemma st_ok_flags [simp]:
  "st_ok (st\<lparr>mIsSystemTimeAvailable := b\<rparr>) = st_ok st"
  "st_ok (st\<lparr>st_looping := b\<rparr>) = st_ok st"
  "st_ok (st\<lparr>mQueue := q\<rparr>) = st_ok st"
  by (simp_all add: st_ok_def)

lemma UpdateTimeStatus_ok [simp]: "st_ok (UpdateTimeStatus svc st) = st_ok st"
  by (simp add: UpdateTimeStatus_def split: option.split prod.split)

lemma UpdateTimeZone_ok [inv_intros]: "st_ok st \<Longrightarrow> st_ok (UpdateTimeZone svc st)"
  by (simp add: UpdateTimeZone_def set_zone_ok split: option.split prod.split)

lemma handle_event_ok [inv_intros]: "st_ok st \<Longrightarrow> st_ok (handle_event lib svc e st)"
  by (simp add: handle_event_def Let_def set_zone_ok UpdateTimeZone_ok split: EventType.split)

lemma EventLoop_ok [inv_intros]: "st_ok st \<Longrightarrow> st_ok (EventLoop lib svc st)"
  by (auto simp: EventLoop_def st_pop_def intro: handle_event_ok split: option.split list.split)

lemma read_lines_ok: "omap_ok m \<Longrightarrow> read_lines lines m = Some m' \<Longrightarrow> omap_ok m'"
  by (induction lines m rule: read_lines.induct)
     (auto simp: omap_put_ok split: option.splits prod.splits if_splits)

lemma Populate_ok [inv_intros]:
  "st_ok st \<Longrightarrow> PopulateTimeZoneTransitionMap zdump st = Some st' \<Longrightarrow> st_ok st'"
  by (auto simp: PopulateTimeZoneTransitionMap_def st_ok_def dest: read_lines_ok[OF omap_ok_Nil]
           split: if_splits option.splits)

lemma ParseTimeZone_ok [inv_intros]:
  "st_ok st \<Longrightarrow> ParseTimeZone zdump now st = Some (r, st') \<Longrightarrow> st_ok st'"
  by (auto simp: ParseTimeZone_def Let_def intro: Populate_ok split: if_splits option.splits)

interpretation st_queue: work_queue mQueue st_push st_pop
  by unfold_locales (auto simp: st_push_def st_pop_def)

interpretation st_machine: machine "st_step lib zdump" st_inv for lib zdump
proof
  fix s e
  assume inv: "st_inv s"
  show "st_inv (st_step lib zdump e s)"
  proof (cases s)
    case (Some st)
    with inv have "st_ok st" by (simp add: st_inv_def)
    then show ?thesis
      using Some
      by (cases e)
         (auto simp: st_inv_def onTimeStatusChanged_def onTimeZoneDSTChanged_def Let_def
            SystemTime_destroy_def GetTimeZoneOffset_def intro: EventLoop_ok ParseTimeZone_ok
            split: option.splits if_splits)
  qed (simp add: st_inv_def)
qed

section \<open>Accuracy\<close>

lemma ParseTimeZone_accuracy:
  assumes "st_ok st" and "ParseTimeZone zdump now st = Some ((acc, off), st')"
  shows "acc = FINAL \<and> mTimeZone st \<noteq> [] \<or> acc = ACC_UNDEFINED \<and> off = 0"
  using assms
  by (auto simp: ParseTimeZone_def Let_def st_ok_def accuracyMap_def split: if_splits option.splits)

text \<open>
  whatever happened to the object since its construction, a query answers \<^verbatim>\<open>FINAL\<close> (then
  the system time is available and a time zone is known) or \<^verbatim>\<open>ACC_UNDEFINED\<close>, never
  \<^verbatim>\<open>INITIAL\<close> or \<^verbatim>\<open>INTERIM\<close>: any accuracy but \<^verbatim>\<open>FINAL\<close> clears the time zone.
\<close>

theorem GetTimeZoneOffset_final:
  assumes "fold (st_step lib zdump) es (Some SystemTime_init) = Some st"
    and "GetTimeZoneOffset zdump now offsetSec st = Some (acc, off, st')"
  shows "acc = FINAL \<and> IsSystemTimeAvailable st \<and> mTimeZone st \<noteq> [] \<or>
    acc = ACC_UNDEFINED \<and> (off = 0 \<or> off = offsetSec \<and> \<not> IsSystemTimeAvailable st)"
proof -
  have "st_inv (Some SystemTime_init)"
    by (simp add: st_inv_def SystemTime_init_def) (simp add: st_ok_def)
  then have "st_inv (fold (st_step lib zdump) es (Some SystemTime_init))"
    by (rule st_machine.run_inv)
  then have "st_ok st" using assms(1) by (simp add: st_inv_def)
  then show ?thesis
    using assms(2) ParseTimeZone_accuracy[of st zdump now]
    by (fastforce simp: GetTimeZoneOffset_def IsSystemTimeAvailable_def
        split: if_splits option.splits prod.splits)
qed

lemma GetTimeZoneOffset_final_witness:
  "\<exists>st st'.
     fold (st_step text_json (\<lambda>_. None))
       [St_loop (Some \<lparr> svc_GetTimeStatus = (ERROR_NONE, ''Good'', [], [], True),
                        svc_GetTimeZoneDST = (ERROR_NONE, ''Universal'', ''FINAL'', True) \<rparr>)]
       (Some SystemTime_init) = Some st \<and>
     GetTimeZoneOffset (\<lambda>_. None) 0 7 st = Some (FINAL, 0, st') \<and> IsSystemTimeAvailable st"
proof -
  let ?p = "\<lparr> svc_GetTimeStatus = (ERROR_NONE, ''Good'', [], [], True),
              svc_GetTimeZoneDST = (ERROR_NONE, ''Universal'', ''FINAL'', True) \<rparr>"
  let ?st = "EventLoop text_json (Some ?p) SystemTime_init"
  have run: "fold (st_step text_json (\<lambda>_. None)) [St_loop (Some ?p)] (Some SystemTime_init) = Some ?st"
    by simp
  have q: "GetTimeZoneOffset (\<lambda>_. None) 0 7 ?st = Some (FINAL, 0, ?st)"
    by code_simp
  from run q GetTimeZoneOffset_final[OF run q] show ?thesis by blast
qed

section \<open>Order of notifications\<close>

definition status_event :: "json_lib \<Rightarrow> string \<times> string \<times> string \<Rightarrow> st_event" where
  "status_event lib n = (case n of (q, s, t) \<Rightarrow>
     \<lparr> st_type = EVENT_TIME_STATUS_CHANGED,
       st_payload = js_ToString lib [(''TimeQuality'', JString q), (''TimeSrc'', JString s),
                                     (''Time'', JString t)] \<rparr>)"

lemma onTimeStatusChanged_push:
  "onTimeStatusChanged lib q s t st = st_push (status_event lib (q, s, t)) st"
  by (simp add: onTimeStatusChanged_def status_event_def Let_def)

lemma statuses_push:
  "fold (\<lambda>(q, s, t). onTimeStatusChanged lib q s t) ns st = fold st_push (map (status_event lib) ns) st"
  by (induction ns arbitrary: st) (auto simp: onTimeStatusChanged_push)

lemma pushes_queue: "fold st_push es st = st\<lparr>mQueue := mQueue (fold st_push es st)\<rparr>"
proof -
  have "\<exists>q. fold st_push es st = st\<lparr>mQueue := q\<rparr>"
  proof (induction es arbitrary: st)
    case Nil
    have "st = st\<lparr>mQueue := mQueue st\<rparr>" by simp
    then show ?case by (metis fold_simps(1))
  next
    case (Cons e es)
    from Cons[of "st_push e st"] show ?case by (simp add: st_push_def)
  qed
  then show ?thesis by force
qed

lemma handle_status_event:
  assumes "json_faithful lib"
  shows "handle_event lib svc (status_event lib n) st = set_quality (fst n) st"
proof -
  obtain q s t where n: "n = (q, s, t)" by (cases n) auto
  let ?ob = "[(''TimeQuality'', JString q), (''TimeSrc'', JString s), (''Time'', JString t)]"
  have "string_object ?ob" by (simp add: string_object_def)
  with assms have "js_FromString lib (js_ToString lib ?ob) = ?ob" and "js_String lib (JString q) = q"
    unfolding json_faithful_def by blast+
  then show ?thesis by (simp add: n handle_event_def status_event_def Let_def)
qed

lemma loop_statuses:
  assumes "json_faithful lib"
  shows "st_looping st \<Longrightarrow> mQueue st = map (status_event lib) ns \<Longrightarrow>
    (EventLoop lib svc ^^ length ns) st = fold (\<lambda>n. set_quality (fst n)) ns (st\<lparr>mQueue := []\<rparr>)"
proof (induction ns arbitrary: st)
  case (Cons n ns)
  let ?st = "st\<lparr>mQueue := map (status_event lib) ns\<rparr>"
  have step: "EventLoop lib svc st = set_quality (fst n) ?st"
    using Cons(2,3) by (simp add: EventLoop_def st_pop_def handle_status_event[OF assms])
  have "(EventLoop lib svc ^^ length ns) (set_quality (fst n) ?st) =
      fold (\<lambda>n. set_quality (fst n)) ns ((set_quality (fst n) ?st)\<lparr>mQueue := []\<rparr>)"
    using Cons(2) by (intro Cons(1)) (simp_all add: set_quality_def)
  moreover have "(set_quality (fst n) ?st)\<lparr>mQueue := []\<rparr> = set_quality (fst n) (st\<lparr>mQueue := []\<rparr>)"
    by (simp add: set_quality_def)
  ultimately show ?case by (simp add: step funpow_swap1)
qed simp

lemma qualities_last:
  "fold (\<lambda>n. set_quality (fst n)) (ns @ [(q, s, t)]) st = set_quality q st"
  by (induction ns arbitrary: st) (simp_all add: set_quality_def)

text \<open>
  status notifications take effect in the order in which they arrive: with an idle queue,
  after as many iterations of the event thread as there were notifications the quality is that
  of the last one and the time is available exactly if it is \<^verbatim>\<open>Good\<close> or \<^verbatim>\<open>Secure\<close>.
\<close>

theorem status_notifications_in_order:
  assumes "json_faithful lib" and "mQueue st = []" and "st_looping st"
  shows "(EventLoop lib svc ^^ length (ns @ [(q, s, t)]))
           (fold (\<lambda>(q, s, t). onTimeStatusChanged lib q s t) (ns @ [(q, s, t)]) st) =
         st\<lparr> mTimeQuality := q,
             mIsSystemTimeAvailable := (q = TIME_QUALITY_GOOD \<or> q = TIME_QUALITY_SECURE) \<rparr>"
proof -
  let ?ns = "ns @ [(q, s, t)]"
  let ?st = "fold (\<lambda>(q, s, t). onTimeStatusChanged lib q s t) ?ns st"
  have st: "?st = st\<lparr>mQueue := map (status_event lib) ?ns\<rparr>"
    using assms(2) pushes_queue[of "map (status_event lib) ?ns" st]
    by (simp only: statuses_push st_queue.items_pushes append_Nil)
  have "(EventLoop lib svc ^^ length ?ns) ?st = fold (\<lambda>n. set_quality (fst n)) ?ns (?st\<lparr>mQueue := []\<rparr>)"
    using assms(3) by (intro loop_statuses[OF assms(1)]) (simp_all only: st, simp_all)
  also have "?st\<lparr>mQueue := []\<rparr> = st"
    using assms(2) by (simp only: st) simp
  finally show ?thesis by (simp only: qualities_last) (simp only: set_quality_def)
qed

lemma status_notifications_in_order_witness:
  "mIsSystemTimeAvailable
     ((EventLoop text_json None ^^ 2)
        (onTimeStatusChanged text_json ''Good'' [] []
           (onTimeStatusChanged text_json ''Stale'' [] [] (SystemTime_init\<lparr>mQueue := []\<rparr>))))"
  using status_notifications_in_order[OF text_json_faithful, of "SystemTime_init\<lparr>mQueue := []\<rparr>"
      "[(''Stale'', [], [])]" "''Good''" "[]" "[]" None]
  by (simp add: SystemTime_init_def st_push_def TIME_QUALITY_GOOD_def numeral_2_eq_2)

section \<open>The offset in force\<close>

text \<open>
  What \<^verbatim>\<open>zdump -v\<close> lists for a zone whose offset is \<open>o0\<close> before the first transition and
  \<open>off\<close> from time \<open>t\<close> on, for each transition \<open>(t, off)\<close>: the last second before the transition
  with the old offset, and the transition with the new one.
\<close>

fun zdump_table :: "int \<Rightarrow> (int \<times> int) list \<Rightarrow> transitions" where
  "zdump_table o0 [] = []"
| "zdump_table o0 ((t, off) # trs) = (t - 1, o0) # (t, off) # zdump_table off trs"

fun offset_in_force :: "int \<Rightarrow> (int \<times> int) list \<Rightarrow> int \<Rightarrow> int" where
  "offset_in_force o0 [] now = o0"
| "offset_in_force o0 ((t, off) # trs) now = (if now < t then o0 else offset_in_force off trs now)"

fun spaced :: "(int \<times> int) list \<Rightarrow> bool" where
  "spaced ((t, off) # (t', off') # trs) = (t + 1 < t' \<and> spaced ((t', off') # trs))"
| "spaced _ = True"

lemma zdump_table_last:
  "snd (last ((t, off) # zdump_table off trs)) = snd (last ((t, off) # trs))"
  by (induction off trs arbitrary: t rule: zdump_table.induct) auto

lemma offset_in_force_past:
  "\<forall>e \<in> set trs. fst e \<le> now \<Longrightarrow> offset_in_force o0 trs now = snd (last ((t, o0) # trs))"
  by (induction o0 trs now arbitrary: t rule: offset_in_force.induct) auto

lemma spaced_tl: "spaced (e # trs) \<Longrightarrow> spaced trs"
  by (cases trs) (auto, cases e, auto)

lemma table_past:
  "(\<forall>e \<in> set (zdump_table o0 trs). fst e < now) \<longleftrightarrow> (\<forall>e \<in> set trs. fst e < now)"
  by (induction o0 trs rule: zdump_table.induct) auto

lemma lower_bound_force:
  "spaced trs \<Longrightarrow> omap_lower_bound now (zdump_table o0 trs) = (t, off) # r \<Longrightarrow>
   off = offset_in_force o0 trs now"
proof (induction o0 trs rule: zdump_table.induct)
  case (2 o0 t' off' trs)
  show ?case
  proof (cases "t' < now")
    case True
    with 2 show ?thesis by (auto dest: spaced_tl)
  next
    case False
    show ?thesis
    proof (cases "now = t'")
      case True
      have "offset_in_force off' trs t' = off'"
        using 2(2) by (cases "(off', trs, t')" rule: offset_in_force.cases) auto
      with True 2 show ?thesis by auto
    next
      case False
      with \<open>\<not> t' < now\<close> 2 show ?thesis by auto
    qed
  qed
qed simp

text \<open>
  on the table that \<^verbatim>\<open>zdump\<close> prints for a zone with at least one transition, whose
  transitions are at least two seconds apart, the \<^verbatim>\<open>lower_bound\<close> lookup answers the offset in
  force at the current time: before the first transition, between any two, at a transition and
  after the last.
\<close>

theorem transition_offset_in_force:
  assumes "trs \<noteq> []" and "spaced trs"
  shows "transition_offset (zdump_table o0 trs) currentTime =
    Some (offset_in_force o0 trs currentTime)"
proof (cases "omap_lower_bound currentTime (zdump_table o0 trs)")
  case Nil
  then have past: "\<forall>e \<in> set trs. fst e < currentTime"
    by (simp add: lower_bound_none table_past)
  obtain t off trs' where trs: "trs = (t, off) # trs'" using assms(1) by (cases trs) auto
  have "offset_in_force o0 trs currentTime = snd (last trs)"
    using past trs offset_in_force_past[of trs currentTime o0 t] by (auto simp: less_imp_le)
  moreover have "snd (last (zdump_table o0 trs)) = snd (last trs)"
    using zdump_table_last[of t off trs'] by (simp add: trs)
  ultimately show ?thesis
    using Nil trs by (simp add: transition_offset_def)
next
  case (Cons e r)
  obtain t off where e: "e = (t, off)" by force
  with lower_bound_force[OF assms(2)] Cons show ?thesis by (simp add: transition_offset_def)
qed

lemma transition_offset_in_force_witness:
  "transition_offset (zdump_table 3600 [(1000, 7200), (2000, 3600)]) 1500 = Some 7200"
  using transition_offset_in_force[of "[(1000, 7200), (2000, 3600)]" 3600 1500] by simp

section \<open>A line of zdump\<close>

definition show2 :: "nat \<Rightarrow> string" where
  "show2 n = [digit (n div 10), digit n]"

definition show4 :: "nat \<Rightarrow> string" where
  "show4 n = [digit (n div 1000), digit (n div 100), digit (n div 10), digit n]"

definition day2 :: "nat \<Rightarrow> string" where
  "day2 n = (if n < 10 then [CHR '' '', digit n] else show2 n)"

definition week_abbr :: "string list" where
  "week_abbr = [''Sun'', ''Mon'', ''Tue'', ''Wed'', ''Thu'', ''Fri'', ''Sat'']"

definition month_abbr :: "string list" where
  "month_abbr = [''Jan'', ''Feb'', ''Mar'', ''Apr'', ''May'', ''Jun'', ''Jul'', ''Aug'', ''Sep'',
     ''Oct'', ''Nov'', ''Dec'']"

definition show_date :: "nat \<Rightarrow> tm \<Rightarrow> string" where
  "show_date wd t =
     week_abbr ! wd @ '' '' @ month_abbr ! tm_mon t @ '' '' @ day2 (tm_mday t) @ '' '' @
     show2 (tm_hour t) @ '':'' @ show2 (tm_min t) @ '':'' @ show2 (tm_sec t) @ '' '' @
     show4 (nat (tm_year t + 1900))"

definition tm_ok :: "tm \<Rightarrow> bool" where
  "tm_ok t = (tm_mon t < 12 \<and> 1 \<le> tm_mday t \<and> tm_mday t \<le> 31 \<and> tm_hour t \<le> 23 \<and>
     tm_min t \<le> 59 \<and> tm_sec t \<le> 59 \<and> 0 \<le> tm_year t + 1900 \<and> tm_year t + 1900 \<le> 9999)"

text \<open>A line as \<^verbatim>\<open>zdump -v\<close> prints it; \<open>ldate\<close> is the local date.\<close>

definition zdump_line :: "string \<Rightarrow> nat \<Rightarrow> tm \<Rightarrow> string \<Rightarrow> string \<Rightarrow> bool \<Rightarrow> int \<Rightarrow> string" where
  "zdump_line tz wd t ldate abbr dst off =
     tz @ ''  '' @ show_date wd t @ '' UT = '' @ ldate @ '' '' @ abbr @
     '' isdst='' @ (if dst then ''1'' else ''0'') @ '' gmtoff='' @ show_int off"

definition local_date :: "string \<Rightarrow> string \<Rightarrow> char \<Rightarrow> char \<Rightarrow> string \<Rightarrow> string \<Rightarrow> string" where
  "local_date wd mon d1 d2 tim year = wd @ '' '' @ mon @ '' '' @ [d1, d2] @ '' '' @ tim @ '' '' @ year"

lemma get_number_show2:
  assumes "lo \<le> n" "n \<le> hi" "n < 100"
  shows "get_number lo hi 2 (show2 n @ r) = Some (n, r)"
proof -
  have m: "n div 10 mod 10 = n div 10" "n div 10 * 10 + n mod 10 = n" using assms(3) by simp_all
  then have "n div 10 * 10 \<le> hi" using assms(2) by simp
  with m assms show ?thesis
    by (simp add: get_number_def show2_def skip_space_def)
qed

lemma get_number_day2:
  assumes "1 \<le> n" "n \<le> 31"
  shows "get_number 1 31 2 (skip_space (day2 n @ CHR '' '' # r)) = Some (n, CHR '' '' # r)"
proof (cases "n < 10")
  case True
  have "\<not> isdigit CHR '' ''" "isspace CHR '' ''" by (simp_all add: isdigit_def isspace_def)
  with True assms show ?thesis
    by (simp add: get_number_def day2_def skip_space_def)
next
  case False
  have "skip_space (show2 n @ s) = show2 n @ s" for s by (simp add: skip_space_def show2_def)
  with False assms get_number_show2[of 1 n 31] show ?thesis by (simp add: day2_def)
qed

lemma get_number_show4:
  assumes "n \<le> 9999"
  shows "get_number 0 9999 4 (show4 n) = Some (n, [])"
proof -
  have m: "n div 1000 mod 10 = n div 1000" "n div 1000 * 10 + n div 100 mod 10 = n div 100"
    "n div 100 * 10 + n div 10 mod 10 = n div 10" "n div 10 * 10 + n mod 10 = n"
  proof -
    have "n div 1000 < 10" using assms by (intro less_mult_imp_div_less) simp
    then show "n div 1000 mod 10 = n div 1000" by simp
    have "n div 1000 = n div 100 div 10" "n div 100 = n div 10 div 10"
      by (simp_all add: div_mult2_eq[symmetric])
    then show "n div 1000 * 10 + n div 100 mod 10 = n div 100"
      "n div 100 * 10 + n div 10 mod 10 = n div 10" "n div 10 * 10 + n mod 10 = n"
      by (simp_all only: div_mult_mod_eq)
  qed
  then have "n div 1000 * 10 \<le> 9999" "n div 100 * 10 \<le> 9999" "n div 10 * 10 \<le> 9999"
    using assms by linarith+
  with m assms show ?thesis
    by (simp add: get_number_def show4_def skip_space_def numeral_3_eq_3)
qed

lemma isspace_blank [simp]: "isspace CHR '' ''"
  by (simp add: isspace_def)

lemma skip_digits: "skip_space (CHR '' '' # show2 n @ s) = show2 n @ s"
  "skip_space (CHR '' '' # show4 n) = show4 n"
  by (simp_all add: skip_space_def show2_def show4_def)

lemma below_7: "wd < 7 \<Longrightarrow> wd \<in> {0, 1, 2, 3, 4, 5, 6 :: nat}" by auto

lemma below_12: "m < 12 \<Longrightarrow> m \<in> {0, 1, 2, 3, 4, 5, 6, 7, 8, 9, 10, 11 :: nat}"
  unfolding insert_iff empty_iff by presburger

lemma match_week:
  assumes "wd < 7"
  shows "match_name weekday_names 0 (week_abbr ! wd @ CHR '' '' # r) = Some (wd, CHR '' '' # r)"
  using below_7[OF assms]
  by (elim insertE emptyE) (simp_all add: week_abbr_def weekday_names_def tolower_def char_of_def bit_0)

lemma match_month:
  assumes "m < 12"
  shows "match_name month_names 0 (skip_space (CHR '' '' # month_abbr ! m @ CHR '' '' # r)) =
    Some (m, CHR '' '' # r)"
  using below_12[OF assms]
  by (elim insertE emptyE)
     (simp_all add: month_abbr_def month_names_def tolower_def char_of_def bit_0 skip_space_def isspace_def)

lemma strptime_show_date:
  assumes "wd < 7" and "tm_ok t"
  shows "strptime (show_date wd t) = t"
proof -
  have y: "int (nat (tm_year t + 1900)) - 1900 = tm_year t" "nat (tm_year t + 1900) \<le> 9999"
    using assms(2) by (auto simp: tm_ok_def)
  have sp: "skip_space (CHR '' '' # day2 n @ s) = skip_space (day2 n @ s)" for n s
    by (simp add: skip_space_def isspace_def)
  show ?thesis
    using assms y
    by (simp add: strptime_def show_date_def match_week match_month sp
          get_number_day2[unfolded One_nat_def] skip_digits
          get_number_show2 get_number_show4 match_char_def Let_def tm_ok_def tm_zero_def)
qed

lemma no_U_find:
  "CHR ''U'' \<notin> set s \<Longrightarrow> str_find '' UT = '' (s @ '' UT = '' @ r) = Some (length s)"
proof (induction s)
  case (Cons c s)
  then have "\<not> starts_with '' UT = '' ((c # s) @ '' UT = '' @ r)"
    by (cases s) auto
  with Cons show ?case by simp
qed simp

lemma names_in:
  "wd < 7 \<Longrightarrow> week_abbr ! wd \<in> set week_abbr"
  "tm_ok t \<Longrightarrow> month_abbr ! tm_mon t \<in> set month_abbr"
  by (rule nth_mem, simp add: week_abbr_def) (rule nth_mem, simp add: month_abbr_def tm_ok_def)

lemma date_chars:
  assumes "wd < 7" and "tm_ok t" and "c \<noteq> CHR '' ''" "c \<noteq> CHR '':''"
    and "(of_char c :: nat) < 48 \<or> 57 < (of_char c :: nat)"
    and "\<forall>w \<in> set week_abbr. c \<notin> set w" "\<forall>w \<in> set month_abbr. c \<notin> set w"
  shows "c \<notin> set (show_date wd t)"
proof -
  have d: "c \<noteq> digit n" for n using digit_neq[OF assms(5)] by metis
  have "c \<notin> set (week_abbr ! wd)" "c \<notin> set (month_abbr ! tm_mon t)"
    using names_in(1)[of wd] names_in(2)[of t] assms by blast+
  then show ?thesis
    using assms(3,4) by (simp add: show_date_def show2_def show4_def day2_def d)
qed

lemma no_U_date:
  assumes "wd < 7" and "tm_ok t"
  shows "CHR ''U'' \<notin> set (show_date wd t)"
  by (rule date_chars[OF assms]) (simp_all add: week_abbr_def month_abbr_def)

lemma find_blank: "CHR '' '' \<notin> set w \<Longrightarrow> str_find '' '' (w @ CHR '' '' # r) = Some (length w)"
  by (rule str_find_char_first)

lemma drop_field:
  assumes "CHR '' '' \<notin> set w"
  shows "n + 1 \<noteq> 4 \<Longrightarrow> drop_fields (Suc n) (w @ CHR '' '' # r) = drop_fields n r"
    and "drop_fields (Suc 3) (w @ CHR '' '' # c # r) = drop_fields 3 r"
proof -
  show "n + 1 \<noteq> 4 \<Longrightarrow> drop_fields (Suc n) (w @ CHR '' '' # r) = drop_fields n r"
    unfolding drop_fields.simps Let_def find_blank[OF assms] by (simp add: pos_plus_def)
  have "Suc 3 = 4" by simp
  then show "drop_fields (Suc 3) (w @ CHR '' '' # c # r) = drop_fields 3 r"
    unfolding drop_fields.simps Let_def find_blank[OF assms] by (simp add: pos_plus_def)
qed

lemma drop_local_date:
  assumes "\<forall>w \<in> {wd, mon, tim, year}. CHR '' '' \<notin> set w" and "d2 \<noteq> CHR '' ''"
  shows "drop_fields 5 (local_date wd mon d1 d2 tim year @ CHR '' '' # r) = r"
proof -
  have n: "5 = Suc 4" "4 = Suc 3" "3 = Suc 2" "2 = Suc 1" "1 = Suc 0" by simp_all
  let ?r1 = "year @ CHR '' '' # r"
  let ?r2 = "tim @ CHR '' '' # ?r1"
  let ?r3 = "[d2] @ CHR '' '' # ?r2"
  have "local_date wd mon d1 d2 tim year @ CHR '' '' # r =
      wd @ CHR '' '' # mon @ CHR '' '' # d1 # ?r3"
    by (simp add: local_date_def)
  moreover have "drop_fields 5 (wd @ CHR '' '' # mon @ CHR '' '' # d1 # ?r3) =
      drop_fields (Suc 3) (mon @ CHR '' '' # d1 # ?r3)"
    unfolding n(1) using assms(1) by (subst drop_field(1)) simp_all
  moreover have "\<dots> = drop_fields 3 ?r3"
    using assms(1) by (intro drop_field(2)) simp
  moreover have "\<dots> = drop_fields 2 ?r2"
    unfolding n(3) using assms(2) by (intro drop_field(1)) simp_all
  moreover have "\<dots> = drop_fields 1 ?r1"
    unfolding n(4) using assms(1) by (intro drop_field(1)) simp_all
  moreover have "\<dots> = drop_fields 0 r"
    unfolding n(5) using assms(1) by (intro drop_field(1)) simp_all
  ultimately show ?thesis by simp
qed

lemma scan_zone_shape:
  assumes "abbr \<noteq> []" "length abbr < timeZone_size" "\<forall>c \<in> set abbr. \<not> isspace c"
  shows "scan_zone (abbr @ '' isdst='' @ (if dst then ''1'' else ''0'') @ '' gmtoff='' @ show_int off)
    = Some off"
proof -
  have "\<not> isspace (hd abbr)" using assms(1,3) by simp
  then have "skip_space (abbr @ r) = abbr @ r" for r
    using assms(1) by (cases abbr) (auto simp: skip_space_def)
  moreover have "takeWhile (\<lambda>c. \<not> isspace c) (abbr @ CHR '' '' # r) = abbr \<and>
      dropWhile (\<lambda>c. \<not> isspace c) (abbr @ CHR '' '' # r) = CHR '' '' # r" for r
    using assms(3) by (intro takeWhile_all_append) (auto simp: list_all_iff)
  moreover have "skip_space (CHR '' '' # s) = skip_space s" for s by (simp add: skip_space_def)
  moreover have "skip_space (''isdst='' @ s) = ''isdst='' @ s" "skip_space (''gmtoff='' @ s) = ''gmtoff='' @ s"
    for s by (simp_all add: skip_space_def isspace_def)
  moreover have "scan_int ((if dst then ''1'' else ''0'') @ '' gmtoff='' @ s) =
      Some (if dst then 1 else 0, '' gmtoff='' @ s)" for s
    by (simp add: scan_int_def skip_space_def isspace_def isdigit_def digit_val_def)
  moreover have "scan_int (show_int off) = Some (off, [])" using scan_int_show[of "[]" off] by simp
  ultimately show ?thesis
    using assms(1,2) by (simp add: scan_zone_def Let_def)
qed

lemma show_int_nul: "nul \<notin> set (show_int i)"
  using show_nat_digits(1) digit_not by (auto simp: show_int_def list_all_iff nul_def)

lemma show_date_nul:
  assumes "wd < 7" and "tm_ok t"
  shows "nul \<notin> set (show_date wd t)"
  by (rule date_chars[OF assms]) (simp_all add: week_abbr_def month_abbr_def nul_def)

lemma read_line_shape:
  assumes tz: "CHR '' '' \<notin> set tz" and wd: "wd < 7" and t: "tm_ok t"
    and ld: "\<forall>w \<in> {lwd, mon, tim, year}. CHR '' '' \<notin> set w" "d2 \<noteq> CHR '' ''"
    and ab: "abbr \<noteq> []" "\<forall>c \<in> set abbr. \<not> isspace c \<and> c \<noteq> nul"
  shows "read_line (zdump_line tz wd t (local_date lwd mon d1 d2 tim year) abbr dst off) =
    map_option (Pair t) (scan_zone (abbr @ '' isdst='' @ (if dst then ''1'' else ''0'') @
      '' gmtoff='' @ show_int off))"
proof -
  let ?z = "abbr @ '' isdst='' @ (if dst then ''1'' else ''0'') @ '' gmtoff='' @ show_int off"
  let ?l = "local_date lwd mon d1 d2 tim year"
  let ?d = "show_date wd t"
  let ?line = "zdump_line tz wd t ?l abbr dst off"
  have line: "?line = tz @ CHR '' '' # CHR '' '' # ?d @ '' UT = '' @ ?l @ CHR '' '' # ?z"
    by (simp add: zdump_line_def)
  have l1: "drop (pos_plus (str_find '' '' ?line) 2) ?line = ?d @ '' UT = '' @ ?l @ CHR '' '' # ?z"
    unfolding line by (simp add: find_blank[OF tz] pos_plus_def)
  have ut: "str_find '' UT = '' (?d @ '' UT = '' @ ?l @ CHR '' '' # ?z) = Some (length ?d)"
    by (rule no_U_find[OF no_U_date[OF wd t]])
  have l2: "drop (pos_plus (Some (length ?d)) 6) (?d @ '' UT = '' @ ?l @ CHR '' '' # ?z) =
      ?l @ CHR '' '' # ?z"
    by (simp add: pos_plus_def)
  have "nul \<notin> set ?z" using ab(2) show_int_nul by (auto simp: nul_def)
  then have z: "cstr ?z = ?z" by (rule cstr_id)
  have date: "strptime (cstr (take (length ?d) (?d @ '' UT = '' @ ?l @ CHR '' '' # ?z))) = t"
    using strptime_show_date[OF wd t] cstr_id[OF show_date_nul[OF wd t]] by simp
  show ?thesis
    unfolding read_line_def Let_def l1 ut option.case l2 drop_local_date[OF ld] z date
    by (simp split: option.split)
qed

text \<open>
  a line in the format of \<^verbatim>\<open>zdump -v\<close> whose zone abbreviation has one to four characters,
  for a date from 1971 to 2037, adds exactly the instant of its UTC date with its offset to
  the table; an abbreviation of five or more characters, such as \<^verbatim>\<open>+0530\<close>, does not fit
  \<^verbatim>\<open>char timeZone[5]\<close> and overflows it.
\<close>

theorem zdump_line_read:
  assumes "CHR '' '' \<notin> set tz" and "wd < 7" and "tm_ok t"
    and "\<forall>w \<in> {lwd, mon, tim, year}. CHR '' '' \<notin> set w" "d2 \<noteq> CHR '' ''"
    and "abbr \<noteq> []" "\<forall>c \<in> set abbr. \<not> isspace c \<and> c \<noteq> nul"
    and "70 < tm_year t" "tm_year t < 138"
  shows "read_lines [zdump_line tz wd t (local_date lwd mon d1 d2 tim year) abbr dst off] m =
    (if length abbr \<le> 4 then Some (omap_put (timegm t) off m) else None)"
proof (cases "length abbr \<le> 4")
  case True
  then have "scan_zone (abbr @ '' isdst='' @ (if dst then ''1'' else ''0'') @ '' gmtoff='' @ show_int off)
    = Some off"
    using assms(6,7) by (intro scan_zone_shape) (auto simp: timeZone_size_def)
  with True assms(8,9) show ?thesis
    by (simp only: read_lines.simps read_line_shape[OF assms(1-7)] option.map option.case prod.case if_True)
next
  case False
  have "takeWhile (\<lambda>c. \<not> isspace c) (abbr @ CHR '' '' # r) = abbr" for r
    using assms(7) takeWhile_all_append[of "\<lambda>c. \<not> isspace c" abbr "CHR '' '' # r"]
    by (auto simp: list_all_iff)
  moreover have "skip_space (abbr @ r) = abbr @ r" for r
    using assms(6,7) by (cases abbr) (auto simp: skip_space_def)
  ultimately have "scan_zone (abbr @ '' isdst='' @ (if dst then ''1'' else ''0'') @ '' gmtoff='' @ show_int off)
    = None"
    using False assms(6) by (simp add: scan_zone_def Let_def timeZone_size_def)
  with False show ?thesis
    by (simp only: read_lines.simps read_line_shape[OF assms(1-7)] option.map option.case if_False)
qed

lemma zdump_line_read_witness:
  "read_lines [zdump_line ''Asia/Kolkata'' 2
      \<lparr>tm_sec = 7, tm_min = 14, tm_hour = 3, tm_mday = 19, tm_mon = 0, tm_year = 137\<rparr>
      (local_date ''Mon'' ''Jan'' CHR ''1'' CHR ''9'' ''08:44:07'' ''2037'') ''+0530'' False 19800] [] = None"
  using zdump_line_read[of "''Asia/Kolkata''" 2
      "\<lparr>tm_sec = 7, tm_min = 14, tm_hour = 3, tm_mday = 19, tm_mon = 0, tm_year = 137\<rparr>"
      "''Mon''" "''Jan''" "''08:44:07''" "''2037''" "CHR ''9''" "''+0530''" "CHR ''1''" False 19800 "[]"]
  by (simp add: tm_ok_def isspace_def nul_def)

end
