(* ===== verification/Analytics_Events.thy ===== *)
theory Analytics_Events
  imports Analytics_SystemTime "HOL-Library.List_Lexorder" "HOL-Library.Char_ord"
begin

text \<open>
  \<^verbatim>\<open>Analytics/Implementation/AnalyticsImplementation\<close>: accepting events, the action thread that
  stamps and forwards them, and the mapping of event names.

  The record \<open>analytics\<close> holds the object's queues, flags and tables; what the first backend was
  handed is the log \<open>an_sent\<close>, what was given up because there was no backend \<open>an_dropped\<close>.
  \<open>SendEvent\<close>, \<open>Configure\<close> and one iteration of \<open>ActionLoop\<close> are the operations; the clocks, the
  event map file and the backend library are parameters.  Time stamps are 64-bit words.
\<close>

section \<open>Data\<close>

record an_event =
  eventName :: string
  eventVersion :: string
  eventSource :: string
  eventSourceVersion :: string
  cetList :: "string list"
  epochTimestamp :: "64 word"
  uptimeTimestamp :: "64 word"
  appId :: string
  eventPayload :: string
  additionalContext :: string

text \<open>\<^verbatim>\<open>Action\<close>: the payload is present exactly in the actions that send an event.\<close>

datatype action =
    ACTION_TYPE_UNDEF
  | ACTION_POPULATE_TIME_INFO
  | ACTION_TYPE_SEND_EVENT an_event
  | ACTION_TYPE_SHUTDOWN
  | ACTION_TYPE_SET_TIME_READY

record map_key =
  key_eventName :: string
  key_eventSource :: string
  key_eventSourceVersion :: string
  key_eventVersion :: string

type_synonym event_map = "(map_key \<times> string) list"

record backend_event =
  be_eventName :: string
  be_eventVersion :: string
  be_eventSource :: string
  be_eventSourceVersion :: string
  be_cetList :: "string list"
  be_epochTimestamp :: "64 word"
  be_appId :: string
  be_eventPayload :: string
  be_additionalContext :: string

record analytics =
  mActionQueue :: "action list"
  mEventQueue :: "an_event list"
  mBackends :: "(string, unit) omap"
  mSysTimeValid :: bool
  mEventMapper :: event_map
  an_running :: bool
  an_sent :: "(string \<times> backend_event) list"
  an_dropped :: "backend_event list"

definition Analytics_init :: analytics where
  "Analytics_init = \<lparr> mActionQueue = [], mEventQueue = [], mBackends = [], mSysTimeValid = False,
     mEventMapper = [], an_running = True, an_sent = [], an_dropped = [] \<rparr>"

definition an_push :: "action \<Rightarrow> analytics \<Rightarrow> analytics" where
  "an_push a an = an\<lparr>mActionQueue := mActionQueue an @ [a]\<rparr>"

definition an_pop :: "analytics \<Rightarrow> (action \<times> analytics) option" where
  "an_pop an = (case mActionQueue an of [] \<Rightarrow> None | a # q \<Rightarrow> Some (a, an\<lparr>mActionQueue := q\<rparr>))"

definition Analytics_destroy :: "analytics \<Rightarrow> analytics" where
  "Analytics_destroy an = an_push ACTION_TYPE_SHUTDOWN an"

section \<open>Accepting an event\<close>

text \<open>\<open>uptime\<close> is what \<^verbatim>\<open>GetCurrentUptimeInMs\<close> reads, should it be needed.\<close>

definition SendEvent ::
  "string \<Rightarrow> string \<Rightarrow> string \<Rightarrow> string \<Rightarrow> string list option \<Rightarrow> 64 word \<Rightarrow> 64 word \<Rightarrow> string \<Rightarrow> string \<Rightarrow>
   string \<Rightarrow> 64 word \<Rightarrow> analytics \<Rightarrow> hresult \<times> analytics" where
  "SendEvent name version source sourceVersion cets epoch up app payload context uptime an =
     (let event = \<lparr> eventName = name, eventVersion = version, eventSource = source,
            eventSourceVersion = sourceVersion,
            cetList = (case cets of None \<Rightarrow> [] | Some l \<Rightarrow> l),
            epochTimestamp = epoch, uptimeTimestamp = up, appId = app, eventPayload = payload,
            additionalContext = context \<rparr>;
          valid = (name \<noteq> [] \<and> source \<noteq> [] \<and> sourceVersion \<noteq> [] \<and> payload \<noteq> [])
      in if \<not> valid then (ERROR_GENERAL, an)
         else
           let event = (if epochTimestamp event = 0 \<and> uptimeTimestamp event = 0
                        then event\<lparr>uptimeTimestamp := uptime\<rparr> else event)
           in (ERROR_NONE, an_push (ACTION_TYPE_SEND_EVENT event) an))"

section \<open>Mapping event names\<close>

fun EventMapper_entries :: "json_lib \<Rightarrow> json list \<Rightarrow> event_map \<Rightarrow> event_map" where
  "EventMapper_entries lib [] m = m"
| "EventMapper_entries lib (v # array) m =
     (let entry = js_Object lib v in
      if HasLabel entry ''event_name'' \<and> HasLabel entry ''event_source'' \<and>
         HasLabel entry ''mapped_event_name''
      then
        let key = \<lparr> key_eventName = js_String lib (jget entry ''event_name''),
                    key_eventSource = js_String lib (jget entry ''event_source''),
                    key_eventSourceVersion = (if HasLabel entry ''event_source_version''
                       then js_String lib (jget entry ''event_source_version'') else []),
                    key_eventVersion = (if HasLabel entry ''event_version''
                       then js_String lib (jget entry ''event_version'') else []) \<rparr>
        in EventMapper_entries lib array
             (AList.update key (js_String lib (jget entry ''mapped_event_name'')) m)
      else EventMapper_entries lib array m)"

definition EventMapper_FromString :: "json_lib \<Rightarrow> string \<Rightarrow> event_map \<Rightarrow> event_map" where
  "EventMapper_FromString lib jsonArrayStr m =
     (if jsonArrayStr = [] then m
      else let array = js_ArrayFromString lib jsonArrayStr in
           if length array = 0 then m else EventMapper_entries lib array m)"

definition MapEventNameIfNeeded ::
  "event_map \<Rightarrow> string \<Rightarrow> string \<Rightarrow> string \<Rightarrow> string \<Rightarrow> string" where
  "MapEventNameIfNeeded m name source sourceVersion version =
     (if m = [] then name
      else
        let key = (\<lambda>sv v. \<lparr> key_eventName = name, key_eventSource = source,
                             key_eventSourceVersion = sv, key_eventVersion = v \<rparr>)
        in case map_of m (key sourceVersion version) of
             Some mapped \<Rightarrow> mapped
           | None \<Rightarrow>
        (case (if version \<noteq> [] then map_of m (key sourceVersion []) else None) of
             Some mapped \<Rightarrow> mapped
           | None \<Rightarrow>
        (case (if sourceVersion \<noteq> [] then map_of m (key [] version) else None) of
             Some mapped \<Rightarrow> mapped
           | None \<Rightarrow>
        (case (if sourceVersion \<noteq> [] \<or> version \<noteq> [] then map_of m (key [] []) else None) of
             Some mapped \<Rightarrow> mapped
           | None \<Rightarrow> name))))"

definition ParseEventsMapFile ::
  "json_lib \<Rightarrow> (string \<Rightarrow> string) \<Rightarrow> string \<Rightarrow> analytics \<Rightarrow> analytics" where
  "ParseEventsMapFile lib readFile eventsMapFile an =
     (if eventsMapFile = [] then an
      else an\<lparr>mEventMapper := EventMapper_FromString lib (readFile eventsMapFile) (mEventMapper an)\<rparr>)"

section \<open>Configuration\<close>

text \<open>
  \<open>sysTime\<close>: whether the SystemTime object could be allocated; \<open>(eventsMap, backendLib)\<close>: the
  parsed configuration line; \<open>load\<close>: the result of loading the library and, when it gives one,
  the backend's name and the result of configuring it.
\<close>

definition Configure ::
  "json_lib \<Rightarrow> (string \<Rightarrow> string) \<Rightarrow> bool \<Rightarrow> string \<times> string \<Rightarrow>
   (string \<Rightarrow> hresult \<times> (string \<times> hresult) option) \<Rightarrow> analytics \<Rightarrow> hresult \<times> analytics" where
  "Configure lib readFile sysTime config load an =
     (if \<not> sysTime then (ERROR_GENERAL, an)
      else
        let (eventsMap, backendLib) = config;
            an = ParseEventsMapFile lib readFile eventsMap an;
            (ret, backend) = load backendLib
        in if ret \<noteq> ERROR_NONE then (ERROR_NONE, an)
           else case backend of
                  None \<Rightarrow> (ERROR_GENERAL, an)
                | Some (name, configured) \<Rightarrow>
                    let an = an\<lparr>mBackends := omap_put name () (mBackends an)\<rparr> in
                    (if configured \<noteq> ERROR_NONE then ERROR_GENERAL else ERROR_NONE, an))"

section \<open>The action thread\<close>

definition ConvertUptimeToTimestampInMs :: "64 word \<Rightarrow> 64 word \<Rightarrow> 64 word \<Rightarrow> 64 word" where
  "ConvertUptimeToTimestampInMs currentUptime currentTimestamp uptimeMs =
     (let uptimeDiff = (if uptimeMs < currentUptime then currentUptime - uptimeMs else 0)
      in currentTimestamp - uptimeDiff)"

definition to_backend :: "event_map \<Rightarrow> an_event \<Rightarrow> backend_event" where
  "to_backend m event =
     \<lparr> be_eventName = MapEventNameIfNeeded m (eventName event) (eventSource event)
         (eventSourceVersion event) (eventVersion event),
       be_eventVersion = eventVersion event, be_eventSource = eventSource event,
       be_eventSourceVersion = eventSourceVersion event, be_cetList = cetList event,
       be_epochTimestamp = epochTimestamp event, be_appId = appId event,
       be_eventPayload = eventPayload event, be_additionalContext = additionalContext event \<rparr>"

definition SendEventToBackend :: "an_event \<Rightarrow> analytics \<Rightarrow> analytics" where
  "SendEventToBackend event an =
     (let backendEvent = to_backend (mEventMapper an) event in
      case mBackends an of
        [] \<Rightarrow> an\<lparr>an_dropped := an_dropped an @ [backendEvent]\<rparr>
      | (name, _) # _ \<Rightarrow> an\<lparr>an_sent := an_sent an @ [(name, backendEvent)]\<rparr>)"

text \<open>
  Stamp an event that has no epoch yet.  A clock reading is the pair of the uptime and the
  time of day, both in milliseconds; each event of a flush reads the clocks anew, the \<open>i\<close>-th
  event sees \<open>clk i\<close>.
\<close>

type_synonym clocks = "64 word \<times> 64 word"

definition stamp :: "clocks \<Rightarrow> an_event \<Rightarrow> an_event" where
  "stamp clk event =
     (if epochTimestamp event = 0
      then event\<lparr>epochTimestamp := ConvertUptimeToTimestampInMs (fst clk) (snd clk) (uptimeTimestamp event)\<rparr>
      else event)"

fun flush :: "(nat \<Rightarrow> clocks) \<Rightarrow> nat \<Rightarrow> an_event list \<Rightarrow> analytics \<Rightarrow> analytics" where
  "flush clk i [] an = an\<lparr>mEventQueue := []\<rparr>"
| "flush clk i (event # rest) an =
     flush clk (Suc i) rest ((SendEventToBackend (stamp (clk i) event) an)\<lparr>mEventQueue := rest\<rparr>)"

text \<open>\<open>sysTime\<close> is what \<^verbatim>\<open>IsSysTimeValid()\<close> returns, should it be called.\<close>

definition run_action :: "bool \<Rightarrow> (nat \<Rightarrow> clocks) \<Rightarrow> action \<Rightarrow> analytics \<Rightarrow> analytics" where
  "run_action sysTime clk action an =
     (case action of
        ACTION_POPULATE_TIME_INFO \<Rightarrow>
          let an = an\<lparr>mSysTimeValid := sysTime\<rparr> in
          if mSysTimeValid an then flush clk 0 (mEventQueue an) an else an
      | ACTION_TYPE_SEND_EVENT event \<Rightarrow>
          if mSysTimeValid an then SendEventToBackend (stamp (clk 0) event) an
          else if epochTimestamp event \<noteq> 0 then SendEventToBackend event an
          else an\<lparr>mEventQueue := mEventQueue an @ [event]\<rparr>
      | ACTION_TYPE_SHUTDOWN \<Rightarrow> an\<lparr>an_running := False\<rparr>
      | ACTION_TYPE_UNDEF \<Rightarrow> an
      | ACTION_TYPE_SET_TIME_READY \<Rightarrow> an)"

text \<open>
  One iteration.  With an empty queue the thread waits for an action; while the time is not
  valid it gives up after \<^verbatim>\<open>POPULATE_DEVICE_INFO_RETRY_MS\<close> and looks at the time instead.
\<close>

definition ActionLoop :: "bool \<Rightarrow> (nat \<Rightarrow> clocks) \<Rightarrow> analytics \<Rightarrow> analytics" where
  "ActionLoop sysTime clk an =
     (if \<not> an_running an then an
      else case an_pop an of
             None \<Rightarrow> if \<not> mSysTimeValid an then run_action sysTime clk ACTION_POPULATE_TIME_INFO an else an
           | Some (action, an) \<Rightarrow> run_action sysTime clk action an)"

text \<open>\<^verbatim>\<open>IsSysTimeValid\<close>, on the object that Configure created; \<open>None\<close> for undefined behaviour.\<close>

definition IsSysTimeValid ::
  "(string \<Rightarrow> string option) \<Rightarrow> int \<Rightarrow> system_time option \<Rightarrow> (bool \<times> system_time option) option" where
  "IsSysTimeValid zdump now mSysTime =
     (case mSysTime of
        None \<Rightarrow> Some (False, None)
      | Some st \<Rightarrow>
          if IsSystemTimeAvailable st then
            (case GetTimeZoneOffset zdump now 0 st of
               None \<Rightarrow> None
             | Some (acc, offset, st) \<Rightarrow> Some (acc = FINAL, Some st))
          else Some (False, Some st))"

section \<open>The object as a machine and as a ledger\<close>

datatype an_op =
    An_send string string string string "string list option" "64 word" "64 word" string string string "64 word"
  | An_configure json_lib "string \<Rightarrow> string" bool "string \<times> string"
      "string \<Rightarrow> hresult \<times> (string \<times> hresult) option"
  | An_loop bool "nat \<Rightarrow> clocks"
  | An_destroy

fun an_step :: "an_op \<Rightarrow> analytics \<Rightarrow> analytics" where
  "an_step (An_send n v s sv c e u a p x up) an = snd (SendEvent n v s sv c e u a p x up an)"
| "an_step (An_configure lib rf st cfg load) an = snd (Configure lib rf st cfg load an)"
| "an_step (An_loop sysTime clk) an = ActionLoop sysTime clk an"
| "an_step An_destroy an = Analytics_destroy an"

definition an_ok :: "analytics \<Rightarrow> bool" where
  "an_ok an =
     ((mSysTimeValid an \<longrightarrow> mEventQueue an = []) \<and>
      (\<forall>event \<in> set (mEventQueue an). epochTimestamp event = 0) \<and>
      (mBackends an = [] \<longrightarrow> an_sent an = []))"

text \<open>What identifies an event whatever its name and stamp become on the way.\<close>

definition content :: "backend_event \<Rightarrow> backend_event" where
  "content b = b\<lparr>be_eventName := [], be_epochTimestamp := 0\<rparr>"

definition event_content :: "an_event \<Rightarrow> backend_event" where
  "event_content e = content (to_backend [] e)"

fun action_events :: "action \<Rightarrow> an_event list" where
  "action_events (ACTION_TYPE_SEND_EVENT e) = [e]"
| "action_events _ = []"

definition an_log :: "analytics \<Rightarrow> backend_event multiset" where
  "an_log an = mset (map (\<lambda>p. content (snd p)) (an_sent an)) + mset (map content (an_dropped an))"

definition an_balance :: "analytics \<Rightarrow> backend_event multiset" where
  "an_balance an =
     mset (map event_content (concat (map action_events (mActionQueue an)))) +
     mset (map event_content (mEventQueue an)) +
     an_log an"

text \<open>The content of what an operation accepts: a call of \<open>SendEvent\<close> with no empty mandatory field.\<close>

fun an_accepted :: "an_op \<Rightarrow> backend_event list" where
  "an_accepted (An_send n v s sv c e u a p x up) =
     (if n \<noteq> [] \<and> s \<noteq> [] \<and> sv \<noteq> [] \<and> p \<noteq> []
      then [\<lparr> be_eventName = [], be_eventVersion = v, be_eventSource = s,
              be_eventSourceVersion = sv, be_cetList = (case c of None \<Rightarrow> [] | Some l \<Rightarrow> l),
              be_epochTimestamp = 0, be_appId = a, be_eventPayload = p, be_additionalContext = x \<rparr>]
      else [])"
| "an_accepted _ = []"

definition an_credit :: "an_op \<Rightarrow> analytics \<Rightarrow> backend_event multiset" where
  "an_credit e an = mset (an_accepted e)"

lemma an_credits: "credits an_step an_credit es an = mset (concat (map an_accepted es))"
  by (induction es arbitrary: an) (simp_all add: an_credit_def)

lemma content_to_backend [simp]: "content (to_backend m e) = event_content e"
  by (simp add: event_content_def content_def to_backend_def)

lemma event_content_stamp [simp]: "event_content (stamp clk e) = event_content e"
  by (simp add: stamp_def event_content_def content_def to_backend_def)

lemma event_content_uptime [simp]: "event_content (e\<lparr>uptimeTimestamp := u\<rparr>) = event_content e"
  by (simp add: event_content_def content_def to_backend_def MapEventNameIfNeeded_def)

lemma SendEventToBackend_fields [simp]:
  "mActionQueue (SendEventToBackend e an) = mActionQueue an"
  "mEventQueue (SendEventToBackend e an) = mEventQueue an"
  "mBackends (SendEventToBackend e an) = mBackends an"
  "mSysTimeValid (SendEventToBackend e an) = mSysTimeValid an"
  "mEventMapper (SendEventToBackend e an) = mEventMapper an"
  "an_running (SendEventToBackend e an) = an_running an"
  by (simp_all add: SendEventToBackend_def Let_def split: list.split)

lemma an_log_updates [simp]:
  "an_log (an\<lparr>mActionQueue := q\<rparr>) = an_log an"
  "an_log (an\<lparr>mEventQueue := eq\<rparr>) = an_log an"
  "an_log (an\<lparr>mBackends := b\<rparr>) = an_log an"
  "an_log (an\<lparr>mSysTimeValid := v\<rparr>) = an_log an"
  "an_log (an\<lparr>mEventMapper := m\<rparr>) = an_log an"
  "an_log (an\<lparr>an_running := r\<rparr>) = an_log an"
  by (simp_all add: an_log_def)

lemma SendEventToBackend_log [simp]:
  "an_log (SendEventToBackend e an) = add_mset (event_content e) (an_log an)"
  by (simp add: an_log_def SendEventToBackend_def Let_def split: list.split)

lemma flush_fields [simp]:
  "mActionQueue (flush clk i es an) = mActionQueue an"
  "mEventQueue (flush clk i es an) = []"
  "mBackends (flush clk i es an) = mBackends an"
  "mSysTimeValid (flush clk i es an) = mSysTimeValid an"
  "mEventMapper (flush clk i es an) = mEventMapper an"
  "an_running (flush clk i es an) = an_running an"
  by (induction clk i es an rule: flush.induct) simp_all

lemma flush_log [simp]:
  "an_log (flush clk i es an) = an_log an + mset (map event_content es)"
  by (induction clk i es an rule: flush.induct) simp_all

lemma ParseEventsMapFile_fields [simp]:
  "mActionQueue (ParseEventsMapFile lib rf f an) = mActionQueue an"
  "mEventQueue (ParseEventsMapFile lib rf f an) = mEventQueue an"
  "mBackends (ParseEventsMapFile lib rf f an) = mBackends an"
  "mSysTimeValid (ParseEventsMapFile lib rf f an) = mSysTimeValid an"
  "an_sent (ParseEventsMapFile lib rf f an) = an_sent an"
  "an_dropped (ParseEventsMapFile lib rf f an) = an_dropped an"
  "an_log (ParseEventsMapFile lib rf f an) = an_log an"
  by (simp_all add: ParseEventsMapFile_def)

lemma Configure_cases:
  "\<exists>an' b. snd (Configure lib rf st cfg load an) = an'\<lparr>mBackends := b\<rparr> \<and>
     (an' = an \<or> an' = ParseEventsMapFile lib rf (fst cfg) an) \<and> (b = [] \<longrightarrow> mBackends an = [])"
proof -
  let ?p = "ParseEventsMapFile lib rf (fst cfg) an"
  have self2: "?p\<lparr>mBackends := mBackends an\<rparr> = ?p" by (simp add: ParseEventsMapFile_def)
  have "snd (Configure lib rf st cfg load an) = an \<or> snd (Configure lib rf st cfg load an) = ?p \<or>
    (\<exists>name. snd (Configure lib rf st cfg load an) = ?p\<lparr>mBackends := omap_put name () (mBackends ?p)\<rparr>)"
    by (cases cfg; cases "load (snd cfg)"; cases "snd (load (snd cfg))")
       (auto simp: Configure_def Let_def)
  then consider "snd (Configure lib rf st cfg load an) = an" | "snd (Configure lib rf st cfg load an) = ?p"
    | name where "snd (Configure lib rf st cfg load an) = ?p\<lparr>mBackends := omap_put name () (mBackends ?p)\<rparr>"
    by blast
  then show ?thesis
  proof cases
    case 1
    then show ?thesis by (intro exI[of _ an] exI[of _ "mBackends an"]) simp
  next
    case 2
    then show ?thesis by (intro exI[of _ ?p] exI[of _ "mBackends an"]) (simp add: self2)
  next
    case 3
    then show ?thesis
      by (intro exI[of _ ?p] exI[of _ "omap_put name () (mBackends ?p)"]) simp
  qed
qed

lemma SendEvent_result:
  "SendEvent n v s sv c e u a p x up an =
     (if n \<noteq> [] \<and> s \<noteq> [] \<and> sv \<noteq> [] \<and> p \<noteq> []
      then (ERROR_NONE, an_push (ACTION_TYPE_SEND_EVENT
             \<lparr> eventName = n, eventVersion = v, eventSource = s, eventSourceVersion = sv,
               cetList = (case c of None \<Rightarrow> [] | Some l \<Rightarrow> l), epochTimestamp = e,
               uptimeTimestamp = (if e = 0 \<and> u = 0 then up else u), appId = a, eventPayload = p,
               additionalContext = x \<rparr>) an)
      else (ERROR_GENERAL, an))"
  by (simp add: SendEvent_def Let_def)

lemma an_ok_simps:
  "an_ok (an_push a an) = an_ok an"
  "an_ok (an\<lparr>an_running := r\<rparr>) = an_ok an"
  "an_ok (an\<lparr>mActionQueue := q\<rparr>) = an_ok an"
  by (simp_all add: an_ok_def an_push_def)

lemma SendEventToBackend_ok:
  "an_ok an \<Longrightarrow> an_ok (SendEventToBackend e an)"
  by (cases "mBackends an") (auto simp: an_ok_def SendEventToBackend_def Let_def)

lemma flush_sent_no_backend: "mBackends an = [] \<Longrightarrow> an_sent (flush clk i es an) = an_sent an"
  by (induction clk i es an rule: flush.induct) (simp_all add: SendEventToBackend_def Let_def)

lemma run_action_ok [inv_intros]: "an_ok an \<Longrightarrow> an_ok (run_action sysTime clk act an)"
proof (cases act)
  case ACTION_POPULATE_TIME_INFO
  assume "an_ok an"
  with ACTION_POPULATE_TIME_INFO show ?thesis
    using flush_sent_no_backend[of "an\<lparr>mSysTimeValid := True\<rparr>" clk 0 "mEventQueue an"]
    by (auto simp: run_action_def an_ok_def Let_def)
next
  case (ACTION_TYPE_SEND_EVENT e)
  assume "an_ok an"
  with ACTION_TYPE_SEND_EVENT show ?thesis
    by (auto simp: run_action_def SendEventToBackend_ok) (auto simp: an_ok_def)
qed (simp_all add: run_action_def an_ok_simps)

lemma an_step_ok: "an_ok an \<Longrightarrow> an_ok (an_step e an)"
proof (cases e)
  case (An_send n v s sv c e u a p x up)
  assume "an_ok an"
  with An_send show ?thesis by (simp add: SendEvent_result an_ok_simps)
next
  case (An_configure lib rf st cfg load)
  assume "an_ok an"
  with An_configure Configure_cases[of lib rf st cfg load an] show ?thesis
    by (auto simp: an_ok_def)
next
  case (An_loop sysTime clk)
  assume "an_ok an"
  with An_loop show ?thesis
    by (auto simp: ActionLoop_def an_pop_def an_ok_simps intro!: run_action_ok
        split: option.split list.split)
qed (simp add: Analytics_destroy_def an_ok_simps)

lemma run_action_balance:
  "an_balance (run_action sysTime clk act an) =
   an_balance an + mset (map event_content (action_events act))"
  by (cases act) (auto simp: run_action_def an_balance_def Let_def)

lemma an_step_balance: "an_balance (an_step e an) = an_balance an + an_credit e an"
proof (cases e)
  case (An_send n v s sv c e u a p x up)
  then show ?thesis
    by (auto simp: an_credit_def SendEvent_result an_balance_def an_push_def event_content_def content_def to_backend_def)
next
  case (An_configure lib rf st cfg load)
  with Configure_cases[of lib rf st cfg load an] show ?thesis
    by (auto simp: an_balance_def an_credit_def)
next
  case (An_loop sysTime clk)
  then show ?thesis
    by (cases "mActionQueue an")
       (auto simp: an_credit_def ActionLoop_def an_pop_def run_action_balance, auto simp: an_balance_def)
qed (simp add: an_credit_def Analytics_destroy_def an_balance_def an_push_def)

interpretation an_queue: work_queue mActionQueue an_push an_pop
  by unfold_locales (auto simp: an_push_def an_pop_def)

interpretation an_ledger: ledger an_step an_ok an_balance an_credit
  by unfold_locales (auto simp: an_step_ok an_step_balance)


section \<open>Properties\<close>

lemma Analytics_init_ok: "an_ok Analytics_init"
  by (simp add: an_ok_def Analytics_init_def)

lemma reachable_ok: "an_ok (fold an_step es Analytics_init)"
  by (rule an_ledger.run_inv[OF Analytics_init_ok])


text \<open>
  C10: in every reachable state the events that wait for the time have no epoch stamp, and once
  the time is valid none waits; nothing has been handed to a backend that does not exist.
\<close>

theorem waiting_events_invariant:
  assumes "an = fold an_step es Analytics_init"
  shows "(mSysTimeValid an \<longrightarrow> mEventQueue an = []) \<and>
    (\<forall>event \<in> set (mEventQueue an). epochTimestamp event = 0) \<and>
    (mBackends an = [] \<longrightarrow> an_sent an = [])"
  using reachable_ok[of es] unfolding assms an_ok_def .

lemma waiting_events_invariant_witness:
  "length (mEventQueue (fold an_step
     [An_send ''n'' [] ''s'' ''1'' None 0 5 [] ''p'' [] 9, An_loop False (\<lambda>_. (0, 0))] Analytics_init)) = 1 \<and>
   \<not> mSysTimeValid (fold an_step
     [An_send ''n'' [] ''s'' ''1'' None 0 5 [] ''p'' [] 9, An_loop False (\<lambda>_. (0, 0))] Analytics_init)"
proof -
  let ?an = "fold an_step
     [An_send ''n'' [] ''s'' ''1'' None 0 5 [] ''p'' [] 9, An_loop False (\<lambda>_. (0, 0))] Analytics_init"
  have "length (mEventQueue ?an) = 1"
    by (simp add: SendEvent_result an_push_def ActionLoop_def an_pop_def run_action_def Analytics_init_def)
  with waiting_events_invariant[OF refl, of "[An_send ''n'' [] ''s'' ''1'' None 0 5 [] ''p'' [] 9,
      An_loop False (\<lambda>_. (0, 0))]"]
  show ?thesis by force
qed


lemma flush_sent:
  assumes "mBackends an = (name, u) # bs"
  shows "flush clk i es an = an\<lparr>mEventQueue := [],
     an_sent := an_sent an @ map (\<lambda>(j, e). (name, to_backend (mEventMapper an) (stamp (clk j) e)))
       (enumerate i es)\<rparr>"
  using assms
proof (induction clk i es an rule: flush.induct)
  case (2 clk i event rest an)
  then show ?case by (simp add: SendEventToBackend_def Let_def)
qed simp

text \<open>
  when the action queue is idle and the time has become valid, one iteration hands every
  waiting event to the first backend, in the order of their arrival and stamped with the time
  at which it happened, and nothing else changes.
\<close>

theorem flush_in_order:
  assumes "an_running an" and "mActionQueue an = []" and "\<not> mSysTimeValid an"
    and "mBackends an = (name, u) # bs"
  shows "ActionLoop True clk an = an\<lparr>mSysTimeValid := True, mEventQueue := [],
     an_sent := an_sent an @ map (\<lambda>(j, e). (name, to_backend (mEventMapper an) (stamp (clk j) e)))
       (enumerate 0 (mEventQueue an))\<rparr>"
  using assms flush_sent[of "an\<lparr>mSysTimeValid := True\<rparr>" name u bs clk 0 "mEventQueue an"]
  by (simp add: ActionLoop_def an_pop_def run_action_def)

definition sample_event :: "64 word \<Rightarrow> an_event" where
  "sample_event u = \<lparr> eventName = ''boot'', eventVersion = [], eventSource = ''sys'',
     eventSourceVersion = ''1'', cetList = [], epochTimestamp = 0, uptimeTimestamp = u, appId = [],
     eventPayload = ''p'', additionalContext = [] \<rparr>"

lemma flush_in_order_witness:
  "map (be_epochTimestamp \<circ> snd) (an_sent (ActionLoop True (\<lambda>i. (5000, 1000000))
     (Analytics_init\<lparr>mBackends := [(''b'', ())], mEventQueue := [sample_event 1000, sample_event 6000]\<rparr>))) =
   [996000, 1000000]"
  using flush_in_order[of "Analytics_init\<lparr>mBackends := [(''b'', ())],
      mEventQueue := [sample_event 1000, sample_event 6000]\<rparr>" "''b''" "()" "[]" "\<lambda>i. (5000, 1000000)"]
  by (simp add: Analytics_init_def sample_event_def to_backend_def stamp_def
      ConvertUptimeToTimestampInMs_def Let_def)

lemma step_backends: "mBackends an \<noteq> [] \<Longrightarrow> mBackends (an_step e an) \<noteq> []"
proof (cases e)
  case (An_configure lib rf st cfg load)
  assume "mBackends an \<noteq> []"
  with An_configure Configure_cases[of lib rf st cfg load an] show ?thesis by auto
next
  case (An_loop sysTime clk)
  assume "mBackends an \<noteq> []"
  with An_loop show ?thesis
    by (auto simp: ActionLoop_def an_pop_def run_action_def Let_def split: option.split list.split action.split)
qed (auto simp: SendEvent_result Analytics_destroy_def an_push_def)

lemma SendEventToBackend_kept: "mBackends an \<noteq> [] \<Longrightarrow> an_dropped (SendEventToBackend e an) = an_dropped an"
  by (simp add: SendEventToBackend_def Let_def split: list.split)

lemma flush_kept: "mBackends an \<noteq> [] \<Longrightarrow> an_dropped (flush clk i es an) = an_dropped an"
  by (induction clk i es an rule: flush.induct) (simp_all add: SendEventToBackend_kept)

lemma run_action_kept:
  "mBackends an \<noteq> [] \<Longrightarrow> an_dropped (run_action sysTime clk act an) = an_dropped an"
  by (simp add: run_action_def Let_def flush_kept SendEventToBackend_kept split: action.split)

lemma step_kept: "mBackends an \<noteq> [] \<Longrightarrow> an_dropped (an_step e an) = an_dropped an"
proof (cases e)
  case (An_configure lib rf st cfg load)
  with Configure_cases[of lib rf st cfg load an] show ?thesis by auto
next
  case (An_loop sysTime clk)
  assume "mBackends an \<noteq> []"
  with An_loop show ?thesis
    by (auto simp: ActionLoop_def an_pop_def run_action_kept split: option.split list.split)
qed (auto simp: SendEvent_result Analytics_destroy_def an_push_def)

lemma loop_drains:
  assumes "an_running an" and "ACTION_TYPE_SHUTDOWN \<notin> set (mActionQueue an)"
  shows "an_running ((ActionLoop b clk ^^ length (mActionQueue an)) an) \<and>
    mActionQueue ((ActionLoop b clk ^^ length (mActionQueue an)) an) = [] \<and>
    mBackends ((ActionLoop b clk ^^ length (mActionQueue an)) an) = mBackends an"
  using assms
proof (induction "mActionQueue an" arbitrary: an)
  case (Cons act q)
  have r: "an_running (run_action b clk act an') = an_running an'"
    "mActionQueue (run_action b clk act an') = mActionQueue an'"
    "mBackends (run_action b clk act an') = mBackends an'" for an'
  proof -
    have "act \<noteq> ACTION_TYPE_SHUTDOWN" using Cons(2,4) by (metis list.set_intros(1))
    then show "an_running (run_action b clk act an') = an_running an'"
      "mActionQueue (run_action b clk act an') = mActionQueue an'"
      "mBackends (run_action b clk act an') = mBackends an'"
      by (cases act; simp add: run_action_def Let_def)+
  qed
  let ?an = "ActionLoop b clk an"
  have st: "?an = run_action b clk act (an\<lparr>mActionQueue := q\<rparr>)"
    using Cons(3) unfolding ActionLoop_def an_pop_def Cons(2)[symmetric] by simp
  have "q = mActionQueue ?an" "an_running ?an" "ACTION_TYPE_SHUTDOWN \<notin> set (mActionQueue ?an)"
    "mBackends ?an = mBackends an"
    using Cons(2-4) by (simp_all add: st r) (metis list.set_intros(2))
  with Cons(1)[of ?an] Cons(2) show ?case
    by (metis funpow_swap1 length_Cons funpow_simps_right(2) comp_apply)
qed simp



section \<open>Time stamps\<close>

text \<open>
  an event that happened \<open>d\<close> milliseconds ago is stamped \<open>d\<close> before now; an uptime that is
  not in the past is stamped now.  The stamp is below the current time and never wraps, as
  long as the device has not been up for longer than the clock counts from the epoch.
\<close>

theorem ConvertUptime_spec:
  assumes "unat currentUptime \<le> unat currentTimestamp"
  shows "unat (ConvertUptimeToTimestampInMs currentUptime currentTimestamp uptimeMs) =
    unat currentTimestamp - (unat currentUptime - unat uptimeMs)"
proof (cases "uptimeMs < currentUptime")
  case True
  then have d: "unat (currentUptime - uptimeMs) = unat currentUptime - unat uptimeMs"
    by (simp add: unat_sub less_imp_le)
  then have "currentUptime - uptimeMs \<le> currentTimestamp"
    using assms by (simp add: word_le_nat_alt)
  with True d show ?thesis by (simp add: ConvertUptimeToTimestampInMs_def Let_def unat_sub)
next
  case False
  then show ?thesis by (simp add: ConvertUptimeToTimestampInMs_def Let_def word_less_nat_alt)
qed

lemma ConvertUptime_spec_witness:
  "unat (ConvertUptimeToTimestampInMs 5000 1000000 1000) = 996000"
  using ConvertUptime_spec[of 5000 1000000 1000] by simp

section \<open>The event map\<close>

definition lookup_order :: "string \<Rightarrow> string \<Rightarrow> (string \<times> string) list" where
  "lookup_order sv v = [(sv, v), (sv, []), ([], v), ([], [])]"

text \<open>
  the name an event is mapped to is that of the first hit among: the exact entry, the
  entry without the event version, the one without the source version, the one with neither;
  an event without any hit keeps its name.  Skipping the searches that cannot find anything
  new does not change the result.
\<close>

theorem MapEventName_first_hit:
  "MapEventNameIfNeeded m name source sv v =
     (let lookup = (\<lambda>(sv, v). map_of m \<lparr> key_eventName = name, key_eventSource = source,
                                     key_eventSourceVersion = sv, key_eventVersion = v \<rparr>)
      in case List.find (\<lambda>k. lookup k \<noteq> None) (lookup_order sv v) of
           Some k \<Rightarrow> the (lookup k)
         | None \<Rightarrow> name)"
proof (cases "m = []")
  case True
  then show ?thesis by (simp add: MapEventNameIfNeeded_def lookup_order_def)
next
  case False
  then show ?thesis
    by (cases "sv = []"; cases "v = []")
       (auto simp: MapEventNameIfNeeded_def lookup_order_def Let_def split: option.split)
qed

definition entry_key :: "json_lib \<Rightarrow> jobject \<Rightarrow> map_key option" where
  "entry_key lib entry =
     (if HasLabel entry ''event_name'' \<and> HasLabel entry ''event_source'' \<and>
         HasLabel entry ''mapped_event_name''
      then Some \<lparr> key_eventName = js_String lib (jget entry ''event_name''),
             key_eventSource = js_String lib (jget entry ''event_source''),
             key_eventSourceVersion = (if HasLabel entry ''event_source_version''
                then js_String lib (jget entry ''event_source_version'') else []),
             key_eventVersion = (if HasLabel entry ''event_version''
                then js_String lib (jget entry ''event_version'') else []) \<rparr>
      else None)"

lemma EventMapper_entries_step:
  "EventMapper_entries lib (v # array) m =
   EventMapper_entries lib array
     (case entry_key lib (js_Object lib v) of
        None \<Rightarrow> m
      | Some k \<Rightarrow> AList.update k (js_String lib (jget (js_Object lib v) ''mapped_event_name'')) m)"
  by (simp add: entry_key_def Let_def)

text \<open>
  reading the events map file, the last complete entry for a key decides what it is
  mapped to; incomplete entries are ignored, and keys without an entry keep their mapping.
\<close>

theorem EventMapper_last_entry:
  "map_of (EventMapper_FromString lib str m) key =
     (if str = [] then map_of m key
      else case List.find (\<lambda>v. entry_key lib (js_Object lib v) = Some key)
                  (rev (js_ArrayFromString lib str)) of
             Some v \<Rightarrow> Some (js_String lib (jget (js_Object lib v) ''mapped_event_name''))
           | None \<Rightarrow> map_of m key)"
proof -
  have find_append: "List.find P (xs @ ys) = (case List.find P xs of None \<Rightarrow> List.find P ys | Some x \<Rightarrow> Some x)"
    for P :: "json \<Rightarrow> bool" and xs ys by (induction xs) auto
  have "map_of (EventMapper_entries lib array m) key =
     (case List.find (\<lambda>v. entry_key lib (js_Object lib v) = Some key) (rev array) of
        Some v \<Rightarrow> Some (js_String lib (jget (js_Object lib v) ''mapped_event_name''))
      | None \<Rightarrow> map_of m key)" for array
  proof (induction array arbitrary: m)
    case (Cons v array)
    then show ?case
      unfolding EventMapper_entries_step
      by (cases "entry_key lib (js_Object lib v)")
         (auto simp: find_append update_conv' split: option.split)
  qed simp
  then show ?thesis by (simp add: EventMapper_FromString_def Let_def)
qed

end
