(* ===== verification/Analytics_Store.thy ===== *)
theory Analytics_Store
  imports Utils_Strings
begin

text \<open>
  \<^verbatim>\<open>Analytics/Implementation/LocalStore\<close>: the store of the Analytics backends.
  \<open>db_connection\<close> is a \<^verbatim>\<open>DatabaseConnection\<close> and \<open>local_store\<close> a \<^verbatim>\<open>LocalStore\<close>.  The database
  library (sqlite) is the parameter \<open>db_lib\<close>, acting on a world \<^verbatim>\<open>'w\<close>: opening yields a status
  and a handle, closing a status, a query a status and rows of named values.
\<close>

type_synonym handle = nat
type_synonym db_row = "(string \<times> string) list"

record 'w db_lib =
  DB_OPEN :: "string \<Rightarrow> 'w \<Rightarrow> int \<times> handle option \<times> 'w"
  DB_CLOSE :: "handle \<Rightarrow> 'w \<Rightarrow> int \<times> 'w"
  DB_QUERY :: "handle \<Rightarrow> string \<Rightarrow> 'w \<Rightarrow> int \<times> (string \<times> string option) list list \<times> 'w"
  DB_CHANGES :: "handle \<Rightarrow> 'w \<Rightarrow> int"

definition DB_OK :: int where "DB_OK = 0"

record db_connection =
  mDatabaseName :: string
  mDataBaseHandle :: "handle option"

definition new_connection :: db_connection where
  "new_connection = \<lparr> mDatabaseName = [], mDataBaseHandle = None \<rparr>"

definition IsConnected :: "db_connection \<Rightarrow> bool" where
  "IsConnected c = (mDataBaseHandle c \<noteq> None)"

section \<open>DatabaseConnection\<close>

definition DisConnect :: "'w db_lib \<Rightarrow> db_connection \<Rightarrow> 'w \<Rightarrow> bool \<times> db_connection \<times> 'w" where
  "DisConnect db c w =
     (case mDataBaseHandle c of
        None \<Rightarrow> (False, c, w)
      | Some h \<Rightarrow>
          let (queryRet, w) = DB_CLOSE db h w in
          if DB_OK = queryRet then (True, c\<lparr>mDatabaseName := [], mDataBaseHandle := None\<rparr>, w)
          else (False, c, w))"

text \<open>
  \<^verbatim>\<open>DisConnect() != DB_OK\<close> compares the boolean result, converted to an integer, with the
  status code 0.
\<close>

definition open_database :: "'w db_lib \<Rightarrow> string \<Rightarrow> db_connection \<Rightarrow> 'w \<Rightarrow> bool \<times> db_connection \<times> 'w" where
  "open_database db databaseName c w =
     (let (queryRet, h, w) = DB_OPEN db databaseName w;
          c = c\<lparr>mDatabaseName := databaseName, mDataBaseHandle := h\<rparr>
      in (DB_OK = queryRet, c, w))"

definition Connect :: "'w db_lib \<Rightarrow> string \<Rightarrow> db_connection \<Rightarrow> 'w \<Rightarrow> bool \<times> db_connection \<times> 'w" where
  "Connect db databaseName c w =
     (if databaseName = [] then (False, c, w)
      else if mDataBaseHandle c \<noteq> None then
        let (closed, c, w) = DisConnect db c w in
        if (of_bool closed :: int) \<noteq> DB_OK then (False, c, w) else open_database db databaseName c w
      else open_database db databaseName c w)"

definition Exec :: "'w db_lib \<Rightarrow> string \<Rightarrow> db_connection \<Rightarrow> 'w \<Rightarrow> bool \<times> 'w" where
  "Exec db query c w =
     (case mDataBaseHandle c of
        None \<Rightarrow> (False, w)
      | Some h \<Rightarrow> let (queryRet, rows, w) = DB_QUERY db h query w in (DB_OK = queryRet, w))"

definition ExecAndGetModified ::
  "'w db_lib \<Rightarrow> string \<Rightarrow> int \<Rightarrow> db_connection \<Rightarrow> 'w \<Rightarrow> bool \<times> int \<times> 'w" where
  "ExecAndGetModified db query modifiedRows c w =
     (case mDataBaseHandle c of
        None \<Rightarrow> (False, modifiedRows, w)
      | Some h \<Rightarrow>
          let (queryRet, rows, w) = DB_QUERY db h query w in
          if DB_OK = queryRet then (True, DB_CHANGES db h w, w) else (False, modifiedRows, w))"

text \<open>\<open>DbCallbackGetResults\<close>: one row of the result; a NULL value becomes the empty string.\<close>

definition DbCallbackGetResults :: "(string \<times> string option) list \<Rightarrow> db_row" where
  "DbCallbackGetResults row = map (\<lambda>(name, v). (name, case v of None \<Rightarrow> [] | Some s \<Rightarrow> s)) row"

definition ExecAndGetResults ::
  "'w db_lib \<Rightarrow> string \<Rightarrow> db_row list \<Rightarrow> db_connection \<Rightarrow> 'w \<Rightarrow> bool \<times> db_row list \<times> 'w" where
  "ExecAndGetResults db query table c w =
     (case mDataBaseHandle c of
        None \<Rightarrow> (False, table, w)
      | Some h \<Rightarrow>
          let (queryRet, rows, w) = DB_QUERY db h query w in
          if DB_OK = queryRet then (True, map DbCallbackGetResults rows, w) else (False, table, w))"

section \<open>LocalStore\<close>

record local_store =
  mDatabaseConnection :: "db_connection option"
  mPath :: string

definition LocalStore_init :: local_store where
  "LocalStore_init = \<lparr> mDatabaseConnection = None, mPath = [] \<rparr>"

definition DB_EXT :: string where "DB_EXT = ''db''"

definition connected :: "local_store \<Rightarrow> bool" where
  "connected ls = (case mDatabaseConnection ls of None \<Rightarrow> False | Some c \<Rightarrow> IsConnected c)"

text \<open>Replacing the shared pointer destroys the previous connection, which closes it.\<close>

definition Open :: "'w db_lib \<Rightarrow> string \<Rightarrow> local_store \<Rightarrow> 'w \<Rightarrow> bool \<times> local_store \<times> 'w" where
  "Open db path ls w =
     (let dbPath = path @ ''.'' @ DB_EXT in
      if mPath ls = dbPath \<and> connected ls then (True, ls, w)
      else
        let (opened, conn, w) = Connect db dbPath new_connection w in
        if opened then
          let w = (case mDatabaseConnection ls of None \<Rightarrow> w | Some old \<Rightarrow> snd (snd (DisConnect db old w)))
          in (True, ls\<lparr>mDatabaseConnection := Some conn, mPath := dbPath\<rparr>, w)
        else
          let (_, _, w) = DisConnect db conn w in (False, ls, w))"

definition exec_connected :: "'w db_lib \<Rightarrow> string \<Rightarrow> local_store \<Rightarrow> 'w \<Rightarrow> bool \<times> 'w" where
  "exec_connected db query ls w =
     (case mDatabaseConnection ls of
        Some c \<Rightarrow> if IsConnected c then Exec db query c w else (False, w)
      | None \<Rightarrow> (False, w))"

definition CreateTable :: "'w db_lib \<Rightarrow> string \<Rightarrow> local_store \<Rightarrow> 'w \<Rightarrow> bool \<times> 'w" where
  "CreateTable db table ls w =
     exec_connected db (''CREATE TABLE IF NOT EXISTS '' @ table @
       '' (id INTEGER PRIMARY KEY AUTOINCREMENT, data TEXT)'') ls w"

definition SetLimit :: "'w db_lib \<Rightarrow> string \<Rightarrow> 32 word \<Rightarrow> local_store \<Rightarrow> 'w \<Rightarrow> bool \<times> 'w" where
  "SetLimit db table limit ls w =
     exec_connected db (''PRAGMA max_page_count = '' @ show_nat (unat limit)) ls w"

definition AddEntry_query :: "string \<Rightarrow> string \<Rightarrow> string" where
  "AddEntry_query table entry =
     ''INSERT INTO '' @ table @ '' (data) VALUES ('' @ [CHR 0x27] @ entry @ [CHR 0x27] @ '')''"

definition AddEntry :: "'w db_lib \<Rightarrow> string \<Rightarrow> string \<Rightarrow> local_store \<Rightarrow> 'w \<Rightarrow> bool \<times> 'w" where
  "AddEntry db table entry ls w = exec_connected db (AddEntry_query table entry) ls w"

definition RemoveEntries ::
  "'w db_lib \<Rightarrow> string \<Rightarrow> 32 word \<Rightarrow> 32 word \<Rightarrow> local_store \<Rightarrow> 'w \<Rightarrow> bool \<times> 'w" where
  "RemoveEntries db table start end_id ls w =
     (case mDatabaseConnection ls of
        Some c \<Rightarrow>
          if IsConnected c then
            let (ok, _, w) = ExecAndGetModified db (''DELETE FROM '' @ table @ '' WHERE id BETWEEN '' @
                  show_nat (unat start) @ '' AND '' @ show_nat (unat end_id)) 0 c w
            in (ok, w)
          else (False, w)
      | None \<Rightarrow> (False, w))"

definition buildGetEventsQuery :: "string \<Rightarrow> 32 word \<Rightarrow> 32 word \<Rightarrow> string" where
  "buildGetEventsQuery table start cnt =
     (if 0 = start then
        ''SELECT * FROM '' @ table @ '' WHERE'' @ '' id>((SELECT MAX(id) FROM '' @ table @ '')-'' @
        show_nat (unat cnt) @ '')''
      else if start \<noteq> 0 \<and> cnt \<noteq> 0 then
        ''SELECT * FROM '' @ table @ '' WHERE'' @ '' id>='' @ show_nat (unat start) @ '' LIMIT '' @
        show_nat (unat cnt)
      else [])"

text \<open>\<open>None\<close>: \<^verbatim>\<open>stoi\<close> throws, or the first row has no column.\<close>

definition GetEntriesCount ::
  "'w db_lib \<Rightarrow> string \<Rightarrow> 32 word \<Rightarrow> 32 word \<Rightarrow> local_store \<Rightarrow> 'w \<Rightarrow> ((32 word \<times> 32 word) \<times> 'w) option" where
  "GetEntriesCount db table start maxCount ls w =
     (case mDatabaseConnection ls of
        None \<Rightarrow> Some ((0, 0), w)
      | Some c \<Rightarrow>
          if \<not> IsConnected c then Some ((0, 0), w)
          else
            let query = buildGetEventsQuery table start maxCount in
            if query = [] then Some ((0, 0), w)
            else
              let (ok, rows, w) = ExecAndGetResults db query [] c w in
              if \<not> ok then Some ((0, 0), w)
              else case rows of
                     [] \<Rightarrow> Some ((0, 0), w)
                   | [] # _ \<Rightarrow> None
                   | ((_, v) # _) # _ \<Rightarrow>
                       (case stoi v of
                          None \<Rightarrow> None
                        | Some i \<Rightarrow> Some ((word_of_int i, word_of_nat (length rows)), w)))"

fun entries_of :: "db_row list \<Rightarrow> string list" where
  "entries_of [] = []"
| "entries_of (row # rows) =
     (if length row < 2 then entries_of rows else snd (row ! 1) # entries_of rows)"

definition GetEntries ::
  "'w db_lib \<Rightarrow> string \<Rightarrow> 32 word \<Rightarrow> 32 word \<Rightarrow> local_store \<Rightarrow> 'w \<Rightarrow> string list \<times> 'w" where
  "GetEntries db table start cnt ls w =
     (case mDatabaseConnection ls of
        None \<Rightarrow> ([], w)
      | Some c \<Rightarrow>
          if \<not> IsConnected c then ([], w)
          else
            let query = buildGetEventsQuery table start cnt in
            if query = [] then ([], w)
            else
              let (ok, rows, w) = ExecAndGetResults db query [] c w in
              if ok then (entries_of rows, w) else ([], w))"

section \<open>Properties\<close>

text \<open>
  connecting while a database is open never succeeds as meant.  When the open database
  closes properly the call gives up without opening the new one and leaves the object
  disconnected; when it fails to close, the new one is opened over it and the open handle is
  lost: the test reads the boolean \<^verbatim>\<open>true\<close> of success as a status code.
\<close>

theorem Connect_when_open:
  assumes "mDataBaseHandle c = Some h" and "name \<noteq> []"
  shows "Connect db name c w =
    (let (status, w') = DB_CLOSE db h w in
     if status = DB_OK then (False, new_connection, w')
     else open_database db name c w')"
proof -
  have "c\<lparr>mDatabaseName := [], mDataBaseHandle := None\<rparr> = new_connection"
    by (simp add: new_connection_def)
  then show ?thesis
    using assms by (cases "DB_CLOSE db h w") (simp add: Connect_def DisConnect_def DB_OK_def Let_def)
qed

definition log_db :: "string list db_lib" where
  "log_db = \<lparr> DB_OPEN = (\<lambda>n w. (0, Some (length w), w @ [n])), DB_CLOSE = (\<lambda>h w. (0, w @ [''close''])),
     DB_QUERY = (\<lambda>h q w. (0, [], w @ [q])), DB_CHANGES = (\<lambda>h w. 0) \<rparr>"

lemma Connect_when_open_witness:
  "Connect log_db ''b.db'' \<lparr>mDatabaseName = ''a.db'', mDataBaseHandle = Some 1\<rparr> [] =
     (False, new_connection, [''close''])"
  using Connect_when_open[of "\<lparr>mDatabaseName = ''a.db'', mDataBaseHandle = Some 1\<rparr>" 1 "''b.db''" log_db "[]"]
  by (simp add: log_db_def DB_OK_def)

definition store_ok :: "local_store \<Rightarrow> bool" where
  "store_ok ls = (mDatabaseConnection ls = None \<and> mPath ls = [] \<or>
     (\<exists>c. mDatabaseConnection ls = Some c \<and> mDatabaseName c = mPath ls))"

text \<open>
  opening a store reports success exactly when the store is then connected to the database
  file of the path, provided the library hands out a handle with every success; opening the same
  path again keeps the connection and does not touch the library, and a failed open keeps the
  store as it was.
\<close>

theorem Open_spec:
  assumes "\<And>n w. fst (DB_OPEN db n w) = DB_OK \<Longrightarrow> fst (snd (DB_OPEN db n w)) \<noteq> None"
    and "store_ok ls" and "Open db path ls w = (ok, ls', w')"
  shows "store_ok ls' \<and> (if ok then connected ls' \<and> mPath ls' = path @ ''.db'' else ls' = ls) \<and>
    (ok \<longrightarrow> Open db path ls' w' = (True, ls', w'))"
proof -
  obtain q h w1 where o: "DB_OPEN db (path @ ''.db'') w = (q, h, w1)" by (cases "DB_OPEN db (path @ ''.db'') w")
  then have h: "q = DB_OK \<Longrightarrow> h \<noteq> None" using assms(1)[of "path @ ''.db''" w] by simp
  show ?thesis
    using assms(2,3) o h
    by (auto simp: Open_def DB_EXT_def Connect_def open_database_def new_connection_def Let_def
        store_ok_def connected_def IsConnected_def case_prod_unfold split: if_splits)
qed

lemma Open_spec_witness:
  "connected (fst (snd (Open log_db ''events'' LocalStore_init [])))"
proof -
  have h: "fst (snd (DB_OPEN log_db n w)) \<noteq> None" for n w by (simp add: log_db_def)
  obtain ok ls' w' where o: "Open log_db ''events'' LocalStore_init [] = (ok, ls', w')"
    by (cases "Open log_db ''events'' LocalStore_init []")
  have "ok" using o
    by (auto simp: Open_def Let_def log_db_def LocalStore_init_def Connect_def open_database_def new_connection_def
        connected_def DB_OK_def)
  with Open_spec[OF h _ o] o show ?thesis by (simp add: store_ok_def LocalStore_init_def)
qed

text \<open>
  without a connection every operation of the store fails or yields nothing, and the
  database library is not called at all.
\<close>

theorem store_disconnected:
  assumes "\<not> connected ls"
  shows "CreateTable db t ls w = (False, w) \<and> SetLimit db t n ls w = (False, w) \<and>
    AddEntry db t e ls w = (False, w) \<and> RemoveEntries db t a b ls w = (False, w) \<and>
    GetEntries db t a b ls w = ([], w) \<and> GetEntriesCount db t a b ls w = Some ((0, 0), w)"
  using assms
  by (auto simp: connected_def CreateTable_def SetLimit_def AddEntry_def RemoveEntries_def GetEntries_def
      GetEntriesCount_def exec_connected_def split: option.splits)

lemma store_disconnected_witness: "AddEntry log_db ''t'' ''e'' LocalStore_init [] = (False, [])"
  using store_disconnected[of LocalStore_init log_db "''t''" "[]" 0 "''e''" 0 0]
  by (simp add: connected_def LocalStore_init_def)

text \<open>
  A text literal of SQL: up to a quote that is not doubled; a doubled quote stands for a quote.
  The argument starts behind the opening quote, the result is the text and what follows.
\<close>

function sql_literal :: "string \<Rightarrow> (string \<times> string) option" where
  "sql_literal [] = None"
| "sql_literal (c # s) =
     (if c \<noteq> CHR 0x27 then map_option (\<lambda>(t, r). (c # t, r)) (sql_literal s)
      else if starts_with [CHR 0x27] s then map_option (\<lambda>(t, r). (c # t, r)) (sql_literal (drop 1 s))
      else Some ([], s))"
  by pat_completeness auto
termination by (relation "measure length") auto

definition values_prefix :: "string \<Rightarrow> string" where
  "values_prefix table = ''INSERT INTO '' @ table @ '' (data) VALUES ('' @ [CHR 0x27]"

lemma sql_literal_length: "sql_literal s = Some (t, r) \<Longrightarrow> length t + length r < length s"
proof (induction s arbitrary: t r rule: sql_literal.induct)
  case (2 c s)
  then show ?case
    by (auto split: if_splits)
qed simp

lemma sql_literal_plain: "CHR 0x27 \<notin> set e \<Longrightarrow> sql_literal (e @ CHR 0x27 # CHR '')'' # r) = Some (e, CHR '')'' # r)"
  by (induction e) auto

text \<open>
  the statement that \<^verbatim>\<open>AddEntry\<close> builds stores exactly the entry if and only if the entry
  contains no quote: the entry is not escaped, so a quote in it ends the literal or loses a
  character.
\<close>

theorem AddEntry_literal:
  "\<exists>rest. AddEntry_query table entry = values_prefix table @ rest \<and>
     (sql_literal rest = Some (entry, '')'') \<longleftrightarrow> CHR 0x27 \<notin> set entry)"
proof (intro exI conjI)
  let ?rest = "entry @ [CHR 0x27] @ '')''"
  show "AddEntry_query table entry = values_prefix table @ ?rest"
    by (simp add: AddEntry_query_def values_prefix_def)
  have "CHR 0x27 \<in> set entry \<Longrightarrow> sql_literal ?rest \<noteq> Some (entry, '')'')"
  proof (induction entry)
    case (Cons c e)
    show ?case
    proof (cases "c = CHR 0x27")
      case True
      show ?thesis
      proof (cases e)
        case (Cons d f)
        show ?thesis
          using True Cons
          by (auto dest: sql_literal_length)
      qed (use True in simp)
    next
      case False
      with Cons show ?thesis by auto
    qed
  qed simp
  then show "sql_literal ?rest = Some (entry, '')'') \<longleftrightarrow> CHR 0x27 \<notin> set entry"
    using sql_literal_plain[of entry "[]"] by auto
qed

end
