(* ===== verification/Web_Bridge.thy ===== *)
theory Web_Bridge
  imports Prelude "HOL-Library.Word"
begin

text \<open>
  \<^verbatim>\<open>WebBridge\<close>: the plugin that forwards JSON-RPC calls to a JavaScript service connected over a
  web socket, routes the answers back to the callers and the events to their observers.

  The record \<open>web_bridge\<close> is the object's state; \<open>wb_submitted\<close> logs what was submitted to a
  channel and \<open>wb_scheduled\<close> when the cleaner was scheduled.  Parsing a designator into call sign,
  version and method, reading a registration and the texts of result codes are the framework's:
  they are the parameter \<open>rpc_lib\<close>.  Times are ticks (natural numbers), channel and request
  identifiers 32-bit words.
\<close>

section \<open>Data\<close>

record message =
  m_JSONRPC :: bool
  m_Id :: "32 word option"
  m_Designator :: string
  m_Parameters :: string
  m_Result :: "string option"
  m_Error :: "(hresult \<times> string) option"

definition new_message :: message where
  "new_message = \<lparr> m_JSONRPC = False, m_Id = None, m_Designator = [], m_Parameters = [],
     m_Result = None, m_Error = None \<rparr>"

record rpc_lib =
  rpc_Callsign :: "string \<Rightarrow> string"
  rpc_Version :: "string \<Rightarrow> 8 word"
  rpc_Method :: "string \<Rightarrow> string"
  rpc_Event :: "string \<Rightarrow> string"
  rpc_Client :: "string \<Rightarrow> string"
  rpc_Strings :: "string \<Rightarrow> string list"
  rpc_Text :: "hresult \<Rightarrow> string"
  rpc_no_id :: "32 word"

type_synonym observer = "32 word \<times> string"
type_synonym observers = "(string \<times> observer list) list"

record request =
  ChannelId :: "32 word"
  SequenceId :: "32 word"
  Issued :: nat

record web_bridge =
  skipURL :: "8 word"
  wb_callsign :: string
  supportedVersions :: "(8 word, string list) omap"
  observers :: observers
  pendingRequests :: "(32 word, request) omap"
  javascriptService :: "32 word"
  sequenceId :: "32 word"
  timeOut :: nat
  wb_submitted :: "(32 word \<times> message) list"
  wb_scheduled :: "nat list"

definition WebBridge_init :: web_bridge where
  "WebBridge_init = \<lparr> skipURL = 0, wb_callsign = [], supportedVersions = [], observers = [],
     pendingRequests = [], javascriptService = 0, sequenceId = 1, timeOut = 0,
     wb_submitted = [], wb_scheduled = [] \<rparr>"

definition Submit :: "32 word \<Rightarrow> message \<Rightarrow> web_bridge \<Rightarrow> web_bridge" where
  "Submit channel m wb = wb\<lparr>wb_submitted := wb_submitted wb @ [(channel, m)]\<rparr>"

definition Schedule :: "nat \<Rightarrow> web_bridge \<Rightarrow> web_bridge" where
  "Schedule t wb = wb\<lparr>wb_scheduled := wb_scheduled wb @ [t]\<rparr>"

definition TicksPerMillisecond :: nat where "TicksPerMillisecond = 1000"

text \<open>\<open>webPrefix\<close>, \<open>callsign\<close>: of the service; \<open>cfgTimeOut\<close>: the configured 16-bit time out.\<close>

definition WebBridge_Initialize :: "string \<Rightarrow> string \<Rightarrow> 16 word \<Rightarrow> web_bridge \<Rightarrow> web_bridge" where
  "WebBridge_Initialize webPrefix callsign cfgTimeOut wb =
     wb\<lparr>skipURL := word_of_nat (length webPrefix), wb_callsign := callsign,
        timeOut := unat cfgTimeOut * TicksPerMillisecond\<rparr>"

definition Attach :: "string \<Rightarrow> 32 word \<Rightarrow> web_bridge \<Rightarrow> bool \<times> web_bridge" where
  "Attach protocol channelId wb =
     (if protocol = ''json'' \<and> javascriptService wb = 0
      then (True, wb\<lparr>javascriptService := channelId\<rparr>) else (False, wb))"

definition Detach :: "32 word \<Rightarrow> web_bridge \<Rightarrow> web_bridge" where
  "Detach channelId wb = wb\<lparr>javascriptService := 0\<rparr>"

section \<open>Where a call goes\<close>

datatype state =
    STATE_INCORRECT_HANDLER
  | STATE_INCORRECT_VERSION
  | STATE_UNKNOWN_METHOD
  | STATE_REGISTRATION
  | STATE_UNREGISTRATION
  | STATE_EXISTS
  | STATE_NONE_EXISTING
  | STATE_CUSTOM

text \<open>\<open>index\<close> is the entry of a version, \<open>None\<close> for \<^verbatim>\<open>cend()\<close>: then any version will do.\<close>

fun any_version :: "(8 word, string list) omap \<Rightarrow> string \<Rightarrow> bool" where
  "any_version [] method = False"
| "any_version ((v, ms) # vs) method = (if method \<in> set ms then True else any_version vs method)"

definition HasMethodSupport :: "string list option \<Rightarrow> string \<Rightarrow> web_bridge \<Rightarrow> bool" where
  "HasMethodSupport index method wb =
     (case index of
        Some methods \<Rightarrow> method \<in> set methods
      | None \<Rightarrow> any_version (supportedVersions wb) method)"

text \<open>\<^verbatim>\<open>static_cast<uint8_t>(~0)\<close> is 255: no version given.  The state and, for \<open>STATE_CUSTOM\<close>, the \<open>handler\<close>.\<close>

definition Destination :: "rpc_lib \<Rightarrow> string \<Rightarrow> web_bridge \<Rightarrow> state \<times> string" where
  "Destination rpc designator wb =
     (let callsign = rpc_Callsign rpc designator in
      if callsign = [] \<or> callsign = wb_callsign wb then
        let version = rpc_Version rpc designator;
            methods = (if version \<noteq> 255 then map_of (supportedVersions wb) version else None)
        in if version \<noteq> 255 \<and> methods = None then (STATE_INCORRECT_VERSION, [])
           else
             let method = rpc_Method rpc designator in
             if method = ''register'' then (STATE_REGISTRATION, [])
             else if method = ''unregister'' then (STATE_UNREGISTRATION, [])
             else if method = ''exists'' then
               (if HasMethodSupport methods method wb then STATE_EXISTS else STATE_NONE_EXISTING, [])
             else if HasMethodSupport methods method wb then (STATE_CUSTOM, method)
             else (STATE_UNKNOWN_METHOD, [])
      else (STATE_INCORRECT_HANDLER, []))"

section \<open>Observers\<close>

text \<open>The new observer list and, for a failure, the error put into the response.\<close>

definition add_observer ::
  "32 word \<Rightarrow> string \<Rightarrow> string \<Rightarrow> observers \<Rightarrow> bool \<times> observers" where
  "add_observer channelId eventName callsign obs =
     (case map_of obs eventName of
        None \<Rightarrow> (True, AList.update eventName [(channelId, callsign)] obs)
      | Some clients \<Rightarrow>
          if (channelId, callsign) \<notin> set clients
          then (True, AList.update eventName (clients @ [(channelId, callsign)]) obs)
          else (False, obs))"

definition remove_observer ::
  "32 word \<Rightarrow> string \<Rightarrow> string \<Rightarrow> observers \<Rightarrow> bool \<times> observers" where
  "remove_observer channelId eventName callsign obs =
     (case map_of obs eventName of
        None \<Rightarrow> (False, obs)
      | Some clients \<Rightarrow>
          if (channelId, callsign) \<in> set clients then
            let clients = remove1 (channelId, callsign) clients in
            (True, if clients = [] then AList.delete eventName obs else AList.update eventName clients obs)
          else (False, obs))"

definition Subscribe ::
  "32 word \<Rightarrow> string \<Rightarrow> string \<Rightarrow> message \<Rightarrow> web_bridge \<Rightarrow> message \<times> web_bridge" where
  "Subscribe channelId eventName callsign response wb =
     (let (done, obs) = add_observer channelId eventName callsign (observers wb) in
      if done then (response\<lparr>m_Result := Some ''0''\<rparr>, wb\<lparr>observers := obs\<rparr>)
      else (response\<lparr>m_Error := Some (ERROR_DUPLICATE_KEY, ''Duplicate registration. Only 1 remains!!!'')\<rparr>, wb))"

definition Unsubscribe ::
  "32 word \<Rightarrow> string \<Rightarrow> string \<Rightarrow> message \<Rightarrow> web_bridge \<Rightarrow> message \<times> web_bridge" where
  "Unsubscribe channelId eventName callsign response wb =
     (let (done, obs) = remove_observer channelId eventName callsign (observers wb);
          response = (if done then response\<lparr>m_Result := Some ''0''\<rparr> else response);
          response = (if m_Result response = None
             then response\<lparr>m_Error := Some (ERROR_UNKNOWN_KEY, ''Registration not found!!!'')\<rparr> else response)
      in (response, wb\<lparr>observers := obs\<rparr>))"

section \<open>Calls\<close>

definition omap_emplace :: "'k::linorder \<Rightarrow> 'v \<Rightarrow> ('k, 'v) omap \<Rightarrow> ('k, 'v) omap" where
  "omap_emplace k v m = (if map_of m k = None then omap_put k v m else m)"

text \<open>\<open>STATE_CUSTOM\<close>: the call is forwarded under a new identifier; nothing is returned yet.\<close>

definition forward ::
  "rpc_lib \<Rightarrow> nat \<Rightarrow> 32 word \<Rightarrow> message \<Rightarrow> message \<Rightarrow> web_bridge \<Rightarrow> web_bridge" where
  "forward rpc now channelId inbound msg wb =
     (let newId = sequenceId wb + 1;
          waitTill = now + timeOut wb;
          callerId = (case m_Id msg of None \<Rightarrow> rpc_no_id rpc | Some i \<Rightarrow> i);
          wb = wb\<lparr>sequenceId := newId,
                  pendingRequests := omap_emplace newId
                    \<lparr>ChannelId = channelId, SequenceId = callerId, Issued = waitTill\<rparr>
                    (pendingRequests wb)\<rparr>;
          msg = msg\<lparr>m_Id := Some newId, m_Parameters := m_Parameters inbound,
                    m_Designator := m_Designator inbound\<rparr>;
          wb = Submit (javascriptService wb) msg wb
      in if timeOut wb \<noteq> 0 then Schedule waitTill wb else wb)"

definition Invoke ::
  "rpc_lib \<Rightarrow> nat \<Rightarrow> 32 word \<Rightarrow> message \<Rightarrow> web_bridge \<Rightarrow> message option \<times> web_bridge" where
  "Invoke rpc now channelId inbound wb =
     (let msg = (case m_Id inbound of
                   None \<Rightarrow> new_message
                 | Some i \<Rightarrow> new_message\<lparr>m_JSONRPC := True, m_Id := Some i\<rparr>)
      in case fst (Destination rpc (m_Designator inbound) wb) of
           STATE_INCORRECT_HANDLER \<Rightarrow>
             (Some (msg\<lparr>m_Error := Some (ERROR_INVALID_DESIGNATOR, ''Destined invoke failed.'')\<rparr>), wb)
         | STATE_INCORRECT_VERSION \<Rightarrow>
             (Some (msg\<lparr>m_Error := Some (ERROR_INVALID_SIGNATURE, ''Requested version is not supported.'')\<rparr>), wb)
         | STATE_UNKNOWN_METHOD \<Rightarrow>
             (Some (msg\<lparr>m_Error := Some (ERROR_UNKNOWN_KEY, ''Unknown method.'')\<rparr>), wb)
         | STATE_REGISTRATION \<Rightarrow>
             (let (msg, wb) = Subscribe channelId (rpc_Event rpc (m_Parameters inbound))
                                (rpc_Client rpc (m_Parameters inbound)) msg wb
              in (Some msg, wb))
         | STATE_UNREGISTRATION \<Rightarrow>
             (let (msg, wb) = Unsubscribe channelId (rpc_Event rpc (m_Parameters inbound))
                                (rpc_Client rpc (m_Parameters inbound)) msg wb
              in (Some msg, wb))
         | STATE_EXISTS \<Rightarrow> (Some (msg\<lparr>m_Result := Some (rpc_Text rpc ERROR_UNKNOWN_KEY)\<rparr>), wb)
         | STATE_NONE_EXISTING \<Rightarrow> (Some (msg\<lparr>m_Result := Some (rpc_Text rpc ERROR_NONE)\<rparr>), wb)
         | STATE_CUSTOM \<Rightarrow> (None, forward rpc now channelId inbound msg wb))"

section \<open>Messages of the service\<close>

fun register_methods ::
  "rpc_lib \<Rightarrow> string list \<Rightarrow> (8 word, string list) omap \<Rightarrow> (8 word, string list) omap" where
  "register_methods rpc [] vs = vs"
| "register_methods rpc (entry # entries) vs =
     (let version = rpc_Version rpc entry; method = rpc_Method rpc entry in
      register_methods rpc entries
        (case map_of vs version of
           None \<Rightarrow> omap_put version [method] vs
         | Some ms \<Rightarrow> if method \<notin> set ms then omap_put version (ms @ [method]) vs else vs))"

definition InternalMessage :: "rpc_lib \<Rightarrow> message \<Rightarrow> web_bridge \<Rightarrow> bool \<times> web_bridge" where
  "InternalMessage rpc msg wb =
     (if rpc_Method rpc (m_Designator msg) = ''registerjsonrpcmethods'' then
        (True, wb\<lparr>supportedVersions := register_methods rpc (rpc_Strings rpc (m_Parameters msg)) []\<rparr>)
      else (False, wb))"

fun notify_observers :: "string \<Rightarrow> string \<Rightarrow> observer list \<Rightarrow> web_bridge \<Rightarrow> web_bridge" where
  "notify_observers eventName params [] wb = wb"
| "notify_observers eventName params ((channel, designator) # obs) wb =
     notify_observers eventName params obs
       (Submit channel
          (new_message\<lparr>m_Designator := (if designator \<noteq> [] then designator @ ''.'' @ eventName else eventName),
                       m_Parameters := params\<rparr>) wb)"

definition omap_erase :: "'k \<Rightarrow> ('k, 'v) omap \<Rightarrow> ('k, 'v) omap" where
  "omap_erase k m = filter (\<lambda>e. fst e \<noteq> k) m"

definition Inbound :: "rpc_lib \<Rightarrow> message \<Rightarrow> web_bridge \<Rightarrow> web_bridge" where
  "Inbound rpc msg wb =
     (case m_Id msg of
        None \<Rightarrow>
          let eventName = rpc_Method rpc (m_Designator msg);
              (internal, wb) = InternalMessage rpc msg wb
          in if internal then wb
             else (case map_of (observers wb) eventName of
                     None \<Rightarrow> wb
                   | Some obs \<Rightarrow> notify_observers eventName (m_Parameters msg) obs wb)
      | Some i \<Rightarrow>
          (case map_of (pendingRequests wb) i of
             None \<Rightarrow> wb
           | Some r \<Rightarrow>
               let wb = wb\<lparr>pendingRequests := omap_erase i (pendingRequests wb)\<rparr> in
               if ChannelId r \<noteq> 0 then Submit (ChannelId r) (msg\<lparr>m_Id := Some (SequenceId r)\<rparr>) wb
               else wb))"

section \<open>Time outs\<close>

definition timeout_message :: "32 word \<Rightarrow> message" where
  "timeout_message i = new_message\<lparr>m_Id := Some i,
     m_Error := Some (ERROR_TIMEDOUT, ''There is no response form the server within time!!!'')\<rparr>"

text \<open>The loop over the pending requests: those kept, \<open>nextSlot\<close> and the state.\<close>

fun cleanup_loop ::
  "nat \<Rightarrow> (32 word, request) omap \<Rightarrow> nat option \<Rightarrow> web_bridge \<Rightarrow>
   (32 word, request) omap \<times> nat option \<times> web_bridge" where
  "cleanup_loop now [] nextSlot wb = ([], nextSlot, wb)"
| "cleanup_loop now ((i, r) # rest) nextSlot wb =
     (if Issued r \<le> now then
        cleanup_loop now rest nextSlot (Submit (ChannelId r) (timeout_message (SequenceId r)) wb)
      else
        let nextSlot = (if (case nextSlot of None \<Rightarrow> True | Some t \<Rightarrow> Issued r < t)
                        then Some (Issued r) else nextSlot);
            (kept, nextSlot, wb) = cleanup_loop now rest nextSlot wb
        in ((i, r) # kept, nextSlot, wb))"

definition Cleanup :: "nat \<Rightarrow> web_bridge \<Rightarrow> web_bridge" where
  "Cleanup now wb =
     (let (kept, nextSlot, wb) = cleanup_loop now (pendingRequests wb) None wb;
          wb = wb\<lparr>pendingRequests := kept\<rparr>
      in case nextSlot of None \<Rightarrow> wb | Some t \<Rightarrow> Schedule t wb)"

section \<open>Observers as a registry\<close>

text \<open>No event has an empty observer list, no client is listed twice, no event has two entries.\<close>

definition observers_ok :: "observers \<Rightarrow> bool" where
  "observers_ok obs =
     (distinct (map fst obs) \<and> list_all (\<lambda>(ev, cs). cs \<noteq> [] \<and> distinct cs) obs)"

definition observing :: "observers \<Rightarrow> string \<times> observer \<Rightarrow> bool" where
  "observing obs m = (case map_of obs (fst m) of None \<Rightarrow> False | Some cs \<Rightarrow> snd m \<in> set cs)"

definition add_client :: "string \<times> observer \<Rightarrow> observers \<Rightarrow> bool \<times> observers" where
  "add_client m obs = add_observer (fst (snd m)) (fst m) (snd (snd m)) obs"

definition remove_client :: "string \<times> observer \<Rightarrow> observers \<Rightarrow> bool \<times> observers" where
  "remove_client m obs = remove_observer (fst (snd m)) (fst m) (snd (snd m)) obs"

lemma observers_ok_alt:
  "observers_ok obs \<longleftrightarrow> distinct (map fst obs) \<and>
     (\<forall>ev cs. map_of obs ev = Some cs \<longrightarrow> cs \<noteq> [] \<and> distinct cs)"
  by (fastforce simp: observers_ok_def list_all_iff)

lemma observers_ok_update:
  "observers_ok obs \<Longrightarrow> cs \<noteq> [] \<Longrightarrow> distinct cs \<Longrightarrow> observers_ok (AList.update ev cs obs)"
  by (simp add: observers_ok_alt distinct_update update_conv')

lemma observers_ok_delete: "observers_ok obs \<Longrightarrow> observers_ok (AList.delete ev obs)"
  by (simp add: observers_ok_alt distinct_delete delete_conv')

lemma add_client_result:
  "add_client m obs =
     (if observing obs m then (False, obs)
      else (True, AList.update (fst m)
              ((case map_of obs (fst m) of None \<Rightarrow> [] | Some cs \<Rightarrow> cs) @ [snd m]) obs))"
  by (auto simp: add_client_def add_observer_def observing_def split: option.split)

lemma remove_client_result:
  "remove_client m obs =
     (if observing obs m then
        (let cs = remove1 (snd m) (the (map_of obs (fst m))) in
         (True, if cs = [] then AList.delete (fst m) obs else AList.update (fst m) cs obs))
      else (False, obs))"
  by (auto simp: remove_client_def remove_observer_def observing_def Let_def split: option.split)

lemma remove1_Nil: "remove1 x cs = [] \<Longrightarrow> y \<in> set cs \<Longrightarrow> y = x"
  by (cases cs) (auto split: if_splits)

interpretation wb_observers: registry observing add_client remove_client observers_ok
proof
  fix r :: observers and m m' :: "string \<times> observer"
  assume ok: "observers_ok r"
  show "observers_ok (snd (add_client m r))"
    using ok
    by (auto simp: add_client_result observing_def observers_ok_alt[of r] split: option.split
        intro!: observers_ok_update[OF ok])
  show "observers_ok (snd (remove_client m r))"
    using ok
    by (auto simp: remove_client_result Let_def observing_def observers_ok_alt[of r] split: option.splits
        intro!: observers_ok_update[OF ok] observers_ok_delete[OF ok])
  show "fst (add_client m r) = (\<not> observing r m)"
    by (simp add: add_client_result)
  show "fst (remove_client m r) = observing r m"
    by (simp add: remove_client_result Let_def)
  show "observing (snd (add_client m r)) m' = (m' = m \<or> observing r m')"
    by (cases m; cases m') (auto simp: add_client_result observing_def update_conv' split: option.splits)
  show "observing (snd (remove_client m r)) m' = (m' \<noteq> m \<and> observing r m')"
    using ok
    by (cases m; cases m')
       (auto simp: remove_client_result observing_def Let_def update_conv' delete_conv'
          observers_ok_alt set_remove1_eq dest: remove1_Nil split: option.splits)
qed


section \<open>Properties\<close>

text \<open>What can happen to the bridge; the observers are well formed through all of it.\<close>

datatype wb_op =
    Wb_attach string "32 word"
  | Wb_detach "32 word"
  | Wb_invoke nat "32 word" message
  | Wb_inbound message
  | Wb_cleanup nat

fun wb_step :: "rpc_lib \<Rightarrow> wb_op \<Rightarrow> web_bridge \<Rightarrow> web_bridge" where
  "wb_step rpc (Wb_attach p ch) wb = snd (Attach p ch wb)"
| "wb_step rpc (Wb_detach ch) wb = Detach ch wb"
| "wb_step rpc (Wb_invoke now ch m) wb = snd (Invoke rpc now ch m wb)"
| "wb_step rpc (Wb_inbound m) wb = Inbound rpc m wb"
| "wb_step rpc (Wb_cleanup now) wb = Cleanup now wb"

definition wb_ok :: "web_bridge \<Rightarrow> bool" where
  "wb_ok wb = (observers_ok (observers wb) \<and> omap_ok (pendingRequests wb))"

lemma add_observer_client: "add_observer ch ev cs obs = add_client (ev, ch, cs) obs"
  by (simp add: add_client_def)

lemma remove_observer_client: "remove_observer ch ev cs obs = remove_client (ev, ch, cs) obs"
  by (simp add: remove_client_def)

lemma Submit_fields [simp]:
  "observers (Submit ch m wb) = observers wb" "pendingRequests (Submit ch m wb) = pendingRequests wb"
  "sequenceId (Submit ch m wb) = sequenceId wb" "timeOut (Submit ch m wb) = timeOut wb"
  "wb_submitted (Submit ch m wb) = wb_submitted wb @ [(ch, m)]"
  "wb_scheduled (Submit ch m wb) = wb_scheduled wb"
  by (simp_all add: Submit_def)

lemma Schedule_fields [simp]:
  "observers (Schedule t wb) = observers wb" "pendingRequests (Schedule t wb) = pendingRequests wb"
  "sequenceId (Schedule t wb) = sequenceId wb" "timeOut (Schedule t wb) = timeOut wb"
  "wb_submitted (Schedule t wb) = wb_submitted wb"
  "wb_scheduled (Schedule t wb) = wb_scheduled wb @ [t]"
  by (simp_all add: Schedule_def)

lemma notify_fields [simp]:
  "observers (notify_observers ev p obs wb) = observers wb"
  "pendingRequests (notify_observers ev p obs wb) = pendingRequests wb"
  by (induction ev p obs wb rule: notify_observers.induct) simp_all

lemma Subscribe_observers:
  "observers (snd (Subscribe ch ev cs m wb)) = snd (add_client (ev, ch, cs) (observers wb))"
  by (auto simp: Subscribe_def add_observer_client add_client_result Let_def)

lemma Unsubscribe_observers:
  "observers (snd (Unsubscribe ch ev cs m wb)) = snd (remove_client (ev, ch, cs) (observers wb))"
  by (auto simp: Unsubscribe_def remove_observer_client Let_def split: prod.split)

lemma Subscribe_pending [simp]:
  "pendingRequests (snd (Subscribe ch ev cs m wb)) = pendingRequests wb"
  "pendingRequests (snd (Unsubscribe ch ev cs m wb)) = pendingRequests wb"
  by (simp_all add: Subscribe_def Unsubscribe_def Let_def split: prod.split)

lemma forward_fields:
  "observers (forward rpc now ch inb m wb) = observers wb"
  "pendingRequests (forward rpc now ch inb m wb) =
     omap_emplace (sequenceId wb + 1)
       \<lparr>ChannelId = ch, SequenceId = (case m_Id m of None \<Rightarrow> rpc_no_id rpc | Some i \<Rightarrow> i),
        Issued = now + timeOut wb\<rparr> (pendingRequests wb)"
  by (simp_all add: forward_def Let_def)

lemma omap_emplace_ok: "omap_ok m \<Longrightarrow> omap_ok (omap_emplace k v m)"
  by (simp add: omap_emplace_def omap_put_ok)

lemma omap_ok_filter: "omap_ok m \<Longrightarrow> omap_ok (filter P m)"
  by (induction m) (auto simp: omap_ok_Cons)

lemma cleanup_loop_kept:
  "fst (cleanup_loop now pend slot wb) = filter (\<lambda>e. now < Issued (snd e)) pend"
  by (induction now pend slot wb rule: cleanup_loop.induct)
     (auto simp: Let_def case_prod_unfold)

lemma cleanup_loop_state:
  "snd (snd (cleanup_loop now pend slot wb)) =
   wb\<lparr>wb_submitted := wb_submitted wb @
        map (\<lambda>(i, r). (ChannelId r, timeout_message (SequenceId r)))
          (filter (\<lambda>e. Issued (snd e) \<le> now) pend)\<rparr>"
  by (induction now pend slot wb rule: cleanup_loop.induct)
     (auto simp: Let_def case_prod_unfold Submit_def)

lemma Invoke_cases:
  "snd (Invoke rpc now ch inb wb) = wb \<or>
   (\<exists>ev cs m. snd (Invoke rpc now ch inb wb) = snd (Subscribe ch ev cs m wb)) \<or>
   (\<exists>ev cs m. snd (Invoke rpc now ch inb wb) = snd (Unsubscribe ch ev cs m wb)) \<or>
   (\<exists>m. snd (Invoke rpc now ch inb wb) = forward rpc now ch inb m wb)"
  by (simp add: Invoke_def Let_def case_prod_unfold split: state.split) metis

lemma wb_step_ok: "wb_ok wb \<Longrightarrow> wb_ok (wb_step rpc e wb)"
proof (cases e)
  case (Wb_invoke now ch m)
  assume "wb_ok wb"
  with Wb_invoke Invoke_cases[of rpc now ch m wb] show ?thesis
    by (auto simp: wb_ok_def Subscribe_observers Unsubscribe_observers forward_fields omap_emplace_ok
        wb_observers.add_ok wb_observers.remove_ok)
next
  case (Wb_inbound m)
  assume "wb_ok wb"
  with Wb_inbound show ?thesis
    by (auto simp: wb_ok_def Inbound_def InternalMessage_def Let_def omap_erase_def omap_ok_filter
        split: option.split)
next
  case (Wb_cleanup now)
  assume "wb_ok wb"
  with Wb_cleanup show ?thesis
    using cleanup_loop_kept[of now "pendingRequests wb" None wb]
      cleanup_loop_state[of now "pendingRequests wb" None wb]
    by (auto simp: wb_ok_def Cleanup_def Let_def case_prod_unfold omap_ok_filter split: option.split)
qed (simp_all add: wb_ok_def Attach_def Detach_def)

interpretation wb_machine: machine "wb_step rpc" wb_ok for rpc
  by unfold_locales (rule wb_step_ok)

lemma reachable_wb: "wb_ok (fold (wb_step rpc) es WebBridge_init)"
  by (rule wb_machine.run_inv) (simp add: wb_ok_def WebBridge_init_def observers_ok_def)

text \<open>
  in every reachable state, registering for an event succeeds exactly if the client was
  not yet registered, registering it again is answered with a duplicate error, unregistering
  then succeeds and puts the set of observers back; no event keeps an empty list and no client
  is ever listed twice.
\<close>

theorem subscribe_unsubscribe:
  assumes "wb = fold (wb_step rpc) es WebBridge_init"
    and "\<not> observing (observers wb) (ev, ch, cs)"
    and "Subscribe ch ev cs new_message wb = (r1, wb1)"
    and "Subscribe ch ev cs new_message wb1 = (r2, wb2)"
    and "Unsubscribe ch ev cs new_message wb2 = (r3, wb3)"
  shows "m_Result r1 = Some ''0'' \<and> m_Error r1 = None \<and> observing (observers wb1) (ev, ch, cs) \<and>
    m_Result r2 = None \<and> map_option fst (m_Error r2) = Some ERROR_DUPLICATE_KEY \<and> wb2 = wb1 \<and>
    m_Result r3 = Some ''0'' \<and> m_Error r3 = None \<and>
    observing (observers wb3) = observing (observers wb) \<and> observers_ok (observers wb3)"
proof -
  let ?m = "(ev, ch, cs)"
  have ok: "observers_ok (observers wb)" using reachable_wb[of rpc es] assms(1) by (simp add: wb_ok_def)
  have o1: "observers wb1 = snd (add_client ?m (observers wb))"
    using Subscribe_observers[of ch ev cs new_message wb] assms(3) by simp
  have ok1: "observers_ok (observers wb1)" unfolding o1 by (rule wb_observers.add_ok[OF ok])
  have in1: "observing (observers wb1) ?m" unfolding o1 by (simp add: wb_observers.add_members[OF ok])
  have r1: "m_Result r1 = Some ''0'' \<and> m_Error r1 = None"
    using assms(2,3)
    by (auto simp: Subscribe_def add_observer_client add_client_result Let_def new_message_def)
  have r2: "m_Result r2 = None \<and> map_option fst (m_Error r2) = Some ERROR_DUPLICATE_KEY \<and> wb2 = wb1"
    using assms(4) in1
    by (auto simp: Subscribe_def add_observer_client add_client_result Let_def new_message_def)
  have r3: "m_Result r3 = Some ''0'' \<and> m_Error r3 = None"
    using assms(5) r2 in1
    by (auto simp: Unsubscribe_def remove_observer_client remove_client_result Let_def new_message_def)
  have o3: "observers wb3 = snd (remove_client ?m (observers wb1))"
    using Unsubscribe_observers[of ch ev cs new_message wb2] assms(5) r2 by simp
  have "observing (observers wb3) = observing (observers wb)"
    unfolding o3 o1 by (rule wb_observers.add_remove_members[OF ok assms(2)])
  moreover have "observers_ok (observers wb3)" unfolding o3 by (rule wb_observers.remove_ok[OF ok1])
  ultimately show ?thesis using r1 r2 r3 in1 by blast
qed

lemma subscribe_unsubscribe_witness:
  "\<exists>r1 wb1. Subscribe 7 ''statechange'' ''c'' new_message WebBridge_init = (r1, wb1) \<and>
     m_Result r1 = Some ''0'' \<and> observing (observers wb1) (''statechange'', 7, ''c'')"
proof -
  obtain r1 wb1 where 1: "Subscribe 7 ''statechange'' ''c'' new_message WebBridge_init = (r1, wb1)"
    by force
  obtain r2 wb2 where 2: "Subscribe 7 ''statechange'' ''c'' new_message wb1 = (r2, wb2)" by force
  obtain r3 wb3 where 3: "Unsubscribe 7 ''statechange'' ''c'' new_message wb2 = (r3, wb3)" by force
  have "WebBridge_init = fold (wb_step undefined) [] WebBridge_init"
    "\<not> observing (observers WebBridge_init) (''statechange'', 7, ''c'')"
    by (simp_all add: observing_def WebBridge_init_def)
  from subscribe_unsubscribe[OF this 1 2 3] 1 show ?thesis by blast
qed

lemma notify_submits:
  "wb_submitted (notify_observers ev p obs wb) = wb_submitted wb @
     map (\<lambda>(ch, d). (ch, new_message\<lparr>m_Designator := (if d \<noteq> [] then d @ ''.'' @ ev else ev),
                                      m_Parameters := p\<rparr>)) obs"
  by (induction ev p obs wb rule: notify_observers.induct) auto


definition plain_rpc :: rpc_lib where
  "plain_rpc = \<lparr> rpc_Callsign = (\<lambda>d. []), rpc_Version = (\<lambda>d. 255), rpc_Method = (\<lambda>d. d),
     rpc_Event = (\<lambda>p. p), rpc_Client = (\<lambda>p. []), rpc_Strings = (\<lambda>p. [p]),
     rpc_Text = (\<lambda>r. if r = ERROR_NONE then ''0'' else ''22''), rpc_no_id = 0 \<rparr>"


lemma omap_erase_put:
  "omap_ok m \<Longrightarrow> map_of m k = None \<Longrightarrow> omap_erase k (omap_put k v m) = m"
proof (induction k v m rule: omap_put.induct)
  case (2 k v k' v' m)
  have "filter (\<lambda>e. fst e \<noteq> k) m = m" if "k \<notin> fst ` set m"
    using that by (induction m) auto
  with 2 show ?case by (auto simp: omap_erase_def omap_ok_Cons map_of_eq_None_iff)
qed (simp add: omap_erase_def)

text \<open>
  C17: a call to a method of the service is forwarded once, under a fresh identifier, and the
  service's answer goes back once to the channel it came from with the identifier the caller
  chose; afterwards nothing is pending for it and a second answer is ignored.
\<close>

theorem call_answer_roundtrip:
  assumes "omap_ok (pendingRequests wb)" and "map_of (pendingRequests wb) (sequenceId wb + 1) = None"
    and "fst (Destination rpc (m_Designator inbound) wb) = STATE_CUSTOM"
    and "m_Id inbound = Some i" and "channelId \<noteq> 0" and "m_Id answer = Some (sequenceId wb + 1)"
  shows "let (returned, wb1) = Invoke rpc now channelId inbound wb; wb2 = Inbound rpc answer wb1 in
    returned = None \<and>
    wb_submitted wb2 = wb_submitted wb @
      [(javascriptService wb, new_message\<lparr>m_JSONRPC := True, m_Id := Some (sequenceId wb + 1),
          m_Parameters := m_Parameters inbound, m_Designator := m_Designator inbound\<rparr>),
       (channelId, answer\<lparr>m_Id := Some i\<rparr>)] \<and>
    pendingRequests wb2 = pendingRequests wb \<and> Inbound rpc answer wb2 = wb2"
proof -
  let ?r = "\<lparr>ChannelId = channelId, SequenceId = i, Issued = now + timeOut wb\<rparr>"
  let ?msg = "new_message\<lparr>m_JSONRPC := True, m_Id := Some i\<rparr>"
  have inv: "Invoke rpc now channelId inbound wb = (None, forward rpc now channelId inbound ?msg wb)"
    using assms(3,4) by (simp add: Invoke_def Let_def)
  let ?w = "forward rpc now channelId inbound ?msg wb"
  have pend: "pendingRequests ?w = omap_put (sequenceId wb + 1) ?r (pendingRequests wb)"
    using assms(2) by (simp add: forward_fields omap_emplace_def)
  have sub: "wb_submitted ?w = wb_submitted wb @ [(javascriptService wb,
      new_message\<lparr>m_JSONRPC := True, m_Id := Some (sequenceId wb + 1),
        m_Parameters := m_Parameters inbound, m_Designator := m_Designator inbound\<rparr>)]"
    by (simp add: forward_def Let_def)
  have look: "map_of (pendingRequests ?w) (sequenceId wb + 1) = Some ?r"
    unfolding pend by (simp add: omap_put_lookup[OF assms(1)])
  have erase: "omap_erase (sequenceId wb + 1) (pendingRequests ?w) = pendingRequests wb"
    unfolding pend by (rule omap_erase_put[OF assms(1,2)])
  have two: "Inbound rpc answer ?w =
      Submit channelId (answer\<lparr>m_Id := Some i\<rparr>) (?w\<lparr>pendingRequests := pendingRequests wb\<rparr>)"
    using assms(5,6) look erase by (simp add: Inbound_def Let_def)
  have three: "Inbound rpc answer (Inbound rpc answer ?w) = Inbound rpc answer ?w"
    unfolding two using assms(2,6) by (simp add: Inbound_def)
  show ?thesis
    using inv sub two three by simp
qed

lemma call_answer_roundtrip_witness:
  "let wb = WebBridge_init\<lparr>supportedVersions := [(1, [''play''])]\<rparr>;
       (returned, wb1) = Invoke plain_rpc 0 3 (new_message\<lparr>m_Id := Some 9, m_Designator := ''play''\<rparr>) wb;
       wb2 = Inbound plain_rpc (new_message\<lparr>m_Id := Some 2\<rparr>) wb1
   in pendingRequests wb2 = [] \<and> map fst (wb_submitted wb2) = [0, 3]"
  using call_answer_roundtrip[of "WebBridge_init\<lparr>supportedVersions := [(1, [''play''])]\<rparr>" plain_rpc
      "new_message\<lparr>m_Id := Some 9, m_Designator := ''play''\<rparr>" 9 3 "new_message\<lparr>m_Id := Some 2\<rparr>" 0]
  by (auto simp: WebBridge_init_def plain_rpc_def Destination_def HasMethodSupport_def new_message_def
      case_prod_unfold Let_def)

definition earlier :: "nat \<Rightarrow> nat option \<Rightarrow> nat option" where
  "earlier t slot = (case slot of None \<Rightarrow> Some t | Some u \<Rightarrow> Some (min t u))"

lemma cleanup_slot:
  "fst (snd (cleanup_loop now pend slot wb)) =
   fold earlier (map (Issued \<circ> snd) (filter (\<lambda>e. now < Issued (snd e)) pend)) slot"
  by (induction now pend slot wb rule: cleanup_loop.induct)
     (auto simp: Let_def case_prod_unfold earlier_def min_def split: option.split)

lemma earlier_Min: "fold earlier ts (Some u) = Some (Min (set (u # ts)))"
proof (induction ts arbitrary: u)
  case (Cons t ts)
  have "fold earlier (t # ts) (Some u) = Some (Min (insert (min t u) (set ts)))"
    using Cons[of "min t u"] by (simp add: earlier_def[of t])
  also have "Min (insert (min t u) (set ts)) = Min (insert u (insert t (set ts)))"
    by (cases "set ts = {}") (simp_all add: min.commute min.left_commute)
  finally show ?case by simp
qed simp

text \<open>
  C29: the cleaner answers every request whose time is up, in the order of the identifiers, with
  a time-out error under the caller's identifier; it keeps exactly the others and, if there are
  any, runs again at the earliest of their times.
\<close>

theorem Cleanup_spec:
  "Cleanup now wb =
     (let expired = filter (\<lambda>e. Issued (snd e) \<le> now) (pendingRequests wb);
          kept = filter (\<lambda>e. now < Issued (snd e)) (pendingRequests wb)
      in wb\<lparr>pendingRequests := kept,
            wb_submitted := wb_submitted wb @
              map (\<lambda>(i, r). (ChannelId r, timeout_message (SequenceId r))) expired,
            wb_scheduled := wb_scheduled wb @
              (if kept = [] then [] else [Min (set (map (Issued \<circ> snd) kept))])\<rparr>)"
proof -
  let ?l = "cleanup_loop now (pendingRequests wb) None wb"
  let ?kept = "filter (\<lambda>e. now < Issued (snd e)) (pendingRequests wb)"
  have slot: "fst (snd ?l) = (if ?kept = [] then None else Some (Min (set (map (Issued \<circ> snd) ?kept))))"
  proof (cases ?kept)
    case Nil
    then show ?thesis unfolding cleanup_slot by simp
  next
    case (Cons e es)
    have "fold earlier (map (Issued \<circ> snd) (e # es)) None =
        fold earlier (map (Issued \<circ> snd) es) (Some (Issued (snd e)))"
      by (simp add: earlier_def)
    then show ?thesis unfolding cleanup_slot Cons by (simp add: earlier_Min)
  qed
  have "Cleanup now wb =
     (case fst (snd ?l) of
        None \<Rightarrow> (snd (snd ?l))\<lparr>pendingRequests := fst ?l\<rparr>
      | Some t \<Rightarrow> Schedule t ((snd (snd ?l))\<lparr>pendingRequests := fst ?l\<rparr>))"
    by (simp add: Cleanup_def Let_def case_prod_unfold)
  then show ?thesis
    unfolding slot cleanup_loop_kept cleanup_loop_state
    by (simp add: Schedule_def Let_def)
qed

text \<open>
  what \<^verbatim>\<open>exists\<close> answers does not depend on the method asked about: on the bridge's own
  call sign and without a version it answers \<^verbatim>\<open>ERROR_UNKNOWN_KEY\<close> when the service registered
  a method called \<^verbatim>\<open>exists\<close>, and \<^verbatim>\<open>ERROR_NONE\<close> otherwise, whatever the parameters name.
\<close>

theorem exists_answer:
  assumes "rpc_Callsign rpc d = wb_callsign wb" and "rpc_Version rpc d = 255"
    and "rpc_Method rpc d = ''exists''"
  shows "Invoke rpc now ch (new_message\<lparr>m_Id := Some i, m_Designator := d, m_Parameters := p\<rparr>) wb =
    (Some (new_message\<lparr>m_JSONRPC := True, m_Id := Some i,
       m_Result := Some (rpc_Text rpc
         (if any_version (supportedVersions wb) ''exists'' then ERROR_UNKNOWN_KEY else ERROR_NONE))\<rparr>), wb)"
  using assms by (simp add: Invoke_def Destination_def HasMethodSupport_def new_message_def)

lemma exists_answer_witness:
  "Invoke plain_rpc 0 1 (new_message\<lparr>m_Id := Some 4, m_Designator := ''exists'', m_Parameters := ''play''\<rparr>)
     (WebBridge_init\<lparr>supportedVersions := [(1, [''play''])]\<rparr>) =
   (Some (new_message\<lparr>m_JSONRPC := True, m_Id := Some 4, m_Result := Some ''0''\<rparr>),
    WebBridge_init\<lparr>supportedVersions := [(1, [''play''])]\<rparr>)"
  using exists_answer[of plain_rpc "''exists''" "WebBridge_init\<lparr>supportedVersions := [(1, [''play''])]\<rparr>"
      0 1 "''play''" 4]
  by (simp add: plain_rpc_def WebBridge_init_def)

definition supports :: "(8 word, string list) omap \<Rightarrow> 8 word \<Rightarrow> string \<Rightarrow> bool" where
  "supports vs v m = (case map_of vs v of None \<Rightarrow> False | Some ms \<Rightarrow> m \<in> set ms)"

lemma register_methods_supports:
  "omap_ok vs \<Longrightarrow> supports (register_methods rpc es vs) v m =
     (supports vs v m \<or> (\<exists>e \<in> set es. rpc_Version rpc e = v \<and> rpc_Method rpc e = m))"
proof (induction rpc es vs rule: register_methods.induct)
  case (2 rpc e es vs)
  let ?vs = "case map_of vs (rpc_Version rpc e) of
      None \<Rightarrow> omap_put (rpc_Version rpc e) [rpc_Method rpc e] vs
    | Some ms \<Rightarrow> if rpc_Method rpc e \<notin> set ms
        then omap_put (rpc_Version rpc e) (ms @ [rpc_Method rpc e]) vs else vs"
  have ok: "omap_ok ?vs" using 2(2) by (auto intro: omap_put_ok split: option.split)
  have "supports ?vs v m =
      (supports vs v m \<or> (rpc_Version rpc e = v \<and> rpc_Method rpc e = m))"
    using 2(2) by (auto simp: supports_def omap_put_lookup split: option.splits)
  with 2(1)[OF refl refl ok] show ?case by (auto simp: Let_def)
qed simp

text \<open>
  after the service has announced its methods, a version supports exactly the methods that
  were announced for it; what an earlier announcement said is forgotten.
\<close>

theorem announced_methods:
  assumes "m_Id msg = None" and "rpc_Method rpc (m_Designator msg) = ''registerjsonrpcmethods''"
  shows "supports (supportedVersions (Inbound rpc msg wb)) v m =
    (\<exists>e \<in> set (rpc_Strings rpc (m_Parameters msg)). rpc_Version rpc e = v \<and> rpc_Method rpc e = m)"
  using assms register_methods_supports[of "[]" rpc "rpc_Strings rpc (m_Parameters msg)" v m]
  by (simp add: Inbound_def InternalMessage_def supports_def[of "[]"])

lemma announced_methods_witness:
  "supports (supportedVersions (Inbound plain_rpc
     (new_message\<lparr>m_Designator := ''registerjsonrpcmethods'', m_Parameters := ''play''\<rparr>) WebBridge_init)) 255 ''play''"
  using announced_methods[of "new_message\<lparr>m_Designator := ''registerjsonrpcmethods'', m_Parameters := ''play''\<rparr>"
      plain_rpc WebBridge_init 255 "''play''"]
  by (simp add: plain_rpc_def new_message_def)

end
