(* ===== verification/Rust_Socket.thy ===== *)
theory Rust_Socket
  imports Utils_Strings
begin

text \<open>
  \<^verbatim>\<open>RustAdapter/SocketServer\<close>: the socket over which the adapter talks to an out-of-process
  plugin.  \<open>socket_server\<close> is the object's state; beside its members it records the descriptors
  that are open in the process (\<open>ss_open\<close>), what was sent (\<open>ss_sent\<close>) and what the connected
  client still has to deliver (\<open>ss_in\<close>).  The results of the system calls are parameters.
  Messages are byte lists, integers on the wire are 32-bit words in network order, and an
  \<^verbatim>\<open>int\<close> is an integer with the conversion from \<^verbatim>\<open>uint32_t\<close> written out.
\<close>

section \<open>Bytes\<close>

type_synonym byte = "8 word"

definition byte_of :: "char \<Rightarrow> byte" where "byte_of c = word_of_nat (of_char c)"
definition char_of_byte :: "byte \<Rightarrow> char" where "char_of_byte b = char_of (unat b)"

text \<open>\<^verbatim>\<open>htonl\<close>, as the bytes it puts on the wire, and \<^verbatim>\<open>ntohl\<close> back.\<close>

definition htonl :: "32 word \<Rightarrow> byte list" where
  "htonl w = [ucast (drop_bit 24 w), ucast (drop_bit 16 w), ucast (drop_bit 8 w), ucast w]"

fun ntohl :: "byte list \<Rightarrow> 32 word" where
  "ntohl [a, b, c, d] =
     push_bit 24 (ucast a) OR push_bit 16 (ucast b) OR push_bit 8 (ucast c) OR ucast d"
| "ntohl _ = 0"

text \<open>The conversion of an unsigned to a signed 32-bit integer.\<close>

definition int_of_u32 :: "32 word \<Rightarrow> int" where
  "int_of_u32 w = (if unat w < 2 ^ 31 then int (unat w) else int (unat w) - 2 ^ 32)"

lemma char_of_byte_of [simp]: "char_of_byte (byte_of c) = c"
proof -
  have "(of_char c :: nat) < 256" by (rule nat_of_char_less_256)
  then show ?thesis by (simp add: char_of_byte_def byte_of_def unat_of_nat)
qed

lemma bytes_of_roundtrip [simp]: "map char_of_byte (map byte_of s) = s"
  by (induction s) auto

lemma htonl_length [simp]: "length (htonl w) = 4"
  by (simp add: htonl_def)

lemma htonl_not_Nil [simp]: "htonl w \<noteq> []"
  by (simp add: htonl_def)

lemma ntohl_htonl [simp]: "ntohl (htonl w) = w"
  unfolding htonl_def ntohl.simps
proof (rule bit_word_eqI)
  fix n :: nat
  assume "n < LENGTH(32)"
  then consider "n < 8" | "8 \<le> n" "n < 16" | "16 \<le> n" "n < 24" | "24 \<le> n" "n < 32" by force
  then show "bit ((push_bit 24 (ucast (ucast (drop_bit 24 w) :: byte)) OR
      push_bit 16 (ucast (ucast (drop_bit 16 w) :: byte)) OR
      push_bit 8 (ucast (ucast (drop_bit 8 w) :: byte)) OR ucast (ucast w :: byte)) :: 32 word) n = bit w n"
    by cases (auto simp: bit_simps)
qed

section \<open>State\<close>

text \<open>What a read of the client's descriptor meets: data, end of file or an error.\<close>

datatype chunk = Data "byte list" | Eof | Err

record response =
  channel_id :: "32 word"
  rsp_json :: string

definition new_response :: response where
  "new_response = \<lparr> channel_id = 0, rsp_json = [] \<rparr>"

record socket_server =
  m_serverSocket :: int
  m_clientSocket :: int
  m_running :: bool
  m_address :: string
  m_port :: int
  ss_open :: "int list"
  ss_sent :: "(int \<times> byte list) list"
  ss_in :: "chunk list"

definition CLIENT_DISCONNECT :: int where "CLIENT_DISCONNECT = -2"

definition close_fd :: "int \<Rightarrow> socket_server \<Rightarrow> socket_server" where
  "close_fd fd ss = ss\<lparr>ss_open := filter (\<lambda>f. f \<noteq> fd) (ss_open ss)\<rparr>"

section \<open>Opening and closing\<close>

text \<open>
  The results of the system calls of \<^verbatim>\<open>Open\<close>; \<open>sys_name\<close> is the port \<^verbatim>\<open>getsockname\<close> reports,
  \<open>None\<close> when it fails.
\<close>

record open_calls =
  sys_socket :: int
  sys_pton :: int
  sys_getfd :: int
  sys_setfd :: int
  sys_bind :: int
  sys_listen :: int
  sys_name :: "int option"

definition Open_socket :: "open_calls \<Rightarrow> string \<Rightarrow> int \<Rightarrow> socket_server \<Rightarrow> int \<times> socket_server" where
  "Open_socket sys address port ss =
     (let sock = sys_socket sys in
      if sock < 0 then (-1, ss)
      else
        let ss = ss\<lparr>ss_open := ss_open ss @ [sock]\<rparr> in
        if sys_pton sys = 0 then (-1, close_fd sock ss)
        else if sys_pton sys < 0 then (-1, close_fd sock ss)
        else if sys_getfd sys < 0 then (-1, close_fd sock ss)
        else if sys_setfd sys < 0 then (-1, close_fd sock ss)
        else if sys_bind sys < 0 then (-1, close_fd sock ss)
        else if sys_listen sys < 0 then (-1, close_fd sock ss)
        else
          let ss = ss\<lparr>m_serverSocket := sock, m_address := address\<rparr> in
          if port \<noteq> 0 then (0, ss\<lparr>m_port := port\<rparr>)
          else case sys_name sys of
                 Some p \<Rightarrow> (0, ss\<lparr>m_port := p\<rparr>)
               | None \<Rightarrow> (0, ss))"

definition Close_socket :: "socket_server \<Rightarrow> socket_server" where
  "Close_socket ss =
     (if 0 < m_serverSocket ss then
        let ss = (if m_running ss then ss\<lparr>m_running := False\<rparr> else ss);
            ss = close_fd (m_clientSocket ss) ss;
            ss = close_fd (m_serverSocket ss) ss
        in ss\<lparr>m_serverSocket := 0\<rparr>
      else ss)"

section \<open>Reading\<close>

text \<open>\<^verbatim>\<open>read(fd, p, n)\<close>: the count (0 at the end of the stream, -1 for an error) and the bytes.\<close>

fun sys_read :: "nat \<Rightarrow> chunk list \<Rightarrow> int \<times> byte list \<times> chunk list" where
  "sys_read n [] = (0, [], [])"
| "sys_read n (Data bs # cs) =
     (if length bs \<le> n then (int (length bs), bs, cs)
      else (int n, take n bs, Data (drop n bs) # cs))"
| "sys_read n (Eof # cs) = (0, [], Eof # cs)"
| "sys_read n (Err # cs) = (-1, [], cs)"

text \<open>The loop of \<^verbatim>\<open>ReadExact\<close>: the bytes are appended until none remain.\<close>

function read_loop :: "nat \<Rightarrow> byte list \<Rightarrow> chunk list \<Rightarrow> int \<times> byte list \<times> chunk list" where
  "read_loop remaining p cs =
     (if remaining = 0 then (0, p, cs)
      else
        let (num, bs, cs) = sys_read remaining cs in
        if num \<le> 0 then (if num = 0 then CLIENT_DISCONNECT else -1, p, cs)
        else read_loop (remaining - nat num) (p @ bs) cs)"
  by pat_completeness auto
termination by (relation "measure (\<lambda>(n, p, cs). n)") auto

declare read_loop.simps [simp del]

definition ReadExact :: "bool \<Rightarrow> int \<Rightarrow> socket_server \<Rightarrow> int \<times> byte list \<times> socket_server" where
  "ReadExact buffer len ss =
     (if \<not> buffer \<or> len \<le> 0 then (-1, [], ss)
      else if m_serverSocket ss \<le> 0 \<or> m_clientSocket ss \<le> 0 then (-1, [], ss)
      else
        let (rc, bs, cs) = read_loop (nat len) [] (ss_in ss);
            ss = ss\<lparr>ss_in := cs\<rparr>
        in if rc < 0 then (rc, bs, ss) else (len, bs, ss))"

text \<open>\<open>alloc n\<close>: whether \<^verbatim>\<open>malloc(n)\<close> yields a buffer; \<^verbatim>\<open>json_len + 1\<close> wraps at 32 bits.\<close>

definition ReadResponse ::
  "(32 word \<Rightarrow> bool) \<Rightarrow> response \<Rightarrow> socket_server \<Rightarrow> int \<times> response \<times> socket_server" where
  "ReadResponse alloc rsp ss =
     (if m_serverSocket ss \<le> 0 \<or> m_clientSocket ss \<le> 0 then (-1, rsp, ss)
      else
        let (rc, header, ss) = ReadExact True 8 ss in
        if rc \<le> 0 then (rc, rsp, ss)
        else
          let rsp = rsp\<lparr>channel_id := ntohl (take 4 header)\<rparr>;
              json_len = ntohl (drop 4 header)
          in if 0 < json_len then
               let (rc, buffer, ss) = ReadExact (alloc (json_len + 1)) (int_of_u32 json_len) ss in
               if rc \<le> 0 then (rc, rsp, ss)
               else (0, rsp\<lparr>rsp_json := takeWhile (\<lambda>c. c \<noteq> nul) (map char_of_byte buffer)\<rparr>, ss)
             else (0, rsp, ss))"

section \<open>Sending\<close>

text \<open>\<open>send bs\<close>: what \<^verbatim>\<open>send\<close> returns for these bytes; that many of them go out.\<close>

definition sys_send :: "(byte list \<Rightarrow> int) \<Rightarrow> byte list \<Rightarrow> socket_server \<Rightarrow> int \<times> socket_server" where
  "sys_send send bs ss =
     (let num = send bs in
      (num, if 0 < num then ss\<lparr>ss_sent := ss_sent ss @ [(m_clientSocket ss, take (nat num) bs)]\<rparr> else ss))"

definition ID_INVOKE :: "32 word" where "ID_INVOKE = 1"
definition ID_ATTACH :: "32 word" where "ID_ATTACH = 2"
definition ID_EXIT :: "32 word" where "ID_EXIT = 3"

definition send_part ::
  "(byte list \<Rightarrow> int) \<Rightarrow> byte list \<Rightarrow> socket_server \<Rightarrow> bool \<times> socket_server" where
  "send_part send bs ss =
     (if 0 < length bs then
        let (num, ss) = sys_send send bs ss in (num = int (length bs), ss)
      else (True, ss))"

definition SendInvoke ::
  "(byte list \<Rightarrow> int) \<Rightarrow> 32 word \<Rightarrow> string \<Rightarrow> string \<Rightarrow> socket_server \<Rightarrow> int \<times> socket_server" where
  "SendInvoke send channel token json ss =
     (if m_serverSocket ss \<le> 0 \<or> m_clientSocket ss \<le> 0 then (-1, ss)
      else
        let header = htonl ID_INVOKE @ htonl channel @ htonl (word_of_nat (length token)) @
                     htonl (word_of_nat (length json));
            (num, ss) = sys_send send header ss
        in if num \<noteq> 16 then (-1, ss)
           else
             let (done, ss) = send_part send (map byte_of token) ss in
             if \<not> done then (-1, ss)
             else
               let (done, ss) = send_part send (map byte_of json) ss in
               if \<not> done then (-1, ss) else (0, ss))"

definition SendAttach ::
  "(byte list \<Rightarrow> int) \<Rightarrow> 32 word \<Rightarrow> bool \<Rightarrow> socket_server \<Rightarrow> int \<times> socket_server" where
  "SendAttach send channel attach ss =
     (if m_serverSocket ss \<le> 0 \<or> m_clientSocket ss \<le> 0 then (-1, ss)
      else
        let header = htonl ID_ATTACH @ htonl channel @ [if attach then 1 else 0];
            (num, ss) = sys_send send header ss
        in if num \<noteq> 9 then (-1, ss) else (0, ss))"

definition SendExit :: "(byte list \<Rightarrow> int) \<Rightarrow> socket_server \<Rightarrow> int \<times> socket_server" where
  "SendExit send ss =
     (if m_serverSocket ss \<le> 0 \<or> m_clientSocket ss \<le> 0 then (-1, ss)
      else
        let (num, ss) = sys_send send (htonl ID_EXIT) ss in
        if num \<noteq> 4 then (-1, ss) else (0, ss\<lparr>m_running := False\<rparr>))"

section \<open>The reader thread\<close>

text \<open>
  One iteration of the loop of \<^verbatim>\<open>Run\<close>: \<open>res\<close> is what \<^verbatim>\<open>select\<close> returns, \<open>isset\<close> the descriptors it
  reports readable, \<open>(clsock, input)\<close> what \<^verbatim>\<open>accept\<close> returns and what that client will send.
  The result says whether the loop goes on, and which responses were handed to the reader.
\<close>

datatype run_result = Continue | Stop int

definition Run_step ::
  "(32 word \<Rightarrow> bool) \<Rightarrow> int \<Rightarrow> (int \<Rightarrow> bool) \<Rightarrow> int \<times> chunk list \<Rightarrow> socket_server \<Rightarrow>
   run_result \<times> response list \<times> socket_server" where
  "Run_step alloc res isset accepted ss =
     (if \<not> m_running ss then (Stop 0, [], ss)
      else if res < 0 then (Stop (-1), [], ss)
      else if res = 0 then (Continue, [], ss)
      else
        let ss = (if isset (m_serverSocket ss) then
                    (case accepted of (clsock, input) \<Rightarrow>
                       if clsock < 0 then ss
                       else ss\<lparr>m_clientSocket := clsock, ss_open := ss_open ss @ [clsock], ss_in := input\<rparr>)
                  else ss)
        in if m_clientSocket ss \<noteq> 0 \<and> isset (m_clientSocket ss) then
             let (rc, rsp, ss) = ReadResponse alloc new_response ss in
             if 0 \<le> rc then (Continue, [rsp], ss)
             else if rc = CLIENT_DISCONNECT then
               (Continue, [], (close_fd (m_clientSocket ss) ss)\<lparr>m_clientSocket := 0\<rparr>)
             else (Continue, [], ss)
           else (Continue, [], ss))"

section \<open>Framing\<close>

text \<open>What a plugin writes for a list of responses.\<close>

definition frame :: "32 word \<times> string \<Rightarrow> byte list" where
  "frame r = htonl (fst r) @ htonl (word_of_nat (length (snd r))) @ map byte_of (snd r)"

definition wire :: "(32 word \<times> string) list \<Rightarrow> byte list" where
  "wire rs = concat (map frame rs)"

fun read_responses ::
  "(32 word \<Rightarrow> bool) \<Rightarrow> nat \<Rightarrow> socket_server \<Rightarrow> (int \<times> response) list \<times> socket_server" where
  "read_responses alloc 0 ss = ([], ss)"
| "read_responses alloc (Suc n) ss =
     (let (rc, rsp, ss) = ReadResponse alloc new_response ss;
          (rs, ss) = read_responses alloc n ss
      in ((rc, rsp) # rs, ss))"

lemma read_loop_data:
  "[] \<notin> set parts \<Longrightarrow> n \<le> length (concat parts) \<Longrightarrow>
   \<exists>parts'. read_loop n acc (map Data parts) = (0, acc @ take n (concat parts), map Data parts') \<and>
     concat parts' = drop n (concat parts) \<and> [] \<notin> set parts'"
proof (induction parts arbitrary: n acc)
  case Nil
  then show ?case by (simp add: read_loop.simps)
next
  case (Cons b bs)
  show ?case
  proof (cases "n = 0")
    case True
    with Cons(2) show ?thesis by (intro exI[of _ "b # bs"]) (simp add: read_loop.simps[of 0])
  next
    case n0: False
    show ?thesis
    proof (cases "length b \<le> n")
      case True
      have le: "n - length b \<le> length (concat bs)" using Cons(3) by simp
      obtain parts' where
        "read_loop (n - length b) (acc @ b) (map Data bs) =
           (0, (acc @ b) @ take (n - length b) (concat bs), map Data parts')"
        "concat parts' = drop (n - length b) (concat bs)" "[] \<notin> set parts'"
        using Cons(1)[OF _ le, of "acc @ b"] Cons(2) by auto
      with n0 True Cons(2) show ?thesis
        by (intro exI[of _ parts']) (subst read_loop.simps, auto)
    next
      case False
      have "read_loop n acc (map Data (b # bs)) = (0, acc @ take n b, Data (drop n b) # map Data bs)"
        using n0 False by (subst read_loop.simps) (simp add: read_loop.simps[of 0])
      with False Cons(2) show ?thesis by (intro exI[of _ "drop n b # bs"]) simp
    qed
  qed
qed

definition connected_to :: "socket_server \<Rightarrow> bool" where
  "connected_to ss = (0 < m_serverSocket ss \<and> 0 < m_clientSocket ss)"

lemma ReadExact_data:
  assumes "connected_to ss" "ss_in ss = map Data parts" "[] \<notin> set parts"
    and "0 < n" "n \<le> length (concat parts)"
  shows "\<exists>parts'. ReadExact True (int n) ss =
      (int n, take n (concat parts), ss\<lparr>ss_in := map Data parts'\<rparr>) \<and>
     concat parts' = drop n (concat parts) \<and> [] \<notin> set parts'"
  using read_loop_data[OF assms(3,5), of "[]"] assms(1,2,4)
  by (auto simp: ReadExact_def connected_to_def)

definition sendable :: "(32 word \<Rightarrow> bool) \<Rightarrow> 32 word \<times> string \<Rightarrow> bool" where
  "sendable alloc r =
     (length (snd r) < 2 ^ 31 \<and> nul \<notin> set (snd r) \<and> alloc (word_of_nat (length (snd r)) + 1))"

lemma ReadResponse_frame:
  assumes "connected_to ss" "ss_in ss = map Data parts" "[] \<notin> set parts"
    and "concat parts = frame r @ rest" and "sendable alloc r"
  shows "\<exists>parts'. ReadResponse alloc new_response ss =
      (0, \<lparr>channel_id = fst r, rsp_json = snd r\<rparr>, ss\<lparr>ss_in := map Data parts'\<rparr>) \<and>
     concat parts' = rest \<and> [] \<notin> set parts'"
proof -
  let ?n = "length (snd r)"
  have len: "unat (word_of_nat ?n :: 32 word) = ?n"
    using assms(5) by (simp add: sendable_def unat_of_nat)
  then have iu: "int_of_u32 (word_of_nat ?n) = int ?n"
    using assms(5) by (simp add: int_of_u32_def sendable_def)
  have pos: "(0 :: 32 word) < word_of_nat ?n \<longleftrightarrow> 0 < ?n"
    using len by (simp add: word_less_nat_alt)
  have "8 \<le> length (concat parts)" using assms(4) by (simp add: frame_def)
  then obtain parts1 where h: "ReadExact True 8 ss = (8, take 8 (concat parts), ss\<lparr>ss_in := map Data parts1\<rparr>)"
    "concat parts1 = drop 8 (concat parts)" "[] \<notin> set parts1"
    using ReadExact_data[OF assms(1-3), of 8] by auto
  have hd: "take 8 (concat parts) = htonl (fst r) @ htonl (word_of_nat ?n)"
    and tl: "concat parts1 = map byte_of (snd r) @ rest"
    using assms(4) h(2) by (simp_all add: frame_def)
  have body: "takeWhile (\<lambda>c. c \<noteq> nul) (map char_of_byte (map byte_of (snd r))) = snd r"
    unfolding bytes_of_roundtrip using assms(5) by (auto simp: sendable_def takeWhile_eq_all_conv)
  show ?thesis
  proof (cases "?n = 0")
    case True
    then show ?thesis
      using assms(1) h(1) hd tl h(3)
      by (intro exI[of _ parts1]) (simp add: ReadResponse_def connected_to_def new_response_def)
  next
    case False
    let ?ss = "ss\<lparr>ss_in := map Data parts1\<rparr>"
    have "connected_to ?ss" using assms(1) by (simp add: connected_to_def)
    then obtain parts2 where b: "ReadExact True (int ?n) ?ss =
        (int ?n, take ?n (concat parts1), ?ss\<lparr>ss_in := map Data parts2\<rparr>)"
      "concat parts2 = drop ?n (concat parts1)" "[] \<notin> set parts2"
      using ReadExact_data[of ?ss parts1 ?n] h(3) tl False by auto
    have alloc: "alloc (word_of_nat ?n + 1)" using assms(5) by (simp add: sendable_def)
    show ?thesis
      using assms(1) h(1) hd tl b False pos iu alloc body
      by (intro exI[of _ parts2])
         (simp add: ReadResponse_def connected_to_def new_response_def map_idI o_def
            del: bytes_of_roundtrip)
  qed
qed

text \<open>
  C30: responses survive the socket whatever the pieces in which the stream delivers them:
  reading as many responses as were written yields them in order, unchanged, and leaves nothing
  in the stream, provided each text has no NUL, is shorter than 2 GB and can be allocated.
\<close>

theorem framing_roundtrip:
  assumes "connected_to ss" and "ss_in ss = map Data parts" and "[] \<notin> set parts"
    and "concat parts = wire rs" and "\<And>r. r \<in> set rs \<Longrightarrow> sendable alloc r"
  shows "read_responses alloc (length rs) ss =
    (map (\<lambda>r. (0, \<lparr>channel_id = fst r, rsp_json = snd r\<rparr>)) rs, ss\<lparr>ss_in := []\<rparr>)"
  using assms
proof (induction rs arbitrary: ss parts)
  case Nil
  then have "concat parts = []" by (simp add: wire_def)
  then have "parts = []" using Nil(3) by (cases parts) auto
  with Nil(2) show ?case by simp
next
  case (Cons r rs)
  have "concat parts = frame r @ wire rs" using Cons(5) by (simp add: wire_def)
  then obtain parts' where p: "ReadResponse alloc new_response ss =
      (0, \<lparr>channel_id = fst r, rsp_json = snd r\<rparr>, ss\<lparr>ss_in := map Data parts'\<rparr>)"
    "concat parts' = wire rs" "[] \<notin> set parts'"
    using ReadResponse_frame[OF Cons(2-4), of r "wire rs" alloc] Cons(6)[of r] by auto
  have "read_responses alloc (length rs) (ss\<lparr>ss_in := map Data parts'\<rparr>) =
    (map (\<lambda>r. (0, \<lparr>channel_id = fst r, rsp_json = snd r\<rparr>)) rs, ss\<lparr>ss_in := []\<rparr>)"
    using Cons(1)[of "ss\<lparr>ss_in := map Data parts'\<rparr>" parts'] Cons(2,6) p(2,3)
    by (simp add: connected_to_def)
  with p(1) show ?case by simp
qed

definition sample_socket :: socket_server where
  "sample_socket = \<lparr> m_serverSocket = 3, m_clientSocket = 4, m_running = True, m_address = [],
     m_port = 0, ss_open = [0, 1, 2, 3, 4], ss_sent = [], ss_in = [] \<rparr>"

lemma framing_roundtrip_witness:
  "fst (read_responses (\<lambda>_. True) 2
     (sample_socket\<lparr>ss_in := [Data (take 3 (wire [(7, ''hi''), (8, [])])), Data (drop 3 (wire [(7, ''hi''), (8, [])]))]\<rparr>)) =
   [(0, \<lparr>channel_id = 7, rsp_json = ''hi''\<rparr>), (0, \<lparr>channel_id = 8, rsp_json = []\<rparr>)]"
proof -
  let ?w = "wire [(7, ''hi''), (8, [])]"
  let ?ss = "sample_socket\<lparr>ss_in := [Data (take 3 ?w), Data (drop 3 ?w)]\<rparr>"
  have "connected_to ?ss" "ss_in ?ss = map Data [take 3 ?w, drop 3 ?w]"
    by (simp_all add: connected_to_def sample_socket_def)
  moreover have "[] \<notin> set [take 3 ?w, drop 3 ?w]" by (simp add: wire_def frame_def htonl_def)
  moreover have "concat [take 3 ?w, drop 3 ?w] = ?w" by simp
  moreover have "sendable (\<lambda>_. True) r" if "r \<in> set [(7, ''hi''), (8, [])]" for r
    using that by (auto simp: sendable_def nul_def)
  ultimately show ?thesis
    using framing_roundtrip[of ?ss "[take 3 ?w, drop 3 ?w]" "[(7, ''hi''), (8, [])]" "\<lambda>_. True"]
    by (simp add: numeral_2_eq_2)
qed

text \<open>
  a length field of \<open>2\<^sup>31\<close> or more is converted to a negative count: the response is
  dropped with an error that does not disconnect, only the header is consumed, and the payload
  is left in the stream, where the next read takes it for a header.
\<close>

theorem oversized_response:
  assumes "connected_to ss" and "ss_in ss = [Data (htonl ch @ htonl len), Data payload]"
    and "2 ^ 31 \<le> unat len"
  shows "ReadResponse alloc rsp ss =
    (-1, rsp\<lparr>channel_id := ch\<rparr>, ss\<lparr>ss_in := [Data payload]\<rparr>)"
proof -
  have "read_loop 8 [] (ss_in ss) = (0, htonl ch @ htonl len, [Data payload])"
    unfolding assms(2) by (simp add: read_loop.simps)
  then have h: "ReadExact True 8 ss = (8, htonl ch @ htonl len, ss\<lparr>ss_in := [Data payload]\<rparr>)"
    using assms(1) by (simp add: ReadExact_def connected_to_def)
  have "int (unat len) < 2 ^ 32" using unsigned_less[of len, where 'a = int] by simp
  then have "int_of_u32 len \<le> 0" using assms(3)
    by (simp only: int_of_u32_def not_less[symmetric] if_False)
  moreover have "0 < len"
    using assms(3) by (metis not_less unat_0 word_gt_0 zero_less_numeral zero_less_power)
  ultimately show ?thesis
    using assms(1) h by (simp add: ReadResponse_def connected_to_def ReadExact_def)
qed

lemma oversized_response_witness:
  "fst (ReadResponse (\<lambda>_. True) new_response
     (sample_socket\<lparr>ss_in := [Data (htonl 1 @ htonl 0x80000000), Data (map byte_of ''{}'')]\<rparr>)) = -1"
  using oversized_response[of "sample_socket\<lparr>ss_in := [Data (htonl 1 @ htonl 0x80000000),
      Data (map byte_of ''{}'')]\<rparr>" 1 "0x80000000" "map byte_of ''{}''" "\<lambda>_. True" new_response]
  by (simp add: connected_to_def sample_socket_def)

section \<open>Requests\<close>

text \<open>How a plugin reads an invoke request: command, channel, lengths, token and text.\<close>

definition decode_invoke :: "byte list \<Rightarrow> (32 word \<times> string \<times> string) option" where
  "decode_invoke bs =
     (let n = unat (ntohl (take 4 (drop 8 bs))); m = unat (ntohl (take 4 (drop 12 bs))) in
      if ntohl (take 4 bs) = ID_INVOKE \<and> length bs = 16 + n + m
      then Some (ntohl (take 4 (drop 4 bs)), map char_of_byte (take n (drop 16 bs)),
                 map char_of_byte (drop n (drop 16 bs)))
      else None)"

lemma send_part_full:
  "send_part (\<lambda>bs. int (length bs)) bs ss =
     (True, if bs = [] then ss else ss\<lparr>ss_sent := ss_sent ss @ [(m_clientSocket ss, bs)]\<rparr>)"
  by (simp add: send_part_def sys_send_def)

text \<open>
  an invoke request that the socket takes in full reaches the client as one message from
  which the channel, the token and the text can be read back; with any part not taken in full
  the call fails.
\<close>

theorem SendInvoke_roundtrip:
  assumes "connected_to ss" and "length token < 2 ^ 32" and "length json < 2 ^ 32"
  shows "\<exists>parts. SendInvoke (\<lambda>bs. int (length bs)) ch token json ss =
      (0, ss\<lparr>ss_sent := ss_sent ss @ map (Pair (m_clientSocket ss)) parts\<rparr>) \<and>
    decode_invoke (concat parts) = Some (ch, token, json)"
proof -
  let ?h = "htonl ID_INVOKE @ htonl ch @ htonl (word_of_nat (length token)) @
    htonl (word_of_nat (length json))"
  let ?parts = "?h # filter (\<lambda>p. p \<noteq> []) [map byte_of token, map byte_of json]"
  have send: "SendInvoke (\<lambda>bs. int (length bs)) ch token json ss =
      (0, ss\<lparr>ss_sent := ss_sent ss @ map (Pair (m_clientSocket ss)) ?parts\<rparr>)"
    using assms(1)
    by (cases "token = []"; cases "json = []")
       (simp_all add: SendInvoke_def connected_to_def send_part_full sys_send_def Let_def)
  have cat: "concat ?parts = ?h @ map byte_of token @ map byte_of json" by simp
  have "unat (word_of_nat (length token) :: 32 word) = length token"
    "unat (word_of_nat (length json) :: 32 word) = length json"
    using assms(2,3) by (simp_all add: unat_of_nat)
  then have "decode_invoke (?h @ map byte_of token @ map byte_of json) = Some (ch, token, json)"
    by (simp add: decode_invoke_def Let_def del: map_map)
  with send cat show ?thesis by (intro exI[of _ ?parts]) simp
qed

lemma SendInvoke_roundtrip_witness:
  "fst (SendInvoke (\<lambda>bs. int (length bs)) 5 ''t'' ''{}'' sample_socket) = 0"
  using SendInvoke_roundtrip[of sample_socket "''t''" "''{}''" 5]
  by (auto simp: connected_to_def sample_socket_def)

section \<open>Descriptors\<close>

text \<open>
  opening either succeeds, with the listening socket as the only new descriptor, or fails
  and leaves the object and the open descriptors as they were.
\<close>

theorem Open_socket_spec:
  assumes "sys_socket sys \<notin> set (ss_open ss)" and "Open_socket sys address port ss = (rc, ss')"
  shows "if rc = 0 then ss_open ss' = ss_open ss @ [sys_socket sys] \<and>
      m_serverSocket ss' = sys_socket sys \<and> m_address ss' = address \<and>
      m_clientSocket ss' = m_clientSocket ss \<and> (port \<noteq> 0 \<longrightarrow> m_port ss' = port)
    else rc = -1 \<and> ss' = ss"
proof -
  have "filter (\<lambda>f. f \<noteq> sys_socket sys) (ss_open ss) = ss_open ss"
    using assms(1) by (auto simp: filter_id_conv)
  then have "close_fd (sys_socket sys) (ss\<lparr>ss_open := ss_open ss @ [sys_socket sys]\<rparr>) = ss"
    by (simp add: close_fd_def)
  then show ?thesis
    using assms(2)
    by (auto simp: Open_socket_def Let_def split: if_splits option.splits)
qed

lemma Open_socket_spec_witness:
  "snd (Open_socket \<lparr>sys_socket = 9, sys_pton = 1, sys_getfd = 0, sys_setfd = 0, sys_bind = -1,
     sys_listen = 0, sys_name = None\<rparr> ''127.0.0.1'' 55555 sample_socket) = sample_socket"
proof -
  let ?sys = "\<lparr>sys_socket = 9, sys_pton = 1, sys_getfd = 0, sys_setfd = 0, sys_bind = -1,
     sys_listen = 0, sys_name = None\<rparr>"
  obtain rc ss' where o: "Open_socket ?sys ''127.0.0.1'' 55555 sample_socket = (rc, ss')" by force
  have "rc = -1" using o by (auto simp: Open_socket_def Let_def)
  with Open_socket_spec[OF _ o] o show ?thesis by (simp add: sample_socket_def)
qed

text \<open>
  descriptors are not managed one to one.  Closing the server while no client is connected
  closes descriptor 0, which is not its own; and accepting a client while one is connected
  forgets the first one's descriptor without closing it.
\<close>

theorem descriptor_faults:
  assumes "0 < m_serverSocket ss"
  shows "(m_clientSocket ss = 0 \<longrightarrow>
      ss_open (Close_socket ss) = filter (\<lambda>f. f \<noteq> 0 \<and> f \<noteq> m_serverSocket ss) (ss_open ss)) \<and>
    (m_running ss \<and> 0 < m_clientSocket ss \<and> m_clientSocket ss \<in> set (ss_open ss) \<and>
      isset (m_serverSocket ss) \<and> 0 < clsock \<and> clsock \<noteq> m_clientSocket ss \<and> \<not> isset clsock \<longrightarrow>
      (let ss' = snd (snd (Run_step alloc 1 isset (clsock, input) ss)) in
        m_clientSocket ss' = clsock \<and> m_clientSocket ss \<in> set (ss_open ss')))"
  using assms by (auto simp: Close_socket_def close_fd_def Run_step_def Let_def)

lemma descriptor_faults_witness:
  "0 \<notin> set (ss_open (Close_socket (sample_socket\<lparr>m_clientSocket := 0\<rparr>)))"
  using descriptor_faults[of "sample_socket\<lparr>m_clientSocket := 0\<rparr>" "\<lambda>_. True" 1 "\<lambda>_. True" "[]"]
  by (simp add: sample_socket_def)

end
