(* ===== verification/Locked_State.thy ===== *)
theory Locked_State
  imports Main "HOL-Library.State_Monad"
begin

text \<open>
  Programs that pass a state along and work between a lock and an unlock, in the state monad
  of the library.  A program \<open>m\<close> goes \<open>from_to live P Q R\<close> when it does nothing in a state that
  is not live (a thread that has died or hangs), and otherwise takes a state with \<open>P\<close> to one
  that is related by \<open>R\<close> and, if still live, satisfies \<open>Q\<close>.  The locale \<open>locking\<close> is the
  interface of a mutex: programs between \<open>acquire\<close> and \<open>release\<close> compose to programs that
  start and end with the mutex free.
\<close>

named_theorems locking_intros \<open>one rule for each way of composing programs\<close>

fun foldM :: "('x \<Rightarrow> 'b \<Rightarrow> ('s, 'b) state) \<Rightarrow> 'x list \<Rightarrow> 'b \<Rightarrow> ('s, 'b) state" where
  "foldM f [] b = State_Monad.return b"
| "foldM f (x # xs) b = do { b' \<leftarrow> f x b; foldM f xs b' }"

definition from_to ::
  "('s \<Rightarrow> bool) \<Rightarrow> ('s \<Rightarrow> bool) \<Rightarrow> ('s \<Rightarrow> bool) \<Rightarrow> ('s \<Rightarrow> 's \<Rightarrow> bool) \<Rightarrow> ('s, 'a) state \<Rightarrow> bool" where
  "from_to live P Q R m =
     (\<forall>s. (\<not> live s \<longrightarrow> snd (run_state m s) = s) \<and>
          (live s \<and> P s \<longrightarrow>
             R s (snd (run_state m s)) \<and>
             (live (snd (run_state m s)) \<longrightarrow> Q (snd (run_state m s)))))"

lemma from_toI:
  assumes "\<And>s. \<not> live s \<Longrightarrow> snd (run_state m s) = s"
    and "\<And>s. live s \<Longrightarrow> P s \<Longrightarrow> R s (snd (run_state m s))"
    and "\<And>s. live s \<Longrightarrow> P s \<Longrightarrow> live (snd (run_state m s)) \<Longrightarrow> Q (snd (run_state m s))"
  shows "from_to live P Q R m"
  using assms unfolding from_to_def by blast

lemma from_to_dead: "from_to live P Q R m \<Longrightarrow> \<not> live s \<Longrightarrow> snd (run_state m s) = s"
  by (simp add: from_to_def)

lemma from_to_rel: "from_to live P Q R m \<Longrightarrow> live s \<Longrightarrow> P s \<Longrightarrow> R s (snd (run_state m s))"
  by (simp add: from_to_def)

lemma from_to_post:
  "from_to live P Q R m \<Longrightarrow> live s \<Longrightarrow> P s \<Longrightarrow> live (snd (run_state m s)) \<Longrightarrow>
   Q (snd (run_state m s))"
  by (simp add: from_to_def)

locale stepping =
  fixes live :: "'s \<Rightarrow> bool" and R :: "'s \<Rightarrow> 's \<Rightarrow> bool"
  assumes R_refl: "R s s" and R_trans: "R s t \<Longrightarrow> R t u \<Longrightarrow> R s u"
begin

lemma return_from_to: "from_to live P P R (State_Monad.return x)"
  by (simp add: from_to_def R_refl)

lemma bind_from_to:
  assumes m: "from_to live P Q R m" and f: "\<And>x. from_to live Q T R (f x)"
  shows "from_to live P T R (State_Monad.bind m f)"
proof (rule from_toI)
  fix s
  let ?x = "fst (run_state m s)" and ?t = "snd (run_state m s)"
  have run: "run_state (State_Monad.bind m f) s = run_state (f ?x) ?t"
    by (simp add: case_prod_unfold)
  show "snd (run_state (State_Monad.bind m f) s) = s" if "\<not> live s"
    unfolding run using from_to_dead[OF m that] from_to_dead[OF f that] by simp
  assume s: "live s" "P s"
  show "R s (snd (run_state (State_Monad.bind m f) s))"
  proof (cases "live ?t")
    case True
    then show ?thesis unfolding run
      using from_to_rel[OF m s] from_to_rel[OF f True from_to_post[OF m s True]] R_trans by blast
  next
    case False
    then show ?thesis unfolding run
      using from_to_rel[OF m s] from_to_dead[OF f False] by simp
  qed
  show "T (snd (run_state (State_Monad.bind m f) s))"
    if live: "live (snd (run_state (State_Monad.bind m f) s))"
  proof (cases "live ?t")
    case True
    then show ?thesis using live unfolding run
      using from_to_post[OF f True from_to_post[OF m s True]] by blast
  next
    case False
    then show ?thesis using live unfolding run using from_to_dead[OF f False] by simp
  qed
qed

lemma if_from_to:
  "from_to live P Q R m \<Longrightarrow> from_to live P Q R n \<Longrightarrow> from_to live P Q R (if b then m else n)"
  by simp

lemma option_from_to:
  "from_to live P Q R m \<Longrightarrow> (\<And>x. from_to live P Q R (f x)) \<Longrightarrow>
   from_to live P Q R (case z of None \<Rightarrow> m | Some x \<Rightarrow> f x)"
  by (cases z) auto

lemma prod_from_to:
  "(\<And>x y. from_to live P Q R (f x y)) \<Longrightarrow> from_to live P Q R (case z of (x, y) \<Rightarrow> f x y)"
  by (cases z) auto

lemma let_from_to:
  "(\<And>x. from_to live P Q R (f x)) \<Longrightarrow> from_to live P Q R (let x = z in f x)"
  by simp

lemma foldM_from_to:
  "(\<And>x b. from_to live P P R (f x b)) \<Longrightarrow> from_to live P P R (foldM f xs b)"
  by (induction xs arbitrary: b) (auto intro: return_from_to bind_from_to)

end

locale locking = stepping live R
  for live :: "'s \<Rightarrow> bool" and R :: "'s \<Rightarrow> 's \<Rightarrow> bool" +
  fixes held :: "'s \<Rightarrow> bool"
    and acquire release :: "('s, unit) state"
  assumes acquire_from_to: "from_to live (\<lambda>s. \<not> held s) held R acquire"
    and release_from_to: "from_to live held (\<lambda>s. \<not> held s) R release"
begin

lemma critical_section:
  assumes "from_to live held held R m"
  shows "from_to live (\<lambda>s. \<not> held s) (\<lambda>s. \<not> held s) R
           (do { acquire; x \<leftarrow> m; release; State_Monad.return (f x) })"
  by (rule bind_from_to[OF acquire_from_to bind_from_to[OF assms
        bind_from_to[OF release_from_to return_from_to]]])

end

lemma foldM_append: "foldM f (xs @ ys) b = do { b' \<leftarrow> foldM f xs b; foldM f ys b' }"
proof (induction xs arbitrary: b)
  case (Cons x xs)
  have "foldM f (xs @ ys) = (\<lambda>b. do { b' \<leftarrow> foldM f xs b; foldM f ys b' })"
    by (rule ext) (rule Cons.IH)
  then show ?case by simp
qed simp

end
