(* ===== verification/Shell_Core.thy ===== *)
theory Shell_Core
  imports Prelude Utils_Strings Json Locked_State "HOL-Library.Word"
    "HOL-Library.List_Lexorder" "HOL-Library.Char_ord"
begin

unbundle bit_operations_syntax

text \<open>
  The state of the RDKShell plugin (\<^verbatim>\<open>RDKShell/RDKShell.cpp\<close>, built without hibernation, Rialto and
  RFC support) and the primitives its operations are written in.

  The compositor (\<^verbatim>\<open>CompositorController\<close> and the other functions of the rdkshell library) is not
  part of the repository.  Each call of it is the name of the function with its arguments; what it answers and does to
  the world is the field \<open>cc\<close> of the environment, and what it stores into its reference
  parameters is read from the world by the \<open>out_\<close> fields, which get the value the parameter had
  before.  Every call is recorded together with whether \<^verbatim>\<open>gRdkShellMutex\<close> was held.

  A thread that has thrown, hangs on a lock or a semaphore, or has divided by zero does nothing
  any more: every primitive is void unless the status is \<open>Running\<close>.
\<close>

section \<open>Calls of the compositor\<close>

datatype 'd rdk_data =
    Data_bool bool
  | Data_int32 "32 word"
  | Data_uint32 "32 word"
  | Data_double 'd
  | Data_string string

type_synonym 'd properties = "(string, 'd rdk_data) omap"
type_synonym rect = "32 word \<times> 32 word \<times> 32 word \<times> 32 word"
type_synonym egg_key = "32 word \<times> 32 word \<times> 32 word"

record easter_egg =
  egg_id :: string
  egg_keySequence :: "egg_key list"
  egg_duration :: "32 word"
  egg_api :: string

text \<open>An argument of a call, and a call: the name of the function and its arguments.\<close>

datatype 'd arg =
    Str string
  | Uint "32 word"
  | Sint "32 word"
  | Flag bool
  | Dbl 'd
  | Props "'d properties"
  | Keys "egg_key list"

type_synonym 'd cc_call = "string \<times> 'd arg list"

text \<open>Calls of other plugins and threads started: recorded, not interpreted.\<close>

datatype ext_call =
    Focused string bool
  | BrowserVisibility string bool
  | StoreCapture nat "8 word list" "32 word" "32 word"
  | SetSubsystem string
  | LaunchRequest string jobject
  | ThunderInvoke string string jobject
  | ServiceCall string "string list"

section \<open>The environment\<close>

text \<open>
  A service as the controller's \<^verbatim>\<open>status\<close> lists it: its call sign in quotes, its state, the text of
  its configuration.
\<close>

datatype service_state =
    DEACTIVATED | DEACTIVATION | ACTIVATED | ACTIVATION | PRECONDITION | SUSPENDED | RESUMED | DESTROYED

record service =
  sv_callsign :: string
  sv_state :: service_state
  sv_config :: string

record ('w, 'd) env =
  js :: json_lib
  cc :: "'d cc_call \<Rightarrow> 'w \<Rightarrow> bool \<times> 'w"
  out_clients :: "'w \<Rightarrow> string list"
  out_zorder :: "'w \<Rightarrow> string list"
  out_focused :: "'w \<Rightarrow> string \<Rightarrow> string"
  out_mime :: "'w \<Rightarrow> string \<Rightarrow> string \<Rightarrow> string"
  out_bounds :: "'w \<Rightarrow> string \<Rightarrow> rect \<Rightarrow> rect"
  out_visible :: "'w \<Rightarrow> string \<Rightarrow> bool \<Rightarrow> bool"
  out_opacity :: "'w \<Rightarrow> string \<Rightarrow> 32 word \<Rightarrow> 32 word"
  out_scale :: "'w \<Rightarrow> string \<Rightarrow> 'd \<times> 'd \<Rightarrow> 'd \<times> 'd"
  out_holePunch :: "'w \<Rightarrow> string \<Rightarrow> bool \<Rightarrow> bool"
  out_logLevel :: "'w \<Rightarrow> string \<Rightarrow> string"
  out_resolution :: "'w \<Rightarrow> 32 word \<times> 32 word \<Rightarrow> 32 word \<times> 32 word"
  out_virtual :: "'w \<Rightarrow> string \<Rightarrow> 32 word \<times> 32 word \<Rightarrow> 32 word \<times> 32 word"
  out_virtualEnabled :: "'w \<Rightarrow> string \<Rightarrow> bool \<Rightarrow> bool"
  out_keyRepeats :: "'w \<Rightarrow> bool \<Rightarrow> bool"
  out_cursor :: "'w \<Rightarrow> 32 word \<times> 32 word \<Rightarrow> 32 word \<times> 32 word"
  out_ram :: "'w \<Rightarrow> rect \<Rightarrow> rect"
  out_blockedApps :: "'w \<Rightarrow> string list"
  out_easterEggs :: "'w \<Rightarrow> easter_egg list"
  out_screenshot :: "'w \<Rightarrow> 8 word list"
  has_focus_interface :: "string \<Rightarrow> bool"
  has_browser_interface :: "string \<Rightarrow> bool"
  thunder :: "string \<Rightarrow> string \<Rightarrow> jobject \<Rightarrow> 'w \<Rightarrow> (hresult \<times> jobject) \<times> 'w"
  store_activated :: "'w \<Rightarrow> bool"
  has_subsystems :: "'w \<Rightarrow> bool"
  factory_value :: "'w \<Rightarrow> string \<Rightarrow> string option"
  key_from_wayland :: "32 word \<Rightarrow> 32 word \<times> 32 word \<Rightarrow> 32 word \<times> 32 word"
  services :: "'w \<Rightarrow> service list"
  plugin_state :: "'w \<Rightarrow> string \<Rightarrow> string option"
  plugin_url :: "'w \<Rightarrow> string \<Rightarrow> string option"
  plugin_resident :: "'w \<Rightarrow> string \<Rightarrow> nat option"
  service_call :: "string \<Rightarrow> string list \<Rightarrow> 'w \<Rightarrow> hresult \<times> 'w"
  shell_state :: "'w \<Rightarrow> string \<Rightarrow> service_state option"
  plugin_config :: "'w \<Rightarrow> string \<Rightarrow> string option"
  state_control :: "'w \<Rightarrow> string \<Rightarrow> bool"
  factory_app_url :: "string option"
  runtime_dir :: "string option"
  double_ratio :: "32 word \<Rightarrow> 32 word \<Rightarrow> 'd"
  api_text :: "jobject \<Rightarrow> string option"
  stod :: "string \<Rightarrow> 'd option"
  double_to_string :: "'d \<Rightarrow> string"
  double_of_uint :: "32 word \<Rightarrow> 'd"
  double_one :: 'd
  FLAGS_CONTROL :: "32 word"
  FLAGS_SHIFT :: "32 word"
  FLAGS_ALT :: "32 word"
  MIME_TYPE_DAC_NATIVE :: string
  MIME_TYPE_NATIVE :: string
  EVENT_SIZE_CHANGE_COMPLETE :: string
  array_beyond :: "json list \<Rightarrow> nat \<Rightarrow> json"
  uninit_bool :: bool
  uninit_uint :: "32 word"

section \<open>The state\<close>

datatype status = Running | Thrown | Blocked | Crashed

record create_request =
  mClient :: string
  mDisplayName :: string
  mDisplayWidth :: "32 word"
  mDisplayHeight :: "32 word"
  mVirtualDisplayEnabled :: bool
  mVirtualWidth :: "32 word"
  mVirtualHeight :: "32 word"
  mTopmost :: bool
  mFocus :: bool
  mResult :: bool
  mAutoDestroy :: bool

record kill_request =
  kClient :: string
  kResult :: bool

datatype factory_status = NOTLAUNCHED | STARTED | COMPLETED

record ('w, 'd) shell =
  sh_world :: 'w
  sh_status :: status
  sh_mutex :: bool
  sh_calls :: "(bool \<times> 'd cc_call) list"
  sh_ext :: "ext_call list"
  sh_events :: "(string \<times> jobject) list"
  gCreateDisplayRequests :: "create_request list"
  gKillClientRequests :: "kill_request list"
  mTaskQueue :: "(32 word \<times> 32 word) list"
  gActivePluginsData :: "(string, string) omap"
  gDestroyApplications :: "(string \<times> bool) list"
  gExternalDestroyApplications :: "(string \<times> bool) list"
  gLaunchApplications :: "(string \<times> bool) list"
  gStateNotifications :: "(string, bool) omap"
  gPluginsEventListener :: "(string, bool) omap"
  gPluginDisplayNameMap :: "(string \<times> string) list"
  gApplicationsExitReason :: "(string \<times> int) list"
  receivedResolutionRequest :: bool
  resolutionWidth :: "32 word"
  resolutionHeight :: "32 word"
  receivedFullScreenImageRequest :: bool
  fullScreenImagePath :: string
  receivedShowWatermarkRequest :: bool
  receivedShowSplashScreenRequest :: bool
  gSplashScreenDisplayTime :: "32 word"
  needsScreenshot :: bool
  mCaptureStorers :: "nat list"
  gCurrentFramerate :: "32 word"
  sRunning :: bool
  isRunning :: bool
  waitForPersistentStore :: bool
  sPersistentStorePreLaunchChecked :: bool
  sPersistentStoreFirstActivated :: bool
  sPersistentStoreWaitProcessed :: bool
  sFactoryModeStart :: bool
  sFactoryModeBlockResidentApp :: bool
  mEnableUserInactivityNotification :: bool
  mEnableEasterEggs :: bool
  mErmEnabled :: bool
  gRdkShellSurfaceModeEnabled :: bool
  sFactoryAppLaunchStatus :: factory_status
  sForceResidentAppLaunch :: bool
  sResidentAppFirstActivated :: bool
  gSystemServiceConnection :: bool
  gSystemServiceEventsSubscribed :: bool

text \<open>The initial values of the globals and members; the frame rate is set by the library.\<close>

definition shell_init :: "'w \<Rightarrow> 32 word \<Rightarrow> ('w, 'd) shell" where
  "shell_init w rate = \<lparr> sh_world = w, sh_status = Running, sh_mutex = False, sh_calls = [],
     sh_ext = [], sh_events = [], gCreateDisplayRequests = [], gKillClientRequests = [],
     mTaskQueue = [], gActivePluginsData = [], gDestroyApplications = [],
     gExternalDestroyApplications = [], gLaunchApplications = [], gStateNotifications = [],
     gPluginsEventListener = [], gPluginDisplayNameMap = [],
     gApplicationsExitReason = [],
     receivedResolutionRequest = False, resolutionWidth = 1280, resolutionHeight = 720,
     receivedFullScreenImageRequest = False, fullScreenImagePath = [],
     receivedShowWatermarkRequest = False, receivedShowSplashScreenRequest = False,
     gSplashScreenDisplayTime = 0, needsScreenshot = False, mCaptureStorers = [],
     gCurrentFramerate = rate, sRunning = True, isRunning = True,
     waitForPersistentStore = False, sPersistentStorePreLaunchChecked = False,
     sPersistentStoreFirstActivated = False, sPersistentStoreWaitProcessed = False,
     sFactoryModeStart = False, sFactoryModeBlockResidentApp = False,
     mEnableUserInactivityNotification = True, mEnableEasterEggs = True, mErmEnabled = False,
     gRdkShellSurfaceModeEnabled = False, sFactoryAppLaunchStatus = NOTLAUNCHED,
     sForceResidentAppLaunch = False, sResidentAppFirstActivated = False,
     gSystemServiceConnection = False, gSystemServiceEventsSubscribed = False \<rparr>"

section \<open>Primitives\<close>

type_synonym ('w, 'd, 'a) prog = "(('w, 'd) shell, 'a) state"

abbreviation running :: "('w, 'd) shell \<Rightarrow> bool" where
  "running s \<equiv> sh_status s = Running"

definition upd :: "(('w, 'd) shell \<Rightarrow> ('w, 'd) shell) \<Rightarrow> ('w, 'd, unit) prog" where
  "upd f = State (\<lambda>s. ((), if running s then f s else s))"

definition asks :: "(('w, 'd) shell \<Rightarrow> 'a) \<Rightarrow> ('w, 'd, 'a) prog" where
  "asks f = State (\<lambda>s. (f s, s))"

definition throw :: "('w, 'd, unit) prog" where
  "throw = upd (\<lambda>s. s\<lparr>sh_status := Thrown\<rparr>)"

text \<open>
  \<^verbatim>\<open>gRdkShellMutex.lock()\<close> on a mutex that is held waits for ever.  \<^verbatim>\<open>lockRdkShellMutex\<close> first
  tries for 250 ms and then locks: the same but for the time it takes.
\<close>

definition lock :: "('w, 'd, unit) prog" where
  "lock = upd (\<lambda>s. if sh_mutex s then s\<lparr>sh_status := Blocked\<rparr> else s\<lparr>sh_mutex := True\<rparr>)"

definition lockRdkShellMutex :: "('w, 'd, unit) prog" where
  "lockRdkShellMutex = do {
     held \<leftarrow> asks sh_mutex;
     if held then lock else upd (\<lambda>s. s\<lparr>sh_mutex := True\<rparr>)
   }"

definition unlock :: "('w, 'd, unit) prog" where
  "unlock = upd (\<lambda>s. s\<lparr>sh_mutex := False\<rparr>)"

definition command :: "('w, 'd) env \<Rightarrow> 'd cc_call \<Rightarrow> ('w, 'd, bool) prog" where
  "command E c = State (\<lambda>s.
     if running s then
       (let (r, w) = cc E c (sh_world s) in
         (r, s\<lparr>sh_world := w, sh_calls := sh_calls s @ [(sh_mutex s, c)]\<rparr>))
     else (False, s))"

definition read_out :: "('w \<Rightarrow> 'a) \<Rightarrow> ('w, 'd, 'a) prog" where
  "read_out f = asks (\<lambda>s. f (sh_world s))"

definition external :: "ext_call \<Rightarrow> ('w, 'd, unit) prog" where
  "external x = upd (\<lambda>s. s\<lparr>sh_ext := sh_ext s @ [x]\<rparr>)"

definition thunder_invoke ::
  "('w, 'd) env \<Rightarrow> string \<Rightarrow> string \<Rightarrow> jobject \<Rightarrow> ('w, 'd, hresult \<times> jobject) prog" where
  "thunder_invoke E callsign method params = State (\<lambda>s.
     if running s then
       (let (r, w) = thunder E callsign method params (sh_world s) in
         (r, s\<lparr>sh_world := w, sh_ext := sh_ext s @ [ThunderInvoke callsign method params]\<rparr>))
     else ((ERROR_GENERAL, []), s))"

text \<open>
  A call through the shell of another plugin (activating, cloning, configuring it, setting a
  property or a stored value): its name, its arguments, and the status it returns.
\<close>

definition call_service :: "('w, 'd) env \<Rightarrow> string \<Rightarrow> string list \<Rightarrow> ('w, 'd, hresult) prog" where
  "call_service E f args = State (\<lambda>s.
     if running s then
       (let (r, w) = service_call E f args (sh_world s) in
         (r, s\<lparr>sh_world := w, sh_ext := sh_ext s @ [ServiceCall f args]\<rparr>))
     else (ERROR_GENERAL, s))"

definition notify :: "string \<Rightarrow> jobject \<Rightarrow> ('w, 'd, unit) prog" where
  "notify event params = upd (\<lambda>s. s\<lparr>sh_events := sh_events s @ [(event, params)]\<rparr>)"

section \<open>Replies\<close>

type_synonym reply = "hresult \<times> jobject"

definition returnResponse :: "bool \<Rightarrow> jobject \<Rightarrow> ('w, 'd, reply) prog" where
  "returnResponse success response =
     State_Monad.return (if success then ERROR_NONE else ERROR_GENERAL,
       jset ''success'' (JBool success) response)"

definition with_message :: "string \<Rightarrow> jobject \<Rightarrow> jobject" where
  "with_message msg response = jset ''message'' (JString msg) response"

text \<open>
  \<open>need c msg (result, response)\<close> is the check \<^verbatim>\<open>if (!c) { result = false; response["message"] =
  msg; }\<close> that most handlers begin with; a later check overwrites the message.
\<close>

definition need :: "bool \<Rightarrow> string \<Rightarrow> bool \<times> jobject \<Rightarrow> bool \<times> jobject" where
  "need c msg rr = (if c then rr else (False, with_message msg (snd rr)))"

text \<open>The body of a handler runs if all checks passed; \<open>finish\<close> adds a message to a failure.\<close>

definition when_ok :: "bool \<times> jobject \<Rightarrow> (jobject \<Rightarrow> ('w, 'd, reply) prog) \<Rightarrow> ('w, 'd, reply) prog" where
  "when_ok rr body = (if fst rr then body (snd rr) else returnResponse False (snd rr))"

definition finish :: "string \<Rightarrow> jobject \<Rightarrow> bool \<Rightarrow> ('w, 'd, reply) prog" where
  "finish failure response result =
     returnResponse result (if result then response else with_message failure response)"

abbreviation start :: "bool \<times> jobject" where
  "start \<equiv> (True, [])"

definition has_client :: "jobject \<Rightarrow> bool" where
  "has_client p = (HasLabel p ''client'' \<or> HasLabel p ''callsign'')"

definition client_of :: "('w, 'd) env \<Rightarrow> jobject \<Rightarrow> string" where
  "client_of E p = js_String (js E) (jget p (if HasLabel p ''client'' then ''client'' else ''callsign''))"

definition get_string :: "('w, 'd) env \<Rightarrow> jobject \<Rightarrow> string \<Rightarrow> string" where
  "get_string E p k = js_String (js E) (jget p k)"

definition get_uint :: "('w, 'd) env \<Rightarrow> jobject \<Rightarrow> string \<Rightarrow> 32 word" where
  "get_uint E p k = word_of_int (js_Number (js E) (jget p k))"

definition get_bool :: "('w, 'd) env \<Rightarrow> jobject \<Rightarrow> string \<Rightarrow> bool" where
  "get_bool E p k = js_Boolean (js E) (jget p k)"

definition get_array :: "('w, 'd) env \<Rightarrow> jobject \<Rightarrow> string \<Rightarrow> json list" where
  "get_array E p k = js_Array (js E) (jget p k)"

definition opt_uint :: "('w, 'd) env \<Rightarrow> jobject \<Rightarrow> string \<Rightarrow> 32 word \<Rightarrow> 32 word" where
  "opt_uint E p k x = (if HasLabel p k then get_uint E p k else x)"

definition opt_bool :: "('w, 'd) env \<Rightarrow> jobject \<Rightarrow> string \<Rightarrow> bool \<Rightarrow> bool" where
  "opt_bool E p k x = (if HasLabel p k then get_bool E p k else x)"

definition opt_string :: "('w, 'd) env \<Rightarrow> jobject \<Rightarrow> string \<Rightarrow> string \<Rightarrow> string" where
  "opt_string E p k x = (if HasLabel p k then get_string E p k else x)"

definition opt_array :: "('w, 'd) env \<Rightarrow> jobject \<Rightarrow> string \<Rightarrow> json list" where
  "opt_array E p k = (if HasLabel p k then get_array E p k else [])"

abbreviation JUint :: "32 word \<Rightarrow> json" where
  "JUint x \<equiv> JNumber (uint x)"

section \<open>Names and key flags\<close>

definition getKeyFlag :: "('w, 'd) env \<Rightarrow> string \<Rightarrow> 32 word" where
  "getKeyFlag E modifier =
     (if modifier = ''ctrl'' then FLAGS_CONTROL E
      else if modifier = ''shift'' then FLAGS_SHIFT E
      else if modifier = ''alt'' then FLAGS_ALT E
      else 0)"

fun key_flags :: "('w, 'd) env \<Rightarrow> 32 word \<Rightarrow> json list \<Rightarrow> 32 word" where
  "key_flags E flags [] = flags"
| "key_flags E flags (m # ms) = key_flags E (flags OR getKeyFlag E (js_String (js E) m)) ms"

definition ANY_KEY :: "32 word" where "ANY_KEY = 65536"

section \<open>The mutex discipline\<close>

text \<open>
  What an operation may do to the record of calls: add calls made with the mutex held.  Three
  functions of the library are called without it: \<^verbatim>\<open>setMemoryMonitor\<close>, and the two for easter eggs
  where the factory application comes or goes.
\<close>

definition unguarded :: "string list" where
  "unguarded = [''setMemoryMonitor'', ''addEasterEgg'', ''removeEasterEgg'']"

definition guarded :: "bool \<times> 'd cc_call \<Rightarrow> bool" where
  "guarded hc = (fst hc \<or> fst (snd hc) \<in> set unguarded)"

text \<open>
  The render thread is kept running while \<^verbatim>\<open>sRunning\<close> and \<^verbatim>\<open>isRunning\<close> are true; as long as it is, an
  operation stops neither the thread nor itself by waiting for ever.  The marks of applications
  that are being launched or destroyed are removed again by an operation that returns.
\<close>

definition rendering :: "('w, 'd) shell \<Rightarrow> bool" where
  "rendering s = (sRunning s \<and> isRunning s)"

definition no_new_marks :: "('w, 'd) shell \<Rightarrow> ('w, 'd) shell \<Rightarrow> bool" where
  "no_new_marks s t =
     (fst ` set (gLaunchApplications t) \<subseteq> fst ` set (gLaunchApplications s) \<and>
      fst ` set (gDestroyApplications t) \<subseteq> fst ` set (gDestroyApplications s))"

definition progress :: "('w, 'd) shell \<Rightarrow> ('w, 'd) shell \<Rightarrow> bool" where
  "progress s t =
     ((\<exists>new. sh_calls t = sh_calls s @ new \<and> list_all guarded new) \<and>
      (rendering s \<longrightarrow> rendering t) \<and>
      (sh_status t = Blocked \<longrightarrow> sh_status s = Blocked \<or> \<not> rendering s) \<and>
      (running t \<longrightarrow> running s \<and> no_new_marks s t))"

lemma progress_same [simp]:
  "sh_calls t = sh_calls s \<Longrightarrow> rendering s \<longrightarrow> rendering t \<Longrightarrow>
   (sh_status t = Blocked \<longrightarrow> sh_status s = Blocked \<or> \<not> rendering s) \<Longrightarrow>
   (running t \<longrightarrow> running s \<and> no_new_marks s t) \<Longrightarrow> progress s t"
  by (simp add: progress_def)

lemma no_new_marks_refl [simp]: "no_new_marks s s"
  by (simp add: no_new_marks_def)

lemma progress_refl [simp]: "progress s s"
  by simp

lemma progress_trans:
  assumes "progress s t" "progress t u"
  shows "progress s u"
proof -
  from assms obtain xs ys where "sh_calls t = sh_calls s @ xs" "list_all guarded xs"
    "sh_calls u = sh_calls t @ ys" "list_all guarded ys"
    unfolding progress_def by blast
  then have "sh_calls u = sh_calls s @ (xs @ ys) \<and> list_all guarded (xs @ ys)" by simp
  moreover have "running u \<longrightarrow> running s \<and> no_new_marks s u"
    using assms unfolding progress_def no_new_marks_def by blast
  ultimately show ?thesis using assms unfolding progress_def by blast
qed

lemmas keeping = rendering_def no_new_marks_def

abbreviation free_to_free :: "('w, 'd, 'a) prog \<Rightarrow> bool" where
  "free_to_free \<equiv> from_to running (\<lambda>s. \<not> sh_mutex s) (\<lambda>s. \<not> sh_mutex s) progress"

abbreviation held_to_held :: "('w, 'd, 'a) prog \<Rightarrow> bool" where
  "held_to_held \<equiv> from_to running sh_mutex sh_mutex progress"

interpretation rdk_mutex: locking running progress sh_mutex lockRdkShellMutex unlock
  by unfold_locales
    (auto intro: progress_trans
      simp: from_to_def lockRdkShellMutex_def lock_def unlock_def upd_def asks_def keeping)

interpretation plain_mutex: locking running progress sh_mutex lock unlock
  by unfold_locales
    (auto intro: progress_trans simp: from_to_def lock_def unlock_def upd_def keeping)

lemmas composing [locking_intros] =
  rdk_mutex.return_from_to rdk_mutex.bind_from_to rdk_mutex.if_from_to rdk_mutex.option_from_to
  rdk_mutex.prod_from_to rdk_mutex.let_from_to rdk_mutex.foldM_from_to
  rdk_mutex.acquire_from_to rdk_mutex.release_from_to plain_mutex.acquire_from_to

lemma command_held [locking_intros]: "held_to_held (command E c)"
  by (auto simp: from_to_def command_def progress_def keeping guarded_def case_prod_unfold Let_def)

text \<open>The calls that are made without the mutex.\<close>

lemma unguarded_free [locking_intros]:
  "free_to_free (command E (''setMemoryMonitor'', args))"
  "free_to_free (command E (''addEasterEgg'', args))"
  "free_to_free (command E (''removeEasterEgg'', args))"
  by (auto simp: unguarded_def from_to_def command_def progress_def keeping guarded_def case_prod_unfold Let_def)

lemma asks_from_to [locking_intros]: "from_to running P P progress (asks f)"
  by (simp add: from_to_def asks_def)

lemma read_out_from_to [locking_intros]: "from_to running P P progress (read_out f)"
  by (simp add: read_out_def asks_from_to)

lemma upd_held:
  "(\<And>s. sh_mutex (f s) = sh_mutex s) \<Longrightarrow> (\<And>s. sh_calls (f s) = sh_calls s) \<Longrightarrow>
   (\<And>s. rendering s \<Longrightarrow> rendering (f s)) \<Longrightarrow>
   (\<And>s. running s \<Longrightarrow> rendering s \<Longrightarrow> sh_status (f s) \<noteq> Blocked) \<Longrightarrow>
   (\<And>s. no_new_marks s (f s)) \<Longrightarrow> held_to_held (upd f)"
  by (auto simp: from_to_def upd_def intro!: progress_same)

lemma upd_free:
  "(\<And>s. sh_mutex (f s) = sh_mutex s) \<Longrightarrow> (\<And>s. sh_calls (f s) = sh_calls s) \<Longrightarrow>
   (\<And>s. rendering s \<Longrightarrow> rendering (f s)) \<Longrightarrow>
   (\<And>s. running s \<Longrightarrow> rendering s \<Longrightarrow> sh_status (f s) \<noteq> Blocked) \<Longrightarrow>
   (\<And>s. no_new_marks s (f s)) \<Longrightarrow> free_to_free (upd f)"
  by (auto simp: from_to_def upd_def intro!: progress_same)

lemma external_held [locking_intros]: "held_to_held (external x)"
  and external_free [locking_intros]: "free_to_free (external x)"
  by (auto simp: external_def keeping intro!: upd_held upd_free)

lemma notify_held [locking_intros]: "held_to_held (notify e p)"
  and notify_free [locking_intros]: "free_to_free (notify e p)"
  by (auto simp: notify_def keeping intro!: upd_held upd_free)

lemma thunder_free [locking_intros]: "free_to_free (thunder_invoke E c m p)"
  by (auto simp: from_to_def thunder_invoke_def keeping case_prod_unfold Let_def)

lemma call_service_free [locking_intros]: "free_to_free (call_service E f args)"
  by (auto simp: from_to_def call_service_def keeping case_prod_unfold Let_def)

lemma throw_held [locking_intros]: "held_to_held throw"
  and throw_free [locking_intros]: "free_to_free throw"
  by (auto simp: throw_def from_to_def upd_def keeping)

lemma returnResponse_from_to [locking_intros]: "from_to running P P progress (returnResponse b r)"
  by (simp add: returnResponse_def rdk_mutex.return_from_to)

lemma when_ok_from_to [locking_intros]:
  "(\<And>r. from_to running P P progress (body r)) \<Longrightarrow> from_to running P P progress (when_ok rr body)"
  by (simp add: when_ok_def returnResponse_from_to)

lemma finish_from_to [locking_intros]: "from_to running P P progress (finish m r b)"
  by (simp add: finish_def returnResponse_from_to)

text \<open>
  One call of the compositor in a critical section of its own: with \<^verbatim>\<open>lockRdkShellMutex\<close>
  (\<open>locked\<close>) or with \<^verbatim>\<open>gRdkShellMutex.lock()\<close> (\<open>plainly_locked\<close>).
\<close>

definition locked :: "('w, 'd) env \<Rightarrow> 'd cc_call \<Rightarrow> ('w, 'd, bool) prog" where
  "locked E c = do { _ \<leftarrow> lockRdkShellMutex; ret \<leftarrow> command E c; _ \<leftarrow> unlock; State_Monad.return ret }"

definition plainly_locked :: "('w, 'd) env \<Rightarrow> 'd cc_call \<Rightarrow> ('w, 'd, bool) prog" where
  "plainly_locked E c = do { _ \<leftarrow> lock; ret \<leftarrow> command E c; _ \<leftarrow> unlock; State_Monad.return ret }"

text \<open>The same with the value of a reference parameter read before the mutex is released.\<close>

definition locked_get :: "('w, 'd) env \<Rightarrow> 'd cc_call \<Rightarrow> ('w \<Rightarrow> 'a) \<Rightarrow> ('w, 'd, bool \<times> 'a) prog" where
  "locked_get E c out = do {
     _ \<leftarrow> lockRdkShellMutex; ret \<leftarrow> command E c; x \<leftarrow> read_out out; _ \<leftarrow> unlock;
     State_Monad.return (ret, x) }"

definition plainly_locked_get :: "('w, 'd) env \<Rightarrow> 'd cc_call \<Rightarrow> ('w \<Rightarrow> 'a) \<Rightarrow> ('w, 'd, bool \<times> 'a) prog" where
  "plainly_locked_get E c out = do {
     _ \<leftarrow> lock; ret \<leftarrow> command E c; x \<leftarrow> read_out out; _ \<leftarrow> unlock;
     State_Monad.return (ret, x) }"

text \<open>The four are instances of the critical section of the mutex interface.\<close>

lemma locked_free [locking_intros]: "free_to_free (locked E c)"
  unfolding locked_def by (rule rdk_mutex.critical_section[of _ "\<lambda>x. x"]) (rule command_held)

lemma plainly_locked_free [locking_intros]: "free_to_free (plainly_locked E c)"
  unfolding plainly_locked_def by (rule plain_mutex.critical_section[of _ "\<lambda>x. x"]) (rule command_held)

lemma locked_get_free [locking_intros]: "free_to_free (locked_get E c out)"
  unfolding locked_get_def by (rule locking_intros)+

lemma plainly_locked_get_free [locking_intros]: "free_to_free (plainly_locked_get E c out)"
  unfolding plainly_locked_get_def by (rule locking_intros)+

section \<open>Running the primitives\<close>

lemma run_upd [simp]: "run_state (upd f) s = ((), if running s then f s else s)"
  by (simp add: upd_def)

lemma run_asks [simp]: "run_state (asks f) s = (f s, s)"
  by (simp add: asks_def)

lemma run_read_out [simp]: "run_state (read_out f) s = (f (sh_world s), s)"
  by (simp add: read_out_def)

lemma run_unlock [simp]: "run_state unlock s = ((), if running s then s\<lparr>sh_mutex := False\<rparr> else s)"
  by (simp add: unlock_def)

lemma run_lock [simp]:
  "run_state lock s = ((), if running s
     then (if sh_mutex s then s\<lparr>sh_status := Blocked\<rparr> else s\<lparr>sh_mutex := True\<rparr>) else s)"
  by (simp add: lock_def)

lemma lockRdkShellMutex_lock: "run_state lockRdkShellMutex s = run_state lock s"
  by (simp add: lockRdkShellMutex_def)

lemma run_lockRdkShellMutex [simp]:
  "run_state lockRdkShellMutex s = ((), if running s
     then (if sh_mutex s then s\<lparr>sh_status := Blocked\<rparr> else s\<lparr>sh_mutex := True\<rparr>) else s)"
  by (simp add: lockRdkShellMutex_lock)

lemma run_command [simp]:
  "run_state (command E c) s = (if running s
     then (fst (cc E c (sh_world s)),
       s\<lparr>sh_world := snd (cc E c (sh_world s)), sh_calls := sh_calls s @ [(sh_mutex s, c)]\<rparr>)
     else (False, s))"
  by (simp add: command_def case_prod_unfold Let_def)

lemma run_external [simp]:
  "run_state (external x) s = ((), if running s then s\<lparr>sh_ext := sh_ext s @ [x]\<rparr> else s)"
  by (simp add: external_def)

lemma run_call_service:
  "running s \<Longrightarrow> run_state (call_service E f args) s =
     (fst (service_call E f args (sh_world s)),
      s\<lparr>sh_world := snd (service_call E f args (sh_world s)), sh_ext := sh_ext s @ [ServiceCall f args]\<rparr>)"
  by (simp add: call_service_def case_prod_unfold Let_def)

lemma run_notify [simp]:
  "run_state (notify e p) s =
     ((), if running s then s\<lparr>sh_events := sh_events s @ [(e, p)]\<rparr> else s)"
  by (simp add: notify_def)

lemma run_returnResponse [simp]:
  "run_state (returnResponse b r) s =
     ((if b then ERROR_NONE else ERROR_GENERAL, jset ''success'' (JBool b) r), s)"
  by (simp add: returnResponse_def)

lemma run_locked:
  "running s \<Longrightarrow> \<not> sh_mutex s \<Longrightarrow> run_state (locked E c) s =
     (fst (cc E c (sh_world s)),
      s\<lparr>sh_world := snd (cc E c (sh_world s)), sh_calls := sh_calls s @ [(True, c)]\<rparr>)"
  by (simp add: locked_def)

lemma run_plainly_locked:
  "running s \<Longrightarrow> \<not> sh_mutex s \<Longrightarrow> run_state (plainly_locked E c) s =
     (fst (cc E c (sh_world s)),
      s\<lparr>sh_world := snd (cc E c (sh_world s)), sh_calls := sh_calls s @ [(True, c)]\<rparr>)"
  by (simp add: plainly_locked_def)

lemma run_locked_get:
  "running s \<Longrightarrow> \<not> sh_mutex s \<Longrightarrow> run_state (locked_get E c out) s =
     ((fst (cc E c (sh_world s)), out (snd (cc E c (sh_world s)))),
      s\<lparr>sh_world := snd (cc E c (sh_world s)), sh_calls := sh_calls s @ [(True, c)]\<rparr>)"
  by (simp add: locked_get_def)

section \<open>Key flags do not depend on the order of the modifiers\<close>

lemma key_flags_or: "key_flags E flags ms = flags OR key_flags E 0 ms"
proof (induction ms arbitrary: flags)
  case (Cons m ms)
  show ?case
    using Cons[of "flags OR getKeyFlag E (js_String (js E) m)"] Cons[of "getKeyFlag E (js_String (js E) m)"]
    by (simp add: or.assoc)
qed simp

lemma key_flags_fold: "key_flags E 0 ms = fold (\<lambda>m f. f OR getKeyFlag E (js_String (js E) m)) ms 0"
proof -
  have "key_flags E f ms = fold (\<lambda>m f. f OR getKeyFlag E (js_String (js E) m)) ms f" for f
    by (induction ms arbitrary: f) simp_all
  then show ?thesis .
qed

section \<open>A plain environment\<close>

text \<open>
  An environment at which theorems are applied to concrete input: the world is the list of the
  clients, creating and killing work on it, every other call succeeds and changes nothing, and
  reference parameters keep their values.  Its doubles are integers.
\<close>

definition plain_cc :: "int cc_call \<Rightarrow> string list \<Rightarrow> bool \<times> string list" where
  "plain_cc c w =
     (case c of
        (f, Str x # args) \<Rightarrow>
          (if f = ''createDisplay'' then (True, w @ [toLower x])
           else if f = ''kill'' then (toLower x \<in> set w, removeAll (toLower x) w)
           else (True, w))
      | _ \<Rightarrow> (True, w))"

definition plain_env :: "(string list, int) env" where
  "plain_env = \<lparr> js = plain_json, cc = plain_cc, out_clients = (\<lambda>w. w), out_zorder = (\<lambda>w. w),
     out_focused = (\<lambda>w x. x), out_mime = (\<lambda>w c x. x), out_bounds = (\<lambda>w c x. x),
     out_visible = (\<lambda>w c x. x), out_opacity = (\<lambda>w c x. x), out_scale = (\<lambda>w c x. x),
     out_holePunch = (\<lambda>w c x. x), out_logLevel = (\<lambda>w x. x), out_resolution = (\<lambda>w x. x),
     out_virtual = (\<lambda>w c x. x), out_virtualEnabled = (\<lambda>w c x. x), out_keyRepeats = (\<lambda>w x. x),
     out_cursor = (\<lambda>w x. x), out_ram = (\<lambda>w x. x), out_blockedApps = (\<lambda>w. []),
     out_easterEggs = (\<lambda>w. []), out_screenshot = (\<lambda>w. [1, 2, 3]),
     has_focus_interface = (\<lambda>c. True), has_browser_interface = (\<lambda>c. True),
     thunder = (\<lambda>callsign method p w. ((ERROR_NONE, []), w)),
     store_activated = (\<lambda>w. False), has_subsystems = (\<lambda>w. True), factory_value = (\<lambda>w k. None),
     key_from_wayland = (\<lambda>k x. x),
     services = (\<lambda>w. []), plugin_state = (\<lambda>w c. None), plugin_url = (\<lambda>w c. None),
     plugin_resident = (\<lambda>w c. None), service_call = (\<lambda>f args w. (ERROR_NONE, w)),
     shell_state = (\<lambda>w c. if c \<in> set w then Some ACTIVATED else None),
     plugin_config = (\<lambda>w c. None), state_control = (\<lambda>w c. True), factory_app_url = None,
     runtime_dir = None, double_ratio = (\<lambda>a b. uint a div uint b),
     api_text = (\<lambda>ob. Some (js_ToString plain_json ob)), stod = (\<lambda>x. map_option fst (scan_int x)),
     double_to_string = show_int, double_of_uint = uint, double_one = 1,
     FLAGS_CONTROL = 8, FLAGS_SHIFT = 16, FLAGS_ALT = 32,
     MIME_TYPE_DAC_NATIVE = ''application/dac.native'', MIME_TYPE_NATIVE = ''application/native'',
     EVENT_SIZE_CHANGE_COMPLETE = ''onSizeChangeComplete'', array_beyond = (\<lambda>a i. JNull),
     uninit_bool = False, uninit_uint = 0 \<rparr>"

lemma plain_env_simps [simp]:
  "js plain_env = plain_json" "cc plain_env = plain_cc" "out_clients plain_env w = w"
  by (simp_all add: plain_env_def)

end
