(* ===== verification/Shell_Render.thy ===== *)
theory Shell_Render
  imports Shell_Core
begin

text \<open>
  The render thread of RDKShell and the requests that other threads hand to it: creating a
  display, killing a client, injecting a key (\<^verbatim>\<open>RDKShell::Initialize\<close>, \<^verbatim>\<open>createDisplay\<close>,
  \<^verbatim>\<open>kill\<close>, \<^verbatim>\<open>injectKey\<close>).  A handler that waits for its request resumes after the frame of the
  render thread that serves it; if the thread has stopped, it waits for ever.
\<close>

section \<open>Requests\<close>

text \<open>
  \<^verbatim>\<open>TaskQueue::push\<close> and \<^verbatim>\<open>pop\<close>.  The tasks pushed are those of \<^verbatim>\<open>injectKey\<close>: a key code with flags.
\<close>

definition task_push :: "'t \<Rightarrow> 't list \<Rightarrow> 't list" where
  "task_push t q = q @ [t]"

definition task_pop :: "'t list \<Rightarrow> ('t \<times> 't list) option" where
  "task_pop q = (case q of [] \<Rightarrow> None | t # q' \<Rightarrow> Some (t, q'))"

interpretation tasks: work_queue "\<lambda>q. q" task_push task_pop
  by unfold_locales (auto simp: task_push_def task_pop_def)

text \<open>The constructors' default values; a request starts without a result.\<close>

definition new_create_request ::
  "string \<Rightarrow> string \<Rightarrow> 32 word \<Rightarrow> 32 word \<Rightarrow> bool \<Rightarrow> 32 word \<Rightarrow> 32 word \<Rightarrow> create_request" where
  "new_create_request client displayName w h virtual vw vh = \<lparr> mClient = client,
     mDisplayName = displayName, mDisplayWidth = w, mDisplayHeight = h,
     mVirtualDisplayEnabled = virtual, mVirtualWidth = vw, mVirtualHeight = vh,
     mTopmost = False, mFocus = False, mResult = False, mAutoDestroy = True \<rparr>"

definition new_kill_request :: "string \<Rightarrow> kill_request" where
  "new_kill_request client = \<lparr> kClient = client, kResult = False \<rparr>"

section \<open>One frame\<close>

definition check_persistent_store :: "('w, 'd) env \<Rightarrow> ('w, 'd, unit) prog" where
  "check_persistent_store E = do {
     checked \<leftarrow> asks sPersistentStorePreLaunchChecked;
     if checked then State_Monad.return ()
     else do {
       first \<leftarrow> asks sPersistentStoreFirstActivated;
       activated \<leftarrow> read_out (store_activated E);
       upd (\<lambda>s. s\<lparr>sPersistentStoreFirstActivated := first \<or> activated,
                 sPersistentStorePreLaunchChecked := True\<rparr>)
     }
   }"

definition checkForBootupFactoryAppLaunch :: "('w, 'd) env \<Rightarrow> ('w, 'd, bool) prog" where
  "checkForBootupFactoryAppLaunch E = do {
     activated \<leftarrow> asks sPersistentStoreFirstActivated;
     aging \<leftarrow> read_out (\<lambda>w. factory_value E w ''AgingState'');
     mode \<leftarrow> read_out (\<lambda>w. factory_value E w ''FactoryMode'');
     State_Monad.return
       (if activated then (if aging = Some ''true'' then True else mode = Some ''true'') else False)
   }"

definition factory_check :: "('w, 'd) env \<Rightarrow> ('w, 'd, unit) prog" where
  "factory_check E = do {
     subSystems \<leftarrow> read_out (has_subsystems E);
     if subSystems then do {
       launch \<leftarrow> checkForBootupFactoryAppLaunch E;
       _ \<leftarrow> upd (\<lambda>s. s\<lparr>sFactoryModeStart := launch \<or> sFactoryModeStart s\<rparr>);
       _ \<leftarrow> external (SetSubsystem ''PLATFORM'');
       external (SetSubsystem ''GRAPHICS'')
     } else State_Monad.return ()
   }"

definition factory_launch :: "('w, 'd, unit) prog" where
  "factory_launch = do {
     start \<leftarrow> asks sFactoryModeStart;
     if start then do {
       _ \<leftarrow> unlock;
       block \<leftarrow> asks sFactoryModeBlockResidentApp;
       _ \<leftarrow> external (LaunchRequest ''launchFactoryApp''
          (jset ''resetagingtime'' (JString ''true'')
            (if block then [(''nokillresapp'', JString ''true'')] else [])));
       lock
     } else State_Monad.return ()
   }"

definition factory_start :: "('w, 'd) env \<Rightarrow> ('w, 'd, unit) prog" where
  "factory_start E = do {
     wait \<leftarrow> asks waitForPersistentStore;
     processed \<leftarrow> asks sPersistentStoreWaitProcessed;
     first \<leftarrow> asks sPersistentStoreFirstActivated;
     if wait \<and> \<not> processed \<and> first then do {
       _ \<leftarrow> factory_check E;
       _ \<leftarrow> upd (\<lambda>s. s\<lparr>sPersistentStoreWaitProcessed := True\<rparr>);
       factory_launch
     } else State_Monad.return ()
   }"

definition create_call :: "create_request \<Rightarrow> 'd cc_call" where
  "create_call r = (''createDisplay'', [Str (mClient r), Str (mDisplayName r),
     Uint (mDisplayWidth r), Uint (mDisplayHeight r), Flag (mVirtualDisplayEnabled r),
     Uint (mVirtualWidth r), Uint (mVirtualHeight r), Flag (mTopmost r), Flag (mFocus r),
     Flag (mAutoDestroy r)])"

definition serve_create ::
  "('w, 'd) env \<Rightarrow> create_request \<Rightarrow> create_request list \<Rightarrow> ('w, 'd, create_request list) prog" where
  "serve_create E request posted = do {
     result \<leftarrow> command E (create_call request);
     _ \<leftarrow> upd (\<lambda>s. s\<lparr>gCreateDisplayRequests := tl (gCreateDisplayRequests s)\<rparr>);
     State_Monad.return (posted @ [request\<lparr>mResult := result\<rparr>])
   }"

definition kill_call :: "kill_request \<Rightarrow> 'd cc_call" where
  "kill_call r = (''kill'', [Str (kClient r)])"

definition serve_kill ::
  "('w, 'd) env \<Rightarrow> kill_request \<Rightarrow> kill_request list \<Rightarrow> ('w, 'd, kill_request list) prog" where
  "serve_kill E request posted = do {
     result \<leftarrow> command E (kill_call request);
     _ \<leftarrow> upd (\<lambda>s. s\<lparr>gKillClientRequests := tl (gKillClientRequests s)\<rparr>);
     State_Monad.return (posted @ [request\<lparr>kResult := result\<rparr>])
   }"

definition task_call :: "32 word \<times> 32 word \<Rightarrow> 'd cc_call" where
  "task_call t = (''injectKey'', [Uint (fst t), Uint (snd t)])"

definition serve_task ::
  "('w, 'd) env \<Rightarrow> 32 word \<times> 32 word \<Rightarrow> bool list \<Rightarrow> ('w, 'd, bool list) prog" where
  "serve_task E task results = do {
     _ \<leftarrow> upd (\<lambda>s. case task_pop (mTaskQueue s) of
            None \<Rightarrow> s | Some (t, q) \<Rightarrow> s\<lparr>mTaskQueue := q\<rparr>);
     status \<leftarrow> command E (task_call task);
     State_Monad.return (results @ [status])
   }"

text \<open>
  The requests are served while the mutex is held, so that none is added meanwhile: each loop
  serves the requests that are there when it starts.
\<close>

definition serve_creates :: "('w, 'd) env \<Rightarrow> ('w, 'd, create_request list) prog" where
  "serve_creates E = do { rs \<leftarrow> asks gCreateDisplayRequests; foldM (serve_create E) rs [] }"

definition serve_kills :: "('w, 'd) env \<Rightarrow> ('w, 'd, kill_request list) prog" where
  "serve_kills E = do { rs \<leftarrow> asks gKillClientRequests; foldM (serve_kill E) rs [] }"

definition serve_tasks :: "('w, 'd) env \<Rightarrow> ('w, 'd, bool list) prog" where
  "serve_tasks E = do { ts \<leftarrow> asks mTaskQueue; foldM (serve_task E) ts [] }"

definition serve_flags :: "('w, 'd) env \<Rightarrow> ('w, 'd, unit) prog" where
  "serve_flags E = do {
     res \<leftarrow> asks receivedResolutionRequest;
     _ \<leftarrow> (if res then do {
            w \<leftarrow> asks resolutionWidth;
            h \<leftarrow> asks resolutionHeight;
            _ \<leftarrow> command E (''setScreenResolution'', [Uint w, Uint h]);
            upd (\<lambda>s. s\<lparr>receivedResolutionRequest := False\<rparr>)
          } else State_Monad.return ());
     img \<leftarrow> asks receivedFullScreenImageRequest;
     _ \<leftarrow> (if img then do {
            path \<leftarrow> asks fullScreenImagePath;
            _ \<leftarrow> command E (''showFullScreenImage'', [Str path]);
            upd (\<lambda>s. s\<lparr>fullScreenImagePath := [], receivedFullScreenImageRequest := False\<rparr>)
          } else State_Monad.return ());
     mark \<leftarrow> asks receivedShowWatermarkRequest;
     _ \<leftarrow> (if mark then do {
            _ \<leftarrow> command E (''showWatermark'', []);
            upd (\<lambda>s. s\<lparr>receivedShowWatermarkRequest := False\<rparr>)
          } else State_Monad.return ());
     splash \<leftarrow> asks receivedShowSplashScreenRequest;
     if splash then do {
       time \<leftarrow> asks gSplashScreenDisplayTime;
       _ \<leftarrow> command E (''showSplashScreen'', [Uint time]);
       upd (\<lambda>s. s\<lparr>gSplashScreenDisplayTime := 0, receivedShowSplashScreenRequest := False\<rparr>)
     } else State_Monad.return ()
   }"

definition onScreenCapture ::
  "8 word list \<Rightarrow> 32 word \<Rightarrow> 32 word \<Rightarrow> ('w, 'd, unit) prog" where
  "onScreenCapture data width height = do {
     storers \<leftarrow> asks mCaptureStorers;
     _ \<leftarrow> foldM (\<lambda>n _. external (StoreCapture n data width height)) storers ();
     upd (\<lambda>s. s\<lparr>mCaptureStorers := []\<rparr>)
   }"

definition serve_screenshot :: "('w, 'd) env \<Rightarrow> ('w, 'd, unit) prog" where
  "serve_screenshot E = do {
     needs \<leftarrow> asks needsScreenshot;
     if needs then do {
       _ \<leftarrow> command E (''screenShot'', []);
       data \<leftarrow> read_out (out_screenshot E);
       _ \<leftarrow> notify ''onScreenshotComplete'' [(''imageData'', JString (imageEncoder data True []))];
       ok \<leftarrow> command E (''getScreenResolution'', []);
       (width, height) \<leftarrow> read_out (\<lambda>w. out_resolution E w (0, 0));
       _ \<leftarrow> (if ok then onScreenCapture data width height else State_Monad.return ());
       upd (\<lambda>s. s\<lparr>needsScreenshot := False\<rparr>)
     } else State_Monad.return ()
   }"

text \<open>
  One iteration of the render thread, with what it posts to the waiting threads.  The period of
  a frame is \<^verbatim>\<open>(1000 / gCurrentFramerate) * 1000\<close>, an integer division that traps at zero.
\<close>

definition render_frame ::
  "('w, 'd) env \<Rightarrow> ('w, 'd, create_request list \<times> kill_request list \<times> bool list) prog" where
  "render_frame E = do {
     _ \<leftarrow> upd (\<lambda>s. if gCurrentFramerate s = 0 then s\<lparr>sh_status := Crashed\<rparr> else s);
     _ \<leftarrow> lock;
     _ \<leftarrow> check_persistent_store E;
     _ \<leftarrow> factory_start E;
     creates \<leftarrow> serve_creates E;
     kills \<leftarrow> serve_kills E;
     _ \<leftarrow> serve_flags E;
     _ \<leftarrow> command E (''draw'', []);
     _ \<leftarrow> serve_screenshot E;
     _ \<leftarrow> command E (''update'', []);
     _ \<leftarrow> upd (\<lambda>s. s\<lparr>isRunning := sRunning s\<rparr>);
     results \<leftarrow> serve_tasks E;
     _ \<leftarrow> unlock;
     State_Monad.return (creates, kills, results)
   }"

text \<open>Waiting for the render thread.\<close>

definition await_frame ::
  "('w, 'd) env \<Rightarrow> ('w, 'd, create_request list \<times> kill_request list \<times> bool list) prog" where
  "await_frame E = do {
     alive \<leftarrow> asks isRunning;
     if alive then render_frame E
     else do {
       _ \<leftarrow> upd (\<lambda>s. s\<lparr>sh_status := Blocked\<rparr>);
       State_Monad.return ([], [], [])
     }
   }"

definition last_or :: "'a \<Rightarrow> 'a list \<Rightarrow> 'a" where
  "last_or x xs = (if xs = [] then x else last xs)"

section \<open>Operations served by the render thread\<close>

definition isClientExists :: "('w, 'd) env \<Rightarrow> string \<Rightarrow> ('w, 'd, bool) prog" where
  "isClientExists E client = do {
     _ \<leftarrow> lockRdkShellMutex;
     requests \<leftarrow> asks gCreateDisplayRequests;
     _ \<leftarrow> unlock;
     if list_ex (\<lambda>r. mClient r = client) requests then State_Monad.return True
     else do {
       _ \<leftarrow> lockRdkShellMutex;
       _ \<leftarrow> command E (''getClients'', []);
       clientList \<leftarrow> read_out (out_clients E);
       _ \<leftarrow> unlock;
       State_Monad.return (toLower client \<in> set clientList)
     }
   }"

definition createDisplay ::
  "('w, 'd) env \<Rightarrow> string \<Rightarrow> string \<Rightarrow> 32 word \<Rightarrow> 32 word \<Rightarrow> bool \<Rightarrow> 32 word \<Rightarrow> 32 word \<Rightarrow> bool \<Rightarrow> bool \<Rightarrow>
   ('w, 'd, bool) prog" where
  "createDisplay E client displayName displayWidth displayHeight virtualDisplay
       virtualWidth virtualHeight topmost focus = do {
     exists \<leftarrow> isClientExists E client;
     ret \<leftarrow> (if \<not> exists then do {
            _ \<leftarrow> lockRdkShellMutex;
            _ \<leftarrow> upd (\<lambda>s. s\<lparr>gCreateDisplayRequests := gCreateDisplayRequests s @
                   [new_create_request client displayName displayWidth displayHeight
                      virtualDisplay virtualWidth virtualHeight]\<rparr>);
            _ \<leftarrow> unlock;
            (posted, _, _) \<leftarrow> await_frame E;
            State_Monad.return (last_or False (map mResult posted))
          } else State_Monad.return False);
     _ \<leftarrow> lockRdkShellMutex;
     _ \<leftarrow> command E (''addListener'', [Str client]);
     _ \<leftarrow> unlock;
     State_Monad.return ret
   }"

definition kill :: "('w, 'd) env \<Rightarrow> string \<Rightarrow> ('w, 'd, bool) prog" where
  "kill E client = do {
     _ \<leftarrow> lockRdkShellMutex;
     _ \<leftarrow> command E (''removeListener'', [Str client]);
     _ \<leftarrow> upd (\<lambda>s. s\<lparr>gKillClientRequests := gKillClientRequests s @ [new_kill_request client],
              gPluginDisplayNameMap := AList.delete client (gPluginDisplayNameMap s)\<rparr>);
     _ \<leftarrow> unlock;
     (_, posted, _) \<leftarrow> await_frame E;
     State_Monad.return (last_or False (map kResult posted))
   }"

definition injectKey :: "('w, 'd) env \<Rightarrow> 32 word \<Rightarrow> json list \<Rightarrow> ('w, 'd, bool) prog" where
  "injectKey E keyCode modifiers = do {
     _ \<leftarrow> upd (\<lambda>s. s\<lparr>mTaskQueue := task_push (keyCode, key_flags E 0 modifiers) (mTaskQueue s)\<rparr>);
     (_, _, results) \<leftarrow> await_frame E;
     State_Monad.return (last_or False results)
   }"

definition getScreenshotWrapper :: "jobject \<Rightarrow> ('w, 'd, reply) prog" where
  "getScreenshotWrapper p = do {
     _ \<leftarrow> lockRdkShellMutex;
     _ \<leftarrow> upd (\<lambda>s. s\<lparr>needsScreenshot := True\<rparr>);
     _ \<leftarrow> unlock;
     returnResponse True []
   }"

definition Capture :: "nat \<Rightarrow> ('w, 'd, bool) prog" where
  "Capture storer = do {
     _ \<leftarrow> upd (\<lambda>s. s\<lparr>mCaptureStorers := mCaptureStorers s @ [storer]\<rparr>);
     _ \<leftarrow> getScreenshotWrapper [];
     State_Monad.return True
   }"

section \<open>The mutex discipline of the render thread\<close>

lemma check_persistent_store_held [locking_intros]: "held_to_held (check_persistent_store E)"
  unfolding check_persistent_store_def by (rule locking_intros upd_held upd_free | simp add: keeping split: option.split)+

lemma factory_start_held [locking_intros]: "held_to_held (factory_start E)"
  unfolding factory_start_def factory_check_def factory_launch_def checkForBootupFactoryAppLaunch_def
  by (rule locking_intros upd_held upd_free | simp add: keeping split: option.split)+

lemma serve_creates_held [locking_intros]: "held_to_held (serve_creates E)"
  unfolding serve_creates_def serve_create_def by (rule locking_intros upd_held upd_free | simp add: keeping split: option.split)+

lemma serve_kills_held [locking_intros]: "held_to_held (serve_kills E)"
  unfolding serve_kills_def serve_kill_def by (rule locking_intros upd_held upd_free | simp add: keeping split: option.split)+

lemma serve_tasks_held [locking_intros]: "held_to_held (serve_tasks E)"
  unfolding serve_tasks_def serve_task_def
  by (rule locking_intros upd_held upd_free | simp add: keeping split: option.split)+

lemma serve_flags_held [locking_intros]: "held_to_held (serve_flags E)"
  unfolding serve_flags_def by (rule locking_intros upd_held upd_free | simp add: keeping split: option.split)+

lemma serve_screenshot_held [locking_intros]: "held_to_held (serve_screenshot E)"
  unfolding serve_screenshot_def onScreenCapture_def by (rule locking_intros upd_held upd_free | simp add: keeping split: option.split)+

lemma render_frame_free [locking_intros]: "free_to_free (render_frame E)"
  unfolding render_frame_def by (rule locking_intros upd_held upd_free | simp add: keeping split: option.split)+

lemma await_frame_free [locking_intros]: "free_to_free (await_frame E)"
proof (rule from_toI)
  fix s :: "('a, 'b) shell"
  have up: "run_state (await_frame E) s = run_state (render_frame E) s" if "isRunning s"
    using that by (simp add: await_frame_def)
  have down: "snd (run_state (await_frame E) s) = (if running s then s\<lparr>sh_status := Blocked\<rparr> else s)"
    if "\<not> isRunning s"
    using that by (simp add: await_frame_def)
  show "snd (run_state (await_frame E) s) = s" if "\<not> running s"
    using that up down from_to_dead[OF render_frame_free that, of E] by (cases "isRunning s") simp_all
  assume s: "running s" "\<not> sh_mutex s"
  show "progress s (snd (run_state (await_frame E) s))"
    using s up down from_to_rel[OF render_frame_free s, of E]
    by (cases "isRunning s") (simp_all add: rendering_def)
  show "\<not> sh_mutex (snd (run_state (await_frame E) s))"
    if "running (snd (run_state (await_frame E) s))"
    using that s up down from_to_post[OF render_frame_free s, of E] by (cases "isRunning s") simp_all
qed

lemma isClientExists_free [locking_intros]: "free_to_free (isClientExists E client)"
  unfolding isClientExists_def by (rule locking_intros upd_held upd_free | simp add: keeping split: option.split)+

lemma createDisplay_free [locking_intros]:
  "free_to_free (createDisplay E client name w h virtual vw vh topmost focus)"
  unfolding createDisplay_def by (rule locking_intros upd_held upd_free | simp add: keeping split: option.split)+

lemma kill_free [locking_intros]: "free_to_free (kill E client)"
  unfolding kill_def by (rule locking_intros upd_held upd_free | simp add: keeping split: option.split)+

lemma injectKey_free [locking_intros]: "free_to_free (injectKey E keyCode modifiers)"
  unfolding injectKey_def by (rule locking_intros upd_held upd_free | simp add: keeping split: option.split)+

lemma getScreenshotWrapper_free [locking_intros]: "free_to_free (getScreenshotWrapper p)"
  unfolding getScreenshotWrapper_def by (rule locking_intros upd_held upd_free | simp add: keeping split: option.split)+

section \<open>What a frame does\<close>

text \<open>The answers of the compositor to a sequence of calls, and the world afterwards.\<close>

fun run_calls :: "('w, 'd) env \<Rightarrow> 'd cc_call list \<Rightarrow> 'w \<Rightarrow> bool list \<times> 'w" where
  "run_calls E [] w = ([], w)"
| "run_calls E (c # cs) w =
     (let (r, w1) = cc E c w; (rs, w2) = run_calls E cs w1 in (r # rs, w2))"

lemma run_calls_append:
  "run_calls E (as @ bs) w =
     (fst (run_calls E as w) @ fst (run_calls E bs (snd (run_calls E as w))),
      snd (run_calls E bs (snd (run_calls E as w))))"
  by (induction as arbitrary: w) (simp_all add: case_prod_unfold Let_def)

lemma length_run_calls [simp]: "length (fst (run_calls E cs w)) = length cs"
  by (induction cs arbitrary: w) (simp_all add: case_prod_unfold Let_def)

definition after :: "('w, 'd) env \<Rightarrow> 'd cc_call list \<Rightarrow> ('w, 'd) shell \<Rightarrow> ('w, 'd) shell" where
  "after E cs s = s\<lparr>sh_world := snd (run_calls E cs (sh_world s)),
     sh_calls := sh_calls s @ map (Pair (sh_mutex s)) cs\<rparr>"

definition answers :: "('w, 'd) env \<Rightarrow> 'd cc_call list \<Rightarrow> ('w, 'd) shell \<Rightarrow> bool list" where
  "answers E cs s = fst (run_calls E cs (sh_world s))"

lemma after_Nil [simp]: "after E [] s = s"
  by (simp add: after_def)

lemma after_simps [simp]:
  "sh_status (after E cs s) = sh_status s" "sh_mutex (after E cs s) = sh_mutex s"
  "sh_world (after E cs s) = snd (run_calls E cs (sh_world s))"
  "sh_calls (after E cs s) = sh_calls s @ map (Pair (sh_mutex s)) cs"
  by (simp_all add: after_def)

lemma after_Cons: "after E (c # cs) s = after E cs (after E [c] s)"
  by (simp add: after_def case_prod_unfold Let_def)

lemma answers_Cons: "answers E (c # cs) s = fst (cc E c (sh_world s)) # answers E cs (after E [c] s)"
  by (simp add: answers_def case_prod_unfold Let_def)

lemma answers_append: "answers E (as @ bs) s = answers E as s @ answers E bs (after E as s)"
  by (simp add: answers_def run_calls_append)

lemma length_answers [simp]: "length (answers E cs s) = length cs"
  by (simp add: answers_def)

lemma run_command_after:
  "running s \<Longrightarrow> run_state (command E c) s = (fst (cc E c (sh_world s)), after E [c] s)"
  by (simp add: after_def case_prod_unfold Let_def)

definition with_results :: "('r \<Rightarrow> bool \<Rightarrow> 'p) \<Rightarrow> 'r list \<Rightarrow> bool list \<Rightarrow> 'p list" where
  "with_results put rs bs = map (\<lambda>(r, b). put r b) (zip rs bs)"

lemma with_results_Cons: "with_results put (r # rs) (b # bs) = put r b # with_results put rs bs"
  by (simp add: with_results_def)

lemma with_results_answer: "length bs = length rs \<Longrightarrow> with_results (\<lambda>r b. b) rs bs = bs"
proof (induction rs arbitrary: bs)
  case (Cons r rs)
  then show ?case by (cases bs) (auto simp: with_results_Cons)
qed (simp add: with_results_def)

lemma with_results_fields:
  "length bs = length rs \<Longrightarrow> map mResult (with_results (\<lambda>r b. r\<lparr>mResult := b\<rparr>) rs bs) = bs \<and>
     map mClient (with_results (\<lambda>r b. r\<lparr>mResult := b\<rparr>) rs bs) = map mClient rs"
proof (induction rs arbitrary: bs)
  case (Cons r rs)
  then show ?case by (cases bs) (auto simp: with_results_Cons)
qed (simp add: with_results_def)

lemma with_kill_results_fields:
  "length bs = length rs \<Longrightarrow> map kResult (with_results (\<lambda>r b. r\<lparr>kResult := b\<rparr>) rs bs) = bs \<and>
     map kClient (with_results (\<lambda>r b. r\<lparr>kResult := b\<rparr>) rs bs) = map kClient rs"
proof (induction rs arbitrary: bs)
  case (Cons r rs)
  then show ?case by (cases bs) (auto simp: with_results_Cons)
qed (simp add: with_results_def)

text \<open>
  The three queues that a frame serves have the same contract: serving the first request makes
  its call, removes it and posts the answer.  So serving all of them makes their calls in the
  order of the requests, answers each with the result of its own call, and empties the queue.
\<close>

locale request_queue =
  fixes E :: "('w, 'd) env"
    and queue :: "('w, 'd) shell \<Rightarrow> 'r list"
    and set_queue :: "'r list \<Rightarrow> ('w, 'd) shell \<Rightarrow> ('w, 'd) shell"
    and call :: "'r \<Rightarrow> 'd cc_call"
    and put :: "'r \<Rightarrow> bool \<Rightarrow> 'p"
    and serve :: "'r \<Rightarrow> 'p list \<Rightarrow> ('w, 'd, 'p list) prog"
  assumes queue_set: "queue (set_queue q s) = q"
    and set_set: "set_queue q (set_queue q' s) = set_queue q s"
    and set_queue_id: "set_queue (queue s) s = s"
    and set_after: "after E cs (set_queue q s) = set_queue q (after E cs s)"
    and set_status: "sh_status (set_queue q s) = sh_status s"
    and set_world: "sh_world (set_queue q s) = sh_world s"
    and serve_first: "running s \<Longrightarrow> queue s = r # rs \<Longrightarrow>
      run_state (serve r posted) s =
        (posted @ [put r (fst (cc E (call r) (sh_world s)))], set_queue rs (after E [call r] s))"
begin

lemma run_serve:
  assumes "running s" "queue s = rs"
  shows "run_state (foldM serve rs posted) s =
    (posted @ with_results put rs (answers E (map call rs) s),
     set_queue [] (after E (map call rs) s))"
  using assms
proof (induction rs arbitrary: s posted)
  case Nil
  then show ?case using set_queue_id[of s] by (simp add: with_results_def)
next
  case (Cons r rs)
  let ?t = "set_queue rs (after E [call r] s)"
  have "answers E (map call rs) ?t = answers E (map call rs) (after E [call r] s)"
    by (simp add: answers_def set_world)
  then show ?case
    using Cons.IH[of ?t] Cons.prems serve_first[of s r rs]
    by (simp add: answers_Cons with_results_Cons after_Cons[of E _ "map call rs"]
        set_after set_set set_status queue_set)
qed

end

interpretation creates: request_queue E gCreateDisplayRequests
    "\<lambda>q s. s\<lparr>gCreateDisplayRequests := q\<rparr>" create_call "\<lambda>r b. r\<lparr>mResult := b\<rparr>" "serve_create E"
  for E
  by unfold_locales
    (simp_all add: serve_create_def run_command_after after_def del: run_command)

interpretation kills: request_queue E gKillClientRequests
    "\<lambda>q s. s\<lparr>gKillClientRequests := q\<rparr>" kill_call "\<lambda>r b. r\<lparr>kResult := b\<rparr>" "serve_kill E"
  for E
  by unfold_locales
    (simp_all add: serve_kill_def run_command_after after_def del: run_command)

interpretation key_tasks: request_queue E mTaskQueue
    "\<lambda>q s. s\<lparr>mTaskQueue := q\<rparr>" task_call "\<lambda>r b. b" "serve_task E"
  for E
  by unfold_locales
    (simp_all add: serve_task_def task_pop_def run_command_after after_def del: run_command)

definition flag_calls :: "('w, 'd) shell \<Rightarrow> 'd cc_call list" where
  "flag_calls s =
     (if receivedResolutionRequest s
      then [(''setScreenResolution'', [Uint (resolutionWidth s), Uint (resolutionHeight s)])] else []) @
     (if receivedFullScreenImageRequest s
      then [(''showFullScreenImage'', [Str (fullScreenImagePath s)])] else []) @
     (if receivedShowWatermarkRequest s then [(''showWatermark'', [])] else []) @
     (if receivedShowSplashScreenRequest s
      then [(''showSplashScreen'', [Uint (gSplashScreenDisplayTime s)])] else [])"

definition clear_flags :: "('w, 'd) shell \<Rightarrow> ('w, 'd) shell" where
  "clear_flags s = s\<lparr>receivedResolutionRequest := False,
     fullScreenImagePath := (if receivedFullScreenImageRequest s then [] else fullScreenImagePath s),
     receivedFullScreenImageRequest := False, receivedShowWatermarkRequest := False,
     gSplashScreenDisplayTime :=
       (if receivedShowSplashScreenRequest s then 0 else gSplashScreenDisplayTime s),
     receivedShowSplashScreenRequest := False\<rparr>"

lemma run_serve_flags:
  assumes "running s"
  shows "snd (run_state (serve_flags E) s) = clear_flags (after E (flag_calls s) s)"
  using assms
  by (cases "receivedResolutionRequest s"; cases "receivedFullScreenImageRequest s";
      cases "receivedShowWatermarkRequest s"; cases "receivedShowSplashScreenRequest s")
    (simp_all add: serve_flags_def flag_calls_def clear_flags_def after_def case_prod_unfold Let_def)

lemma run_store_captures:
  "running s \<Longrightarrow> run_state (foldM (\<lambda>n _. external (StoreCapture n data w h)) ns ()) s =
     ((), s\<lparr>sh_ext := sh_ext s @ map (\<lambda>n. StoreCapture n data w h) ns\<rparr>)"
  by (induction ns arbitrary: s) simp_all

definition shot_calls :: "('w, 'd) shell \<Rightarrow> 'd cc_call list" where
  "shot_calls s = (if needsScreenshot s then [(''screenShot'', []), (''getScreenResolution'', [])] else [])"

definition shot_world :: "('w, 'd) env \<Rightarrow> ('w, 'd) shell \<Rightarrow> 'w" where
  "shot_world E s = snd (cc E (''screenShot'', []) (sh_world s))"

lemma run_onScreenCapture:
  assumes "running s"
  obtains ext where "snd (run_state (onScreenCapture data w h) s) = s\<lparr>sh_ext := ext, mCaptureStorers := []\<rparr>"
  using assms by (simp add: onScreenCapture_def run_store_captures)

lemma run_check_persistent_store:
  obtains a b where "snd (run_state (check_persistent_store E) s) =
    s\<lparr>sPersistentStoreFirstActivated := a, sPersistentStorePreLaunchChecked := b\<rparr>"
proof (cases "running s \<and> \<not> sPersistentStorePreLaunchChecked s")
  case True
  then show ?thesis
    using that[where a = "sPersistentStoreFirstActivated s \<or> store_activated E (sh_world s)" and b = True]
    by (simp add: check_persistent_store_def)
next
  case False
  then show ?thesis
    using that[where a = "sPersistentStoreFirstActivated s" and b = "sPersistentStorePreLaunchChecked s"]
    by (auto simp: check_persistent_store_def)
qed

definition forget_start :: "('w, 'd) shell \<Rightarrow> ('w, 'd) shell" where
  "forget_start s = s\<lparr>sFactoryModeStart := False, sPersistentStoreWaitProcessed := False, sh_ext := []\<rparr>"

lemma forget_start_eq:
  "forget_start t = forget_start s \<Longrightarrow> t = s\<lparr>sFactoryModeStart := sFactoryModeStart t,
     sPersistentStoreWaitProcessed := sPersistentStoreWaitProcessed t, sh_ext := sh_ext t\<rparr>"
  by (cases s; cases t) (simp add: forget_start_def)

lemma run_factory_check:
  "running s \<Longrightarrow> forget_start (snd (run_state (factory_check E) s)) = forget_start s"
  by (simp add: factory_check_def checkForBootupFactoryAppLaunch_def forget_start_def)

lemma run_factory_launch:
  "running s \<Longrightarrow> sh_mutex s \<Longrightarrow> forget_start (snd (run_state factory_launch s)) = forget_start s"
  by (simp add: factory_launch_def forget_start_def)

lemma forget_start_simps:
  "forget_start t = forget_start s \<Longrightarrow> sh_status t = sh_status s"
  "forget_start t = forget_start s \<Longrightarrow> sh_mutex t = sh_mutex s"
  by (cases s; cases t; simp add: forget_start_def)+

lemma run_factory_start:
  assumes "running s" "sh_mutex s"
  shows "forget_start (snd (run_state (factory_start E) s)) = forget_start s"
proof -
  let ?t = "snd (run_state (factory_check E) s)"
  let ?u = "?t\<lparr>sPersistentStoreWaitProcessed := True\<rparr>"
  have t: "forget_start ?t = forget_start s" by (rule run_factory_check[OF assms(1)])
  then have u: "forget_start ?u = forget_start s" by (simp add: forget_start_def)
  note live = forget_start_simps[OF t] forget_start_simps[OF u]
  have "forget_start (snd (run_state factory_launch ?u)) = forget_start s"
    using run_factory_launch[of ?u] live assms u by simp
  then show ?thesis using live assms by (simp add: factory_start_def case_prod_unfold)
qed

definition shot_event :: "('w, 'd) env \<Rightarrow> ('w, 'd) shell \<Rightarrow> (string \<times> jobject) list" where
  "shot_event E s = (if needsScreenshot s then [(''onScreenshotComplete'',
     [(''imageData'', JString (imageEncoder (out_screenshot E (shot_world E s)) True []))])] else [])"

lemma run_serve_screenshot:
  assumes "running s"
  obtains ext storers where
    "snd (run_state (serve_screenshot E) s) = (after E (shot_calls s) s)\<lparr>needsScreenshot := False,
       sh_events := sh_events s @ shot_event E s, sh_ext := ext, mCaptureStorers := storers\<rparr>"
proof (cases "needsScreenshot s")
  case False
  then have "snd (run_state (serve_screenshot E) s) = s" "s\<lparr>needsScreenshot := False\<rparr> = s"
    by (simp_all add: serve_screenshot_def)
  then show ?thesis using False that[where ext = "sh_ext s" and storers = "mCaptureStorers s"]
    by (simp add: shot_calls_def shot_event_def)
next
  case True
  define c1 c2 :: "'b cc_call" where "c1 = (''screenShot'', [])" and "c2 = (''getScreenResolution'', [])"
  define data where "data = out_screenshot E (shot_world E s)"
  define s1 where "s1 = after E [c1] s"
  define s2 where "s2 = s1\<lparr>sh_events := sh_events s1 @ [(''onScreenshotComplete'',
    [(''imageData'', JString (imageEncoder data True []))])]\<rparr>"
  define t where "t = after E [c2] s2"
  define ok where "ok = fst (cc E c2 (sh_world s2))"
  define res where "res = out_resolution E (sh_world t) (0, 0)"
  have run: "running s1" "running s2" and run_t: "running t"
    using assms by (simp_all add: s1_def s2_def t_def)
  have t: "t = (after E (shot_calls s) s)\<lparr>sh_events := sh_events s @ shot_event E s\<rparr>"
    using True by (simp add: t_def s2_def s1_def c1_def c2_def shot_calls_def after_def
        shot_event_def data_def case_prod_unfold Let_def)
  have "run_state (command E c1) s = (fst (cc E c1 (sh_world s)), s1)"
    "run_state (command E c2) s2 = (ok, t)"
    using assms run by (simp_all add: run_command_after s1_def t_def ok_def del: run_command)
  moreover have "out_screenshot E (sh_world s1) = data"
    by (simp add: s1_def data_def shot_world_def c1_def case_prod_unfold Let_def)
  ultimately have step: "snd (run_state (serve_screenshot E) s) =
      snd (run_state (do { _ \<leftarrow> (if ok then onScreenCapture data (fst res) (snd res) else State_Monad.return ());
        upd (\<lambda>s. s\<lparr>needsScreenshot := False\<rparr>) }) t)"
    unfolding serve_screenshot_def
    using True run by (simp add: c1_def[symmetric] c2_def[symmetric] s2_def[symmetric] res_def
        case_prod_unfold del: run_command)
  obtain ext where cap: "snd (run_state (onScreenCapture data (fst res) (snd res)) t)
      = t\<lparr>sh_ext := ext, mCaptureStorers := []\<rparr>"
    using run_onScreenCapture[OF run_t] by metis
  show ?thesis
  proof (cases ok)
    case True
    then show ?thesis
      using that[where ext = ext and storers = "[]"] step cap run_t
      by (simp add: case_prod_unfold t)
  next
    case False
    then show ?thesis
      using that[where ext = "sh_ext t" and storers = "mCaptureStorers t"] step run_t
      by (simp add: case_prod_unfold t after_def)
  qed
qed

text \<open>The calls of one frame, read off the state in which it starts.\<close>

definition frame_calls :: "('w, 'd) shell \<Rightarrow> 'd cc_call list" where
  "frame_calls s = map create_call (gCreateDisplayRequests s) @ map kill_call (gKillClientRequests s) @
     flag_calls s @ [(''draw'', [])] @ shot_calls s @ [(''update'', [])] @ map task_call (mTaskQueue s)"

definition nothing_pending :: "('w, 'd) shell \<Rightarrow> bool" where
  "nothing_pending s = (gCreateDisplayRequests s = [] \<and> gKillClientRequests s = [] \<and>
     mTaskQueue s = [] \<and> \<not> receivedResolutionRequest s \<and> \<not> receivedFullScreenImageRequest s \<and>
     \<not> receivedShowWatermarkRequest s \<and> \<not> receivedShowSplashScreenRequest s \<and> \<not> needsScreenshot s)"

lemma after_fields [simp]:
  "gCreateDisplayRequests (after E cs s) = gCreateDisplayRequests s"
  "gKillClientRequests (after E cs s) = gKillClientRequests s"
  "mTaskQueue (after E cs s) = mTaskQueue s"
  "needsScreenshot (after E cs s) = needsScreenshot s"
  "gCurrentFramerate (after E cs s) = gCurrentFramerate s"
  "sh_events (after E cs s) = sh_events s"
  "sRunning (after E cs s) = sRunning s"
  "flag_calls (after E cs s) = flag_calls s"
  "shot_calls (after E cs s) = shot_calls s"
  by (simp_all add: after_def flag_calls_def shot_calls_def)

lemma flag_calls_update [simp]:
  "flag_calls (s\<lparr>gCreateDisplayRequests := rs\<rparr>) = flag_calls s"
  "flag_calls (s\<lparr>gKillClientRequests := ks\<rparr>) = flag_calls s"
  by (simp_all add: flag_calls_def)

lemma shot_calls_update [simp]:
  "shot_calls (s\<lparr>gCreateDisplayRequests := rs\<rparr>) = shot_calls s"
  "shot_calls (s\<lparr>gKillClientRequests := ks\<rparr>) = shot_calls s"
  "shot_calls (clear_flags s) = shot_calls s"
  by (simp_all add: shot_calls_def clear_flags_def)

lemma run_bind: "run_state m s = (a, t) \<Longrightarrow> run_state (State_Monad.bind m f) s = run_state (f a) t"
  by simp

lemma frame_result:
  assumes s: "running s" "\<not> sh_mutex s" "gCurrentFramerate s \<noteq> 0"
  obtains t where
    "run_state (render_frame E) s =
       ((with_results (\<lambda>r b. r\<lparr>mResult := b\<rparr>) (gCreateDisplayRequests s)
           (answers E (map create_call (gCreateDisplayRequests s)) s),
         with_results (\<lambda>r b. r\<lparr>kResult := b\<rparr>) (gKillClientRequests s)
           (answers E (map kill_call (gKillClientRequests s))
             (after E (map create_call (gCreateDisplayRequests s)) s)),
         drop (length (frame_calls s) - length (mTaskQueue s)) (answers E (frame_calls s) s)), t)"
    "running t" "\<not> sh_mutex t" "nothing_pending t"
    "sh_calls t = sh_calls s @ map (Pair True) (frame_calls s)"
    "sh_world t = snd (run_calls E (frame_calls s) (sh_world s))"
    "isRunning t = sRunning s" "sRunning t = sRunning s" "gCurrentFramerate t = gCurrentFramerate s"
    "\<exists>w. sh_events t = sh_events s @ (if needsScreenshot s then [(''onScreenshotComplete'',
       [(''imageData'', JString (imageEncoder (out_screenshot E w) True []))])] else [])"
proof -
  let ?A = "map create_call (gCreateDisplayRequests s) :: 'b cc_call list"
  let ?B = "map kill_call (gKillClientRequests s) :: 'b cc_call list"
  let ?T = "map task_call (mTaskQueue s) :: 'b cc_call list"
  define s1 where "s1 = s\<lparr>sh_mutex := True\<rparr>"
  obtain a b where s2: "snd (run_state (check_persistent_store E) s1) =
      s1\<lparr>sPersistentStoreFirstActivated := a, sPersistentStorePreLaunchChecked := b\<rparr>"
    by (rule run_check_persistent_store)
  define s2 where "s2 = s1\<lparr>sPersistentStoreFirstActivated := a, sPersistentStorePreLaunchChecked := b\<rparr>"
  define s3 where "s3 = snd (run_state (factory_start E) s2)"
  have "running s2" "sh_mutex s2" using s by (simp_all add: s2_def s1_def)
  note s3 = forget_start_eq[OF run_factory_start[OF this, of E, folded s3_def]]
  have f3: "running s3" "sh_mutex s3" "gCreateDisplayRequests s3 = gCreateDisplayRequests s"
    "gKillClientRequests s3 = gKillClientRequests s" "mTaskQueue s3 = mTaskQueue s"
    "flag_calls s3 = (flag_calls s :: 'b cc_call list)" "shot_calls s3 = (shot_calls s :: 'b cc_call list)"
    "sh_calls s3 = sh_calls s" "sh_world s3 = sh_world s" "sRunning s3 = sRunning s"
    "needsScreenshot s3 = needsScreenshot s" "sh_events s3 = sh_events s"
    "gCurrentFramerate s3 = gCurrentFramerate s"
    by (subst s3, simp add: s2_def s1_def s(1) flag_calls_def shot_calls_def)+
  define s4 where "s4 = (after E ?A s3)\<lparr>gCreateDisplayRequests := []\<rparr>"
  define s5 where "s5 = (after E ?B s4)\<lparr>gKillClientRequests := []\<rparr>"
  define s6 where "s6 = clear_flags (after E (flag_calls s5) s5)"
  define s7 where "s7 = after E [(''draw'', [])] s6"
  have live: "running s4" "running s5" "running s6" "running s7"
    using f3 by (simp_all add: s4_def s5_def s6_def s7_def clear_flags_def)
  obtain ext storers where s8: "snd (run_state (serve_screenshot E) s7) =
      (after E (shot_calls s7) s7)\<lparr>needsScreenshot := False,
       sh_events := sh_events s7 @ shot_event E s7, sh_ext := ext, mCaptureStorers := storers\<rparr>"
    using run_serve_screenshot[OF live(4)] by metis
  define s8 where "s8 = (after E (shot_calls s7) s7)\<lparr>needsScreenshot := False,
       sh_events := sh_events s7 @ shot_event E s7, sh_ext := ext, mCaptureStorers := storers\<rparr>"
  define s9 where "s9 = after E [(''update'', [])] s8"
  define s10 where "s10 = s9\<lparr>isRunning := sRunning s9\<rparr>"
  define s11 where "s11 = (after E ?T s10)\<lparr>mTaskQueue := []\<rparr>"
  define t where "t = s11\<lparr>sh_mutex := False\<rparr>"
  note steps = s4_def s5_def s6_def s7_def s8_def s9_def s10_def s11_def t_def
  note fields = f3 steps clear_flags_def
  have q: "gKillClientRequests s4 = gKillClientRequests s" "mTaskQueue s10 = mTaskQueue s"
    "flag_calls s5 = (flag_calls s :: 'b cc_call list)" "shot_calls s7 = (shot_calls s :: 'b cc_call list)"
    "running s8" "running s10" "running s11" "running s9"
    by (simp_all add: f3 steps) (simp_all add: fields)
  have calls: "frame_calls s = ?A @ ?B @ flag_calls s @ [(''draw'', [])] @ shot_calls s @ [(''update'', [])] @ ?T"
    by (simp add: frame_calls_def)
  have w: "sh_world s4 = snd (run_calls E ?A (sh_world s))" "sh_world s5 = snd (run_calls E ?B (sh_world s4))"
    "sh_world s6 = snd (run_calls E (flag_calls s) (sh_world s5))"
    "sh_world s7 = snd (run_calls E [(''draw'', [])] (sh_world s6))"
    "sh_world s8 = snd (run_calls E (shot_calls s) (sh_world s7))"
    "sh_world s9 = snd (run_calls E [(''update'', [])] (sh_world s8))" "sh_world s10 = sh_world s9"
    "sh_world t = snd (run_calls E ?T (sh_world s10))"
    by (simp_all only: q[symmetric]) (simp_all add: f3 steps clear_flags_def)
  have world: "sh_world t = snd (run_calls E (frame_calls s) (sh_world s))"
    unfolding calls by (simp only: w run_calls_append snd_conv)
  have logged: "sh_calls t = sh_calls s @ map (Pair True) (frame_calls s)"
  proof -
    have "sh_calls s4 = sh_calls s @ map (Pair True) ?A" "sh_calls s5 = sh_calls s4 @ map (Pair True) ?B"
      "sh_calls s6 = sh_calls s5 @ map (Pair True) (flag_calls s)"
      "sh_calls s7 = sh_calls s6 @ map (Pair True) [(''draw'', [])]"
      "sh_calls s8 = sh_calls s7 @ map (Pair True) (shot_calls s)"
      "sh_calls s9 = sh_calls s8 @ map (Pair True) [(''update'', [])]" "sh_calls s10 = sh_calls s9"
      "sh_calls t = sh_calls s10 @ map (Pair True) ?T"
      by (simp_all only: q[symmetric]) (simp_all add: f3 steps clear_flags_def)
    then show ?thesis unfolding calls by (simp only: map_append append.assoc)
  qed
  have answered: "answers E ?A s3 = answers E ?A s" "answers E ?B s4 = answers E ?B (after E ?A s)"
    "answers E ?T s10 = drop (length (frame_calls s) - length (mTaskQueue s)) (answers E (frame_calls s) s)"
  proof -
    show "answers E ?A s3 = answers E ?A s" "answers E ?B s4 = answers E ?B (after E ?A s)"
      by (simp_all add: answers_def f3 w(1))
    have "sh_world s10 = sh_world (after E (?A @ ?B @ flag_calls s @ [(''draw'', [])] @ shot_calls s @ [(''update'', [])]) s)"
      by (simp only: w run_calls_append after_simps snd_conv)
    then have "answers E (frame_calls s) s = answers E (?A @ ?B @ flag_calls s @ [(''draw'', [])] @ shot_calls s @ [(''update'', [])]) s @ answers E ?T s10"
      unfolding calls append.assoc[symmetric] answers_append by (simp only: answers_def append.assoc)
    then show "answers E ?T s10 = drop (length (frame_calls s) - length (mTaskQueue s)) (answers E (frame_calls s) s)"
      by (simp add: calls)
  qed
  have e: "run_state (upd (\<lambda>s. if gCurrentFramerate s = 0 then s\<lparr>sh_status := Crashed\<rparr> else s)) s = ((), s)"
    "run_state lock s = ((), s1)" "run_state (check_persistent_store E) s1 = ((), s2)"
    "run_state (factory_start E) s2 = ((), s3)"
  proof -
    show "run_state lock s = ((), s1)" using s by (simp add: s1_def)
  qed (use s in \<open>simp_all add: prod_eq_iff s2 s2_def[symmetric] s3_def[symmetric]\<close>)
  have e': "run_state (serve_creates E) s3 = (with_results (\<lambda>r b. r\<lparr>mResult := b\<rparr>) (gCreateDisplayRequests s) (answers E ?A s3), s4)"
    "run_state (serve_kills E) s4 = (with_results (\<lambda>r b. r\<lparr>kResult := b\<rparr>) (gKillClientRequests s) (answers E ?B s4), s5)"
    "run_state (serve_tasks E) s10 = (answers E ?T s10, s11)"
    using creates.run_serve[OF f3(1) f3(3), where posted = "[]"] kills.run_serve[OF live(1) q(1), where posted = "[]"]
      key_tasks.run_serve[OF q(6) q(2), where posted = "[]"]
    by (simp_all add: serve_creates_def serve_kills_def serve_tasks_def f3 q s4_def[symmetric]
        s5_def[symmetric] s11_def[symmetric] with_results_answer)
  have e'': "run_state (serve_flags E) s5 = ((), s6)"
    "run_state (command E (''draw'', [])) s6 = (fst (cc E (''draw'', []) (sh_world s6)), s7)"
    "run_state (serve_screenshot E) s7 = ((), s8)"
    "run_state (command E (''update'', [])) s8 = (fst (cc E (''update'', []) (sh_world s8)), s9)"
    "run_state (upd (\<lambda>s. s\<lparr>isRunning := sRunning s\<rparr>)) s9 = ((), s10)" "run_state unlock s11 = ((), t)"
    using live q(5-) by (simp_all add: prod_eq_iff run_serve_flags run_command_after s6_def[symmetric]
        s7_def[symmetric] s8 s8_def[symmetric] s9_def[symmetric] s10_def[symmetric] t_def[symmetric]
        del: run_command)
  have run: "run_state (render_frame E) s = ((with_results (\<lambda>r b. r\<lparr>mResult := b\<rparr>) (gCreateDisplayRequests s) (answers E ?A s3),
      with_results (\<lambda>r b. r\<lparr>kResult := b\<rparr>) (gKillClientRequests s) (answers E ?B s4), answers E ?T s10), t)"
    unfolding render_frame_def
    by (simp only: run_bind[OF e(1)] run_bind[OF e(2)] run_bind[OF e(3)] run_bind[OF e(4)]
        run_bind[OF e'(1)] run_bind[OF e'(2)] run_bind[OF e'(3)] run_bind[OF e''(1)] run_bind[OF e''(2)]
        run_bind[OF e''(3)] run_bind[OF e''(4)] run_bind[OF e''(5)] run_bind[OF e''(6)] run_state_return)
  have ev: "sh_events t = sh_events s @ shot_event E s7" "needsScreenshot s7 = needsScreenshot s"
    by (simp_all add: fields)
  show ?thesis
  proof (rule that[of t])
    show "running t" "\<not> sh_mutex t" "nothing_pending t" "isRunning t = sRunning s"
      "sRunning t = sRunning s" "gCurrentFramerate t = gCurrentFramerate s"
      using f3 by (simp_all add: nothing_pending_def fields) (simp_all add: after_def)
    show "\<exists>w. sh_events t = sh_events s @ (if needsScreenshot s then [(''onScreenshotComplete'',
       [(''imageData'', JString (imageEncoder (out_screenshot E w) True []))])] else [])"
      using ev by (auto simp: shot_event_def)
  qed (simp_all only: run answered world logged)
qed

text \<open>
  C13: a frame of the render thread serves every request that is pending when it starts, in the
  fixed order: the displays to create and the clients to kill in the order in which they were
  asked for, the pending resolution, image, watermark and splash screen, the drawing, a
  screenshot if one is wanted, the update, and the injected keys.  Each call is made with the
  mutex held, each waiting thread is answered with the result of its own call, nothing is left
  pending, and the mutex is free again.
\<close>

theorem render_frame_spec:
  assumes "running s" "\<not> sh_mutex s" "gCurrentFramerate s \<noteq> 0"
  shows "\<exists>creates kills results t.
    run_state (render_frame E) s = ((creates, kills, results), t) \<and>
    running t \<and> \<not> sh_mutex t \<and> nothing_pending t \<and> isRunning t = sRunning s \<and>
    sh_calls t = sh_calls s @ map (Pair True) (frame_calls s) \<and>
    sh_world t = snd (run_calls E (frame_calls s) (sh_world s)) \<and>
    (\<exists>other. answers E (frame_calls s) s = map mResult creates @ map kResult kills @ other @ results) \<and>
    map mClient creates = map mClient (gCreateDisplayRequests s) \<and>
    map kClient kills = map kClient (gKillClientRequests s) \<and>
    length results = length (mTaskQueue s)"
proof -
  let ?A = "map create_call (gCreateDisplayRequests s) :: 'b cc_call list"
  let ?B = "map kill_call (gKillClientRequests s) :: 'b cc_call list"
  obtain t where t:
    "run_state (render_frame E) s =
       ((with_results (\<lambda>r b. r\<lparr>mResult := b\<rparr>) (gCreateDisplayRequests s) (answers E ?A s),
         with_results (\<lambda>r b. r\<lparr>kResult := b\<rparr>) (gKillClientRequests s) (answers E ?B (after E ?A s)),
         drop (length (frame_calls s) - length (mTaskQueue s)) (answers E (frame_calls s) s)), t)"
    "running t" "\<not> sh_mutex t" "nothing_pending t"
    "sh_calls t = sh_calls s @ map (Pair True) (frame_calls s)"
    "sh_world t = snd (run_calls E (frame_calls s) (sh_world s))" "isRunning t = sRunning s"
    by (rule frame_result[OF assms, of E]) blast
  define rest where "rest = (flag_calls s @ [(''draw'', [])] @ shot_calls s @ [(''update'', [])] :: 'b cc_call list)"
  have "frame_calls s = ?A @ ?B @ rest @ map task_call (mTaskQueue s)"
    by (simp add: frame_calls_def rest_def)
  moreover define u where "u = after E rest (after E ?B (after E ?A s))"
  ultimately have split: "answers E (frame_calls s) s = (answers E ?A s @ answers E ?B (after E ?A s) @
      answers E rest (after E ?B (after E ?A s))) @ answers E (map task_call (mTaskQueue s)) u"
    by (simp add: answers_append)
  have "drop (length (frame_calls s) - length (mTaskQueue s)) (answers E (frame_calls s) s) =
      answers E (map task_call (mTaskQueue s)) u"
  proof -
    have "length (frame_calls s) - length (mTaskQueue s) =
        length (answers E ?A s @ answers E ?B (after E ?A s) @ answers E rest (after E ?B (after E ?A s)))"
      using arg_cong[OF split, of length] by simp
    then show ?thesis unfolding split by (simp only: append_eq_conv_conj[symmetric] append_same_eq drop_append) simp
  qed
  then show ?thesis
    using t split with_results_fields[of "answers E ?A s" "gCreateDisplayRequests s"]
      with_kill_results_fields[of "answers E ?B (after E ?A s)" "gKillClientRequests s"]
    by (intro exI[of _ t] exI) (auto simp: frame_calls_def)
qed

lemma render_frame_spec_witness:
  "\<exists>creates kills results t.
    run_state (render_frame plain_env) (shell_init [''netflix''] 40
        \<lparr>gCreateDisplayRequests := [new_create_request ''YouTube'' [] 0 0 False 0 0],
         mTaskQueue := [(13, 0)]\<rparr>) = ((creates, kills, results), t) \<and>
    map snd (sh_calls t) = frame_calls (shell_init [''netflix''] 40
        \<lparr>gCreateDisplayRequests := [new_create_request ''YouTube'' [] 0 0 False 0 0],
         mTaskQueue := [(13, 0)]\<rparr>) \<and>
    map mClient creates = [''YouTube''] \<and> length results = 1"
proof -
  let ?s = "shell_init [''netflix''] 40 \<lparr>gCreateDisplayRequests := [new_create_request ''YouTube'' [] 0 0 False 0 0],
         mTaskQueue := [(13, 0)]\<rparr> :: (string list, int) shell"
  have s: "running ?s" "\<not> sh_mutex ?s" "gCurrentFramerate ?s \<noteq> 0" "sh_calls ?s = []"
    "map mClient (gCreateDisplayRequests ?s) = [''YouTube'']" "length (mTaskQueue ?s) = 1"
    by (simp_all add: shell_init_def new_create_request_def)
  from render_frame_spec[OF s(1-3), of plain_env] obtain creates kills results t where
    "run_state (render_frame plain_env) ?s = ((creates, kills, results), t)"
    "sh_calls t = sh_calls ?s @ map (Pair True) (frame_calls ?s)"
    "map mClient creates = map mClient (gCreateDisplayRequests ?s)"
    "length results = length (mTaskQueue ?s)"
    by blast
  with s(4-6) show ?thesis by (intro exI conjI) (assumption | simp add: comp_def)+
qed

lemma unlock_free: "\<not> sh_mutex s \<Longrightarrow> s\<lparr>sh_mutex := False\<rparr> = s"
  by simp

definition get_clients_call :: "'d cc_call" where "get_clients_call = (''getClients'', [])"

lemma run_isClientExists:
  assumes "running s" "\<not> sh_mutex s"
  shows "run_state (isClientExists E client) s =
    (if list_ex (\<lambda>r. mClient r = client) (gCreateDisplayRequests s) then (True, s)
     else let w = snd (cc E get_clients_call (sh_world s)) in
       (toLower client \<in> set (out_clients E w),
        s\<lparr>sh_world := w, sh_calls := sh_calls s @ [(True, get_clients_call)]\<rparr>))"
  using assms by (simp add: isClientExists_def get_clients_call_def unlock_free Let_def)

text \<open>The state in which the render thread finds the request of \<open>createDisplay\<close>.\<close>

definition requested ::
  "('w, 'd) env \<Rightarrow> create_request \<Rightarrow> ('w, 'd) shell \<Rightarrow> ('w, 'd) shell" where
  "requested E r s = s\<lparr>sh_world := snd (cc E get_clients_call (sh_world s)),
     sh_calls := sh_calls s @ [(True, get_clients_call)],
     gCreateDisplayRequests := gCreateDisplayRequests s @ [r]\<rparr>"

lemma run_createDisplay:
  assumes s: "running s" "\<not> sh_mutex s" "gCurrentFramerate s \<noteq> 0" "isRunning s"
    and new: "\<not> list_ex (\<lambda>r. mClient r = client) (gCreateDisplayRequests s)"
      "toLower client \<notin> set (out_clients E (snd (cc E get_clients_call (sh_world s))))"
    and r: "r = new_create_request client name w h virtual vw vh"
  shows "\<exists>t. run_state (createDisplay E client name w h virtual vw vh topmost focus) s =
      (answers E (frame_calls (requested E r s)) (requested E r s) ! length (gCreateDisplayRequests s), t) \<and>
    running t \<and> \<not> sh_mutex t \<and>
    sh_calls t = sh_calls s @ map (Pair True) ([get_clients_call] @ frame_calls (requested E r s) @
      [(''addListener'', [Str client])]) \<and>
    nothing_pending t \<and> isRunning t = sRunning s \<and> sRunning t = sRunning s \<and>
    gCurrentFramerate t = gCurrentFramerate s \<and>
    sh_world t = snd (run_calls E (get_clients_call # frame_calls (requested E r s) @ [(''addListener'', [Str client])])
      (sh_world s))"
proof -
  let ?q = "requested E r s"
  let ?n = "length (gCreateDisplayRequests s)"
  let ?A = "map create_call (gCreateDisplayRequests ?q) :: 'b cc_call list"
  have q: "running ?q" "\<not> sh_mutex ?q" "gCurrentFramerate ?q \<noteq> 0" "isRunning ?q"
    and len: "length (gCreateDisplayRequests ?q) = Suc ?n"
    using s by (simp_all add: requested_def)
  obtain t kills results where t: "run_state (render_frame E) ?q =
       ((with_results (\<lambda>r b. r\<lparr>mResult := b\<rparr>) (gCreateDisplayRequests ?q) (answers E ?A ?q), kills, results), t)"
    "running t" "\<not> sh_mutex t" "sh_calls t = sh_calls ?q @ map (Pair True) (frame_calls ?q)"
    "nothing_pending t" "isRunning t = sRunning ?q" "sRunning t = sRunning ?q"
    "gCurrentFramerate t = gCurrentFramerate ?q" "sh_world t = snd (run_calls E (frame_calls ?q) (sh_world ?q))"
    by (rule frame_result[OF q(1-3), of E]) blast
  have "answers E (frame_calls ?q) ?q ! ?n = answers E ?A ?q ! ?n"
    by (simp add: frame_calls_def answers_append nth_append len)
  moreover have "map mResult (with_results (\<lambda>r b. r\<lparr>mResult := b\<rparr>) (gCreateDisplayRequests ?q) (answers E ?A ?q))
      = answers E ?A ?q"
    by (simp add: with_results_fields)
  moreover have "last_or False (answers E ?A ?q) = answers E ?A ?q ! ?n"
    by (simp add: last_or_def last_conv_nth len flip: length_0_conv)
  ultimately have ret: "last_or False (map mResult (with_results (\<lambda>r b. r\<lparr>mResult := b\<rparr>)
      (gCreateDisplayRequests ?q) (answers E ?A ?q))) = answers E (frame_calls ?q) ?q ! ?n"
    by simp
  define s1 where "s1 = s\<lparr>sh_world := snd (cc E get_clients_call (sh_world s)),
     sh_calls := sh_calls s @ [(True, get_clients_call)]\<rparr>"
  have exists: "run_state (isClientExists E client) s = (False, s1)"
    using new unfolding run_isClientExists[OF s(1-2)] s1_def by (simp add: Let_def)
  have s1: "running s1" "\<not> sh_mutex s1" using s by (simp_all add: s1_def)
  define s2 where "s2 = s1\<lparr>sh_mutex := True\<rparr>"
  define s3 where "s3 = s2\<lparr>gCreateDisplayRequests := gCreateDisplayRequests s2 @ [r]\<rparr>"
  have pushed: "run_state lockRdkShellMutex s1 = ((), s2)"
    "run_state (upd (\<lambda>s. s\<lparr>gCreateDisplayRequests := gCreateDisplayRequests s @ [r]\<rparr>)) s2 = ((), s3)"
    "run_state unlock s3 = ((), ?q)"
    using s1 s by (simp_all add: s3_def s2_def s1_def requested_def)
  have await: "run_state (await_frame E) ?q = ((with_results (\<lambda>r b. r\<lparr>mResult := b\<rparr>)
      (gCreateDisplayRequests ?q) (answers E ?A ?q), kills, results), t)"
    using q t(1) by (simp add: await_frame_def)
  have "run_state (createDisplay E client name w h virtual vw vh topmost focus) s =
      run_state (do { ret \<leftarrow> do { (posted, _, _) \<leftarrow> await_frame E;
            State_Monad.return (last_or False (map mResult posted)) };
        _ \<leftarrow> lockRdkShellMutex; _ \<leftarrow> command E (''addListener'', [Str client]);
        _ \<leftarrow> unlock; State_Monad.return ret }) ?q"
    unfolding createDisplay_def run_bind[OF exists] r[symmetric]
    by (simp only: not_False_eq_True if_True bind_assoc run_bind[OF pushed(1)] run_bind[OF pushed(2)]
        run_bind[OF pushed(3)])
  also have "\<dots> = (answers E (frame_calls ?q) ?q ! ?n,
      t\<lparr>sh_mutex := False, sh_world := snd (cc E (''addListener'', [Str client]) (sh_world t)),
        sh_calls := sh_calls t @ [(True, (''addListener'', [Str client]))]\<rparr>)"
    using t(2,3) by (simp add: await ret)
  finally show ?thesis
    using t
    by (intro exI conjI) (assumption |
      simp add: requested_def nothing_pending_def run_calls_append case_prod_unfold Let_def)+
qed

text \<open>The same for \<open>kill\<close>.\<close>

definition kill_requested :: "('w, 'd) env \<Rightarrow> string \<Rightarrow> ('w, 'd) shell \<Rightarrow> ('w, 'd) shell" where
  "kill_requested E client s = s\<lparr>sh_world := snd (cc E (''removeListener'', [Str client]) (sh_world s)),
     sh_calls := sh_calls s @ [(True, (''removeListener'', [Str client]))],
     gKillClientRequests := gKillClientRequests s @ [new_kill_request client],
     gPluginDisplayNameMap := AList.delete client (gPluginDisplayNameMap s)\<rparr>"

lemma run_kill:
  assumes s: "running s" "\<not> sh_mutex s" "gCurrentFramerate s \<noteq> 0" "isRunning s" "nothing_pending s"
    and q: "q = kill_requested E client s"
  shows "\<exists>t. run_state (kill E client) s =
      (fst (cc E (''kill'', [Str client]) (snd (cc E (''removeListener'', [Str client]) (sh_world s)))), t) \<and>
    running t \<and> \<not> sh_mutex t \<and> nothing_pending t \<and> isRunning t = sRunning s \<and> sRunning t = sRunning s \<and>
    gCurrentFramerate t = gCurrentFramerate s \<and>
    sh_world t = snd (run_calls E [(''removeListener'', [Str client]), (''kill'', [Str client]),
      (''draw'', []), (''update'', [])] (sh_world s))"
proof -
  let ?kill = "(''kill'', [Str client]) :: 'b cc_call"
  have live: "running q" "\<not> sh_mutex q" "gCurrentFramerate q \<noteq> 0" "isRunning q" and sr: "sRunning q = sRunning s"
    and pend: "gCreateDisplayRequests q = []" "gKillClientRequests q = [new_kill_request client]"
    and calls: "frame_calls q = [?kill, (''draw'', []), (''update'', [])]"
    and world: "sh_world q = snd (cc E (''removeListener'', [Str client]) (sh_world s))"
    using s by (simp_all add: q kill_requested_def nothing_pending_def frame_calls_def kill_call_def
        new_kill_request_def flag_calls_def shot_calls_def)
  obtain t creates results where t: "run_state (render_frame E) q =
       ((creates, with_results (\<lambda>r b. r\<lparr>kResult := b\<rparr>) [new_kill_request client]
          (answers E [kill_call (new_kill_request client)] q), results), t)"
    "running t" "\<not> sh_mutex t" "nothing_pending t" "isRunning t = sRunning q" "sRunning t = sRunning q"
    "gCurrentFramerate t = gCurrentFramerate q" "sh_world t = snd (run_calls E (frame_calls q) (sh_world q))"
    by (rule frame_result[OF live(1-3), of E]) (auto simp: pend)
  have await: "run_state (await_frame E) q = ((creates, [(new_kill_request client)\<lparr>kResult := fst (cc E ?kill (sh_world q))\<rparr>], results), t)"
    using live(4) t(1) by (simp add: await_frame_def answers_Cons with_results_Cons with_results_def
        kill_call_def new_kill_request_def answers_def case_prod_unfold Let_def)
  have rate: "gCurrentFramerate q = gCurrentFramerate s" by (simp add: q kill_requested_def)
  have "run_state (kill E client) s = run_state (do { (_, posted, _) \<leftarrow> await_frame E;
      State_Monad.return (last_or False (map kResult posted)) }) q"
    using s(1,2) by (simp add: kill_def q kill_requested_def unlock_free)
  also have "\<dots> = (fst (cc E ?kill (sh_world q)), t)" by (simp add: await last_or_def)
  finally show ?thesis
    using t(2-) sr rate unfolding calls world by (intro exI conjI) (assumption | simp add: case_prod_unfold Let_def)+
qed


lemma answers_nth:
  "answers E (as @ c # bs) s ! length as = fst (cc E c (snd (run_calls E as (sh_world s))))"
  by (simp add: answers_append answers_Cons nth_append)

text \<open>
  a display asked for by a client that does not exist yet is created by the render thread
  with the client's name, size and virtual size, and the answer is that of this very call; but
  it is never created topmost or focused, whatever the caller asked for.  Afterwards the event
  listener is added.  The mutex is free again.
\<close>

theorem createDisplay_spec:
  assumes "running s" "\<not> sh_mutex s" "gCurrentFramerate s \<noteq> 0" "isRunning s"
    and "\<not> list_ex (\<lambda>r. mClient r = client) (gCreateDisplayRequests s)"
    and "toLower client \<notin> set (out_clients E (snd (cc E get_clients_call (sh_world s))))"
    and create: "create = (''createDisplay'', [Str client, Str name, Uint w, Uint h, Flag virtual,
      Uint vw, Uint vh, Flag False, Flag False, Flag True])"
  shows "\<exists>ret t before others.
    run_state (createDisplay E client name w h virtual vw vh topmost focus) s = (ret, t) \<and>
    running t \<and> \<not> sh_mutex t \<and>
    sh_calls t = sh_calls s @ map (Pair True) (before @ create # others @ [(''addListener'', [Str client])]) \<and>
    ret = fst (cc E create (snd (run_calls E before (sh_world s))))"
proof -
  let ?r = "new_create_request client name w h virtual vw vh"
  let ?q = "requested E ?r s"
  let ?A = "map create_call (gCreateDisplayRequests s) :: 'b cc_call list"
  let ?n = "length (gCreateDisplayRequests s)"
  obtain others where frame: "frame_calls ?q = ?A @ create # others"
    by (simp add: frame_calls_def requested_def create create_call_def new_create_request_def)
  have "answers E (frame_calls ?q) ?q ! ?n =
      fst (cc E create (snd (run_calls E (get_clients_call # ?A) (sh_world s))))"
    unfolding frame using answers_nth[of E ?A create others ?q]
    by (simp add: requested_def case_prod_unfold Let_def)
  moreover obtain t where t: "run_state (createDisplay E client name w h virtual vw vh topmost focus) s =
      (answers E (frame_calls ?q) ?q ! ?n, t)" "running t" "\<not> sh_mutex t"
    "sh_calls t = sh_calls s @ map (Pair True) ([get_clients_call] @ frame_calls ?q @
      [(''addListener'', [Str client])])"
    using run_createDisplay[OF assms(1-6) refl, where topmost = topmost and focus = focus] by blast
  ultimately have "run_state (createDisplay E client name w h virtual vw vh topmost focus) s =
        (fst (cc E create (snd (run_calls E (get_clients_call # ?A) (sh_world s)))), t)"
    "sh_calls t = sh_calls s @ map (Pair True) ((get_clients_call # ?A) @ create # others @
      [(''addListener'', [Str client])])"
    unfolding t(4) frame by simp_all
  with t(2,3) show ?thesis by blast
qed

lemma createDisplay_spec_witness:
  "\<exists>ret t before others.
    run_state (createDisplay plain_env ''YouTube'' ''wst-1'' 1280 720 False 0 0 True True)
      (shell_init [''netflix''] 40) = (ret, t) \<and>
    sh_calls t = map (Pair True) (before @ (''createDisplay'', [Str ''YouTube'', Str ''wst-1'', Uint 1280,
      Uint 720, Flag False, Uint 0, Uint 0, Flag False, Flag False, Flag True]) # others @
      [(''addListener'', [Str ''YouTube''])])"
  using createDisplay_spec[of "shell_init [''netflix''] 40" "''YouTube''" plain_env _ "''wst-1''" 1280 720
      False 0 0 True True, OF _ _ _ _ _ _ refl]
  by (fastforce simp: shell_init_def get_clients_call_def plain_cc_def toLower_def tolower_def)

text \<open>
  once the render thread has ended, a handler that needs it waits for ever: creating a
  display, killing a client or injecting a key never returns.
\<close>

theorem stopped_thread_blocks:
  assumes "running s" "\<not> sh_mutex s" "\<not> isRunning s"
    and "\<not> list_ex (\<lambda>r. mClient r = client) (gCreateDisplayRequests s)"
    and "toLower client \<notin> set (out_clients E (snd (cc E get_clients_call (sh_world s))))"
  shows "\<forall>m \<in> {createDisplay E client name w h virtual vw vh topmost focus, kill E client,
      injectKey E keyCode modifiers}. sh_status (snd (run_state m s)) = Blocked"
proof -
  have hang: "run_state (await_frame E) u = (([], [], []), u\<lparr>sh_status := Blocked\<rparr>)"
    if "running u" "\<not> isRunning u" for u
    using that by (simp add: await_frame_def)
  define s1 where "s1 = s\<lparr>sh_world := snd (cc E get_clients_call (sh_world s)),
     sh_calls := sh_calls s @ [(True, get_clients_call)]\<rparr>"
  have exists: "run_state (isClientExists E client) s = (False, s1)"
    using assms(4-5) unfolding run_isClientExists[OF assms(1-2)] s1_def by (simp add: Let_def)
  have s1: "running s1" "\<not> sh_mutex s1" "\<not> isRunning s1" using assms by (simp_all add: s1_def)
  have "sh_status (snd (run_state (createDisplay E client name w h virtual vw vh topmost focus) s)) = Blocked"
    unfolding createDisplay_def run_bind[OF exists] using s1 by (simp add: hang)
  moreover have "sh_status (snd (run_state (kill E client) s)) = Blocked"
    using assms(1-3) by (simp add: kill_def hang)
  moreover have "sh_status (snd (run_state (injectKey E keyCode modifiers) s)) = Blocked"
    using assms(1-3) by (simp add: injectKey_def hang)
  ultimately show ?thesis by simp
qed

lemma stopped_thread_blocks_witness:
  "sh_status (snd (run_state (kill plain_env ''netflix'')
     ((shell_init [] 40)\<lparr>isRunning := False\<rparr>))) = Blocked"
  using stopped_thread_blocks[of "(shell_init [] 40)\<lparr>isRunning := False\<rparr>" "''netflix''" plain_env]
  by (simp add: shell_init_def get_clients_call_def plain_cc_def)

end
