(* ===== verification/Shell_Clients.thy ===== *)
theory Shell_Clients
  imports Shell_Render
begin

text \<open>
  The operations of RDKShell on its clients and their handlers: order, focus, bounds, visibility,
  opacity, scale, hole punch, virtual display, killing and creating.  Each \<^verbatim>\<open>...Wrapper\<close> is the
  handler of a method: it checks the parameters, calls the operation and builds the reply.
\<close>

section \<open>Order and focus\<close>

definition moveToFront :: "('w, 'd) env \<Rightarrow> string \<Rightarrow> ('w, 'd, bool) prog" where
  "moveToFront E client = locked E (''moveToFront'', [Str client])"

definition moveToBack :: "('w, 'd) env \<Rightarrow> string \<Rightarrow> ('w, 'd, bool) prog" where
  "moveToBack E client = locked E (''moveToBack'', [Str client])"

text \<open>\<^verbatim>\<open>strcasecmp(a.c_str(), b.c_str()) == 0\<close>.\<close>

definition strcasecmp_eq :: "string \<Rightarrow> string \<Rightarrow> bool" where
  "strcasecmp_eq a b = (toLower (cstr a) = toLower (cstr b))"

definition moveBehind :: "('w, 'd) env \<Rightarrow> string \<Rightarrow> string \<Rightarrow> ('w, 'd, bool) prog" where
  "moveBehind E client target = do {
     _ \<leftarrow> lockRdkShellMutex;
     _ \<leftarrow> command E (''getClients'', []);
     clientList \<leftarrow> read_out (out_clients E);
     ret \<leftarrow> (if list_ex (\<lambda>c. strcasecmp_eq c target) clientList
            then command E (''moveBehind'', [Str client, Str target])
            else State_Monad.return False);
     _ \<leftarrow> unlock;
     State_Monad.return ret
   }"

text \<open>
  \<^verbatim>\<open>setFocus\<close>.  The other mutexes it takes guard single accesses of a map; the plugin that loses
  the focus is the first, in the order of the call signs, whose name in lower case is the
  compositor's name of the client focused before.
\<close>

definition tell_focus :: "('w, 'd) env \<Rightarrow> string \<Rightarrow> bool \<Rightarrow> ('w, 'd, unit) prog" where
  "tell_focus E callsign focused =
     (if has_focus_interface E callsign then external (Focused callsign focused)
      else State_Monad.return ())"

definition setFocus :: "('w, 'd) env \<Rightarrow> string \<Rightarrow> ('w, 'd, bool) prog" where
  "setFocus E client = do {
     destroying \<leftarrow> asks (\<lambda>s. map_of (gDestroyApplications s) client \<noteq> None);
     if destroying then State_Monad.return False
     else do {
       _ \<leftarrow> lockRdkShellMutex;
       _ \<leftarrow> command E (''getFocused'', []);
       previous \<leftarrow> read_out (\<lambda>w. out_focused E w []);
       ret \<leftarrow> command E (''setFocus'', [Str client]);
       _ \<leftarrow> unlock;
       active \<leftarrow> asks gActivePluginsData;
       _ \<leftarrow> (if previous \<noteq> toLower client then do {
              _ \<leftarrow> (if previous \<noteq> [] then
                     (case List.find (\<lambda>(callsign, _). toLower callsign = previous) active of
                        None \<Rightarrow> State_Monad.return ()
                      | Some (callsign, _) \<Rightarrow> tell_focus E callsign False)
                   else State_Monad.return ());
              if map_of active client \<noteq> None then tell_focus E client True
              else State_Monad.return ()
            } else State_Monad.return ());
       State_Monad.return ret
     }
   }"

definition getFocused :: "('w, 'd) env \<Rightarrow> string \<Rightarrow> ('w, 'd, bool \<times> string) prog" where
  "getFocused E client = plainly_locked_get E (''getFocused'', []) (\<lambda>w. out_focused E w client)"

definition moveToFrontWrapper :: "('w, 'd) env \<Rightarrow> jobject \<Rightarrow> ('w, 'd, reply) prog" where
  "moveToFrontWrapper E p =
     when_ok (need (has_client p) ''please specify client'' start)
       (\<lambda>rsp. do { result \<leftarrow> moveToFront E (client_of E p);
                  finish ''failed to move front'' rsp result })"

definition moveToBackWrapper :: "('w, 'd) env \<Rightarrow> jobject \<Rightarrow> ('w, 'd, reply) prog" where
  "moveToBackWrapper E p =
     when_ok (need (has_client p) ''please specify client'' start)
       (\<lambda>rsp. do { result \<leftarrow> moveToBack E (client_of E p);
                  finish ''failed to move back'' rsp result })"

definition moveBehindWrapper :: "('w, 'd) env \<Rightarrow> jobject \<Rightarrow> ('w, 'd, reply) prog" where
  "moveBehindWrapper E p =
     when_ok (need (HasLabel p ''target'') ''please specify target''
               (need (has_client p) ''please specify client'' start))
       (\<lambda>rsp. do { result \<leftarrow> moveBehind E (client_of E p) (get_string E p ''target'');
                  finish ''failed to move behind'' rsp result })"

definition setFocusWrapper :: "('w, 'd) env \<Rightarrow> jobject \<Rightarrow> ('w, 'd, reply) prog" where
  "setFocusWrapper E p =
     when_ok (need (has_client p) ''please specify client'' start)
       (\<lambda>rsp. do { result \<leftarrow> setFocus E (client_of E p);
                  finish ''failed to set focus'' rsp result })"

definition getFocusedWrapper :: "('w, 'd) env \<Rightarrow> jobject \<Rightarrow> ('w, 'd, reply) prog" where
  "getFocusedWrapper E p = do {
     (result, client) \<leftarrow> getFocused E [];
     if result \<and> client \<noteq> [] then
       returnResponse result (jset ''client'' (JString client)
         (with_message ''success to get focused app'' []))
     else returnResponse result (with_message ''success to get focused app'' [])
   }"

section \<open>Mime type, lists of clients\<close>

definition getMimeType :: "('w, 'd) env \<Rightarrow> string \<Rightarrow> string \<Rightarrow> ('w, 'd, bool \<times> string) prog" where
  "getMimeType E client mime =
     locked_get E (''getMimeType'', [Str client]) (\<lambda>w. out_mime E w client mime)"

definition setMimeType :: "('w, 'd) env \<Rightarrow> string \<Rightarrow> string \<Rightarrow> ('w, 'd, bool) prog" where
  "setMimeType E client mime = locked E (''setMimeType'', [Str client, Str mime])"

definition getClients :: "('w, 'd) env \<Rightarrow> ('w, 'd, bool \<times> json list) prog" where
  "getClients E = do {
     (_, clientList) \<leftarrow> locked_get E (''getClients'', []) (out_clients E);
     State_Monad.return (True, map JString clientList)
   }"

definition getZOrder :: "('w, 'd) env \<Rightarrow> ('w, 'd, bool \<times> json list) prog" where
  "getZOrder E = do {
     (_, zOrderList) \<leftarrow> locked_get E (''getZOrder'', []) (out_zorder E);
     State_Monad.return (True, map JString zOrderList)
   }"

definition getClientsWrapper :: "('w, 'd) env \<Rightarrow> jobject \<Rightarrow> ('w, 'd, reply) prog" where
  "getClientsWrapper E p = do {
     (ok, clients) \<leftarrow> getClients E;
     if \<not> ok then returnResponse False (with_message ''failed to get clients'' [])
     else returnResponse True [(''clients'', JArray clients)]
   }"

definition getZOrderWrapper :: "('w, 'd) env \<Rightarrow> jobject \<Rightarrow> ('w, 'd, reply) prog" where
  "getZOrderWrapper E p = do {
     (ok, clients) \<leftarrow> getZOrder E;
     if \<not> ok then returnResponse False (with_message ''failed to get clients'' [])
     else returnResponse True [(''clients'', JArray clients)]
   }"

section \<open>Killing and creating\<close>

text \<open>
  \<^verbatim>\<open>killWrapper\<close>.  A client of the DAC type runs in a container, which is stopped through the
  OCIContainer plugin.  The link to that plugin is made by \<^verbatim>\<open>make_shared\<close> and never null, so
  that the branch for a null link is not there.  A reply of \<^verbatim>\<open>stopContainer\<close> that was not
  filled in has no \<^verbatim>\<open>success\<close>.
\<close>

definition stop_container :: "('w, 'd) env \<Rightarrow> string \<Rightarrow> jobject \<Rightarrow> ('w, 'd, reply) prog" where
  "stop_container E client rsp = do {
     (_, info) \<leftarrow> thunder_invoke E ''org.rdk.OCIContainer.1'' ''getContainerInfo''
                   [(''containerId'', JString client)];
     if \<not> get_bool E info ''success'' then returnResponse True rsp
     else do {
       container \<leftarrow> State_Monad.return (js_Object (js E) (jget info ''info''));
       state \<leftarrow> State_Monad.return (get_string E container ''state'');
       if state = ''running'' \<or> state = ''starting'' \<or> state = ''paused'' then do {
         (_, stopped) \<leftarrow> thunder_invoke E ''org.rdk.OCIContainer.1'' ''stopContainer''
           (if state = ''paused'' then [(''containerId'', JString client), (''force'', JBool True)]
            else [(''containerId'', JString client)]);
         if \<not> get_bool E stopped ''success''
         then returnResponse False (with_message ''Failed to stop container'' rsp)
         else returnResponse True rsp
       } else returnResponse False
           (with_message ''Container is not in a state that can be stopped'' rsp)
     }
   }"

definition killWrapper :: "('w, 'd) env \<Rightarrow> jobject \<Rightarrow> ('w, 'd, reply) prog" where
  "killWrapper E p =
     when_ok (need (has_client p) ''please specify client'' start)
       (\<lambda>rsp. do {
          client \<leftarrow> State_Monad.return (client_of E p);
          (_, mimeType) \<leftarrow> getMimeType E client [];
          result \<leftarrow> kill E client;
          if \<not> result then returnResponse False (with_message ''failed to kill client'' rsp)
          else if mimeType = MIME_TYPE_DAC_NATIVE E then
            stop_container E client rsp
          else returnResponse True rsp
        })"

definition createDisplayWrapper :: "('w, 'd) env \<Rightarrow> jobject \<Rightarrow> ('w, 'd, reply) prog" where
  "createDisplayWrapper E p =
     when_ok (need (has_client p) ''please specify client'' start)
       (\<lambda>rsp. do {
          result \<leftarrow> createDisplay E (client_of E p) (opt_string E p ''displayName'' [])
            (opt_uint E p ''displayWidth'' 0) (opt_uint E p ''displayHeight'' 0)
            (opt_bool E p ''virtualDisplay'' False) (opt_uint E p ''virtualWidth'' 0)
            (opt_uint E p ''virtualHeight'' 0) (opt_bool E p ''topmost'' False)
            (opt_bool E p ''focus'' False);
          finish ''failed to create display'' rsp result
        })"

section \<open>The mutex discipline\<close>

lemma tell_focus_free [locking_intros]: "free_to_free (tell_focus E c b)"
  unfolding tell_focus_def by (rule locking_intros)+

lemma clients_free [locking_intros]:
  "free_to_free (moveToFront E client)" "free_to_free (moveToBack E client)"
  "free_to_free (moveBehind E client target)" "free_to_free (setFocus E client)"
  "free_to_free (getFocused E client)" "free_to_free (getMimeType E client mime)"
  "free_to_free (setMimeType E client mime)" "free_to_free (getClients E)" "free_to_free (getZOrder E)"
  "free_to_free (stop_container E client rsp)"
  unfolding moveToFront_def moveToBack_def moveBehind_def setFocus_def getFocused_def
    getMimeType_def setMimeType_def getClients_def getZOrder_def stop_container_def
  by (rule locking_intros)+

lemma client_wrappers_free [locking_intros]:
  "free_to_free (moveToFrontWrapper E p)" "free_to_free (moveToBackWrapper E p)"
  "free_to_free (moveBehindWrapper E p)" "free_to_free (setFocusWrapper E p)"
  "free_to_free (getFocusedWrapper E p)" "free_to_free (getClientsWrapper E p)"
  "free_to_free (getZOrderWrapper E p)" "free_to_free (killWrapper E p)"
  "free_to_free (createDisplayWrapper E p)"
  unfolding moveToFrontWrapper_def moveToBackWrapper_def moveBehindWrapper_def setFocusWrapper_def
    getFocusedWrapper_def getClientsWrapper_def getZOrderWrapper_def killWrapper_def
    createDisplayWrapper_def
  by (rule locking_intros)+

end
