(* ===== verification/Shell_Geometry.thy ===== *)
theory Shell_Geometry
  imports Shell_Clients
begin

text \<open>
  Bounds, visibility, opacity, scale, hole punch, virtual display and screen resolution of
  RDKShell, with their handlers.  Sleeps are left out: they only take time.
\<close>

section \<open>Screen resolution and bounds\<close>

definition getScreenResolution :: "('w, 'd) env \<Rightarrow> jobject \<Rightarrow> ('w, 'd, bool \<times> jobject) prog" where
  "getScreenResolution E out = do {
     (ret, width, height) \<leftarrow> locked_get E (''getScreenResolution'', []) (\<lambda>w. out_resolution E w (0, 0));
     State_Monad.return (if ret then (True, jset ''h'' (JUint height) (jset ''w'' (JUint width) out))
       else (False, out))
   }"

definition setScreenResolution :: "32 word \<Rightarrow> 32 word \<Rightarrow> ('w, 'd, bool) prog" where
  "setScreenResolution w h = do {
     _ \<leftarrow> lockRdkShellMutex;
     _ \<leftarrow> upd (\<lambda>s. s\<lparr>receivedResolutionRequest := True, resolutionWidth := w, resolutionHeight := h\<rparr>);
     _ \<leftarrow> unlock;
     State_Monad.return True
   }"

definition getScreenResolutionWrapper :: "('w, 'd) env \<Rightarrow> jobject \<Rightarrow> ('w, 'd, reply) prog" where
  "getScreenResolutionWrapper E p = do {
     (ok, response) \<leftarrow> getScreenResolution E [];
     finish ''failed to get screen resolution'' response ok
   }"

definition setScreenResolutionWrapper :: "('w, 'd) env \<Rightarrow> jobject \<Rightarrow> ('w, 'd, reply) prog" where
  "setScreenResolutionWrapper E p =
     when_ok (need (HasLabel p ''h'') ''please specify h''
               (need (HasLabel p ''w'') ''please specify w'' start))
       (\<lambda>rsp. do { result \<leftarrow> setScreenResolution (get_uint E p ''w'') (get_uint E p ''h'');
                  finish ''failed to set screen resolution'' rsp result })"

definition getBounds :: "('w, 'd) env \<Rightarrow> string \<Rightarrow> jobject \<Rightarrow> ('w, 'd, bool \<times> jobject) prog" where
  "getBounds E client bounds = do {
     (ret, x, y, width, height) \<leftarrow>
       locked_get E (''getBounds'', [Str client]) (\<lambda>w. out_bounds E w client (0, 0, 0, 0));
     State_Monad.return (if ret
       then (True, jset ''h'' (JUint height) (jset ''w'' (JUint width)
               (jset ''y'' (JUint y) (jset ''x'' (JUint x) bounds))))
       else (False, bounds))
   }"

definition setBounds :: "('w, 'd) env \<Rightarrow> string \<Rightarrow> rect \<Rightarrow> ('w, 'd, bool) prog" where
  "setBounds E client r = (case r of (x, y, w, h) \<Rightarrow> do {
     _ \<leftarrow> lockRdkShellMutex;
     _ \<leftarrow> command E (''setBounds'', [Str client, Uint 0, Uint 0, Uint 1, Uint 1]);
     ret \<leftarrow> command E (''setBounds'', [Str client, Uint x, Uint y, Uint w, Uint h]);
     _ \<leftarrow> unlock;
     State_Monad.return ret
   })"

definition getBoundsWrapper :: "('w, 'd) env \<Rightarrow> jobject \<Rightarrow> ('w, 'd, reply) prog" where
  "getBoundsWrapper E p =
     when_ok (need (has_client p) ''please specify client'' start)
       (\<lambda>rsp. do {
          (ok, bounds) \<leftarrow> getBounds E (client_of E p) [];
          finish ''failed to get bounds''
            (if ok then jset ''bounds'' (JObject bounds) rsp else rsp) ok })"

text \<open>The rectangle with the parts that the parameters give replaced.\<close>

definition override_rect :: "('w, 'd) env \<Rightarrow> jobject \<Rightarrow> rect \<Rightarrow> rect" where
  "override_rect E p r = (case r of (x, y, w, h) \<Rightarrow>
     (opt_uint E p ''x'' x, opt_uint E p ''y'' y, opt_uint E p ''w'' w, opt_uint E p ''h'' h))"

definition setBoundsWrapper :: "('w, 'd) env \<Rightarrow> jobject \<Rightarrow> ('w, 'd, reply) prog" where
  "setBoundsWrapper E p =
     when_ok (need (has_client p) ''please specify client'' start)
       (\<lambda>rsp. do {
          client \<leftarrow> State_Monad.return (client_of E p);
          (_, r) \<leftarrow> locked_get E (''getBounds'', [Str client]) (\<lambda>w. out_bounds E w client (0, 0, 0, 0));
          result \<leftarrow> setBounds E client (override_rect E p r);
          finish ''failed to set bounds'' rsp result })"

definition scaleToFitWrapper :: "('w, 'd) env \<Rightarrow> jobject \<Rightarrow> ('w, 'd, reply) prog" where
  "scaleToFitWrapper E p =
     when_ok (need (has_client p) ''please specify client'' start)
       (\<lambda>rsp. do {
          client \<leftarrow> State_Monad.return (client_of E p);
          _ \<leftarrow> lockRdkShellMutex;
          _ \<leftarrow> command E (''getBounds'', [Str client]);
          r \<leftarrow> read_out (\<lambda>w. out_bounds E w client (0, 0, 0, 0));
          result \<leftarrow> (case override_rect E p r of (x, y, w, h) \<Rightarrow>
             command E (''scaleToFit'', [Str client, Uint x, Uint y, Uint w, Uint h]));
          _ \<leftarrow> unlock;
          finish ''failed to scale to fit'' rsp result })"

section \<open>Visibility\<close>

definition getVisibility :: "('w, 'd) env \<Rightarrow> string \<Rightarrow> bool \<Rightarrow> ('w, 'd, bool \<times> bool) prog" where
  "getVisibility E client visible =
     locked_get E (''getVisibility'', [Str client]) (\<lambda>w. out_visible E w client visible)"

definition getVisibilityWrapper :: "('w, 'd) env \<Rightarrow> jobject \<Rightarrow> ('w, 'd, reply) prog" where
  "getVisibilityWrapper E p =
     when_ok (need (has_client p) ''please specify client'' start)
       (\<lambda>rsp. do {
          (result, visible) \<leftarrow> getVisibility E (client_of E p) (uninit_bool E);
          finish ''failed to get visibility''
            (if result then jset ''visible'' (JBool visible) rsp else rsp) result })"

text \<open>
  \<^verbatim>\<open>setVisibility\<close> changes the compositor first and asks only then whether the client is being
  destroyed.  A browser is told in addition.
\<close>

definition setVisibility :: "('w, 'd) env \<Rightarrow> string \<Rightarrow> bool \<Rightarrow> ('w, 'd, bool) prog" where
  "setVisibility E client visible = do {
     ret \<leftarrow> locked E (''setVisibility'', [Str client, Flag visible]);
     destroying \<leftarrow> asks (\<lambda>s. map_of (gDestroyApplications s) client \<noteq> None \<or>
                           map_of (gExternalDestroyApplications s) client \<noteq> None);
     if destroying then State_Monad.return False
     else do {
       active \<leftarrow> asks gActivePluginsData;
       case map_of active client of
         None \<Rightarrow> State_Monad.return ret
       | Some className \<Rightarrow>
           if className = ''WebKitBrowser'' then do {
             now \<leftarrow> asks (\<lambda>s. map_of (gDestroyApplications s) client \<noteq> None);
             if now then State_Monad.return False
             else do {
               _ \<leftarrow> (if has_browser_interface E client
                    then external (BrowserVisibility client visible)
                    else State_Monad.return ());
               State_Monad.return ret
             }
           } else State_Monad.return ret
     }
   }"

definition setVisibilityWrapper :: "('w, 'd) env \<Rightarrow> jobject \<Rightarrow> ('w, 'd, reply) prog" where
  "setVisibilityWrapper E p =
     when_ok (need (HasLabel p ''visible'') ''please specify visibility (visible = true/false)''
               (need (has_client p) ''please specify client'' start))
       (\<lambda>rsp. do { result \<leftarrow> setVisibility E (client_of E p) (get_bool E p ''visible'');
                  finish ''failed to set visibility'' rsp result })"

definition hideAllClientsWrapper :: "('w, 'd) env \<Rightarrow> jobject \<Rightarrow> ('w, 'd, reply) prog" where
  "hideAllClientsWrapper E p =
     when_ok (need (HasLabel p ''hide'') ''please specify hide parameter'' start)
       (\<lambda>rsp. do {
          hide \<leftarrow> State_Monad.return (get_bool E p ''hide'');
          _ \<leftarrow> lockRdkShellMutex;
          _ \<leftarrow> command E (''getClients'', []);
          clientList \<leftarrow> read_out (out_clients E);
          _ \<leftarrow> foldM (\<lambda>c _. command E (''setVisibility'', [Str c, Flag (\<not> hide)])) clientList True;
          _ \<leftarrow> unlock;
          returnResponse True rsp })"

section \<open>Opacity, scale, hole punch\<close>

text \<open>The pattern of \<^verbatim>\<open>setOpacity\<close> and \<^verbatim>\<open>setScale\<close>: only for a client in the compositor's list.\<close>

definition if_client ::
  "('w, 'd) env \<Rightarrow> string \<Rightarrow> (string \<Rightarrow> 'd cc_call) \<Rightarrow> ('w, 'd, bool) prog" where
  "if_client E client c = do {
     _ \<leftarrow> lockRdkShellMutex;
     _ \<leftarrow> command E (''getClients'', []);
     clientList \<leftarrow> read_out (out_clients E);
     ret \<leftarrow> (if toLower client \<in> set clientList then command E (c (toLower client))
            else State_Monad.return False);
     _ \<leftarrow> unlock;
     State_Monad.return ret
   }"

definition getOpacity :: "('w, 'd) env \<Rightarrow> string \<Rightarrow> 32 word \<Rightarrow> ('w, 'd, bool \<times> 32 word) prog" where
  "getOpacity E client opacity =
     locked_get E (''getOpacity'', [Str client]) (\<lambda>w. out_opacity E w client opacity)"

definition setOpacity :: "('w, 'd) env \<Rightarrow> string \<Rightarrow> 32 word \<Rightarrow> ('w, 'd, bool) prog" where
  "setOpacity E client opacity = if_client E client (\<lambda>c. (''setOpacity'', [Str c, Uint opacity]))"

definition getOpacityWrapper :: "('w, 'd) env \<Rightarrow> jobject \<Rightarrow> ('w, 'd, reply) prog" where
  "getOpacityWrapper E p =
     when_ok (need (has_client p) ''please specify client'' start)
       (\<lambda>rsp. do {
          (ok, opacity) \<leftarrow> getOpacity E (client_of E p) (uninit_uint E);
          finish ''failed to get opacity''
            (if ok then jset ''opacity'' (JUint opacity) rsp else rsp) ok })"

definition setOpacityWrapper :: "('w, 'd) env \<Rightarrow> jobject \<Rightarrow> ('w, 'd, reply) prog" where
  "setOpacityWrapper E p =
     when_ok (need (HasLabel p ''opacity'') ''please specify opacity''
               (need (has_client p) ''please specify client'' start))
       (\<lambda>rsp. do { result \<leftarrow> setOpacity E (client_of E p) (get_uint E p ''opacity'');
                  finish ''failed to set opacity'' rsp result })"

definition getScale :: "('w, 'd) env \<Rightarrow> string \<Rightarrow> 'd \<times> 'd \<Rightarrow> ('w, 'd, bool \<times> 'd \<times> 'd) prog" where
  "getScale E client xy = locked_get E (''getScale'', [Str client]) (\<lambda>w. out_scale E w client xy)"

definition setScale :: "('w, 'd) env \<Rightarrow> string \<Rightarrow> 'd \<Rightarrow> 'd \<Rightarrow> ('w, 'd, bool) prog" where
  "setScale E client x y = if_client E client (\<lambda>c. (''setScale'', [Str c, Dbl x, Dbl y]))"

definition getScaleWrapper :: "('w, 'd) env \<Rightarrow> jobject \<Rightarrow> ('w, 'd, reply) prog" where
  "getScaleWrapper E p =
     when_ok (need (has_client p) ''please specify client'' start)
       (\<lambda>rsp. do {
          (ok, x, y) \<leftarrow> getScale E (client_of E p) (double_one E, double_one E);
          finish ''failed to get scale''
            (if ok then jset ''sy'' (JString (double_to_string E y))
                         (jset ''sx'' (JString (double_to_string E x)) rsp) else rsp) ok })"

text \<open>\<^verbatim>\<open>stod\<close> of an optional parameter; \<open>None\<close> is the exception.\<close>

definition opt_double :: "('w, 'd) env \<Rightarrow> jobject \<Rightarrow> string \<Rightarrow> 'd \<Rightarrow> 'd option" where
  "opt_double E p k x = (if HasLabel p k then stod E (get_string E p k) else Some x)"

definition setScaleWrapper :: "('w, 'd) env \<Rightarrow> jobject \<Rightarrow> ('w, 'd, reply) prog" where
  "setScaleWrapper E p =
     when_ok (need (HasLabel p ''sx'' \<or> HasLabel p ''sy'') ''please specify sx and/or sy''
               (need (has_client p) ''please specify client'' start))
       (\<lambda>rsp. do {
          client \<leftarrow> State_Monad.return (client_of E p);
          (_, x, y) \<leftarrow> getScale E client (double_one E, double_one E);
          case (opt_double E p ''sx'' x, opt_double E p ''sy'' y) of
            (Some x', Some y') \<Rightarrow> do {
              result \<leftarrow> setScale E client x' y';
              finish ''failed to set scale'' rsp result }
          | _ \<Rightarrow> returnResponse False
                  (with_message ''failed to set scale due to invalid parameters'' rsp) })"

definition getHolePunch :: "('w, 'd) env \<Rightarrow> string \<Rightarrow> bool \<Rightarrow> ('w, 'd, bool \<times> bool) prog" where
  "getHolePunch E client hole =
     locked_get E (''getHolePunch'', [Str client]) (\<lambda>w. out_holePunch E w client hole)"

definition setHolePunch :: "('w, 'd) env \<Rightarrow> string \<Rightarrow> bool \<Rightarrow> ('w, 'd, bool) prog" where
  "setHolePunch E client hole = locked E (''setHolePunch'', [Str client, Flag hole])"

definition getHolePunchWrapper :: "('w, 'd) env \<Rightarrow> jobject \<Rightarrow> ('w, 'd, reply) prog" where
  "getHolePunchWrapper E p =
     when_ok (need (has_client p) ''please specify client'' start)
       (\<lambda>rsp. do {
          (result, hole) \<leftarrow> getHolePunch E (client_of E p) True;
          finish ''failed to get hole punch''
            (if result then jset ''holePunch'' (JBool hole) rsp else rsp) result })"

definition setHolePunchWrapper :: "('w, 'd) env \<Rightarrow> jobject \<Rightarrow> ('w, 'd, reply) prog" where
  "setHolePunchWrapper E p =
     when_ok (need (HasLabel p ''holePunch'') ''please specify hole punch (holePunch = true/false)''
               (need (has_client p) ''please specify client'' start))
       (\<lambda>rsp. do { result \<leftarrow> setHolePunch E (client_of E p) (get_bool E p ''holePunch'');
                  finish ''failed to set hole punch'' rsp result })"

section \<open>Topmost and virtual display\<close>

definition setTopmost :: "('w, 'd) env \<Rightarrow> string \<Rightarrow> bool \<Rightarrow> bool \<Rightarrow> ('w, 'd, bool) prog" where
  "setTopmost E callsign topmost focus =
     locked E (''setTopmost'', [Str callsign, Flag topmost, Flag focus])"

text \<open>Here the second check is made only if the first passes: the first message wins.\<close>

definition setTopmostWrapper :: "('w, 'd) env \<Rightarrow> jobject \<Rightarrow> ('w, 'd, reply) prog" where
  "setTopmostWrapper E p =
     when_ok (need (has_client p) ''please specify client or callsign''
               (need (HasLabel p ''topmost'') ''please specify topmost (topmost = true/false)'' start))
       (\<lambda>rsp. do { result \<leftarrow> setTopmost E (client_of E p) (get_bool E p ''topmost'')
                    (opt_bool E p ''focus'' False);
                  finish ''failed to set topmost'' rsp result })"

definition getVirtualResolution ::
  "('w, 'd) env \<Rightarrow> string \<Rightarrow> 32 word \<times> 32 word \<Rightarrow> ('w, 'd, bool \<times> 32 word \<times> 32 word) prog" where
  "getVirtualResolution E client wh =
     locked_get E (''getVirtualResolution'', [Str client]) (\<lambda>w. out_virtual E w client wh)"

definition setVirtualResolution ::
  "('w, 'd) env \<Rightarrow> string \<Rightarrow> 32 word \<Rightarrow> 32 word \<Rightarrow> ('w, 'd, bool) prog" where
  "setVirtualResolution E client w h =
     locked E (''setVirtualResolution'', [Str client, Uint w, Uint h])"

definition getVirtualResolutionWrapper :: "('w, 'd) env \<Rightarrow> jobject \<Rightarrow> ('w, 'd, reply) prog" where
  "getVirtualResolutionWrapper E p =
     when_ok (need (has_client p) ''please specify client'' start)
       (\<lambda>rsp. do {
          (ok, width, height) \<leftarrow> getVirtualResolution E (client_of E p) (0, 0);
          finish ''failed to get virtual resolution''
            (if ok then jset ''height'' (JUint height) (jset ''width'' (JUint width) rsp) else rsp) ok })"

definition setVirtualResolutionWrapper :: "('w, 'd) env \<Rightarrow> jobject \<Rightarrow> ('w, 'd, reply) prog" where
  "setVirtualResolutionWrapper E p =
     when_ok (need (has_client p) ''please specify client'' start)
       (\<lambda>rsp. do {
          client \<leftarrow> State_Monad.return (client_of E p);
          (_, width, height) \<leftarrow> getVirtualResolution E client (0, 0);
          result \<leftarrow> setVirtualResolution E client
            (opt_uint E p ''width'' width) (opt_uint E p ''height'' height);
          returnResponse result rsp })"

definition enableVirtualDisplay :: "('w, 'd) env \<Rightarrow> string \<Rightarrow> bool \<Rightarrow> ('w, 'd, bool) prog" where
  "enableVirtualDisplay E client enable =
     locked E (''enableVirtualDisplay'', [Str client, Flag enable])"

definition getVirtualDisplayEnabled ::
  "('w, 'd) env \<Rightarrow> string \<Rightarrow> bool \<Rightarrow> ('w, 'd, bool \<times> bool) prog" where
  "getVirtualDisplayEnabled E client enabled =
     locked_get E (''getVirtualDisplayEnabled'', [Str client]) (\<lambda>w. out_virtualEnabled E w client enabled)"

definition enableVirtualDisplayWrapper :: "('w, 'd) env \<Rightarrow> jobject \<Rightarrow> ('w, 'd, reply) prog" where
  "enableVirtualDisplayWrapper E p =
     when_ok (need (has_client p) ''please specify client'' start)
       (\<lambda>rsp. if \<not> HasLabel p ''enable''
               then returnResponse False (with_message ''please specify enable parameter'' rsp)
               else do { result \<leftarrow> enableVirtualDisplay E (client_of E p) (get_bool E p ''enable'');
                         returnResponse result rsp })"

definition getVirtualDisplayEnabledWrapper :: "('w, 'd) env \<Rightarrow> jobject \<Rightarrow> ('w, 'd, reply) prog" where
  "getVirtualDisplayEnabledWrapper E p =
     when_ok (need (has_client p) ''please specify client'' start)
       (\<lambda>rsp. do {
          (ok, enabled) \<leftarrow> getVirtualDisplayEnabled E (client_of E p) False;
          finish ''failed to call getVirtualDisplayEnabled''
            (if ok then jset ''enabled'' (JBool enabled) rsp else rsp) ok })"

section \<open>The mutex discipline\<close>

lemma hide_all_held [locking_intros]:
  "held_to_held (foldM (\<lambda>c _. command E (f c)) cs b)"
  by (rule locking_intros)+

lemma if_client_free [locking_intros]: "free_to_free (if_client E client c)"
  unfolding if_client_def by (rule locking_intros)+

lemma setScreenResolution_free [locking_intros]: "free_to_free (setScreenResolution w h)"
  unfolding setScreenResolution_def by (rule locking_intros upd_held | simp add: keeping)+

lemma geometry_free [locking_intros]:
  "free_to_free (getScreenResolution E out)" "free_to_free (getBounds E client bounds)"
  "free_to_free (setBounds E client r)" "free_to_free (getVisibility E client b)"
  "free_to_free (setVisibility E client b)" "free_to_free (getOpacity E client op)"
  "free_to_free (setOpacity E client op)" "free_to_free (getScale E client xy)"
  "free_to_free (setScale E client x y)" "free_to_free (getHolePunch E client b)"
  "free_to_free (setHolePunch E client b)" "free_to_free (setTopmost E client b c)"
  "free_to_free (getVirtualResolution E client wh)" "free_to_free (setVirtualResolution E client w h)"
  "free_to_free (enableVirtualDisplay E client b)" "free_to_free (getVirtualDisplayEnabled E client b)"
  unfolding getScreenResolution_def getBounds_def setBounds_def getVisibility_def setVisibility_def
    getOpacity_def setOpacity_def getScale_def setScale_def getHolePunch_def setHolePunch_def
    setTopmost_def getVirtualResolution_def setVirtualResolution_def enableVirtualDisplay_def
    getVirtualDisplayEnabled_def
  by (rule locking_intros)+

lemma geometry_wrappers_free [locking_intros]:
  "free_to_free (getScreenResolutionWrapper E p)" "free_to_free (setScreenResolutionWrapper E p)"
  "free_to_free (getBoundsWrapper E p)" "free_to_free (setBoundsWrapper E p)"
  "free_to_free (scaleToFitWrapper E p)" "free_to_free (getVisibilityWrapper E p)"
  "free_to_free (setVisibilityWrapper E p)" "free_to_free (hideAllClientsWrapper E p)"
  "free_to_free (getOpacityWrapper E p)" "free_to_free (setOpacityWrapper E p)"
  "free_to_free (getScaleWrapper E p)" "free_to_free (setScaleWrapper E p)"
  "free_to_free (getHolePunchWrapper E p)" "free_to_free (setHolePunchWrapper E p)"
  "free_to_free (setTopmostWrapper E p)" "free_to_free (getVirtualResolutionWrapper E p)"
  "free_to_free (setVirtualResolutionWrapper E p)" "free_to_free (enableVirtualDisplayWrapper E p)"
  "free_to_free (getVirtualDisplayEnabledWrapper E p)"
  unfolding getScreenResolutionWrapper_def setScreenResolutionWrapper_def getBoundsWrapper_def
    setBoundsWrapper_def scaleToFitWrapper_def getVisibilityWrapper_def setVisibilityWrapper_def
    hideAllClientsWrapper_def getOpacityWrapper_def setOpacityWrapper_def getScaleWrapper_def
    setScaleWrapper_def getHolePunchWrapper_def setHolePunchWrapper_def setTopmostWrapper_def
    getVirtualResolutionWrapper_def setVirtualResolutionWrapper_def enableVirtualDisplayWrapper_def
    getVirtualDisplayEnabledWrapper_def
  by (rule locking_intros)+

section \<open>Visibility of an application that is being destroyed\<close>

definition being_destroyed :: "('w, 'd) shell \<Rightarrow> string \<Rightarrow> bool" where
  "being_destroyed s client =
     (map_of (gDestroyApplications s) client \<noteq> None \<or> map_of (gExternalDestroyApplications s) client \<noteq> None)"

lemma run_setVisibility:
  assumes "running s" "\<not> sh_mutex s" and call: "call = (''setVisibility'', [Str client, Flag visible])"
  shows "run_state (setVisibility E client visible) s =
    (fst (cc E call (sh_world s)) \<and> \<not> being_destroyed s client,
     s\<lparr>sh_world := snd (cc E call (sh_world s)), sh_calls := sh_calls s @ [(True, call)],
       sh_ext := sh_ext s @
         (if \<not> being_destroyed s client \<and> map_of (gActivePluginsData s) client = Some ''WebKitBrowser'' \<and>
             has_browser_interface E client
          then [BrowserVisibility client visible] else [])\<rparr>)"
proof -
  have now: "\<not> being_destroyed s client \<Longrightarrow> map_of (gDestroyApplications s) client = None"
    by (simp add: being_destroyed_def)
  show ?thesis
    using assms(1) now
    by (auto simp: setVisibility_def run_locked[OF assms(1,2)] call being_destroyed_def split: option.split)
qed

text \<open>
  the compositor is told the visibility in every case; for an application that is being
  destroyed the answer is failure all the same, and its browser is not told.
\<close>

theorem setVisibility_spec:
  assumes "running s" "\<not> sh_mutex s" and call: "call = (''setVisibility'', [Str client, Flag visible])"
  shows "run_state (setVisibility E client visible) s =
    (fst (cc E call (sh_world s)) \<and> \<not> being_destroyed s client,
     s\<lparr>sh_world := snd (cc E call (sh_world s)), sh_calls := sh_calls s @ [(True, call)],
       sh_ext := sh_ext s @
         (if \<not> being_destroyed s client \<and> map_of (gActivePluginsData s) client = Some ''WebKitBrowser'' \<and>
             has_browser_interface E client
          then [BrowserVisibility client visible] else [])\<rparr>)"
  by (rule run_setVisibility[OF assms])

lemma setVisibility_spec_witness:
  "fst (run_state (setVisibility plain_env ''netflix'' True)
     ((shell_init [''netflix''] 40)\<lparr>gDestroyApplications := [(''netflix'', True)]\<rparr>)) = False \<and>
   fst (run_state (setVisibility plain_env ''netflix'' True) (shell_init [''netflix''] 40))"
  using setVisibility_spec[OF _ _ refl, of "(shell_init [''netflix''] 40)\<lparr>gDestroyApplications := [(''netflix'', True)]\<rparr>"
      plain_env "''netflix''" True]
    setVisibility_spec[OF _ _ refl, of "shell_init [''netflix''] 40" plain_env "''netflix''" True]
  by (simp add: shell_init_def being_destroyed_def plain_cc_def)

end
