(* ===== verification/Shell_Keys.thy ===== *)
theory Shell_Keys
  imports Shell_Clients
begin

text \<open>
  The keys of RDKShell: intercepts, listeners, generated and injected keys, repeats, input
  events and the key that woke the device.
\<close>

section \<open>Intercepts\<close>

definition addKeyIntercept ::
  "('w, 'd) env \<Rightarrow> 32 word \<Rightarrow> json list \<Rightarrow> string \<Rightarrow> ('w, 'd, bool) prog" where
  "addKeyIntercept E keyCode modifiers client =
     plainly_locked E (''addKeyIntercept'', [Str client, Uint keyCode, Uint (key_flags E 0 modifiers)])"

definition removeKeyIntercept ::
  "('w, 'd) env \<Rightarrow> 32 word \<Rightarrow> json list \<Rightarrow> string \<Rightarrow> ('w, 'd, bool) prog" where
  "removeKeyIntercept E keyCode modifiers client =
     plainly_locked E (''removeKeyIntercept'', [Str client, Uint keyCode, Uint (key_flags E 0 modifiers)])"

text \<open>\<^verbatim>\<open>Content() == JsonValue::type::OBJECT\<close>, and \<^verbatim>\<open>STRING\<close>.\<close>

fun is_object :: "json \<Rightarrow> bool" where
  "is_object (JObject ob) = True" | "is_object _ = False"

fun is_string :: "json \<Rightarrow> bool" where
  "is_string (JString s) = True" | "is_string _ = False"

text \<open>One key of an entry: the result so far is overwritten, whatever it was.\<close>

definition intercept_key :: "('w, 'd) env \<Rightarrow> string \<Rightarrow> json \<Rightarrow> bool \<Rightarrow> ('w, 'd, bool) prog" where
  "intercept_key E client key ret =
     (if \<not> is_object key then State_Monad.return False
      else let keyEntry = js_Object (js E) key in
        if \<not> HasLabel keyEntry ''keyCode'' then State_Monad.return False
        else addKeyIntercept E (get_uint E keyEntry ''keyCode'') (opt_array E keyEntry ''modifiers'') client)"

definition intercept_entry :: "('w, 'd) env \<Rightarrow> json \<Rightarrow> bool \<Rightarrow> ('w, 'd, bool) prog" where
  "intercept_entry E entry ret =
     (if \<not> is_object entry then State_Monad.return False
      else let ob = js_Object (js E) entry in
        if \<not> HasLabel ob ''keys'' \<or> \<not> HasLabel ob ''client'' then State_Monad.return False
        else foldM (intercept_key E (get_string E ob ''client'')) (get_array E ob ''keys'') ret)"

definition addKeyIntercepts :: "('w, 'd) env \<Rightarrow> json list \<Rightarrow> ('w, 'd, bool) prog" where
  "addKeyIntercepts E intercepts = foldM (intercept_entry E) intercepts True"

definition addKeyInterceptWrapper :: "('w, 'd) env \<Rightarrow> jobject \<Rightarrow> ('w, 'd, reply) prog" where
  "addKeyInterceptWrapper E p =
     when_ok (need (has_client p) ''please specify client''
               (need (HasLabel p ''keyCode'') ''please specify keyCode'' start))
       (\<lambda>rsp. do { result \<leftarrow> addKeyIntercept E (get_uint E p ''keyCode'')
                    (opt_array E p ''modifiers'') (client_of E p);
                  finish ''failed to add key intercept'' rsp result })"

definition addKeyInterceptsWrapper :: "('w, 'd) env \<Rightarrow> jobject \<Rightarrow> ('w, 'd, reply) prog" where
  "addKeyInterceptsWrapper E p =
     when_ok (need (HasLabel p ''intercepts'') ''please specify intercepts'' start)
       (\<lambda>rsp. do { result \<leftarrow> addKeyIntercepts E (get_array E p ''intercepts'');
                  finish ''failed to add some key intercepts due to missing parameters or wrong format ''
                    rsp result })"

definition removeKeyInterceptWrapper :: "('w, 'd) env \<Rightarrow> jobject \<Rightarrow> ('w, 'd, reply) prog" where
  "removeKeyInterceptWrapper E p =
     when_ok (need (has_client p) ''please specify client''
               (need (HasLabel p ''keyCode'') ''please specify keyCode'' start))
       (\<lambda>rsp. do {
          keyCode \<leftarrow> State_Monad.return
            (if is_string (jget p ''keyCode'') \<and> get_string E p ''keyCode'' = ''*'' then 255
             else get_uint E p ''keyCode'');
          result \<leftarrow> removeKeyIntercept E keyCode (opt_array E p ''modifiers'') (client_of E p);
          finish ''failed to remove key intercept'' rsp result })"

section \<open>Listeners\<close>

text \<open>
  A loop that stops at the first failure: \<^verbatim>\<open>result = false; ...; if (result == false) break;\<close> with
  \<^verbatim>\<open>result\<close> true before the loop.
\<close>

fun until_false :: "('x \<Rightarrow> ('s, bool) state) \<Rightarrow> 'x list \<Rightarrow> ('s, bool) state" where
  "until_false f [] = State_Monad.return True"
| "until_false f (x # xs) =
     do { result \<leftarrow> f x; if result then until_false f xs else State_Monad.return False }"

definition listener_code :: "('w, 'd) env \<Rightarrow> jobject \<Rightarrow> 32 word" where
  "listener_code E info =
     (let k = (if HasLabel info ''keyCode'' then ''keyCode'' else ''nativeKeyCode'') in
       if get_string E info k = ''*'' then ANY_KEY else get_uint E info k)"

definition listener_properties :: "('w, 'd) env \<Rightarrow> jobject \<Rightarrow> 'd properties" where
  "listener_properties E info =
     (let p1 = (if HasLabel info ''activate''
                then omap_put ''activate'' (Data_bool (get_bool E info ''activate'')) [] else [])
      in if HasLabel info ''propagate''
         then omap_put ''propagate'' (Data_bool (get_bool E info ''propagate'')) p1 else p1)"

definition add_listener :: "('w, 'd) env \<Rightarrow> string \<Rightarrow> json \<Rightarrow> ('w, 'd, bool) prog" where
  "add_listener E client key =
     (let info = js_Object (js E) key;
          flags = key_flags E 0 (opt_array E info ''modifiers'') in
      if HasLabel info ''keyCode'' \<and> HasLabel info ''nativeKeyCode'' then State_Monad.return False
      else if HasLabel info ''keyCode'' then
        command E (''addKeyListener'',
          [Str client, Uint (listener_code E info), Uint flags, Props (listener_properties E info)])
      else if HasLabel info ''nativeKeyCode'' then
        command E (''addNativeKeyListener'',
          [Str client, Uint (listener_code E info), Uint flags, Props (listener_properties E info)])
      else State_Monad.return False)"

definition remove_listener :: "('w, 'd) env \<Rightarrow> string \<Rightarrow> json \<Rightarrow> ('w, 'd, bool) prog" where
  "remove_listener E client key =
     (let info = js_Object (js E) key;
          flags = key_flags E 0 (opt_array E info ''modifiers'') in
      if HasLabel info ''keyCode'' \<and> HasLabel info ''nativeKeyCode'' then State_Monad.return False
      else if HasLabel info ''keyCode'' then
        command E (''removeKeyListener'', [Str client, Uint (listener_code E info), Uint flags])
      else if HasLabel info ''nativeKeyCode'' then
        command E (''removeNativeKeyListener'', [Str client, Uint (listener_code E info), Uint flags])
      else State_Monad.return False)"

definition addKeyListeners :: "('w, 'd) env \<Rightarrow> string \<Rightarrow> json list \<Rightarrow> ('w, 'd, bool) prog" where
  "addKeyListeners E client keys = do {
     _ \<leftarrow> lock;
     result \<leftarrow> until_false (add_listener E client) keys;
     _ \<leftarrow> unlock;
     State_Monad.return result
   }"

definition removeKeyListeners :: "('w, 'd) env \<Rightarrow> string \<Rightarrow> json list \<Rightarrow> ('w, 'd, bool) prog" where
  "removeKeyListeners E client keys = do {
     _ \<leftarrow> lock;
     result \<leftarrow> until_false (remove_listener E client) keys;
     _ \<leftarrow> unlock;
     State_Monad.return result
   }"

definition addKeyListenersWrapper :: "('w, 'd) env \<Rightarrow> jobject \<Rightarrow> ('w, 'd, reply) prog" where
  "addKeyListenersWrapper E p =
     when_ok (need (has_client p) ''please specify client''
               (need (HasLabel p ''keys'') ''please specify keys'' start))
       (\<lambda>rsp. do { result \<leftarrow> addKeyListeners E (client_of E p) (get_array E p ''keys'');
                  finish ''failed to add key listeners'' rsp result })"

definition removeKeyListenersWrapper :: "('w, 'd) env \<Rightarrow> jobject \<Rightarrow> ('w, 'd, reply) prog" where
  "removeKeyListenersWrapper E p =
     when_ok (need (has_client p) ''please specify client''
               (need (HasLabel p ''keys'') ''please specify keys'' start))
       (\<lambda>rsp. do { result \<leftarrow> removeKeyListeners E (client_of E p) (get_array E p ''keys'');
                  finish ''failed to remove key listeners'' rsp result })"

definition addKeyMetadataListenerWrapper :: "('w, 'd) env \<Rightarrow> jobject \<Rightarrow> ('w, 'd, reply) prog" where
  "addKeyMetadataListenerWrapper E p =
     when_ok (need (has_client p) ''please specify client'' start)
       (\<lambda>rsp. do { result \<leftarrow> plainly_locked E (''addKeyMetadataListener'', [Str (client_of E p)]);
                  finish ''failed to add key metadata listeners'' rsp result })"

definition removeKeyMetadataListenerWrapper :: "('w, 'd) env \<Rightarrow> jobject \<Rightarrow> ('w, 'd, reply) prog" where
  "removeKeyMetadataListenerWrapper E p =
     when_ok (need (has_client p) ''please specify client'' start)
       (\<lambda>rsp. do { result \<leftarrow> locked E (''removeKeyMetadataListener'', [Str (client_of E p)]);
                  finish ''failed to remove key metadata listeners'' rsp result })"

section \<open>Injected and generated keys\<close>

definition injectKeyWrapper :: "('w, 'd) env \<Rightarrow> jobject \<Rightarrow> ('w, 'd, reply) prog" where
  "injectKeyWrapper E p =
     when_ok (need (HasLabel p ''keyCode'') ''please specify keyCode'' start)
       (\<lambda>rsp. do { result \<leftarrow> injectKey E (get_uint E p ''keyCode'') (opt_array E p ''modifiers'');
                  finish ''failed to inject key'' rsp result })"

text \<open>One key input; an input with neither \<^verbatim>\<open>key\<close> nor \<^verbatim>\<open>keyCode\<close> is skipped.\<close>

definition generate_one :: "('w, 'd) env \<Rightarrow> string \<Rightarrow> json \<Rightarrow> bool \<Rightarrow> ('w, 'd, bool) prog" where
  "generate_one E client input ret =
     (let info = js_Object (js E) input in
      if \<not> HasLabel info ''key'' \<and> \<not> HasLabel info ''keyCode'' then State_Monad.return ret
      else
        let named = HasLabel info ''key'';
            virtualKey = (if named then get_string E info ''key'' else []);
            keyCode = (if named then 0 else get_uint E info ''keyCode'');
            flags = (if named then 0 else key_flags E 0 (opt_array E info ''modifiers''));
            given = opt_string E info ''client'' client;
            keyClient = (if given = [] then opt_string E info ''callsign'' [] else given)
        in do {
          _ \<leftarrow> lockRdkShellMutex;
          found \<leftarrow> (if keyClient \<noteq> [] then do {
                   _ \<leftarrow> command E (''getClients'', []);
                   clientList \<leftarrow> read_out (out_clients E);
                   State_Monad.return (toLower keyClient \<in> set clientList)
                 } else State_Monad.return True);
          result \<leftarrow> (if found
                   then command E (''generateKey'',
                     [Str (toLower keyClient), Uint keyCode, Uint flags, Str virtualKey])
                   else State_Monad.return ret);
          _ \<leftarrow> unlock;
          State_Monad.return result
        })"

definition generateKey :: "('w, 'd) env \<Rightarrow> string \<Rightarrow> json list \<Rightarrow> ('w, 'd, bool) prog" where
  "generateKey E client keyInputs = foldM (generate_one E client) keyInputs False"

definition generateKeyWrapper :: "('w, 'd) env \<Rightarrow> jobject \<Rightarrow> ('w, 'd, reply) prog" where
  "generateKeyWrapper E p =
     when_ok (need (HasLabel p ''keys'') ''please specify keyInputs'' start)
       (\<lambda>rsp. do {
          given \<leftarrow> State_Monad.return (opt_string E p ''client'' []);
          result \<leftarrow> generateKey E (if given = [] then opt_string E p ''callsign'' [] else given)
                     (get_array E p ''keys'');
          finish ''failed to generate keys'' rsp result })"

section \<open>Repeats and input events\<close>

definition enableKeyRepeats :: "('w, 'd) env \<Rightarrow> bool \<Rightarrow> ('w, 'd, bool) prog" where
  "enableKeyRepeats E enable = locked E (''enableKeyRepeats'', [Flag enable])"

definition getKeyRepeatsEnabled :: "('w, 'd) env \<Rightarrow> bool \<Rightarrow> ('w, 'd, bool \<times> bool) prog" where
  "getKeyRepeatsEnabled E enable =
     locked_get E (''getKeyRepeatsEnabled'', []) (\<lambda>w. out_keyRepeats E w enable)"

definition enableKeyRepeatsWrapper :: "('w, 'd) env \<Rightarrow> jobject \<Rightarrow> ('w, 'd, reply) prog" where
  "enableKeyRepeatsWrapper E p =
     when_ok (need (HasLabel p ''enable'') ''please specify enable parameter'' start)
       (\<lambda>rsp. do { result \<leftarrow> enableKeyRepeats E (get_bool E p ''enable''); returnResponse result rsp })"

definition getKeyRepeatsEnabledWrapper :: "('w, 'd) env \<Rightarrow> jobject \<Rightarrow> ('w, 'd, reply) prog" where
  "getKeyRepeatsEnabledWrapper E p = do {
     (result, enable) \<leftarrow> getKeyRepeatsEnabled E False;
     finish ''failed to get key repeats''
       (if result then [(''keyRepeat'', JBool enable)] else []) result
   }"

definition keyRepeatConfigWrapper :: "('w, 'd) env \<Rightarrow> jobject \<Rightarrow> ('w, 'd, reply) prog" where
  "keyRepeatConfigWrapper E p =
     (if HasLabel p ''input'' \<and> get_string E p ''input'' \<noteq> ''default'' \<and>
         get_string E p ''input'' \<noteq> ''keyboard''
      then returnResponse False (with_message ''not supported input type'' [])
      else if \<not> HasLabel p ''enabled''
      then returnResponse False (with_message ''please specify enabled parameter'' [])
      else if \<not> HasLabel p ''initialDelay''
      then returnResponse False (with_message ''please specify initialDelay parameter'' [])
      else if \<not> HasLabel p ''repeatInterval''
      then returnResponse False (with_message ''please specify repeatInterval parameter'' [])
      else do {
        _ \<leftarrow> plainly_locked E (''setKeyRepeatConfig'', [Flag (get_bool E p ''enabled''),
              Sint (get_uint E p ''initialDelay''), Sint (get_uint E p ''repeatInterval'')]);
        returnResponse True []
      })"

definition ignoreKeyInputsWrapper :: "('w, 'd) env \<Rightarrow> jobject \<Rightarrow> ('w, 'd, reply) prog" where
  "ignoreKeyInputsWrapper E p =
     when_ok (need (HasLabel p ''ignore'') ''please specify ignore parameter'' start)
       (\<lambda>rsp. do { ret \<leftarrow> locked E (''ignoreKeyInputs'', [Flag (get_bool E p ''ignore'')]);
                  finish ''key ignore is not allowed'' rsp ret })"

definition and_enable :: "('w, 'd) env \<Rightarrow> bool \<Rightarrow> string \<Rightarrow> bool \<Rightarrow> ('w, 'd, bool) prog" where
  "and_enable E enable client result =
     (if result then command E (''enableInputEvents'', [Str client, Flag enable])
      else State_Monad.return False)"

fun enable_loop :: "('w, 'd) env \<Rightarrow> bool \<Rightarrow> json list \<Rightarrow> bool \<Rightarrow> ('w, 'd, bool) prog" where
  "enable_loop E enable [] result = State_Monad.return result"
| "enable_loop E enable (c # cs) result =
     (if js_String (js E) c = ''*'' then do {
        _ \<leftarrow> command E (''getClients'', []);
        clientList \<leftarrow> read_out (out_clients E);
        foldM (and_enable E enable) clientList result
      } else do {
        result' \<leftarrow> and_enable E enable (js_String (js E) c) result;
        enable_loop E enable cs result'
      })"

definition enableInputEvents :: "('w, 'd) env \<Rightarrow> json list \<Rightarrow> bool \<Rightarrow> ('w, 'd, bool) prog" where
  "enableInputEvents E clients enable = do {
     _ \<leftarrow> lock;
     result \<leftarrow> enable_loop E enable clients True;
     _ \<leftarrow> unlock;
     State_Monad.return result
   }"

definition enableInputEventsWrapper :: "('w, 'd) env \<Rightarrow> jobject \<Rightarrow> ('w, 'd, reply) prog" where
  "enableInputEventsWrapper E p =
     when_ok (need (HasLabel p ''clients'') ''please specify clients parameter''
               (need (HasLabel p ''enable'') ''please specify enable parameter'' start))
       (\<lambda>rsp. do { result \<leftarrow> enableInputEvents E (get_array E p ''clients'') (get_bool E p ''enable'');
                  returnResponse result rsp })"

section \<open>The key that woke the device\<close>

definition KEYCODE_INVALID :: "16 word" where "KEYCODE_INVALID = -1"

text \<open>The last remote control with a wake-up key decides; the code is cut to 16 bits.\<close>

definition remote_key :: "('w, 'd) env \<Rightarrow> 16 word \<Rightarrow> json \<Rightarrow> 16 word" where
  "remote_key E keyCode remote =
     (let ob = js_Object (js E) remote in
       if HasLabel ob ''wakeupKeyCode'' then word_of_int (js_Number (js E) (jget ob ''wakeupKeyCode''))
       else keyCode)"

definition net_status_key :: "('w, 'd) env \<Rightarrow> hresult \<times> jobject \<Rightarrow> 16 word" where
  "net_status_key E answer =
     (if fst answer = ERROR_NONE \<and> HasLabel (snd answer) ''status'' then
        let stat = js_Object (js E) (jget (snd answer) ''status'') in
          if HasLabel stat ''remoteData''
          then foldl (remote_key E) KEYCODE_INVALID (get_array E stat ''remoteData'')
          else KEYCODE_INVALID
      else KEYCODE_INVALID)"

text \<open>The loop that asks until there is a key, at most as often as \<^verbatim>\<open>retry\<close> says.\<close>

fun wakeup_loop :: "('w, 'd) env \<Rightarrow> nat \<Rightarrow> ('w, 'd, 16 word) prog" where
  "wakeup_loop E 0 = State_Monad.return KEYCODE_INVALID"
| "wakeup_loop E (Suc retry) = do {
     answer \<leftarrow> thunder_invoke E ''org.rdk.RemoteControl.1'' ''getNetStatus'' [(''netType'', JNumber 1)];
     keyCode \<leftarrow> State_Monad.return (net_status_key E answer);
     if retry = 0 \<or> keyCode \<noteq> KEYCODE_INVALID then State_Monad.return keyCode
     else wakeup_loop E retry
   }"

definition reply_key :: "('w, 'd) env \<Rightarrow> 32 word \<Rightarrow> ('w, 'd, reply) prog" where
  "reply_key E key =
     (case key_from_wayland E key (key, 0) of (mappedKeyCode, mappedFlags) \<Rightarrow>
       returnResponse True [(''keyCode'', JUint mappedKeyCode), (''modifiers'', JUint mappedFlags)])"

definition no_wakeup_key :: "('w, 'd, reply) prog" where
  "no_wakeup_key = returnResponse False (with_message ''unable to get wakeup key'' [])"

definition getLastWakeupKeyWrapper :: "('w, 'd) env \<Rightarrow> jobject \<Rightarrow> ('w, 'd, reply) prog" where
  "getLastWakeupKeyWrapper E p = do {
     (status, result) \<leftarrow> thunder_invoke E ''org.rdk.System.2'' ''getWakeupReason'' [];
     if status = ERROR_NONE \<and> HasLabel result ''wakeupReason'' then
       (let reason = get_string E result ''wakeupReason'' in
        if reason = ''WAKEUP_REASON_IR'' then do {
          (status', res) \<leftarrow> thunder_invoke E ''org.rdk.System.2'' ''getLastWakeupKeyCode'' [];
          if status' = ERROR_NONE \<and> HasLabel res ''wakeupKeyCode''
          then reply_key E (get_uint E res ''wakeupKeyCode'') else no_wakeup_key
        } else if reason = ''WAKEUP_REASON_RCU_BT'' then do {
          keyCode \<leftarrow> wakeup_loop E 12;
          if keyCode \<noteq> KEYCODE_INVALID then reply_key E (scast keyCode) else no_wakeup_key
        } else no_wakeup_key)
     else no_wakeup_key
   }"

section \<open>The mutex discipline\<close>

lemma until_false_held [locking_intros]:
  assumes "\<And>x. held_to_held (f x)"
  shows "held_to_held (until_false f xs)"
  by (induction xs) (simp_all only: until_false.simps, (rule locking_intros assms | assumption)+)

lemma listeners_held [locking_intros]:
  "held_to_held (add_listener E client key)" "held_to_held (remove_listener E client key)"
  "held_to_held (and_enable E enable c r)"
  unfolding add_listener_def remove_listener_def and_enable_def by (rule locking_intros)+

lemma enable_loop_held [locking_intros]: "held_to_held (enable_loop E enable cs r)"
  by (induction cs arbitrary: r) (simp_all only: enable_loop.simps, (rule locking_intros | assumption)+)

lemma wakeup_loop_free [locking_intros]: "free_to_free (wakeup_loop E n)"
  by (induction n) (simp_all only: wakeup_loop.simps, (rule locking_intros | assumption)+)

lemma intercepts_free [locking_intros]:
  "free_to_free (addKeyIntercept E keyCode ms client)" "free_to_free (removeKeyIntercept E keyCode ms client)"
  unfolding addKeyIntercept_def removeKeyIntercept_def by (rule locking_intros)+

lemma intercept_key_free [locking_intros]: "free_to_free (intercept_key E client key r)"
  unfolding intercept_key_def by (rule locking_intros)+

lemma intercept_entry_free [locking_intros]: "free_to_free (intercept_entry E entry r)"
  unfolding intercept_entry_def by (rule locking_intros)+

lemma generate_one_free [locking_intros]: "free_to_free (generate_one E client input r)"
  unfolding generate_one_def by (rule locking_intros)+

lemma keys_free [locking_intros]:
  "free_to_free (addKeyIntercepts E is)" "free_to_free (addKeyListeners E client keys)"
  "free_to_free (removeKeyListeners E client keys)" "free_to_free (generateKey E client inputs)"
  "free_to_free (enableKeyRepeats E b)" "free_to_free (getKeyRepeatsEnabled E b)"
  "free_to_free (enableInputEvents E clients b)" "free_to_free (reply_key E k)"
  "free_to_free no_wakeup_key"
  unfolding addKeyIntercepts_def addKeyListeners_def removeKeyListeners_def generateKey_def
    enableKeyRepeats_def getKeyRepeatsEnabled_def enableInputEvents_def reply_key_def no_wakeup_key_def
  by (rule locking_intros)+

lemma key_wrappers_free [locking_intros]:
  "free_to_free (addKeyInterceptWrapper E p)" "free_to_free (addKeyInterceptsWrapper E p)"
  "free_to_free (removeKeyInterceptWrapper E p)" "free_to_free (addKeyListenersWrapper E p)"
  "free_to_free (removeKeyListenersWrapper E p)" "free_to_free (addKeyMetadataListenerWrapper E p)"
  "free_to_free (removeKeyMetadataListenerWrapper E p)" "free_to_free (injectKeyWrapper E p)"
  "free_to_free (generateKeyWrapper E p)" "free_to_free (enableKeyRepeatsWrapper E p)"
  "free_to_free (getKeyRepeatsEnabledWrapper E p)" "free_to_free (keyRepeatConfigWrapper E p)"
  "free_to_free (ignoreKeyInputsWrapper E p)" "free_to_free (enableInputEventsWrapper E p)"
  "free_to_free (getLastWakeupKeyWrapper E p)"
  unfolding addKeyInterceptWrapper_def addKeyInterceptsWrapper_def removeKeyInterceptWrapper_def
    addKeyListenersWrapper_def removeKeyListenersWrapper_def addKeyMetadataListenerWrapper_def
    removeKeyMetadataListenerWrapper_def injectKeyWrapper_def generateKeyWrapper_def
    enableKeyRepeatsWrapper_def getKeyRepeatsEnabledWrapper_def keyRepeatConfigWrapper_def
    ignoreKeyInputsWrapper_def enableInputEventsWrapper_def getLastWakeupKeyWrapper_def
  by (rule locking_intros)+

section \<open>Modifiers\<close>

text \<open>
  the flags sent to the compositor have exactly the bits of the modifiers named, however
  often and in whatever order they are named.
\<close>

theorem key_flags_bits:
  "bit (key_flags E 0 ms) i = (\<exists>m\<in>set ms. bit (getKeyFlag E (js_String (js E) m)) i)"
proof (induction ms)
  case (Cons m ms)
  have "key_flags E 0 (m # ms) = getKeyFlag E (js_String (js E) m) OR key_flags E 0 ms"
    using key_flags_or[of E "getKeyFlag E (js_String (js E) m)" ms] by simp
  with Cons show ?case by (simp add: bit_or_iff)
qed simp

section \<open>Lists of intercepts\<close>

text \<open>An entry that says something about the result: malformed, or with at least one key.\<close>

definition decisive :: "('w, 'd) env \<Rightarrow> json \<Rightarrow> bool" where
  "decisive E entry =
     (is_object entry \<and> HasLabel (js_Object (js E) entry) ''keys'' \<and>
      HasLabel (js_Object (js E) entry) ''client'' \<longrightarrow>
      get_array E (js_Object (js E) entry) ''keys'' \<noteq> [])"

lemma intercept_entry_decisive:
  assumes "decisive E entry"
  shows "intercept_entry E entry r = intercept_entry E entry r'"
proof -
  have "foldM (intercept_key E client) keys r = foldM (intercept_key E client) keys r'"
    if "keys \<noteq> []" for client keys
    using that by (cases keys) (simp_all add: intercept_key_def)
  with assms show ?thesis by (auto simp: intercept_entry_def decisive_def Let_def)
qed

text \<open>
  the answer to a list of intercepts is that of its last entry alone: whatever failed before is
  forgotten.
\<close>

theorem addKeyIntercepts_last_entry:
  assumes "decisive E entry"
  shows "fst (run_state (addKeyIntercepts E (entries @ [entry])) s) =
    fst (run_state (addKeyIntercepts E [entry]) (snd (run_state (addKeyIntercepts E entries) s)))"
proof -
  have "intercept_entry E entry (fst (run_state (foldM (intercept_entry E) entries True) s)) =
      intercept_entry E entry True"
    by (rule intercept_entry_decisive[OF assms])
  then show ?thesis by (simp add: addKeyIntercepts_def foldM_append case_prod_unfold)
qed

lemma addKeyIntercepts_last_entry_witness:
  "fst (run_state (addKeyIntercepts plain_env
     ([JNull] @ [JObject [(''client'', JString ''a''), (''keys'', JArray [JObject [(''keyCode'', JNumber 13)]])]]))
     (shell_init [''a''] 40))"
  using addKeyIntercepts_last_entry[of plain_env
      "JObject [(''client'', JString ''a''), (''keys'', JArray [JObject [(''keyCode'', JNumber 13)]])]"
      "[JNull]" "shell_init [''a''] 40"]
  by (simp add: decisive_def get_array_def addKeyIntercepts_def intercept_entry_def intercept_key_def
      addKeyIntercept_def get_string_def opt_array_def run_plainly_locked plain_cc_def shell_init_def Let_def)

section \<open>Lists of listeners\<close>

text \<open>The call for one listener; none if it names both kinds of key code or none.\<close>

definition listener_call :: "('w, 'd) env \<Rightarrow> string \<Rightarrow> json \<Rightarrow> 'd cc_call list" where
  "listener_call E client key =
     (let info = js_Object (js E) key;
          args = [Str client, Uint (listener_code E info),
            Uint (key_flags E 0 (opt_array E info ''modifiers'')), Props (listener_properties E info)] in
      if HasLabel info ''keyCode'' = HasLabel info ''nativeKeyCode'' then []
      else [(if HasLabel info ''keyCode'' then ''addKeyListener'' else ''addNativeKeyListener'', args)])"

lemma add_listener_call:
  "add_listener E client key =
     (case listener_call E client key of [] \<Rightarrow> State_Monad.return False | c # _ \<Rightarrow> command E c)"
  by (auto simp: add_listener_def listener_call_def Let_def)

lemma run_until_false:
  assumes f: "\<And>x. f x = (case g x of [] \<Rightarrow> State_Monad.return False | c # _ \<Rightarrow> command E c)"
    and g: "\<And>x. length (g x) \<le> 1" and s: "running s"
  shows "\<exists>good rest result w. xs = good @ rest \<and>
    run_state (until_false f xs) s = (result, s\<lparr>sh_world := w, sh_calls := sh_calls s @
       map (Pair (sh_mutex s)) (concat (map g (good @ take 1 rest)))\<rparr>) \<and>
    result = (rest = []) \<and> list_all (\<lambda>x. g x \<noteq> []) good"
  using s
proof (induction xs arbitrary: s)
  case Nil
  then show ?case by (intro exI[of _ "[]"] exI[of _ True] exI[of _ "sh_world s"]) simp
next
  case (Cons x xs)
  show ?case
  proof (cases "g x")
    case Nil
    then show ?thesis
      by - (rule exI[of _ "[]"], rule exI[of _ "x # xs"], rule exI[of _ False], rule exI[of _ "sh_world s"],
        simp add: f)
  next
    case (Cons c cs)
    then have gx: "g x = [c]" using g[of x] by simp
    define t where "t = s\<lparr>sh_world := snd (cc E c (sh_world s)), sh_calls := sh_calls s @ [(sh_mutex s, c)]\<rparr>"
    have run: "run_state (f x) s = (fst (cc E c (sh_world s)), t)"
      using Cons.prems by (simp add: f gx t_def)
    show ?thesis
    proof (cases "fst (cc E c (sh_world s))")
      case False
      then show ?thesis
        by - (rule exI[of _ "[]"], rule exI[of _ "x # xs"], rule exI[of _ False], rule exI[of _ "sh_world t"],
          simp add: run gx, simp add: t_def)
    next
      case True
      have "running t" using Cons.prems by (simp add: t_def)
      from Cons.IH[OF this] obtain good rest result w where IH: "xs = good @ rest"
        "run_state (until_false f xs) t = (result, t\<lparr>sh_world := w, sh_calls := sh_calls t @
           map (Pair (sh_mutex t)) (concat (map g (good @ take 1 rest)))\<rparr>)"
        "result = (rest = [])" "list_all (\<lambda>x. g x \<noteq> []) good" by blast
      show ?thesis
        using IH(2)[unfolded IH(1)]
        by - (rule exI[of _ "x # good"], rule exI[of _ rest], rule exI[of _ result], rule exI[of _ w],
          simp add: run True IH(1,3,4) gx, simp add: t_def)
    qed
  qed
qed

text \<open>
  listeners are added in order up to the first that names no key or that the compositor
  refuses; the rest is not tried, and those already added stay.  The answer is success exactly
  when none was left over.
\<close>

theorem addKeyListeners_spec:
  assumes "running s" "\<not> sh_mutex s"
  shows "\<exists>good rest result t. keys = good @ rest \<and>
    run_state (addKeyListeners E client keys) s = (result, t) \<and> running t \<and> \<not> sh_mutex t \<and>
    sh_calls t = sh_calls s @ map (Pair True) (concat (map (listener_call E client) (good @ take 1 rest))) \<and>
    result = (rest = []) \<and> list_all (\<lambda>key. listener_call E client key \<noteq> []) good"
proof -
  have "length (listener_call E client key) \<le> 1" for key by (simp add: listener_call_def Let_def)
  from run_until_false[where f = "add_listener E client" and g = "listener_call E client" and
      s = "s\<lparr>sh_mutex := True\<rparr>" and xs = keys and E = E, OF add_listener_call this] assms(1)
  obtain good rest result w where *: "keys = good @ rest"
    "run_state (until_false (add_listener E client) keys) (s\<lparr>sh_mutex := True\<rparr>) =
      (result, s\<lparr>sh_mutex := True, sh_world := w, sh_calls := sh_calls s @
         map (Pair True) (concat (map (listener_call E client) (good @ take 1 rest)))\<rparr>)"
    "result = (rest = [])" "list_all (\<lambda>key. listener_call E client key \<noteq> []) good"
    by auto
  show ?thesis
    using assms *
    by - (rule exI[of _ good], rule exI[of _ rest], rule exI[of _ result], auto simp: addKeyListeners_def)
qed

lemma addKeyListeners_spec_witness:
  "\<exists>good rest. [JNull, JObject [(''keyCode'', JNumber 13)]] = good @ rest \<and>
     fst (run_state (addKeyListeners plain_env ''a'' [JNull, JObject [(''keyCode'', JNumber 13)]])
       (shell_init [''a''] 40)) = (rest = [])"
proof -
  have s: "running (shell_init [''a''] 40)" "\<not> sh_mutex (shell_init [''a''] 40)"
    by (simp_all add: shell_init_def)
  from addKeyListeners_spec[OF s, of "[JNull, JObject [(''keyCode'', JNumber 13)]]" plain_env "''a''"]
  obtain good rest result t where
    "[JNull, JObject [(''keyCode'', JNumber 13)]] = good @ rest" "result = (rest = [])"
    "run_state (addKeyListeners plain_env ''a'' [JNull, JObject [(''keyCode'', JNumber 13)]])
       (shell_init [''a''] 40) = (result, t)" by blast
  then show ?thesis by (intro exI[of _ good] exI) auto
qed

section \<open>Asking for the wake-up key\<close>

definition net_status_request :: ext_call where
  "net_status_request = ThunderInvoke ''org.rdk.RemoteControl.1'' ''getNetStatus'' [(''netType'', JNumber 1)]"

lemma run_thunder_invoke:
  "running s \<Longrightarrow> run_state (thunder_invoke E c m p) s =
     (fst (thunder E c m p (sh_world s)),
      s\<lparr>sh_world := snd (thunder E c m p (sh_world s)), sh_ext := sh_ext s @ [ThunderInvoke c m p]\<rparr>)"
  by (simp add: thunder_invoke_def case_prod_unfold Let_def)

text \<open>The loop asks up to \<open>n\<close> times, and fewer times only if it has found a key.\<close>

lemma run_wakeup_loop:
  "running s \<Longrightarrow> \<exists>k w key. run_state (wakeup_loop E n) s =
     (key, s\<lparr>sh_world := w, sh_ext := sh_ext s @ replicate k net_status_request\<rparr>) \<and>
     k \<le> n \<and> (k = n \<or> key \<noteq> KEYCODE_INVALID)"
proof (induction n arbitrary: s)
  case 0
  then show ?case
    by - (rule exI[of _ 0], rule exI[of _ "sh_world s"], simp)
next
  case (Suc n)
  let ?c = "''org.rdk.RemoteControl.1''" and ?m = "''getNetStatus''" and ?p = "[(''netType'', JNumber 1)]"
  define answer where "answer = thunder E ?c ?m ?p (sh_world s)"
  define t where "t = s\<lparr>sh_world := snd answer, sh_ext := sh_ext s @ [net_status_request]\<rparr>"
  have ask: "run_state (thunder_invoke E ?c ?m ?p) s = (fst answer, t)"
    by (simp add: run_thunder_invoke[OF Suc.prems] t_def answer_def net_status_request_def)
  show ?case
  proof (cases "n = 0 \<or> net_status_key E (fst answer) \<noteq> KEYCODE_INVALID")
    case True
    then have "run_state (wakeup_loop E (Suc n)) s = (net_status_key E (fst answer), t)"
      by (simp only: wakeup_loop.simps run_bind[OF ask] run_bind[OF run_state_return] if_True run_state_return)
    then show ?thesis using True
      by - (rule exI[of _ 1], rule exI[of _ "snd answer"], auto simp: t_def)
  next
    case False
    then have step: "run_state (wakeup_loop E (Suc n)) s = run_state (wakeup_loop E n) t"
      by (simp only: wakeup_loop.simps run_bind[OF ask] run_bind[OF run_state_return] if_False)
    have "running t" using Suc.prems by (simp add: t_def)
    from Suc.IH[OF this] obtain k w key where
      "run_state (wakeup_loop E n) t =
         (key, t\<lparr>sh_world := w, sh_ext := sh_ext t @ replicate k net_status_request\<rparr>)"
      "k \<le> n" "k = n \<or> key \<noteq> KEYCODE_INVALID" by blast
    then show ?thesis unfolding step
      by - (rule exI[of _ "Suc k"], rule exI[of _ w], rule exI[of _ key], auto simp: t_def)
  qed
qed

lemma reply_key_state: "snd (run_state (reply_key E k) s) = s"
  and no_wakeup_key_state: "snd (run_state no_wakeup_key s) = s"
  by (simp_all add: reply_key_def no_wakeup_key_def case_prod_unfold)

text \<open>
  asking for the last wake-up key ends after at most thirteen requests to other plugins (one
  for the reason and one for the key, or up to twelve to the remote control), and changes
  nothing of RDKShell; the compositor is not called.
\<close>

theorem getLastWakeupKey_bounded:
  assumes "running s"
  shows "\<exists>new w. snd (run_state (getLastWakeupKeyWrapper E p) s) = s\<lparr>sh_world := w, sh_ext := sh_ext s @ new\<rparr> \<and>
    length new \<le> 13"
proof -
  define answer where "answer = thunder E ''org.rdk.System.2'' ''getWakeupReason'' [] (sh_world s)"
  define t where "t = s\<lparr>sh_world := snd answer,
    sh_ext := sh_ext s @ [ThunderInvoke ''org.rdk.System.2'' ''getWakeupReason'' []]\<rparr>"
  have ask: "run_state (thunder_invoke E ''org.rdk.System.2'' ''getWakeupReason'' []) s = (fst answer, t)"
    by (simp add: run_thunder_invoke[OF assms] t_def answer_def)
  define answer' where "answer' = thunder E ''org.rdk.System.2'' ''getLastWakeupKeyCode'' [] (sh_world t)"
  define t' where "t' = t\<lparr>sh_world := snd answer',
    sh_ext := sh_ext t @ [ThunderInvoke ''org.rdk.System.2'' ''getLastWakeupKeyCode'' []]\<rparr>"
  have t: "running t" using assms by (simp add: t_def)
  have ask': "run_state (thunder_invoke E ''org.rdk.System.2'' ''getLastWakeupKeyCode'' []) t = (fst answer', t')"
    by (simp add: run_thunder_invoke[OF t] t'_def answer'_def)
  obtain k w key where loop: "run_state (wakeup_loop E 12) t =
      (key, t\<lparr>sh_world := w, sh_ext := sh_ext t @ replicate k net_status_request\<rparr>)" "k \<le> 12"
    using run_wakeup_loop[OF t] by blast
  define t'' where "t'' = t\<lparr>sh_world := w, sh_ext := sh_ext t @ replicate k net_status_request\<rparr>"
  have "snd (run_state (getLastWakeupKeyWrapper E p) s) \<in> {t, t', t''}"
    unfolding getLastWakeupKeyWrapper_def run_bind[OF ask]
    by (simp add: case_prod_unfold Let_def reply_key_state no_wakeup_key_state ask' loop(1) flip: t''_def)
  moreover define Q where "Q = (\<lambda>u. \<exists>new w. u = s\<lparr>sh_world := w, sh_ext := sh_ext s @ new\<rparr> \<and> length new \<le> 13)"
  have Q: "Q u" if "u = s\<lparr>sh_world := w, sh_ext := sh_ext s @ new\<rparr>" "length new \<le> 13" for u w new
    using that unfolding Q_def by blast
  have "Q t"
    by (rule Q[where w = "snd answer" and new = "[ThunderInvoke ''org.rdk.System.2'' ''getWakeupReason'' []]"])
      (simp_all add: t_def)
  moreover have "Q t'"
    by (rule Q[where w = "snd answer'" and new = "[ThunderInvoke ''org.rdk.System.2'' ''getWakeupReason'' [],
        ThunderInvoke ''org.rdk.System.2'' ''getLastWakeupKeyCode'' []]"]) (simp_all add: t_def t'_def)
  moreover have "Q t''"
    by (rule Q[where w = w and new = "ThunderInvoke ''org.rdk.System.2'' ''getWakeupReason'' [] # replicate k net_status_request"])
      (use loop(2) in \<open>simp_all add: t_def t''_def\<close>)
  ultimately have "Q (snd (run_state (getLastWakeupKeyWrapper E p) s))" by blast
  then show ?thesis by (simp only: Q_def)
qed

lemma getLastWakeupKey_bounded_witness:
  "\<exists>w new. snd (run_state (getLastWakeupKeyWrapper plain_env []) (shell_init [] 40)) =
     (shell_init [] 40)\<lparr>sh_world := w, sh_ext := new\<rparr> \<and> length new \<le> 13"
  using getLastWakeupKey_bounded[of "shell_init [] 40" plain_env "[]"] by (auto simp: shell_init_def)

end
