(* ===== verification/Shell_Misc.thy ===== *)
theory Shell_Misc
  imports Shell_Geometry Shell_Keys "HOL-Library.Sublist"
begin

text \<open>
  The remaining services of RDKShell: log level, splash screen, full screen image, watermark,
  animations, inactivity, memory, log flushing, cursor, frame rate, blocking of audio and video,
  key sequences, and the state of the plugins.
\<close>

section \<open>Log level, splash screen, images\<close>

definition getLogLevelWrapper :: "('w, 'd) env \<Rightarrow> jobject \<Rightarrow> ('w, 'd, reply) prog" where
  "getLogLevelWrapper E p = do {
     (result, logLevel) \<leftarrow> locked_get E (''getLogLevel'', []) (\<lambda>w. out_logLevel E w ''INFO'');
     finish ''failed to get log level'' (if result then [(''logLevel'', JString logLevel)] else []) result
   }"

definition setLogLevelWrapper :: "('w, 'd) env \<Rightarrow> jobject \<Rightarrow> ('w, 'd, reply) prog" where
  "setLogLevelWrapper E p =
     when_ok (need (HasLabel p ''logLevel'')
               ''please specify log level (logLevel = DEBUG/INFO/WARN/ERROR/FATAL)'' start)
       (\<lambda>rsp. do {
          _ \<leftarrow> lockRdkShellMutex;
          result \<leftarrow> command E (''setLogLevel'', [Str (get_string E p ''logLevel'')]);
          _ \<leftarrow> command E (''getLogLevel'', []);
          current \<leftarrow> read_out (\<lambda>w. out_logLevel E w ''INFO'');
          _ \<leftarrow> unlock;
          finish ''failed to set log level''
            (if result then jset ''logLevel'' (JString current) rsp else rsp) result })"

definition showSplashLogoWrapper :: "('w, 'd) env \<Rightarrow> jobject \<Rightarrow> ('w, 'd, reply) prog" where
  "showSplashLogoWrapper E p =
     when_ok (need (HasLabel p ''displayTime'') ''please specify display time parameter'' start)
       (\<lambda>rsp. do {
          _ \<leftarrow> lockRdkShellMutex;
          _ \<leftarrow> upd (\<lambda>s. s\<lparr>gSplashScreenDisplayTime := get_uint E p ''displayTime'',
                        receivedShowSplashScreenRequest := True\<rparr>);
          _ \<leftarrow> unlock;
          returnResponse True rsp })"

definition hideSplashLogoWrapper :: "('w, 'd) env \<Rightarrow> jobject \<Rightarrow> ('w, 'd, reply) prog" where
  "hideSplashLogoWrapper E p = do {
     result \<leftarrow> locked E (''hideSplashScreen'', []);
     returnResponse result []
   }"

definition showWatermark :: "('w, 'd) env \<Rightarrow> bool \<Rightarrow> ('w, 'd, bool) prog" where
  "showWatermark E enable = do {
     _ \<leftarrow> lockRdkShellMutex;
     ret \<leftarrow> (if enable then do {
            _ \<leftarrow> upd (\<lambda>s. s\<lparr>receivedShowWatermarkRequest := True\<rparr>);
            State_Monad.return True
          } else command E (''hideWatermark'', []));
     _ \<leftarrow> unlock;
     State_Monad.return ret
   }"

definition showWatermarkWrapper :: "('w, 'd) env \<Rightarrow> jobject \<Rightarrow> ('w, 'd, reply) prog" where
  "showWatermarkWrapper E p = do {
     result \<leftarrow> showWatermark E (opt_bool E p ''show'' True);
     finish ''failed to perform show watermark'' [] result
   }"

definition showFullScreenImage :: "string \<Rightarrow> ('w, 'd, bool) prog" where
  "showFullScreenImage path = do {
     _ \<leftarrow> lockRdkShellMutex;
     _ \<leftarrow> upd (\<lambda>s. s\<lparr>fullScreenImagePath := path, receivedFullScreenImageRequest := True\<rparr>);
     _ \<leftarrow> unlock;
     State_Monad.return True
   }"

definition showFullScreenImageWrapper :: "('w, 'd) env \<Rightarrow> jobject \<Rightarrow> ('w, 'd, reply) prog" where
  "showFullScreenImageWrapper E p =
     when_ok (need (HasLabel p ''path'') ''please specify path'' start)
       (\<lambda>rsp. do { result \<leftarrow> showFullScreenImage (get_string E p ''path'');
                  finish ''failed to perform showw fullscreen'' rsp result })"

definition hideFullScreenImageWrapper :: "('w, 'd) env \<Rightarrow> jobject \<Rightarrow> ('w, 'd, reply) prog" where
  "hideFullScreenImageWrapper E p = do {
     result \<leftarrow> locked E (''hideFullScreenImage'', []);
     returnResponse result []
   }"

section \<open>Animations\<close>

definition removeAnimation :: "('w, 'd) env \<Rightarrow> string \<Rightarrow> ('w, 'd, bool) prog" where
  "removeAnimation E client = locked E (''removeAnimation'', [Str client])"

definition removeAnimationWrapper :: "('w, 'd) env \<Rightarrow> jobject \<Rightarrow> ('w, 'd, reply) prog" where
  "removeAnimationWrapper E p =
     when_ok (need (has_client p) ''please specify client'' start)
       (\<lambda>rsp. do { ok \<leftarrow> removeAnimation E (client_of E p);
                  finish ''failed to remove animation'' rsp ok })"

text \<open>
  The properties of an animation; \<open>None\<close> is an exception of \<^verbatim>\<open>stod\<close> on \<^verbatim>\<open>sx\<close> or \<^verbatim>\<open>sy\<close>.  The one on
  \<^verbatim>\<open>delay\<close> is caught.
\<close>

definition put_if :: "bool \<Rightarrow> string \<Rightarrow> 'd rdk_data \<Rightarrow> 'd properties \<Rightarrow> 'd properties" where
  "put_if c k v m = (if c then omap_put k v m else m)"

definition animation_double :: "('w, 'd) env \<Rightarrow> jobject \<Rightarrow> string \<Rightarrow> 'd properties \<Rightarrow> 'd properties option" where
  "animation_double E info k m =
     (if HasLabel info k then map_option (\<lambda>d. omap_put k (Data_double d) m) (stod E (get_string E info k))
      else Some m)"

definition animation_properties :: "('w, 'd) env \<Rightarrow> jobject \<Rightarrow> 'd properties option" where
  "animation_properties E info =
     (let m1 = put_if (HasLabel info ''x'') ''x'' (Data_int32 (get_uint E info ''x'')) [];
          m2 = put_if (HasLabel info ''y'') ''y'' (Data_int32 (get_uint E info ''y'')) m1;
          m3 = put_if (HasLabel info ''w'') ''w'' (Data_uint32 (get_uint E info ''w'')) m2;
          m4 = put_if (HasLabel info ''h'') ''h'' (Data_uint32 (get_uint E info ''h'')) m3 in
      case animation_double E info ''sx'' m4 of
        None \<Rightarrow> None
      | Some m5 \<Rightarrow>
          (case animation_double E info ''sy'' m5 of
             None \<Rightarrow> None
           | Some m6 \<Rightarrow>
               (let m7 = put_if (HasLabel info ''a'') ''a'' (Data_uint32 (get_uint E info ''a'')) m6;
                    m8 = put_if (HasLabel info ''tween'') ''tween'' (Data_string (get_string E info ''tween'')) m7
                in case animation_double E info ''delay'' m8 of None \<Rightarrow> Some m8 | Some m9 \<Rightarrow> Some m9)))"

definition add_animation :: "('w, 'd) env \<Rightarrow> json \<Rightarrow> unit \<Rightarrow> ('w, 'd, unit) prog" where
  "add_animation E animation u =
     (let info = js_Object (js E) animation in
      if HasLabel info ''client'' \<and> HasLabel info ''duration'' then
        (case (stod E (get_string E info ''duration''), animation_properties E info) of
           (Some duration, Some properties) \<Rightarrow> do {
             _ \<leftarrow> command E (''addAnimation'', [Str (get_string E info ''client''), Dbl duration, Props properties]);
             State_Monad.return ()
           }
         | _ \<Rightarrow> throw)
      else State_Monad.return ())"

definition addAnimationList :: "('w, 'd) env \<Rightarrow> json list \<Rightarrow> ('w, 'd, bool) prog" where
  "addAnimationList E animations = do {
     _ \<leftarrow> lockRdkShellMutex;
     _ \<leftarrow> foldM (add_animation E) animations ();
     _ \<leftarrow> unlock;
     State_Monad.return True
   }"

definition addAnimationWrapper :: "('w, 'd) env \<Rightarrow> jobject \<Rightarrow> ('w, 'd, reply) prog" where
  "addAnimationWrapper E p =
     (if HasLabel p ''animations'' then do {
        result \<leftarrow> addAnimationList E (get_array E p ''animations'');
        finish ''failed to add animation list'' [] result
      } else returnResponse True [])"

section \<open>Inactivity\<close>

definition enableInactivityReporting :: "('w, 'd) env \<Rightarrow> bool \<Rightarrow> ('w, 'd, bool) prog" where
  "enableInactivityReporting E enable = do {
     _ \<leftarrow> locked E (''enableInactivityReporting'', [Flag enable]);
     State_Monad.return True
   }"

definition setInactivityInterval :: "('w, 'd) env \<Rightarrow> 32 word \<Rightarrow> ('w, 'd, bool) prog" where
  "setInactivityInterval E interval = do {
     _ \<leftarrow> locked E (''setInactivityInterval'', [Dbl (double_of_uint E interval)]);
     State_Monad.return True
   }"

definition resetInactivityTime :: "('w, 'd) env \<Rightarrow> ('w, 'd, bool) prog" where
  "resetInactivityTime E = do {
     _ \<leftarrow> locked E (''resetInactivityTime'', []);
     State_Monad.return True
   }"

definition enableInactivityReportingWrapper :: "('w, 'd) env \<Rightarrow> jobject \<Rightarrow> ('w, 'd, reply) prog" where
  "enableInactivityReportingWrapper E p = do {
     enabled \<leftarrow> asks mEnableUserInactivityNotification;
     when_ok (need (HasLabel p ''enable'') ''please specify enable parameter''
               (need enabled ''feature is not enabled'' start))
       (\<lambda>rsp. do { result \<leftarrow> enableInactivityReporting E (get_bool E p ''enable'');
                  finish ''failed to set inactivity notification'' rsp result })
   }"

definition setInactivityIntervalWrapper :: "('w, 'd) env \<Rightarrow> jobject \<Rightarrow> ('w, 'd, reply) prog" where
  "setInactivityIntervalWrapper E p = do {
     enabled \<leftarrow> asks mEnableUserInactivityNotification;
     when_ok (need (HasLabel p ''interval'') ''please specify interval parameter''
               (need enabled ''feature is not enabled'' start))
       (\<lambda>rsp. do { result \<leftarrow> setInactivityInterval E (get_uint E p ''interval'');
                  finish ''failed to set inactivity interval'' rsp result })
   }"

definition resetInactivityTimeWrapper :: "('w, 'd) env \<Rightarrow> jobject \<Rightarrow> ('w, 'd, reply) prog" where
  "resetInactivityTimeWrapper E p = do {
     enabled \<leftarrow> asks mEnableUserInactivityNotification;
     when_ok (need enabled ''feature is not enabled'' start)
       (\<lambda>rsp. do { result \<leftarrow> resetInactivityTime E;
                  finish ''failed to reset inactivity time'' rsp result })
   }"

section \<open>Memory\<close>

definition systemMemory :: "('w, 'd) env \<Rightarrow> rect \<Rightarrow> ('w, 'd, bool \<times> rect) prog" where
  "systemMemory E ram = locked_get E (''systemRam'', []) (\<lambda>w. out_ram E w ram)"

definition getSystemMemoryWrapper :: "('w, 'd) env \<Rightarrow> jobject \<Rightarrow> ('w, 'd, reply) prog" where
  "getSystemMemoryWrapper E p = do {
     (result, ram) \<leftarrow> systemMemory E (0, 0, 0, 0);
     (freeKb, totalKb, availableKb, usedSwapKb) \<leftarrow> State_Monad.return ram;
     finish ''failed to get system Ram''
       (if result then [(''freeRam'', JUint freeKb), (''swapRam'', JUint usedSwapKb),
          (''totalRam'', JUint totalKb), (''availablememory'', JUint availableKb)] else []) result
   }"

text \<open>\<open>None\<close>: \<^verbatim>\<open>stod\<close> has thrown.\<close>

definition monitor_double :: "('w, 'd) env \<Rightarrow> jobject \<Rightarrow> string \<Rightarrow> 'd properties option \<Rightarrow> 'd properties option" where
  "monitor_double E p k m = (case m of None \<Rightarrow> None | Some m' \<Rightarrow> animation_double E p k m')"

definition monitor_configuration :: "('w, 'd) env \<Rightarrow> jobject \<Rightarrow> 'd properties option" where
  "monitor_configuration E p =
     monitor_double E p ''criticallyLowRam''
       (monitor_double E p ''lowRam''
         (monitor_double E p ''interval''
           (Some (omap_put ''enable'' (Data_bool (get_bool E p ''enable'')) []))))"

definition setMemoryMonitorWrapper :: "('w, 'd) env \<Rightarrow> jobject \<Rightarrow> ('w, 'd, reply) prog" where
  "setMemoryMonitorWrapper E p =
     when_ok (need (HasLabel p ''enable'') ''please specify enable parameter'' start)
       (\<lambda>rsp. do {
          _ \<leftarrow> (case monitor_configuration E p of
                 None \<Rightarrow> throw
               | Some configuration \<Rightarrow> do {
                   _ \<leftarrow> command E (''setMemoryMonitor'', [Props configuration]);
                   State_Monad.return () });
          returnResponse True rsp })"

section \<open>Log flushing, cursor, frame rate\<close>

definition enableLogsFlushing :: "('w, 'd) env \<Rightarrow> bool \<Rightarrow> ('w, 'd, bool) prog" where
  "enableLogsFlushing E enable = plainly_locked E (''enableFlushing'', [Flag enable])"

definition getLogsFlushingEnabled :: "('w, 'd) env \<Rightarrow> ('w, 'd, bool) prog" where
  "getLogsFlushingEnabled E = plainly_locked E (''isFlushingEnabled'', [])"

definition enableLogsFlushingWrapper :: "('w, 'd) env \<Rightarrow> jobject \<Rightarrow> ('w, 'd, reply) prog" where
  "enableLogsFlushingWrapper E p =
     when_ok (need (HasLabel p ''enable'') ''please specify enable parameter'' start)
       (\<lambda>rsp. do { _ \<leftarrow> enableLogsFlushing E (get_bool E p ''enable''); returnResponse True rsp })"

definition getLogsFlushingEnabledWrapper :: "('w, 'd) env \<Rightarrow> jobject \<Rightarrow> ('w, 'd, reply) prog" where
  "getLogsFlushingEnabledWrapper E p = do {
     enabled \<leftarrow> getLogsFlushingEnabled E;
     returnResponse True [(''enabled'', JBool enabled)]
   }"

definition showCursor :: "('w, 'd) env \<Rightarrow> ('w, 'd, bool) prog" where
  "showCursor E = plainly_locked E (''showCursor'', [])"

definition hideCursor :: "('w, 'd) env \<Rightarrow> ('w, 'd, bool) prog" where
  "hideCursor E = plainly_locked E (''hideCursor'', [])"

definition setCursorSize :: "('w, 'd) env \<Rightarrow> 32 word \<Rightarrow> 32 word \<Rightarrow> ('w, 'd, bool) prog" where
  "setCursorSize E width height = plainly_locked E (''setCursorSize'', [Uint width, Uint height])"

definition getCursorSize :: "('w, 'd) env \<Rightarrow> 32 word \<times> 32 word \<Rightarrow> ('w, 'd, bool \<times> 32 word \<times> 32 word) prog" where
  "getCursorSize E wh = plainly_locked_get E (''getCursorSize'', []) (\<lambda>w. out_cursor E w wh)"

definition showCursorWrapper :: "('w, 'd) env \<Rightarrow> jobject \<Rightarrow> ('w, 'd, reply) prog" where
  "showCursorWrapper E p = do { result \<leftarrow> showCursor E; returnResponse result [] }"

definition hideCursorWrapper :: "('w, 'd) env \<Rightarrow> jobject \<Rightarrow> ('w, 'd, reply) prog" where
  "hideCursorWrapper E p = do { result \<leftarrow> hideCursor E; returnResponse result [] }"

definition setCursorSizeWrapper :: "('w, 'd) env \<Rightarrow> jobject \<Rightarrow> ('w, 'd, reply) prog" where
  "setCursorSizeWrapper E p =
     when_ok (need (HasLabel p ''width'' \<and> HasLabel p ''height'')
               ''please specify width and height parameters'' start)
       (\<lambda>rsp. do { result \<leftarrow> setCursorSize E (get_uint E p ''width'') (get_uint E p ''height'');
                  returnResponse result rsp })"

definition getCursorSizeWrapper :: "('w, 'd) env \<Rightarrow> jobject \<Rightarrow> ('w, 'd, reply) prog" where
  "getCursorSizeWrapper E p = do {
     (got, width, height) \<leftarrow> getCursorSize E (0, 0);
     finish ''failed to get cursor size''
       (if got then [(''width'', JUint width), (''height'', JUint height)] else []) got
   }"

definition getGraphicsFrameRateWrapper :: "('w, 'd) env \<Rightarrow> jobject \<Rightarrow> ('w, 'd, reply) prog" where
  "getGraphicsFrameRateWrapper E p = do {
     _ \<leftarrow> lockRdkShellMutex;
     value \<leftarrow> asks gCurrentFramerate;
     _ \<leftarrow> unlock;
     returnResponse True [(''framerate'', JUint value)]
   }"

definition setGraphicsFrameRateWrapper :: "('w, 'd) env \<Rightarrow> jobject \<Rightarrow> ('w, 'd, reply) prog" where
  "setGraphicsFrameRateWrapper E p =
     when_ok (need (HasLabel p ''framerate'') ''please specify frame rate'' start)
       (\<lambda>rsp. do {
          _ \<leftarrow> lockRdkShellMutex;
          _ \<leftarrow> upd (\<lambda>s. s\<lparr>gCurrentFramerate := get_uint E p ''framerate''\<rparr>);
          _ \<leftarrow> unlock;
          returnResponse True rsp })"

section \<open>Blocking of audio and video\<close>

definition setAVBlocked :: "('w, 'd) env \<Rightarrow> string \<Rightarrow> bool \<Rightarrow> ('w, 'd, bool) prog" where
  "setAVBlocked E callsign blockAV = do {
     _ \<leftarrow> lock;
     names \<leftarrow> asks gPluginDisplayNameMap;
     stat \<leftarrow> (case map_of names callsign of
                Some name \<Rightarrow> command E (''setAVBlocked'', [Str (callsign @ '','' @ name), Flag blockAV])
              | None \<Rightarrow> State_Monad.return False);
     _ \<leftarrow> unlock;
     State_Monad.return stat
   }"

text \<open>The name of a blocked application up to its first comma; one without a comma is left out.\<close>

definition blocked_callsigns :: "string list \<Rightarrow> json list" where
  "blocked_callsigns apps =
     map (\<lambda>app. JString (takeWhile (\<lambda>c. c \<noteq> CHR '','') app)) (filter (\<lambda>app. CHR '','' \<in> set app) apps)"

definition getBlockedAVApplications :: "('w, 'd) env \<Rightarrow> ('w, 'd, bool \<times> json list) prog" where
  "getBlockedAVApplications E = do {
     (stat, apps) \<leftarrow> plainly_locked_get E (''getBlockedAVApplications'', []) (out_blockedApps E);
     State_Monad.return (stat, if stat then blocked_callsigns apps else [])
   }"

definition getBlockedAVApplicationsWrapper :: "('w, 'd) env \<Rightarrow> jobject \<Rightarrow> ('w, 'd, reply) prog" where
  "getBlockedAVApplicationsWrapper E p = do {
     erm \<leftarrow> asks mErmEnabled;
     if erm then do {
       (stat, appsList) \<leftarrow> getBlockedAVApplications E;
       returnResponse stat (if stat then [(''getBlockedAVApplications'', JArray appsList)] else [])
     } else returnResponse True (with_message ''ERM not enabled'' [])
   }"

text \<open>One application; \<^verbatim>\<open>status && setAVBlocked(...)\<close> makes no call once one has failed.\<close>

definition block_one :: "('w, 'd) env \<Rightarrow> json \<Rightarrow> bool \<Rightarrow> ('w, 'd, bool) prog" where
  "block_one E app stat =
     (let appInfo = js_Object (js E) app in
      if HasLabel appInfo ''callsign'' \<and> stat
      then setAVBlocked E (get_string E appInfo ''callsign'') (get_bool E appInfo ''blocked'')
      else State_Monad.return stat)"

definition setAVBlockedWrapper :: "('w, 'd) env \<Rightarrow> jobject \<Rightarrow> ('w, 'd, reply) prog" where
  "setAVBlockedWrapper E p = do {
     erm \<leftarrow> asks mErmEnabled;
     if erm then do {
       stat \<leftarrow> foldM (block_one E) (opt_array E p ''applications'') True;
       returnResponse stat []
     } else returnResponse True (with_message ''ERM not enabled'' [])
   }"

section \<open>Easter eggs\<close>

definition enableEasterEggsWrapper :: "('w, 'd) env \<Rightarrow> jobject \<Rightarrow> ('w, 'd, reply) prog" where
  "enableEasterEggsWrapper E p =
     when_ok (need (HasLabel p ''enable'') ''enable parameter is not present'' start)
       (\<lambda>rsp. do { _ \<leftarrow> upd (\<lambda>s. s\<lparr>mEnableEasterEggs := get_bool E p ''enable''\<rparr>);
                  returnResponse True rsp })"

text \<open>The keys of a sequence as (code, modifiers, hold time); incomplete entries are left out.\<close>

definition egg_key_of :: "('w, 'd) env \<Rightarrow> json \<Rightarrow> egg_key list" where
  "egg_key_of E input =
     (let info = js_Object (js E) input in
      if HasLabel info ''keyCode'' \<and> HasLabel info ''hold''
      then [(get_uint E info ''keyCode'', opt_uint E info ''modifiers'' 0, get_uint E info ''hold'')]
      else [])"

definition addEasterEggsWrapper :: "('w, 'd) env \<Rightarrow> jobject \<Rightarrow> ('w, 'd, reply) prog" where
  "addEasterEggsWrapper E p =
     when_ok (need (HasLabel p ''api'') ''please specify api''
               (need (HasLabel p ''duration'') ''please specify duration''
                 (need (HasLabel p ''id'') ''please specify id''
                   (need (HasLabel p ''keySequence'') ''please specify keySequence'' start))))
       (\<lambda>rsp.
          let keyDetails = concat (map (egg_key_of E) (get_array E p ''keySequence'')) in
          case api_text E (js_Object (js E) (jget p ''api'')) of
            None \<Rightarrow> returnResponse False (with_message ''api is not in proper json format'' rsp)
          | Some apiString \<Rightarrow> do {
              _ \<leftarrow> plainly_locked E (''addEasterEgg'', [Keys keyDetails, Str (get_string E p ''id''),
                     Uint (get_uint E p ''duration''), Str apiString]);
              returnResponse True rsp
            })"

text \<open>A missing identifier is reported, but the call is made all the same.\<close>

definition removeEasterEggsWrapper :: "('w, 'd) env \<Rightarrow> jobject \<Rightarrow> ('w, 'd, reply) prog" where
  "removeEasterEggsWrapper E p =
     (case need (HasLabel p ''id'') ''please specify id'' start of
        (result, rsp) \<Rightarrow> do {
          _ \<leftarrow> plainly_locked E (''removeEasterEgg'', [Str (get_string E p ''id'')]);
          returnResponse result rsp
        })"

definition egg_key_json :: "egg_key \<Rightarrow> json" where
  "egg_key_json details = (case details of (keyCode, keyModifiers, keyHoldTime) \<Rightarrow>
     JObject [(''keyCode'', JUint keyCode), (''hold'', JUint keyHoldTime), (''modifiers'', JUint keyModifiers)])"

definition egg_json :: "('w, 'd) env \<Rightarrow> easter_egg \<Rightarrow> json" where
  "egg_json E egg = JObject [(''id'', JString (egg_id egg)),
     (''keySequence'', JArray (map egg_key_json (egg_keySequence egg))),
     (''duration'', JUint (egg_duration egg)), (''api'', JObject (js_FromString (js E) (egg_api egg)))]"

definition getEasterEggsWrapper :: "('w, 'd) env \<Rightarrow> jobject \<Rightarrow> ('w, 'd, reply) prog" where
  "getEasterEggsWrapper E p = do {
     (_, easterEggsList) \<leftarrow> plainly_locked_get E (''getEasterEggs'', []) (out_easterEggs E);
     returnResponse True [(''easterEggs'', JArray (map (egg_json E) easterEggsList))]
   }"

section \<open>The state of the plugins\<close>

text \<open>
  The controller's list of services is read from the world; the loops count in 16 bits, so the
  list has fewer than 65536 entries.  Services without a \<^verbatim>\<open>clientidentifier\<close> in their
  configuration are no applications.
\<close>

definition application :: "('w, 'd) env \<Rightarrow> service \<Rightarrow> bool" where
  "application E sv =
     (sv_config sv \<noteq> [] \<and> HasLabel (js_FromString (js E) (sv_config sv)) ''clientidentifier'')"

definition unquoted :: "service \<Rightarrow> string" where
  "unquoted sv = filter (\<lambda>c. c \<noteq> CHR 0x22) (sv_callsign sv)"

definition getAvailableTypesWrapper :: "('w, 'd) env \<Rightarrow> jobject \<Rightarrow> ('w, 'd, reply) prog" where
  "getAvailableTypesWrapper E p = do {
     joResult \<leftarrow> read_out (services E);
     returnResponse True
       [(''types'', JArray (map (\<lambda>sv. JString (unquoted sv)) (filter (application E) joResult)))]
   }"

definition active :: "service \<Rightarrow> bool" where
  "active sv = (sv_state sv \<noteq> DEACTIVATED \<and> sv_state sv \<noteq> DEACTIVATION \<and> sv_state sv \<noteq> PRECONDITION)"

text \<open>\<^verbatim>\<open>AppLastExitReason::UNDEFINED\<close>.\<close>

definition EXIT_UNDEFINED :: int where "EXIT_UNDEFINED = 0"

definition state_entry :: "('w, 'd) env \<Rightarrow> 'w \<Rightarrow> (string \<times> int) list \<Rightarrow> service \<Rightarrow> json list" where
  "state_entry E w reasons sv =
     (if active sv \<and> application E sv then
        (case plugin_state E w (unquoted sv @ ''.1'') of
           None \<Rightarrow> []
         | Some st \<Rightarrow> [JObject
             [(''callsign'', JString (unquoted sv)), (''state'', JString st),
              (''uri'', JString (case plugin_url E w (unquoted sv @ ''.1'') of Some url \<Rightarrow> url | None \<Rightarrow> [])),
              (''lastExitReason'', JNumber (case map_of reasons (unquoted sv) of
                                     Some reason \<Rightarrow> reason | None \<Rightarrow> EXIT_UNDEFINED))]])
      else [])"

definition getState :: "('w, 'd) env \<Rightarrow> jobject \<Rightarrow> ('w, 'd, reply) prog" where
  "getState E p = do {
     joResult \<leftarrow> read_out (services E);
     w \<leftarrow> asks sh_world;
     reasons \<leftarrow> asks gApplicationsExitReason;
     returnResponse True [(''state'', JArray (concat (map (state_entry E w reasons) joResult)))]
   }"

definition pluginMemoryUsage :: "('w, 'd) env \<Rightarrow> 'w \<Rightarrow> string \<Rightarrow> json" where
  "pluginMemoryUsage E w callsign =
     JObject [(''callsign'', JString callsign),
       (''ram'', JNumber (case plugin_resident E w callsign of
                  Some resident \<Rightarrow> int (resident div 1024) | None \<Rightarrow> -1))]"

definition memory_entry :: "('w, 'd) env \<Rightarrow> 'w \<Rightarrow> service \<Rightarrow> json list" where
  "memory_entry E w sv =
     (if active sv \<and> application E sv \<and> plugin_state E w (unquoted sv @ ''.1'') \<noteq> None
      then [pluginMemoryUsage E w (unquoted sv)] else [])"

definition getSystemResourceInfoWrapper :: "('w, 'd) env \<Rightarrow> jobject \<Rightarrow> ('w, 'd, reply) prog" where
  "getSystemResourceInfoWrapper E p = do {
     joResult \<leftarrow> read_out (services E);
     w \<leftarrow> asks sh_world;
     returnResponse True [(''types'', JArray (concat (map (memory_entry E w) joResult)))]
   }"

section \<open>Events\<close>

definition onLaunched :: "string \<Rightarrow> string \<Rightarrow> ('w, 'd, unit) prog" where
  "onLaunched client launchType =
     notify ''onLaunched'' [(''client'', JString client), (''launchType'', JString launchType)]"

definition onSuspended :: "string \<Rightarrow> ('w, 'd, unit) prog" where
  "onSuspended client = notify ''onSuspended'' [(''client'', JString client)]"

definition onDestroyed :: "string \<Rightarrow> ('w, 'd, unit) prog" where
  "onDestroyed client = notify ''onDestroyed'' [(''client'', JString client)]"

section \<open>The operations leave the mutex free\<close>

lemma misc_events_free [locking_intros]:
  "free_to_free (onLaunched client launchType)" "free_to_free (onSuspended client)"
  "free_to_free (onDestroyed client)"
  unfolding onLaunched_def onSuspended_def onDestroyed_def by (rule locking_intros)+

lemma upd_request_held [locking_intros]:
  "held_to_held (upd (\<lambda>s. s\<lparr>receivedShowWatermarkRequest := b\<rparr>))"
  "held_to_held (upd (\<lambda>s. s\<lparr>fullScreenImagePath := path, receivedFullScreenImageRequest := b\<rparr>))"
  "held_to_held (upd (\<lambda>s. s\<lparr>gSplashScreenDisplayTime := t, receivedShowSplashScreenRequest := b\<rparr>))"
  "held_to_held (upd (\<lambda>s. s\<lparr>gCurrentFramerate := t\<rparr>))"
  "free_to_free (upd (\<lambda>s. s\<lparr>mEnableEasterEggs := b\<rparr>))"
  by ((rule upd_held upd_free; simp add: keeping)+)

lemma case_prod_option_held:
  "(\<And>x y. held_to_held (f x y)) \<Longrightarrow> held_to_held g \<Longrightarrow>
   held_to_held (case (a, b) of (Some x, Some y) \<Rightarrow> f x y | _ \<Rightarrow> g)"
  by (cases a; cases b) auto

lemma add_animation_held [locking_intros]: "held_to_held (add_animation E animation u)"
  unfolding add_animation_def
  by (rule locking_intros upd_held | rule case_prod_option_held | simp split: option.split)+

lemma misc_operations_free [locking_intros]:
  "free_to_free (showWatermark E b)" "free_to_free (showFullScreenImage path)"
  "free_to_free (removeAnimation E client)" "free_to_free (addAnimationList E animations)"
  "free_to_free (enableInactivityReporting E b)" "free_to_free (setInactivityInterval E interval)"
  "free_to_free (resetInactivityTime E)" "free_to_free (systemMemory E ram)"
  "free_to_free (enableLogsFlushing E b)" "free_to_free (getLogsFlushingEnabled E)"
  "free_to_free (showCursor E)" "free_to_free (hideCursor E)" "free_to_free (setCursorSize E w h)"
  "free_to_free (getCursorSize E wh)" "free_to_free (setAVBlocked E callsign b)"
  "free_to_free (getBlockedAVApplications E)"
  unfolding showWatermark_def showFullScreenImage_def removeAnimation_def addAnimationList_def
    enableInactivityReporting_def setInactivityInterval_def resetInactivityTime_def systemMemory_def
    enableLogsFlushing_def getLogsFlushingEnabled_def showCursor_def hideCursor_def setCursorSize_def
    getCursorSize_def setAVBlocked_def getBlockedAVApplications_def
  by (rule locking_intros)+

lemma block_one_free [locking_intros]: "free_to_free (block_one E app stat)"
  unfolding block_one_def by (rule locking_intros)+

lemma misc_wrappers_free [locking_intros]:
  "free_to_free (getLogLevelWrapper E p)" "free_to_free (setLogLevelWrapper E p)"
  "free_to_free (showSplashLogoWrapper E p)" "free_to_free (hideSplashLogoWrapper E p)"
  "free_to_free (showWatermarkWrapper E p)" "free_to_free (showFullScreenImageWrapper E p)"
  "free_to_free (hideFullScreenImageWrapper E p)" "free_to_free (removeAnimationWrapper E p)"
  "free_to_free (addAnimationWrapper E p)" "free_to_free (enableInactivityReportingWrapper E p)"
  "free_to_free (setInactivityIntervalWrapper E p)" "free_to_free (resetInactivityTimeWrapper E p)"
  unfolding getLogLevelWrapper_def setLogLevelWrapper_def showSplashLogoWrapper_def
    hideSplashLogoWrapper_def showWatermarkWrapper_def showFullScreenImageWrapper_def
    hideFullScreenImageWrapper_def removeAnimationWrapper_def addAnimationWrapper_def
    enableInactivityReportingWrapper_def setInactivityIntervalWrapper_def resetInactivityTimeWrapper_def
  by (rule locking_intros)+

lemma more_wrappers_free [locking_intros]:
  "free_to_free (getSystemMemoryWrapper E p)" "free_to_free (setMemoryMonitorWrapper E p)"
  "free_to_free (enableLogsFlushingWrapper E p)" "free_to_free (getLogsFlushingEnabledWrapper E p)"
  "free_to_free (showCursorWrapper E p)" "free_to_free (hideCursorWrapper E p)"
  "free_to_free (setCursorSizeWrapper E p)" "free_to_free (getCursorSizeWrapper E p)"
  "free_to_free (getGraphicsFrameRateWrapper E p)" "free_to_free (setGraphicsFrameRateWrapper E p)"
  "free_to_free (getBlockedAVApplicationsWrapper E p)" "free_to_free (setAVBlockedWrapper E p)"
  "free_to_free (enableEasterEggsWrapper E p)" "free_to_free (addEasterEggsWrapper E p)"
  "free_to_free (removeEasterEggsWrapper E p)" "free_to_free (getEasterEggsWrapper E p)"
  "free_to_free (getAvailableTypesWrapper E p)" "free_to_free (getState E p)"
  "free_to_free (getSystemResourceInfoWrapper E p)"
  unfolding getSystemMemoryWrapper_def setMemoryMonitorWrapper_def enableLogsFlushingWrapper_def
    getLogsFlushingEnabledWrapper_def showCursorWrapper_def hideCursorWrapper_def
    setCursorSizeWrapper_def getCursorSizeWrapper_def getGraphicsFrameRateWrapper_def
    setGraphicsFrameRateWrapper_def getBlockedAVApplicationsWrapper_def setAVBlockedWrapper_def
    enableEasterEggsWrapper_def addEasterEggsWrapper_def removeEasterEggsWrapper_def
    getEasterEggsWrapper_def getAvailableTypesWrapper_def getState_def getSystemResourceInfoWrapper_def
  by (rule locking_intros)+

section \<open>A frame rate of zero\<close>

text \<open>
  a frame rate of zero is accepted, and the render thread divides by it in its next frame: the
  process dies.
\<close>

theorem zero_frame_rate:
  assumes "running s" "\<not> sh_mutex s" "HasLabel p ''framerate''" "get_uint E p ''framerate'' = 0"
  shows "\<exists>rsp t. run_state (setGraphicsFrameRateWrapper E p) s = ((ERROR_NONE, rsp), t) \<and> running t \<and>
    sh_status (snd (run_state (render_frame E) t)) = Crashed"
proof -
  let ?t = "s\<lparr>gCurrentFramerate := 0\<rparr>"
  have "\<exists>rsp. run_state (setGraphicsFrameRateWrapper E p) s = ((ERROR_NONE, rsp), ?t)"
    using assms by (simp add: setGraphicsFrameRateWrapper_def when_ok_def need_def)
  moreover define u where "u = ?t\<lparr>sh_status := Crashed\<rparr>"
  have trap: "run_state (upd (\<lambda>s. if gCurrentFramerate s = 0 then s\<lparr>sh_status := Crashed\<rparr> else s)) ?t = ((), u)"
    using assms(1) by (simp add: u_def)
  define rest where "rest = do {
     _ \<leftarrow> lock;
     _ \<leftarrow> check_persistent_store E;
     _ \<leftarrow> factory_start E;
     creates \<leftarrow> serve_creates E;
     kills \<leftarrow> serve_kills E;
     _ \<leftarrow> serve_flags E;
     _ \<leftarrow> command E (''draw'', []);
     _ \<leftarrow> serve_screenshot E;
     _ \<leftarrow> command E (''update'', []);
     _ \<leftarrow> upd (\<lambda>s. s\<lparr>isRunning := sRunning s\<rparr>);
     results \<leftarrow> serve_tasks E;
     _ \<leftarrow> unlock;
     State_Monad.return (creates, kills, results) }"
  have "free_to_free rest"
    unfolding rest_def by (rule locking_intros upd_held upd_free | simp add: keeping)+
  then have "snd (run_state rest u) = u" by (rule from_to_dead) (simp add: u_def)
  then have "snd (run_state (render_frame E) ?t) = u"
    unfolding render_frame_def rest_def by (simp only: run_bind[OF trap])
  ultimately show ?thesis using assms(1) by (auto simp: u_def)
qed

lemma zero_frame_rate_witness:
  "\<exists>rsp t. run_state (setGraphicsFrameRateWrapper plain_env [(''framerate'', JNumber 0)]) (shell_init [] 40) =
     ((ERROR_NONE, rsp), t) \<and> running t \<and> sh_status (snd (run_state (render_frame plain_env) t)) = Crashed"
  by (rule zero_frame_rate) (simp_all add: shell_init_def get_uint_def)

section \<open>An animation whose duration is no number\<close>

text \<open>
  an animation whose duration \<^verbatim>\<open>stod\<close> cannot read ends the handler with an exception while the
  mutex is held, and the mutex stays held.
\<close>

theorem addAnimation_throws:
  assumes s: "running s" "\<not> sh_mutex s"
    and p: "HasLabel p ''animations''" "get_array E p ''animations'' = animation # animations"
    and info: "info = js_Object (js E) animation" "HasLabel info ''client''" "HasLabel info ''duration''"
      "stod E (get_string E info ''duration'') = None"
  shows "snd (run_state (addAnimationWrapper E p) s) = s\<lparr>sh_mutex := True, sh_status := Thrown\<rparr>"
proof -
  define t where "t = s\<lparr>sh_mutex := True, sh_status := Thrown\<rparr>"
  have lock: "run_state lockRdkShellMutex s = ((), s\<lparr>sh_mutex := True\<rparr>)" using s by simp
  have throw: "run_state (add_animation E animation ()) (s\<lparr>sh_mutex := True\<rparr>) = ((), t)"
    using s info by (simp add: add_animation_def t_def throw_def)
  have dead: "\<not> running t" by (simp add: t_def)
  have "held_to_held (foldM (add_animation E) animations ())" by (rule locking_intros)+
  from from_to_dead[of running, OF this, of t] dead
  have "snd (run_state (foldM (add_animation E) animations ()) t) = t" by simp
  then have rest: "run_state (foldM (add_animation E) animations ()) t = ((), t)"
    by (simp add: prod_eq_iff)
  have loop: "run_state (foldM (add_animation E) (animation # animations) ()) (s\<lparr>sh_mutex := True\<rparr>) = ((), t)"
    by (simp only: foldM.simps run_bind[OF throw] rest)
  have "run_state (addAnimationList E (animation # animations)) s = (True, t)"
    unfolding addAnimationList_def run_bind[OF lock] run_bind[OF loop] using dead by simp
  then show ?thesis using p by (simp add: addAnimationWrapper_def finish_def t_def)
qed

lemma addAnimation_throws_witness:
  "sh_mutex (snd (run_state (addAnimationWrapper plain_env
     [(''animations'', JArray [JObject [(''client'', JString ''a''), (''duration'', JString ''soon'')]])])
     (shell_init [''a''] 40)))"
proof -
  have "scan_int ''soon'' = None" by code_simp
  then have "stod plain_env ''soon'' = None" by (simp add: plain_env_def)
  then show ?thesis
    using addAnimation_throws[of "shell_init [''a''] 40"
      "[(''animations'', JArray [JObject [(''client'', JString ''a''), (''duration'', JString ''soon'')]])]"
      plain_env "JObject [(''client'', JString ''a''), (''duration'', JString ''soon'')]" "[]"
      "[(''client'', JString ''a''), (''duration'', JString ''soon'')]"]
    by (simp add: shell_init_def get_array_def get_string_def)
qed

section \<open>Blocking of audio and video\<close>

lemma block_one_failed [simp]: "block_one E app False = State_Monad.return False"
  by (simp add: block_one_def Let_def)

lemma foldM_block_failed: "foldM (block_one E) apps False = State_Monad.return False"
  by (induction apps) simp_all

text \<open>
  the applications of a request are blocked in order up to the first that fails; entries
  without a call sign are passed over.
\<close>

theorem setAVBlocked_first_failure:
  "foldM (block_one E) apps True =
     until_false (\<lambda>info. setAVBlocked E (get_string E info ''callsign'') (get_bool E info ''blocked''))
       (filter (\<lambda>info. HasLabel info ''callsign'') (map (js_Object (js E)) apps))"
proof (induction apps)
  case (Cons app apps)
  have "foldM (block_one E) (app # apps) True = do { stat \<leftarrow> block_one E app True;
      if stat then foldM (block_one E) apps True else State_Monad.return False }"
    by (simp, rule arg_cong[where f = "State_Monad.bind _"], rule ext) (simp add: foldM_block_failed)
  moreover have "block_one E app True =
      (if HasLabel (js_Object (js E) app) ''callsign''
       then setAVBlocked E (get_string E (js_Object (js E) app) ''callsign'')
         (get_bool E (js_Object (js E) app) ''blocked'')
       else State_Monad.return True)"
    by (simp add: block_one_def Let_def)
  ultimately show ?case by (cases "HasLabel (js_Object (js E) app) ''callsign''") (simp_all add: Cons cong: if_cong)
qed simp

section \<open>Plugins and their states\<close>

definition callsigns :: "json list \<Rightarrow> json list" where
  "callsigns entries = map (\<lambda>e. case e of JObject ob \<Rightarrow> jget ob ''callsign'' | _ \<Rightarrow> JNull) entries"

text \<open>
  the plugins whose state is reported are among the available types, in the same order, and
  each of them is active.
\<close>

theorem getState_among_types:
  "\<exists>states types. fst (run_state (getState E p) s) = (ERROR_NONE, [(''state'', JArray states), (''success'', JBool True)]) \<and>
     fst (run_state (getAvailableTypesWrapper E q) s) = (ERROR_NONE, [(''types'', JArray types), (''success'', JBool True)]) \<and>
     subseq (callsigns states) types \<and>
     callsigns states = map (\<lambda>sv. JString (unquoted sv)) (filter (\<lambda>sv. active sv \<and> application E sv \<and>
       plugin_state E (sh_world s) (unquoted sv @ ''.1'') \<noteq> None) (services E (sh_world s)))"
proof -
  let ?w = "sh_world s" and ?reasons = "gApplicationsExitReason s"
  let ?states = "concat (map (state_entry E ?w ?reasons) (services E ?w))"
  let ?types = "map (\<lambda>sv. JString (unquoted sv)) (filter (application E) (services E ?w))"
  let ?ok = "\<lambda>sv. active sv \<and> application E sv \<and> plugin_state E ?w (unquoted sv @ ''.1'') \<noteq> None"
  have shown: "callsigns (concat (map (state_entry E ?w ?reasons) svs)) =
      map (\<lambda>sv. JString (unquoted sv)) (filter ?ok svs)" for svs
    by (induction svs) (auto simp: callsigns_def state_entry_def split: option.splits)
  have "subseq (filter ?ok svs) (filter (application E) svs)" for svs
    by (induction svs) auto
  then have "subseq (callsigns ?states) ?types" unfolding shown by (rule subseq_map)
  then show ?thesis
    using shown[of "services E ?w"]
    by (intro exI[of _ ?states] exI[of _ ?types]) (simp add: getState_def getAvailableTypesWrapper_def)
qed

end
