(* ===== verification/Shell_Apps.thy ===== *)
theory Shell_Apps
  imports Shell_Misc
begin

text \<open>
  Launching, suspending, resuming and destroying applications.  What the controller and the other
  plugins do is in the environment: \<open>call_service\<close> names the call (\<^verbatim>\<open>Activate\<close>, \<^verbatim>\<open>Deactivate\<close>, \<^verbatim>\<open>Clone\<close>,
  \<^verbatim>\<open>ConfigLine\<close>, \<^verbatim>\<open>SetProperty\<close>, ...) and gets its status.  An application that is being launched
  or destroyed is marked in \<^verbatim>\<open>gLaunchApplications\<close> or \<^verbatim>\<open>gDestroyApplications\<close>.
\<close>

section \<open>Suspending, resuming and destroying\<close>

definition suspendWrapper :: "('w, 'd) env \<Rightarrow> jobject \<Rightarrow> ('w, 'd, reply) prog" where
  "suspendWrapper E p =
     (if \<not> HasLabel p ''callsign''
      then returnResponse False (with_message ''failed to suspend application''
             (with_message ''please specify callsign'' []))
      else
        let callsign = get_string E p ''callsign'';
            client = (if HasLabel p ''client'' then get_string E p ''client'' else callsign) in do {
          destroying \<leftarrow> asks (\<lambda>s. being_destroyed s client);
          if destroying then returnResponse False (with_message ''failed to suspend application'' [])
          else do {
            control \<leftarrow> read_out (\<lambda>w. state_control E w callsign);
            status \<leftarrow> (if control then do {
                       _ \<leftarrow> call_service E ''RequestState'' [callsign, ''SUSPEND''];
                       State_Monad.return ERROR_NONE
                     } else call_service E ''SetProperty'' [callsign @ ''.1'', ''state'', ''suspended'']);
            if status \<noteq> ERROR_NONE
            then returnResponse False (with_message ''failed to suspend application'' [])
            else do {
              _ \<leftarrow> setVisibility E callsign False;
              _ \<leftarrow> onSuspended callsign;
              returnResponse True []
            }
          }
        })"

definition removeFactoryModeEasterEggs :: "('w, 'd) env \<Rightarrow> ('w, 'd, unit) prog" where
  "removeFactoryModeEasterEggs E = do {
     _ \<leftarrow> command E (''removeEasterEgg'', [Str ''AGING_MODE_EXIT1'']);
     _ \<leftarrow> command E (''removeEasterEgg'', [Str ''AGING_MODE_EXIT2'']);
     State_Monad.return ()
   }"

text \<open>
  The application is hidden first; whether it is being launched is asked only then.
\<close>

definition destroy_marked :: "('w, 'd) env \<Rightarrow> string \<Rightarrow> ('w, 'd, bool) prog" where
  "destroy_marked E callsign = do {
     status \<leftarrow> call_service E ''Deactivate'' [callsign];
     if status \<noteq> ERROR_NONE then State_Monad.return False
     else do {
       _ \<leftarrow> (if callsign = ''factoryapp'' then do {
              _ \<leftarrow> removeFactoryModeEasterEggs E;
              upd (\<lambda>s. s\<lparr>sFactoryModeStart := False, sFactoryAppLaunchStatus := NOTLAUNCHED\<rparr>)
            } else State_Monad.return ());
       _ \<leftarrow> onDestroyed callsign;
       State_Monad.return True
     }
   }"

definition destroyWrapper :: "('w, 'd) env \<Rightarrow> jobject \<Rightarrow> ('w, 'd, reply) prog" where
  "destroyWrapper E p =
     (if \<not> HasLabel p ''callsign''
      then returnResponse False (with_message ''failed to destroy application''
             (with_message ''please specify callsign'' []))
      else
        let callsign = get_string E p ''callsign'' in do {
          _ \<leftarrow> setVisibility E callsign False;
          launching \<leftarrow> asks (\<lambda>s. map_of (gLaunchApplications s) callsign \<noteq> None);
          if launching
          then returnResponse False
            (with_message ''failed to destroy application as same application being launched'' [])
          else do {
            _ \<leftarrow> upd (\<lambda>s. s\<lparr>gDestroyApplications := AList.update callsign True (gDestroyApplications s)\<rparr>);
            result \<leftarrow> destroy_marked E callsign;
            _ \<leftarrow> upd (\<lambda>s. s\<lparr>gDestroyApplications := AList.delete callsign (gDestroyApplications s)\<rparr>);
            finish ''failed to destroy application'' [] result
          }
        })"

text \<open>Native and DAC applications; the answer is that of \<^verbatim>\<open>setVisibility\<close>, whatever came before.\<close>

definition suspendApplicationWrapper :: "('w, 'd) env \<Rightarrow> jobject \<Rightarrow> ('w, 'd, reply) prog" where
  "suspendApplicationWrapper E p =
     when_ok (need (HasLabel p ''client'') ''please specify client'' start)
       (\<lambda>rsp.
          let client = get_string E p ''client'' in do {
            (known, mimeType) \<leftarrow> getMimeType E client [];
            let hide = do {
                  result \<leftarrow> setVisibility E client False;
                  finish ''failed to suspend application'' rsp result }
            in
              if \<not> known then returnResponse False (with_message ''Could not determine app mime type'' rsp)
              else if mimeType = MIME_TYPE_NATIVE E then do {
                _ \<leftarrow> locked E (''suspendApplication'', [Str client]);
                hide
              } else if mimeType = MIME_TYPE_DAC_NATIVE E then do {
                (_, result) \<leftarrow> thunder_invoke E ''org.rdk.OCIContainer.1'' ''pauseContainer''
                               [(''containerId'', JString client)];
                if \<not> get_bool E result ''success''
                then returnResponse False (with_message ''Could not pause container'' rsp)
                else hide
              } else returnResponse False (with_message ''Unsupported mime type'' rsp)
          })"

definition resumeApplicationWrapper :: "('w, 'd) env \<Rightarrow> jobject \<Rightarrow> ('w, 'd, reply) prog" where
  "resumeApplicationWrapper E p =
     when_ok (need (HasLabel p ''client'') ''please specify client'' start)
       (\<lambda>rsp.
          let client = get_string E p ''client'' in do {
            (known, mimeType) \<leftarrow> getMimeType E client [];
            let reveal = do {
                  result \<leftarrow> setVisibility E client True;
                  finish ''failed to resume application'' rsp result }
            in
              if \<not> known then returnResponse False (with_message ''Could not determine app mime type'' rsp)
              else if mimeType = MIME_TYPE_NATIVE E then do {
                _ \<leftarrow> locked E (''resumeApplication'', [Str client]);
                reveal
              } else if mimeType = MIME_TYPE_DAC_NATIVE E then do {
                (_, result) \<leftarrow> thunder_invoke E ''org.rdk.OCIContainer.1'' ''resumeContainer''
                               [(''containerId'', JString client)];
                if \<not> get_bool E result ''success''
                then returnResponse False (with_message ''Could not resume container'' rsp)
                else reveal
              } else returnResponse False (with_message ''Unsupported mime type'' rsp)
          })"

section \<open>Launching native and DAC applications\<close>

text \<open>\<^verbatim>\<open>id;version;dactype\<close>, of which the last two are optional.\<close>

definition split_uri :: "string \<Rightarrow> string \<times> string \<times> string" where
  "split_uri uri =
     (case str_find '';'' uri of
        None \<Rightarrow> (uri, ''1.0'', ''dac'')
      | Some i \<Rightarrow>
          (let rest = drop (i + 1) uri in
           case str_find '';'' rest of
             None \<Rightarrow> (take i uri, rest, ''dac'')
           | Some j \<Rightarrow> (take i uri, take j rest, drop (j + 1) rest)))"

text \<open>Where the bundle of an application lies; empty if LISA does not know it.\<close>

definition lisa_bundle :: "('w, 'd) env \<Rightarrow> string \<times> string \<times> string \<Rightarrow> ('w, 'd, string) prog" where
  "lisa_bundle E app = (case app of (ident, version, dactype) \<Rightarrow> do {
     (status, info) \<leftarrow> thunder_invoke E ''LISA'' ''getStorageDetails''
        [(''id'', JString ident), (''version'', JString version), (''type'', JString dactype)];
     State_Monad.return
       (let apps = js_Object (js E) (jget info ''apps'') in
        if status = ERROR_NONE \<and> HasLabel info ''apps'' \<and> HasLabel apps ''path''
        then get_string E apps ''path'' else [])
   })"

text \<open>\<open>None\<close>: the packager does not have it either.\<close>

definition packager_bundle :: "('w, 'd) env \<Rightarrow> string \<Rightarrow> ('w, 'd, string option) prog" where
  "packager_bundle E ident = do {
     (_, install) \<leftarrow> thunder_invoke E ''Packager.1'' ''isInstalled'' [(''pkgId'', JString ident)];
     if \<not> get_bool E install ''available'' then State_Monad.return None
     else do {
       (_, info) \<leftarrow> thunder_invoke E ''Packager.1'' ''getPackageInfo'' [(''pkgId'', JString ident)];
       State_Monad.return (Some (get_string E info ''bundlePath''))
     }
   }"

definition start_container :: "('w, 'd) env \<Rightarrow> string \<Rightarrow> string \<Rightarrow> string \<Rightarrow> jobject \<Rightarrow> ('w, 'd, reply) prog" where
  "start_container E client ident bundlePath rsp = do {
     created \<leftarrow> createDisplay E client (''wst-'' @ ident) 0 0 False 0 0 False False;
     if \<not> created then returnResponse False (with_message ''Could not create display'' rsp)
     else do {
       surface \<leftarrow> asks gRdkShellSurfaceModeEnabled;
       _ \<leftarrow> setMimeType E client (MIME_TYPE_DAC_NATIVE E);
       (_, result) \<leftarrow> thunder_invoke E ''org.rdk.OCIContainer.1'' ''startContainer''
          [(''containerId'', JString client), (''bundlePath'', JString bundlePath),
           (''westerosSocket'', JString ((case runtime_dir E of None \<Rightarrow> [] | Some d \<Rightarrow> d) @ ''/'' @
              (if surface then ''rdkshell_display'' else ''wst-'' @ ident)))];
       if \<not> get_bool E result ''success'' then do {
         _ \<leftarrow> kill E client;
         returnResponse False (with_message ''Could not start Dobby container'' rsp)
       } else do {
         _ \<leftarrow> notify ''onApplicationLaunched'' [(''client'', JString client)];
         returnResponse True rsp
       }
     }
   }"

definition launchApplicationWrapper :: "('w, 'd) env \<Rightarrow> jobject \<Rightarrow> ('w, 'd, reply) prog" where
  "launchApplicationWrapper E p =
     when_ok (need (HasLabel p ''mimeType'') ''please specify mimeType''
               (need (HasLabel p ''uri'') ''please specify uri''
                 (need (HasLabel p ''client'') ''please specify client'' start)))
       (\<lambda>rsp.
          let client = get_string E p ''client''; uri = get_string E p ''uri'';
              mimeType = get_string E p ''mimeType'' in
          if mimeType = MIME_TYPE_DAC_NATIVE E then do {
            found \<leftarrow> lisa_bundle E (split_uri uri);
            let ident = fst (split_uri uri) in
            if found \<noteq> [] then start_container E client ident found rsp
            else do {
              bundle \<leftarrow> packager_bundle E ident;
              case bundle of
                None \<Rightarrow> returnResponse False (with_message ''Packager reports app is not installed'' rsp)
              | Some bundlePath \<Rightarrow> start_container E client ident bundlePath rsp
            }
          } else if mimeType = MIME_TYPE_NATIVE E then do {
            _ \<leftarrow> lock;
            result \<leftarrow> command E (''launchApplication'', [Str client, Str uri, Str mimeType,
               Flag (opt_bool E p ''topmost'' False), Flag (opt_bool E p ''focus'' False)]);
            _ \<leftarrow> command E (''addListener'', [Str client]);
            _ \<leftarrow> unlock;
            finish ''failed to launch application'' rsp result
          } else returnResponse False (with_message ''Unsupported MIME type'' rsp))"

section \<open>Launching an application that is a plugin\<close>

text \<open>
  \<^verbatim>\<open>launchWrapper\<close>, in its phases.  The first is what it reads from the parameters.  The directory
  made for a display with a type is left out.
\<close>

datatype launch_type = UNKNOWN | CREATE | ACTIVATE | SUSPEND | RESUME

record launch_params =
  lo_callsign :: string
  lo_type :: string
  lo_uri :: string
  lo_width :: "32 word"
  lo_height :: "32 word"
  lo_suspend :: bool
  lo_visible :: bool
  lo_focused :: bool
  lo_configuration :: string
  lo_behind :: string
  lo_displayName :: string
  lo_scaleToFit :: bool
  lo_holePunch :: bool
  lo_topmost :: bool
  lo_focus :: bool
  lo_autoDestroy :: bool

definition launch_options :: "('w, 'd) env \<Rightarrow> bool \<Rightarrow> jobject \<Rightarrow> launch_params" where
  "launch_options E surface p =
     (let callsign = get_string E p ''callsign''; typ = opt_string E p ''type'' [];
          name = (if surface then ''rdkshell_display''
                  else if typ = [] then ''wst-'' @ callsign
                  else typ @ ''/'' @ ''wst-'' @ callsign) in
      \<lparr> lo_callsign = callsign, lo_type = typ, lo_uri = opt_string E p ''uri'' [],
        lo_width = opt_uint E p ''w'' 0, lo_height = opt_uint E p ''h'' 0,
        lo_suspend = opt_bool E p ''suspend'' False, lo_visible = opt_bool E p ''visible'' True,
        lo_focused = opt_bool E p ''focused'' True, lo_configuration = opt_string E p ''configuration'' [],
        lo_behind = opt_string E p ''behind'' [], lo_displayName = opt_string E p ''displayName'' name,
        lo_scaleToFit = opt_bool E p ''scaleToFit'' False, lo_holePunch = opt_bool E p ''holePunch'' True,
        lo_topmost = opt_bool E p ''topmost'' False, lo_focus = opt_bool E p ''focus'' False,
        lo_autoDestroy = opt_bool E p ''autodestroy'' True \<rparr>)"

text \<open>A call that is tried again once if it fails.\<close>

definition twice :: "('w, 'd, hresult) prog \<Rightarrow> ('w, 'd, hresult) prog" where
  "twice m = do { status \<leftarrow> m; if status \<noteq> ERROR_NONE then m else State_Monad.return status }"

text \<open>
  Is there a plugin with the call sign, and one to clone it from?  The second answer matters only
  if the first is no.
\<close>

definition find_plugins :: "('w, 'd) env \<Rightarrow> launch_params \<Rightarrow> ('w, 'd, bool \<times> bool) prog" where
  "find_plugins E lo = do {
     active \<leftarrow> asks gActivePluginsData;
     let newFound = (map_of active (lo_callsign lo) \<noteq> None);
         original = (map_of active (lo_type lo) \<noteq> None) in
       if newFound \<or> original then State_Monad.return (newFound, original)
       else do {
         s1 \<leftarrow> read_out (\<lambda>w. shell_state E w (lo_callsign lo));
         s2 \<leftarrow> read_out (\<lambda>w. shell_state E w (lo_type lo));
         State_Monad.return (s1 \<noteq> None, s2 \<noteq> None)
       }
   }"

text \<open>Cloning; the display is created only if there is no client yet.\<close>

definition clone_plugin :: "('w, 'd) env \<Rightarrow> launch_params \<Rightarrow> ('w, 'd, unit) prog" where
  "clone_plugin E lo = do {
     _ \<leftarrow> twice (call_service E ''Clone'' [lo_type lo, lo_callsign lo]);
     _ \<leftarrow> lockRdkShellMutex;
     _ \<leftarrow> unlock;
     exists \<leftarrow> isClientExists E (lo_callsign lo);
     if exists then State_Monad.return ()
     else do {
       _ \<leftarrow> lockRdkShellMutex;
       _ \<leftarrow> upd (\<lambda>s. s\<lparr>gPluginDisplayNameMap :=
              AList.update (lo_callsign lo) (lo_displayName lo) (gPluginDisplayNameMap s),
            gCreateDisplayRequests := gCreateDisplayRequests s @
              [(new_create_request (lo_callsign lo) (lo_displayName lo) (lo_width lo) (lo_height lo) False 0 0)
                \<lparr>mAutoDestroy := lo_autoDestroy lo\<rparr>]\<rparr>);
       _ \<leftarrow> unlock;
       _ \<leftarrow> await_frame E;
       State_Monad.return ()
     }
   }"

text \<open>
  The configuration: the one the plugin has, with the overrides of the caller, the display, and
  what Netflix and Cobalt need.
\<close>

definition launch_config :: "('w, 'd) env \<Rightarrow> launch_params \<Rightarrow> string \<Rightarrow> jobject" where
  "launch_config E lo configString =
     (let c0 = js_FromString (js E) configString;
          c1 = (if lo_configuration lo = [] then c0
                else fold (\<lambda>(k, v) c. jset k v c) (js_FromString (js E) (lo_configuration lo)) c0);
          c2 = jset ''clientidentifier'' (JString (lo_displayName lo)) c1;
          c3 = (if lo_type lo = ''Netflix'' then jset ''launchtosuspend'' (JBool (lo_suspend lo)) c2 else c2)
      in if lo_type lo = ''Cobalt'' \<and> str_find (CHR 0x22 # ''preload'' @ [CHR 0x22]) (lo_configuration lo) = None
         then jset ''preload'' (JBool (lo_suspend lo)) c3 else c3)"

definition configure_plugin :: "('w, 'd) env \<Rightarrow> launch_params \<Rightarrow> ('w, 'd, hresult) prog" where
  "configure_plugin E lo = do {
     config \<leftarrow> read_out (\<lambda>w. plugin_config E w (lo_callsign lo));
     twice (call_service E ''ConfigLine'' [lo_callsign lo,
       js_ToString (js E) (launch_config E lo (case config of None \<Rightarrow> [] | Some c \<Rightarrow> c))])
   }"

text \<open>
  Activation, with the type of the launch and the status.  A plugin that was found already active
  keeps the type \<^verbatim>\<open>UNKNOWN\<close> for now.
\<close>

definition activate_plugin ::
  "('w, 'd) env \<Rightarrow> string \<Rightarrow> launch_type \<Rightarrow> ('w, 'd, launch_type \<times> hresult) prog" where
  "activate_plugin E callsign launchType =
     (if launchType = UNKNOWN then do {
        st \<leftarrow> read_out (\<lambda>w. shell_state E w callsign);
        if (case st of None \<Rightarrow> True
            | Some state \<Rightarrow> state = DEACTIVATED \<or> state = DEACTIVATION \<or> state = PRECONDITION)
        then do { status \<leftarrow> twice (call_service E ''Activate'' [callsign]);
                  State_Monad.return (ACTIVATE, status) }
        else State_Monad.return (UNKNOWN, ERROR_NONE)
      } else do {
        status \<leftarrow> twice (call_service E ''Activate'' [callsign]);
        State_Monad.return (launchType, status)
      })"

definition fit :: "('w, 'd) env \<Rightarrow> 32 word \<Rightarrow> 32 word \<Rightarrow> 'd" where
  "fit E screen given = (if given \<noteq> screen \<and> given \<noteq> 0 then double_ratio E screen given else double_one E)"

definition place_client :: "('w, 'd) env \<Rightarrow> jobject \<Rightarrow> launch_params \<Rightarrow> ('w, 'd, unit) prog" where
  "place_client E p lo = do {
     (_, _, _, screenWidth, screenHeight) \<leftarrow> locked_get E (''getBounds'', [Str (lo_callsign lo)])
        (\<lambda>w. out_bounds E w (lo_callsign lo) (0, 0, 0, 0));
     let width = opt_uint E p ''w'' screenWidth; height = opt_uint E p ''h'' screenHeight in do {
       _ \<leftarrow> setBounds E (lo_callsign lo) (opt_uint E p ''x'' 0, opt_uint E p ''y'' 0, width, height);
       _ \<leftarrow> (if lo_scaleToFit lo
            then setScale E (lo_callsign lo) (fit E screenWidth width) (fit E screenHeight height)
            else State_Monad.return False);
       if lo_behind lo \<noteq> [] then do {
         _ \<leftarrow> moveBehind E (lo_callsign lo) (lo_behind lo);
         State_Monad.return ()
       } else State_Monad.return ()
     }
   }"

text \<open>
  The notification of state changes is registered at the first launch; at a later one the launch
  is reported by it, so that it is deferred.
\<close>

definition watch_state :: "('w, 'd) env \<Rightarrow> string \<Rightarrow> ('w, 'd, bool) prog" where
  "watch_state E callsign = do {
     known \<leftarrow> asks (\<lambda>s. map_of (gStateNotifications s) callsign \<noteq> None);
     if known then do {
       _ \<leftarrow> upd (\<lambda>s. s\<lparr>gStateNotifications := omap_put callsign True (gStateNotifications s)\<rparr>);
       State_Monad.return True
     } else do {
       control \<leftarrow> read_out (\<lambda>w. state_control E w callsign);
       _ \<leftarrow> (if control
            then upd (\<lambda>s. s\<lparr>gStateNotifications := omap_put callsign False (gStateNotifications s)\<rparr>)
            else State_Monad.return ());
       State_Monad.return False
     }
   }"

definition enable_listener :: "string \<Rightarrow> ('w, 'd, bool) prog" where
  "enable_listener callsign = do {
     known \<leftarrow> asks (\<lambda>s. map_of (gPluginsEventListener s) callsign \<noteq> None);
     _ \<leftarrow> (if known
          then upd (\<lambda>s. s\<lparr>gPluginsEventListener := omap_put callsign True (gPluginsEventListener s)\<rparr>)
          else State_Monad.return ());
     State_Monad.return known
   }"

definition set_state ::
  "('w, 'd) env \<Rightarrow> launch_params \<Rightarrow> launch_type \<Rightarrow> bool \<Rightarrow> ('w, 'd, launch_type \<times> bool \<times> hresult) prog" where
  "set_state E lo launchType defer = do {
     enabled \<leftarrow> (if launchType = UNKNOWN then enable_listener (lo_callsign lo) else State_Monad.return False);
     status \<leftarrow> call_service E ''SetProperty'' [lo_callsign lo, ''state'',
                 if lo_suspend lo then ''suspended'' else ''resumed''];
     State_Monad.return
       (if launchType = UNKNOWN then (if lo_suspend lo then SUSPEND else RESUME) else launchType,
        defer \<or> enabled, status)
   }"

definition show_client :: "('w, 'd) env \<Rightarrow> launch_params \<Rightarrow> bool \<Rightarrow> ('w, 'd, unit) prog" where
  "show_client E lo visible = do {
     _ \<leftarrow> setVisibility E (lo_callsign lo) visible;
     _ \<leftarrow> setHolePunch E (lo_callsign lo) (lo_holePunch lo);
     _ \<leftarrow> (if visible \<and> lo_focused lo then setFocus E (lo_callsign lo) else State_Monad.return False);
     _ \<leftarrow> setTopmost E (lo_callsign lo) (lo_topmost lo) (lo_focus lo);
     State_Monad.return ()
   }"

text \<open>After the activation; the status is that of the last call that set one.\<close>

definition present_client ::
  "('w, 'd) env \<Rightarrow> jobject \<Rightarrow> launch_params \<Rightarrow> bool \<Rightarrow> launch_type \<Rightarrow> ('w, 'd, launch_type \<times> bool \<times> hresult) prog" where
  "present_client E p lo setState launchType = do {
     _ \<leftarrow> place_client E p lo;
     defer \<leftarrow> watch_state E (lo_callsign lo);
     (launchType, defer, status) \<leftarrow>
       (if setState then set_state E lo launchType defer
        else State_Monad.return (launchType, defer, ERROR_NONE));
     _ \<leftarrow> show_client E lo (if setState \<and> lo_suspend lo then False else lo_visible lo);
     status \<leftarrow> (if lo_uri lo \<noteq> [] then call_service E ''SetProperty'' [lo_callsign lo, ''url'', lo_uri lo]
               else State_Monad.return status);
     State_Monad.return (launchType, defer, status)
   }"

fun launch_type_string :: "launch_type \<Rightarrow> string" where
  "launch_type_string CREATE = ''create''"
| "launch_type_string ACTIVATE = ''activate''"
| "launch_type_string SUSPEND = ''suspend''"
| "launch_type_string RESUME = ''resume''"
| "launch_type_string UNKNOWN = ''unknown''"

text \<open>A launch of a plugin that exists or can be cloned; the reply before it is completed.\<close>

definition launch_plugin :: "('w, 'd) env \<Rightarrow> jobject \<Rightarrow> launch_params \<Rightarrow> bool \<Rightarrow> ('w, 'd, bool \<times> jobject) prog" where
  "launch_plugin E p lo newFound = do {
     _ \<leftarrow> (if newFound then State_Monad.return () else clone_plugin E lo);
     _ \<leftarrow> configure_plugin E lo;
     (launchType, status) \<leftarrow> activate_plugin E (lo_callsign lo) (if newFound then UNKNOWN else CREATE);
     if status \<noteq> ERROR_NONE then State_Monad.return (False, [])
     else do {
       setState \<leftarrow> State_Monad.return (\<not> (lo_type lo = ''Netflix'' \<and> \<not> newFound \<and> \<not> lo_suspend lo));
       (launchType, defer, status) \<leftarrow> present_client E p lo setState launchType;
       if status \<noteq> ERROR_NONE then State_Monad.return (False, [])
       else do {
         _ \<leftarrow> (if setState \<and> defer \<and> (launchType = SUSPEND \<or> launchType = RESUME) then State_Monad.return ()
              else onLaunched (lo_callsign lo) (launch_type_string launchType));
         State_Monad.return (True, [(''launchType'', JString (launch_type_string launchType))])
       }
     }
   }"

definition unmark_launch :: "string \<Rightarrow> ('w, 'd, unit) prog" where
  "unmark_launch callsign =
     upd (\<lambda>s. s\<lparr>gLaunchApplications := AList.delete callsign (gLaunchApplications s)\<rparr>)"

definition launch_marked :: "('w, 'd) env \<Rightarrow> jobject \<Rightarrow> launch_params \<Rightarrow> ('w, 'd, bool \<times> jobject) prog" where
  "launch_marked E p lo = do {
     erm \<leftarrow> asks mErmEnabled;
     _ \<leftarrow> (if HasLabel p ''blockAV'' \<and> erm
          then setAVBlocked E (lo_callsign lo) (get_bool E p ''blockAV'') else State_Monad.return False);
     (newFound, original) \<leftarrow> find_plugins E lo;
     if \<not> newFound \<and> \<not> original
     then State_Monad.return (False, with_message ''failed to launch application.  type not found'' [])
     else do {
       (result, rsp) \<leftarrow> launch_plugin E p lo newFound;
       State_Monad.return (result, if result then rsp else with_message ''failed to launch application'' rsp)
     }
   }"

definition launchWrapper :: "('w, 'd) env \<Rightarrow> jobject \<Rightarrow> ('w, 'd, reply) prog" where
  "launchWrapper E p =
     (if \<not> HasLabel p ''callsign'' then do {
        _ \<leftarrow> unmark_launch [];
        returnResponse False (with_message ''failed to launch application''
          (with_message ''please specify callsign'' []))
      } else do {
        surface \<leftarrow> asks gRdkShellSurfaceModeEnabled;
        lo \<leftarrow> State_Monad.return (launch_options E surface p);
        destroying \<leftarrow> asks (\<lambda>s. map_of (gDestroyApplications s) (lo_callsign lo) \<noteq> None);
        if destroying
        then returnResponse False (with_message ''failed to launch application due to active destroy request'' [])
        else do {
          _ \<leftarrow> upd (\<lambda>s. s\<lparr>gLaunchApplications := AList.update (lo_callsign lo) True (gLaunchApplications s)\<rparr>);
          outcome \<leftarrow> launch_marked E p lo;
          _ \<leftarrow> unmark_launch (lo_callsign lo);
          returnResponse (fst outcome) (snd outcome)
        }
      })"

section \<open>Killing all applications\<close>

definition destroy_state :: "('w, 'd) env \<Rightarrow> json \<Rightarrow> unit \<Rightarrow> ('w, 'd, unit) prog" where
  "destroy_state E info u =
     (if HasLabel (js_Object (js E) info) ''callsign'' then do {
        _ \<leftarrow> destroyWrapper E [(''callsign'', JString (get_string E (js_Object (js E) info) ''callsign''))];
        State_Monad.return ()
      } else State_Monad.return ())"

definition will_destroy :: "('w, 'd) env \<Rightarrow> json \<Rightarrow> unit \<Rightarrow> ('w, 'd, unit) prog" where
  "will_destroy E info u =
     (if HasLabel (js_Object (js E) info) ''callsign''
      then notify ''onWillDestroy'' [(''callsign'', JString (get_string E (js_Object (js E) info) ''callsign''))]
      else State_Monad.return ())"

definition killAllApps :: "('w, 'd) env \<Rightarrow> bool \<Rightarrow> ('w, 'd, unit) prog" where
  "killAllApps E enableDestroyEvent = do {
     (_, response) \<leftarrow> getState E [];
     stateList \<leftarrow> State_Monad.return (opt_array E response ''state'');
     _ \<leftarrow> (if enableDestroyEvent then foldM (will_destroy E) stateList () else State_Monad.return ());
     foldM (destroy_state E) stateList ()
   }"

section \<open>The operations leave the mutex free and no mark behind\<close>

text \<open>A body between setting a mark and removing it.\<close>

definition only_marks :: "(('w, 'd) shell \<Rightarrow> ('w, 'd) shell) \<Rightarrow> bool" where
  "only_marks f = (\<forall>s. sh_mutex (f s) = sh_mutex s \<and> sh_calls (f s) = sh_calls s \<and>
     sh_status (f s) = sh_status s \<and> sRunning (f s) = sRunning s \<and> isRunning (f s) = isRunning s)"

lemma marked_section:
  assumes f: "only_marks f" and g: "only_marks g"
    and marks: "\<And>s t. no_new_marks (f s) t \<Longrightarrow> no_new_marks s (g t)"
    and body: "free_to_free body" and rest: "\<And>x. free_to_free (k x)"
  shows "free_to_free (do { _ \<leftarrow> upd f; x \<leftarrow> body; _ \<leftarrow> upd g; k x })" (is "free_to_free ?m")
proof -
  let ?n = "do { _ \<leftarrow> upd f; x \<leftarrow> body; _ \<leftarrow> upd g; State_Monad.return x }"
  have "free_to_free ?n"
  proof (rule from_toI)
    fix s
    let ?t = "snd (run_state body (f s))"
    have run: "snd (run_state ?n s) = (if running ?t then g ?t else ?t)" if "running s"
      using that by (simp add: case_prod_unfold)
    show "snd (run_state ?n s) = s" if "\<not> running s"
      using that from_to_dead[OF body that] by (simp add: case_prod_unfold)
    assume s: "running s" "\<not> sh_mutex s"
    then have fs: "running (f s)" "\<not> sh_mutex (f s)" using f by (auto simp: only_marks_def)
    note rel = from_to_rel[OF body fs] and post = from_to_post[OF body fs]
    show "progress s (snd (run_state ?n s))"
    proof (cases "running ?t")
      case True
      then have "no_new_marks s (g ?t)" using rel marks by (simp add: progress_def)
      with True rel f g s show ?thesis
        unfolding run[OF s(1)] by (simp add: progress_def only_marks_def rendering_def)
    next
      case False
      with rel f s show ?thesis
        unfolding run[OF s(1)] by (auto simp: progress_def only_marks_def rendering_def)
    qed
    show "\<not> sh_mutex (snd (run_state ?n s))" if "running (snd (run_state ?n s))"
      using that post g unfolding run[OF s(1)] by (auto simp: only_marks_def split: if_splits)
  qed
  then have "free_to_free (State_Monad.bind ?n k)" by (rule locking_intros) (rule rest)
  then show ?thesis by simp
qed

lemma launch_mark_only [simp]:
  "only_marks (\<lambda>s. s\<lparr>gLaunchApplications := al s\<rparr>)" "only_marks (\<lambda>s. s\<lparr>gDestroyApplications := al s\<rparr>)"
  by (simp_all add: only_marks_def)

lemma dom_delete: "fst ` set (AList.delete k al) = fst ` set al - {k}"
  by (force simp: AList.delete_eq)

lemma unmark_launch_free [locking_intros]: "free_to_free (unmark_launch callsign)"
  unfolding unmark_launch_def
  by (rule upd_free) (simp_all add: keeping dom_delete Diff_subset)

lemma apps_leaves_free [locking_intros]:
  "free_to_free (removeFactoryModeEasterEggs E)" "free_to_free (destroy_marked E callsign)"
  "free_to_free (lisa_bundle E app)" "free_to_free (packager_bundle E ident)"
  "free_to_free (start_container E client ident bundlePath rsp)"
  unfolding removeFactoryModeEasterEggs_def destroy_marked_def lisa_bundle_def packager_bundle_def
    start_container_def
  by (rule locking_intros upd_free | simp add: keeping)+

lemma destroyWrapper_free [locking_intros]: "free_to_free (destroyWrapper E p)"
proof -
  have marks: "no_new_marks s (t\<lparr>gDestroyApplications := AList.delete c (gDestroyApplications t)\<rparr>)"
    if "no_new_marks (s\<lparr>gDestroyApplications := AList.update c True (gDestroyApplications s)\<rparr>) t"
    for s t :: "('a, 'b) shell" and c
    using that by (auto simp: no_new_marks_def AList.dom_update dom_delete)
  show ?thesis
    unfolding destroyWrapper_def
    by (rule marked_section locking_intros launch_mark_only marks | assumption)+
qed

lemma twice_free [locking_intros]: "free_to_free m \<Longrightarrow> free_to_free (twice m)"
  unfolding twice_def by (rule locking_intros | assumption)+

lemma launch_phases_free [locking_intros]:
  "free_to_free (find_plugins E lo)" "free_to_free (clone_plugin E lo)"
  "free_to_free (configure_plugin E lo)" "free_to_free (activate_plugin E callsign lt)"
  "free_to_free (place_client E p lo)" "free_to_free (watch_state E callsign)"
  "free_to_free (enable_listener callsign)" "free_to_free (show_client E lo visible)"
  unfolding find_plugins_def clone_plugin_def configure_plugin_def activate_plugin_def place_client_def
    watch_state_def enable_listener_def show_client_def
  by (rule locking_intros upd_free upd_held | simp add: keeping)+

lemma launch_parts_free [locking_intros]:
  "free_to_free (set_state E lo lt defer)" "free_to_free (present_client E p lo setState lt)"
  "free_to_free (launch_plugin E p lo newFound)" "free_to_free (launch_marked E p lo)"
  unfolding set_state_def present_client_def launch_plugin_def launch_marked_def
  by (rule locking_intros)+

lemma launchWrapper_free [locking_intros]: "free_to_free (launchWrapper E p)"
proof -
  have marks: "no_new_marks s (t\<lparr>gLaunchApplications := AList.delete c (gLaunchApplications t)\<rparr>)"
    if "no_new_marks (s\<lparr>gLaunchApplications := AList.update c True (gLaunchApplications s)\<rparr>) t"
    for s t :: "('a, 'b) shell" and c
    using that by (auto simp: no_new_marks_def AList.dom_update dom_delete)
  have "free_to_free (do {
      _ \<leftarrow> upd (\<lambda>s. s\<lparr>gLaunchApplications := AList.update (lo_callsign lo) True (gLaunchApplications s)\<rparr>);
      outcome \<leftarrow> launch_marked E p lo;
      _ \<leftarrow> unmark_launch (lo_callsign lo);
      returnResponse (fst outcome) (snd outcome) })" for lo
    unfolding unmark_launch_def
    by (rule marked_section locking_intros launch_mark_only marks | assumption)+
  note whole = this
  show ?thesis
    unfolding launchWrapper_def by (rule whole locking_intros)+
qed

lemma apps_wrappers_free [locking_intros]:
  "free_to_free (suspendWrapper E p)" "free_to_free (suspendApplicationWrapper E p)"
  "free_to_free (resumeApplicationWrapper E p)" "free_to_free (launchApplicationWrapper E p)"
  "free_to_free (killAllApps E b)"
  unfolding suspendWrapper_def suspendApplicationWrapper_def resumeApplicationWrapper_def
    launchApplicationWrapper_def killAllApps_def destroy_state_def will_destroy_def Let_def
  by (rule locking_intros)+

end
