(* ===== verification/Shell_Factory.thy ===== *)
theory Shell_Factory
  imports Shell_Apps
begin

text \<open>
  The factory application: launching it and going back to the resident application, the requests
  that RDKShell serves on threads of their own, and the power state of the system.  Values of
  the persistent store are read by \<open>factory_value\<close> (\<open>None\<close>: the call failed) and set by \<open>call_service\<close>.
\<close>

section \<open>Power state\<close>

definition subscribeForSystemEvent :: "('w, 'd) env \<Rightarrow> ('w, 'd, hresult) prog" where
  "subscribeForSystemEvent E = do {
     st \<leftarrow> read_out (\<lambda>w. shell_state E w ''org.rdk.System'');
     _ \<leftarrow> (if st = Some ACTIVATED then upd (\<lambda>s. s\<lparr>gSystemServiceConnection := True\<rparr>)
          else State_Monad.return ());
     connected \<leftarrow> asks gSystemServiceConnection;
     subscribed \<leftarrow> asks gSystemServiceEventsSubscribed;
     if connected \<and> \<not> subscribed then do {
       status \<leftarrow> call_service E ''Subscribe'' [''org.rdk.System.2'', ''onSystemPowerStateChanged''];
       _ \<leftarrow> (if status = ERROR_NONE then upd (\<lambda>s. s\<lparr>gSystemServiceEventsSubscribed := True\<rparr>)
            else upd (\<lambda>s. s\<lparr>gSystemServiceConnection := False\<rparr>));
       State_Monad.return status
     } else State_Monad.return ERROR_GENERAL
   }"

text \<open>\<^verbatim>\<open>onTimer\<close>: does the timer stop?\<close>

definition onTimer :: "('w, 'd) env \<Rightarrow> ('w, 'd, bool) prog" where
  "onTimer E = do {
     subscribed \<leftarrow> asks gSystemServiceEventsSubscribed;
     if subscribed then State_Monad.return True
     else do { status \<leftarrow> subscribeForSystemEvent E; State_Monad.return (status = ERROR_NONE) }
   }"

definition asleep :: "string \<Rightarrow> bool" where
  "asleep state = (state = ''STANDBY'' \<or> state = ''LIGHT_SLEEP'' \<or> state = ''DEEP_SLEEP'')"

definition pluginEventHandler :: "('w, 'd) env \<Rightarrow> jobject \<Rightarrow> ('w, 'd, unit) prog" where
  "pluginEventHandler E p =
     (if HasLabel p ''powerState'' then
        let powerState = get_string E p ''powerState''; prevState = get_string E p ''currentPowerState'' in do {
          _ \<leftarrow> (if asleep powerState then do {
                 _ \<leftarrow> thunder_invoke E ''org.rdk.RDKShell.1'' ''launchResidentApp'' [(''visible'', JBool False)];
                 State_Monad.return ()
               } else State_Monad.return ());
          if (asleep prevState \<or> prevState = ''OFF'') \<and> powerState = ''ON'' then do {
            _ \<leftarrow> thunder_invoke E ''org.rdk.RDKShell.1'' ''setVisibility''
                  [(''callsign'', JString ''ResidentApp''), (''visible'', JBool True)];
            _ \<leftarrow> plainly_locked E (''getLastKeyPress'', []);
            State_Monad.return ()
          } else State_Monad.return ()
        }
      else State_Monad.return ())"

section \<open>The factory application\<close>

definition factory_egg :: "string \<Rightarrow> 32 word list \<Rightarrow> 'd cc_call" where
  "factory_egg ident codes = (''addEasterEgg'', [Keys (map (\<lambda>c. (c, 0, 0)) codes), Str ident, Uint 10,
     Str (concat [''{'', [CHR 0x22], ''invoke'', [CHR 0x22], '':'', [CHR 0x22],
                  ''org.rdk.RDKShell.1.exitAgingMode'', [CHR 0x22], ''}''])])"

definition addFactoryModeEasterEggs :: "('w, 'd) env \<Rightarrow> ('w, 'd, unit) prog" where
  "addFactoryModeEasterEggs E = do {
     _ \<leftarrow> command E (factory_egg ''AGING_MODE_EXIT1'' [56, 48, 56, 55]);
     _ \<leftarrow> command E (factory_egg ''AGING_MODE_EXIT2'' [38, 38, 40, 40]);
     State_Monad.return ()
   }"

definition set_value :: "('w, 'd) env \<Rightarrow> string \<Rightarrow> string \<Rightarrow> ('w, 'd, hresult) prog" where
  "set_value E key value = call_service E ''SetValue'' [''FactoryTest'', key, value]"

definition set_factory_status :: "factory_status \<Rightarrow> ('w, 'd, unit) prog" where
  "set_factory_status st = upd (\<lambda>s. s\<lparr>sFactoryAppLaunchStatus := st\<rparr>)"

definition factory_refused :: "string \<Rightarrow> jobject \<Rightarrow> ('w, 'd, reply) prog" where
  "factory_refused msg rsp = do {
     _ \<leftarrow> set_factory_status NOTLAUNCHED;
     returnResponse False (with_message msg rsp)
   }"

definition launch_factory :: "('w, 'd) env \<Rightarrow> jobject \<Rightarrow> string \<Rightarrow> ('w, 'd, reply) prog" where
  "launch_factory E p url = do {
     _ \<leftarrow> (if HasLabel p ''resetagingtime'' then set_value E ''AgingTotalTime'' ''0''
          else State_Monad.return ERROR_NONE);
     _ \<leftarrow> killAllApps E True;
     _ \<leftarrow> (if \<not> HasLabel p ''nokillresapp''
          then destroyWrapper E [(''callsign'', JString ''ResidentApp'')]
          else returnResponse True []);
     (_, response) \<leftarrow> launchWrapper E [(''callsign'', JString ''factoryapp''),
        (''type'', JString ''ResidentApp''), (''uri'', JString url), (''focused'', JBool True),
        (''configuration'', JObject [(''uri'', JString url)])];
     if \<not> opt_bool E response ''success'' False
     then factory_refused '' launching factory application failed '' response
     else do {
       _ \<leftarrow> addFactoryModeEasterEggs E;
       _ \<leftarrow> set_value E ''FactoryMode'' ''true'';
       _ \<leftarrow> set_value E ''AllowExit'' ''true'';
       _ \<leftarrow> set_factory_status COMPLETED;
       returnResponse True response
     }
   }"

definition launchFactoryAppWrapper :: "('w, 'd) env \<Rightarrow> jobject \<Rightarrow> ('w, 'd, reply) prog" where
  "launchFactoryAppWrapper E p = do {
     status \<leftarrow> asks sFactoryAppLaunchStatus;
     if status \<noteq> NOTLAUNCHED
     then returnResponse False (with_message '' factory app already running'' [])
     else do {
       _ \<leftarrow> set_factory_status STARTED;
       _ \<leftarrow> subscribeForSystemEvent E;
       aging \<leftarrow> read_out (\<lambda>w. factory_value E w ''AgingState'');
       if opt_bool E p ''startup'' False \<and> aging = None
       then factory_refused '' unable to check aging flag'' []
       else if opt_bool E p ''startup'' False \<and> aging \<noteq> Some ''true''
       then factory_refused '' aging is not set for startup'' []
       else (case factory_app_url E of
               None \<Rightarrow> factory_refused '' factory app url is empty'' []
             | Some url \<Rightarrow> launch_factory E p url)
     }
   }"

definition factory_running :: "('w, 'd, bool) prog" where
  "factory_running = asks (\<lambda>s. map_of (gActivePluginsData s) ''factoryapp'' \<noteq> None)"

definition launchFactoryAppShortcutWrapper :: "('w, 'd) env \<Rightarrow> jobject \<Rightarrow> ('w, 'd, reply) prog" where
  "launchFactoryAppShortcutWrapper E p = do {
     isFactoryAppRunning \<leftarrow> factory_running;
     if isFactoryAppRunning then returnResponse True []
     else do {
       flag \<leftarrow> read_out (\<lambda>w. factory_value E w ''ToFacFlag'');
       case flag of
         None \<Rightarrow> returnResponse False (with_message '' unable to check toFac flag'' [])
       | Some v \<Rightarrow>
           if v \<noteq> ''M'' \<and> v \<noteq> ''m''
           then returnResponse False (with_message '' toFac not in the correct mode'' [])
           else launchFactoryAppWrapper E p
     }
   }"

section \<open>Back to the resident application\<close>

text \<open>The address of the resident application without the adjustment of the power state.\<close>

definition resident_url :: "('w, 'd) env \<Rightarrow> string option \<Rightarrow> string" where
  "resident_url E config =
     (case config of
        None \<Rightarrow> []
      | Some c \<Rightarrow>
          (let url = get_string E (js_FromString (js E) c) ''url'' in
           url @ (if str_find ''?'' url \<noteq> None then ''&'' else ''?'') @ ''adjustPowerStateAtStartup=false''))"

definition show_resident :: "('w, 'd) env \<Rightarrow> jobject \<Rightarrow> ('w, 'd, reply) prog" where
  "show_resident E p = do {
     _ \<leftarrow> setVisibility E ''factoryapp'' False;
     _ \<leftarrow> notify ''onWillDestroy'' [(''callsign'', JString ''factoryapp'')];
     _ \<leftarrow> killAllApps E False;
     _ \<leftarrow> destroyWrapper E [(''callsign'', JString ''factoryapp'')];
     _ \<leftarrow> thunder_invoke E [] ''org.rdk.HdmiInput.1.stopHdmiInput'' [];
     _ \<leftarrow> upd (\<lambda>s. s\<lparr>sForceResidentAppLaunch := True\<rparr>);
     config \<leftarrow> read_out (\<lambda>w. plugin_config E w ''ResidentApp'');
     status \<leftarrow> twice (call_service E ''Activate'' [''ResidentApp'']);
     _ \<leftarrow> (if HasLabel p ''visible'' then setVisibility E ''ResidentApp'' (get_bool E p ''visible'')
          else State_Monad.return False);
     _ \<leftarrow> (if resident_url E config \<noteq> []
          then call_service E ''SetProperty'' [''ResidentApp'', ''url'', resident_url E config]
          else State_Monad.return ERROR_NONE);
     _ \<leftarrow> set_value E ''FactoryMode'' ''false'';
     _ \<leftarrow> upd (\<lambda>s. s\<lparr>sForceResidentAppLaunch := False\<rparr>);
     finish ''resident app launch failed'' [] (status = ERROR_NONE)
   }"

definition launchResidentAppWrapper :: "('w, 'd) env \<Rightarrow> jobject \<Rightarrow> ('w, 'd, reply) prog" where
  "launchResidentAppWrapper E p = do {
     isFactoryAppRunning \<leftarrow> factory_running;
     if \<not> isFactoryAppRunning then returnResponse True []
     else do {
       aging \<leftarrow> read_out (\<lambda>w. factory_value E w ''AgingState'');
       exit \<leftarrow> read_out (\<lambda>w. factory_value E w ''AllowExit'');
       if aging = Some ''true''
       then returnResponse False (with_message '' aging is true, do not exit the factory app'' [])
       else (case exit of
               None \<Rightarrow> returnResponse False (with_message ''factory exit flag not found'' [])
             | Some v \<Rightarrow>
                 if v = ''false''
                 then returnResponse False (with_message ''factory exit flag is false'' [])
                 else show_resident E p)
     }
   }"

text \<open>The reply is that of the handler called, with \<^verbatim>\<open>success\<close> as a truth value.\<close>

definition toggleFactoryAppWrapper :: "('w, 'd) env \<Rightarrow> jobject \<Rightarrow> ('w, 'd, reply) prog" where
  "toggleFactoryAppWrapper E p = do {
     isFactoryAppRunning \<leftarrow> factory_running;
     (_, response) \<leftarrow> (if isFactoryAppRunning then do {
          _ \<leftarrow> upd (\<lambda>s. s\<lparr>sForceResidentAppLaunch := True\<rparr>);
          r \<leftarrow> launchResidentAppWrapper E p;
          _ \<leftarrow> upd (\<lambda>s. s\<lparr>sForceResidentAppLaunch := False\<rparr>);
          State_Monad.return r
        } else launchFactoryAppWrapper E p);
     returnResponse (opt_bool E response ''success'' False) response
   }"

definition exitAgingModeWrapper :: "('w, 'd) env \<Rightarrow> jobject \<Rightarrow> ('w, 'd, reply) prog" where
  "exitAgingModeWrapper E p = do {
     aging \<leftarrow> read_out (\<lambda>w. factory_value E w ''AgingState'');
     case aging of
       None \<Rightarrow> returnResponse False (with_message '' unable to check aging flag'' [])
     | Some v \<Rightarrow>
         if v \<noteq> ''true'' then returnResponse False (with_message '' aging value is not true'' [])
         else do {
           _ \<leftarrow> set_value E ''AgingState'' ''false'';
           _ \<leftarrow> launchResidentAppWrapper E [];
           returnResponse True []
         }
   }"

section \<open>Requests on threads of their own\<close>

text \<open>What the thread of \<^verbatim>\<open>launchRequestThread\<close> does.\<close>

definition serve_request :: "('w, 'd) env \<Rightarrow> string \<Rightarrow> jobject \<Rightarrow> ('w, 'd, unit) prog" where
  "serve_request E name request = do {
     _ \<leftarrow> (if name = ''launchFactoryApp'' then launchFactoryAppWrapper E request
          else if name = ''launchResidentApp'' then launchResidentAppWrapper E request
          else if name = ''toggleFactoryApp'' then toggleFactoryAppWrapper E request
          else if name = ''exitAgingMode'' then exitAgingModeWrapper E request
          else if name = ''launchFactoryAppShortcut'' then launchFactoryAppShortcutWrapper E request
          else if name = ''deactivateresidentapp'' then do {
            status \<leftarrow> call_service E ''Deactivate'' [''ResidentApp''];
            State_Monad.return (status, [])
          } else if name = ''susbscribeSystemEvent'' then do {
            _ \<leftarrow> subscribeForSystemEvent E;
            (_, result) \<leftarrow> thunder_invoke E [] ''org.rdk.System.1.getPowerState'' [(''params'', JObject [])];
            if get_string E result ''powerState'' = ''ON''
            then thunder_invoke E ''org.rdk.RDKShell.1'' ''setVisibility''
                   [(''callsign'', JString ''ResidentApp''), (''visible'', JBool True)]
            else State_Monad.return (ERROR_NONE, [])
          } else thunder_invoke E [] (''org.rdk.RDKShell.1.'' @ name) request);
     State_Monad.return ()
   }"

section \<open>The operations leave the mutex free\<close>

lemma factory_egg_free [locking_intros]: "free_to_free (command E (factory_egg ident codes))"
  unfolding factory_egg_def by (rule locking_intros)

lemma factory_leaves_free [locking_intros]:
  "free_to_free (subscribeForSystemEvent E)" "free_to_free (addFactoryModeEasterEggs E)"
  "free_to_free (set_value E key value)" "free_to_free (set_factory_status st)"
  "free_to_free (factory_refused msg rsp)" "free_to_free factory_running"
  unfolding subscribeForSystemEvent_def addFactoryModeEasterEggs_def set_value_def set_factory_status_def
    factory_refused_def factory_running_def
  by (rule locking_intros upd_free | simp add: keeping)+

lemma factory_events_free [locking_intros]:
  "free_to_free (onTimer E)" "free_to_free (pluginEventHandler E p)"
  unfolding onTimer_def pluginEventHandler_def by (rule locking_intros)+

lemma launch_factory_free [locking_intros]: "free_to_free (launch_factory E p url)"
  unfolding launch_factory_def by (rule locking_intros)+

lemma factory_wrappers_free [locking_intros]:
  "free_to_free (launchFactoryAppWrapper E p)" "free_to_free (launchFactoryAppShortcutWrapper E p)"
  "free_to_free (show_resident E p)" "free_to_free (launchResidentAppWrapper E p)"
  "free_to_free (toggleFactoryAppWrapper E p)" "free_to_free (exitAgingModeWrapper E p)"
  "free_to_free (serve_request E name p)"
  unfolding launchFactoryAppWrapper_def launchFactoryAppShortcutWrapper_def show_resident_def
    launchResidentAppWrapper_def toggleFactoryAppWrapper_def exitAgingModeWrapper_def serve_request_def
  by (rule locking_intros upd_free | simp add: keeping)+

end
