(* ===== verification/Shell_Monitor.thy ===== *)
theory Shell_Monitor
  imports Shell_Factory
begin

text \<open>
  What RDKShell hears from others: the framework reports the states of the plugins to
  \<^verbatim>\<open>MonitorClients\<close>, a plugin reports that it was suspended or resumed, and the compositor reports
  to \<^verbatim>\<open>RdkShellListener\<close>.
\<close>

section \<open>The monitor of the plugins\<close>

text \<open>What the monitor asks the shell of a plugin; \<open>ps_failure\<close>: the reason is a failure.\<close>

record plugin_shell =
  ps_callsign :: string
  ps_state :: service_state
  ps_config :: string
  ps_class :: string
  ps_failure :: bool

definition ignoreResidentAppLaunch :: "bool \<Rightarrow> ('w, 'd, bool) prog" where
  "ignoreResidentAppLaunch activated = do {
     block \<leftarrow> asks sFactoryModeBlockResidentApp;
     force \<leftarrow> asks sForceResidentAppLaunch;
     if block \<and> \<not> force then do {
       notFirst \<leftarrow> asks sResidentAppFirstActivated;
       if notFirst then asks (\<lambda>s. sFactoryAppLaunchStatus s \<noteq> NOTLAUNCHED)
       else do {
         _ \<leftarrow> (if activated then upd (\<lambda>s. s\<lparr>sResidentAppFirstActivated := True\<rparr>)
              else State_Monad.return ());
         asks sFactoryModeStart
       }
     } else State_Monad.return False
   }"

definition add_active_plugin :: "plugin_shell \<Rightarrow> ('w, 'd, unit) prog" where
  "add_active_plugin sv =
     upd (\<lambda>s. if map_of (gActivePluginsData s) (ps_callsign sv) = None
       then s\<lparr>gActivePluginsData := omap_put (ps_callsign sv) (ps_class sv) (gActivePluginsData s)\<rparr> else s)"

definition handleInitialize :: "('w, 'd) env \<Rightarrow> plugin_shell \<Rightarrow> ('w, 'd, unit) prog" where
  "handleInitialize E sv =
     (if ps_config sv = [] then State_Monad.return ()
      else
        let serviceConfig = js_FromString (js E) (ps_config sv) in
        if HasLabel serviceConfig ''clientidentifier'' then
          let clientidentifier = get_string E serviceConfig ''clientidentifier'' in do {
            ignored \<leftarrow> (if ps_callsign sv = ''ResidentApp'' then ignoreResidentAppLaunch False
                       else State_Monad.return False);
            if ignored then State_Monad.return ()
            else do {
              exists \<leftarrow> isClientExists E (ps_callsign sv);
              _ \<leftarrow> (if exists then State_Monad.return ()
                   else do {
                     _ \<leftarrow> lock;
                     _ \<leftarrow> upd (\<lambda>s. s\<lparr>gCreateDisplayRequests := gCreateDisplayRequests s @
                            [new_create_request (ps_callsign sv) clientidentifier 0 0 False 0 0]\<rparr>);
                     _ \<leftarrow> unlock;
                     _ \<leftarrow> await_frame E;
                     State_Monad.return ()
                   });
              _ \<leftarrow> plainly_locked E (''addListener'', [Str (ps_callsign sv)]);
              add_active_plugin sv
            }
          }
        else State_Monad.return ())"

definition persistent_store_activated :: "('w, 'd, unit) prog" where
  "persistent_store_activated = do {
     _ \<leftarrow> lock;
     _ \<leftarrow> upd (\<lambda>s. s\<lparr>sPersistentStoreFirstActivated := True\<rparr>);
     unlock
   }"

definition handleActivated :: "plugin_shell \<Rightarrow> ('w, 'd, unit) prog" where
  "handleActivated sv =
     (if ps_callsign sv = ''ResidentApp'' then do {
        ignoreLaunch \<leftarrow> ignoreResidentAppLaunch True;
        if ignoreLaunch
        then external (LaunchRequest ''destroy'' [(''callsign'', JString ''ResidentApp'')])
        else State_Monad.return ()
      } else do {
        first \<leftarrow> asks sPersistentStoreFirstActivated;
        if ps_callsign sv = ''org.rdk.PersistentStore'' \<and> \<not> first then persistent_store_activated
        else if ps_callsign sv = ''org.rdk.System''
        then external (LaunchRequest ''susbscribeSystemEvent'' [])
        else State_Monad.return ()
      })"

text \<open>A deactivation that RDKShell has not asked for is noted; the notification is released.\<close>

definition external_destroy :: "plugin_shell \<Rightarrow> ('w, 'd, unit) prog" where
  "external_destroy sv =
     upd (\<lambda>s. if map_of (gDestroyApplications s) (ps_callsign sv) = None
       then s\<lparr>gExternalDestroyApplications :=
              AList.update (ps_callsign sv) True (gExternalDestroyApplications s)\<rparr> else s)"

definition release_notification :: "plugin_shell \<Rightarrow> ('w, 'd, unit) prog" where
  "release_notification sv =
     upd (\<lambda>s. s\<lparr>gStateNotifications := AList.delete (ps_callsign sv) (gStateNotifications s)\<rparr>)"

text \<open>The reasons for the end of an application: 0 is undefined, 1 a crash, 2 a deactivation.\<close>

definition exit_reason :: "plugin_shell \<Rightarrow> int \<Rightarrow> ('w, 'd, unit) prog" where
  "exit_reason sv reason =
     upd (\<lambda>s. s\<lparr>gApplicationsExitReason := AList.update (ps_callsign sv) reason (gApplicationsExitReason s)\<rparr>)"

definition handleDeactivated :: "plugin_shell \<Rightarrow> ('w, 'd, unit) prog" where
  "handleDeactivated sv = do {
     _ \<leftarrow> external_destroy sv;
     _ \<leftarrow> release_notification sv;
     _ \<leftarrow> exit_reason sv 2;
     if ps_failure sv then exit_reason sv 1 else State_Monad.return ()
   }"

definition forget_plugin :: "plugin_shell \<Rightarrow> ('w, 'd, unit) prog" where
  "forget_plugin sv =
     upd (\<lambda>s. s\<lparr>gActivePluginsData := AList.delete (ps_callsign sv) (gActivePluginsData s),
       gPluginsEventListener := AList.delete (ps_callsign sv) (gPluginsEventListener s),
       gExternalDestroyApplications := AList.delete (ps_callsign sv) (gExternalDestroyApplications s)\<rparr>)"

definition handleDeinitialized :: "('w, 'd) env \<Rightarrow> plugin_shell \<Rightarrow> ('w, 'd, unit) prog" where
  "handleDeinitialized E sv =
     (if ps_config sv = [] then State_Monad.return ()
      else do {
        _ \<leftarrow> (if HasLabel (js_FromString (js E) (ps_config sv)) ''clientidentifier'' then do {
               _ \<leftarrow> lock;
               _ \<leftarrow> upd (\<lambda>s. s\<lparr>gKillClientRequests :=
                      gKillClientRequests s @ [new_kill_request (ps_callsign sv)]\<rparr>);
               _ \<leftarrow> unlock;
               _ \<leftarrow> await_frame E;
               _ \<leftarrow> plainly_locked E (''removeListener'', [Str (ps_callsign sv)]);
               State_Monad.return ()
             } else State_Monad.return ());
        forget_plugin sv
      })"

text \<open>
  The older interface of the framework has one callback for all states.  Its branches are the
  handlers above, except that the reason for the end is noted for every state.
\<close>

definition StateChange :: "('w, 'd) env \<Rightarrow> plugin_shell \<Rightarrow> ('w, 'd, unit) prog" where
  "StateChange E sv = do {
     _ \<leftarrow> (if ps_state sv = DEACTIVATED \<or> ps_state sv = DESTROYED then exit_reason sv 2
          else State_Monad.return ());
     _ \<leftarrow> (if ps_failure sv then exit_reason sv 1 else State_Monad.return ());
     if ps_state sv = ACTIVATION then handleInitialize E sv
     else if ps_state sv = ACTIVATED \<and> ps_callsign sv = ''org.rdk.RDKShell'' then State_Monad.return ()
     else if ps_state sv = ACTIVATED then handleActivated sv
     else if ps_state sv = DEACTIVATION then do {
       _ \<leftarrow> external_destroy sv;
       release_notification sv
     }
     else if ps_state sv = DEACTIVATED then handleDeinitialized E sv
     else State_Monad.return ()
   }"

section \<open>Plugins that report their state\<close>

text \<open>
  \<^verbatim>\<open>StateControlNotification::StateChange\<close> and \<^verbatim>\<open>PluginStateChangeData::onStateChangeEvent\<close>: a launch
  that was deferred is reported now, once.
\<close>

definition state_changed :: "string \<Rightarrow> bool \<Rightarrow> bool \<Rightarrow> ('w, 'd, unit) prog \<Rightarrow> ('w, 'd, unit) prog" where
  "state_changed callsign isSuspended launchEnabled disable = do {
     _ \<leftarrow> (if launchEnabled then do {
            _ \<leftarrow> notify ''onLaunched'' [(''client'', JString callsign),
                   (''launchType'', JString (if isSuspended then ''suspend'' else ''resume''))];
            disable
          } else State_Monad.return ());
     if isSuspended then notify ''onPluginSuspended'' [(''client'', JString callsign)]
     else State_Monad.return ()
   }"

definition control_StateChange :: "string \<Rightarrow> bool \<Rightarrow> ('w, 'd, unit) prog" where
  "control_StateChange callsign isSuspended = do {
     notification \<leftarrow> asks (\<lambda>s. map_of (gStateNotifications s) callsign);
     case notification of
       None \<Rightarrow> State_Monad.return ()
     | Some launchEnabled \<Rightarrow> state_changed callsign isSuspended launchEnabled
         (upd (\<lambda>s. s\<lparr>gStateNotifications := omap_put callsign False (gStateNotifications s)\<rparr>))
   }"

definition onStateChangeEvent :: "('w, 'd) env \<Rightarrow> string \<Rightarrow> jobject \<Rightarrow> ('w, 'd, unit) prog" where
  "onStateChangeEvent E callsign params = do {
     data \<leftarrow> asks (\<lambda>s. map_of (gPluginsEventListener s) callsign);
     case data of
       None \<Rightarrow> State_Monad.return ()
     | Some launchEnabled \<Rightarrow> state_changed callsign (get_bool E params ''suspended'') launchEnabled
         (upd (\<lambda>s. s\<lparr>gPluginsEventListener := omap_put callsign False (gPluginsEventListener s)\<rparr>))
   }"

section \<open>The listener of the compositor\<close>

definition onApplicationLaunched :: "string \<Rightarrow> ('w, 'd, unit) prog" where
  "onApplicationLaunched client = notify ''onApplicationLaunched'' [(''client'', JString client)]"

definition onApplicationConnected :: "string \<Rightarrow> ('w, 'd, unit) prog" where
  "onApplicationConnected client = notify ''onApplicationConnected'' [(''client'', JString client)]"

definition onApplicationDisconnected :: "string \<Rightarrow> ('w, 'd, unit) prog" where
  "onApplicationDisconnected client = notify ''onApplicationDisconnected'' [(''client'', JString client)]"

definition onApplicationTerminated :: "string \<Rightarrow> ('w, 'd, unit) prog" where
  "onApplicationTerminated client = notify ''onApplicationTerminated'' [(''client'', JString client)]"

definition onApplicationFirstFrame :: "string \<Rightarrow> ('w, 'd, unit) prog" where
  "onApplicationFirstFrame client = notify ''onApplicationFirstFrame'' [(''client'', JString client)]"

definition onApplicationSuspended :: "string \<Rightarrow> ('w, 'd, unit) prog" where
  "onApplicationSuspended client = notify ''onApplicationSuspended'' [(''client'', JString client)]"

definition onApplicationResumed :: "string \<Rightarrow> ('w, 'd, unit) prog" where
  "onApplicationResumed client = notify ''onApplicationResumed'' [(''client'', JString client)]"

definition onApplicationActivated :: "string \<Rightarrow> ('w, 'd, unit) prog" where
  "onApplicationActivated client = notify ''onApplicationActivated'' [(''client'', JString client)]"

definition onApplicationFocusChanged :: "string \<Rightarrow> ('w, 'd, unit) prog" where
  "onApplicationFocusChanged client = notify ''onApplicationFocusChanged'' [(''client'', JString client)]"

definition onSizeChangeComplete :: "('w, 'd) env \<Rightarrow> string \<Rightarrow> ('w, 'd, unit) prog" where
  "onSizeChangeComplete E client = notify (EVENT_SIZE_CHANGE_COMPLETE E) [(''client'', JString client)]"

definition onUserInactive :: "('w, 'd) env \<Rightarrow> 'd \<Rightarrow> ('w, 'd, unit) prog" where
  "onUserInactive E minutes =
     notify ''onUserInactivity'' [(''minutes'', JString (double_to_string E minutes))]"

text \<open>The four warnings about memory differ in the name of the event.\<close>

datatype ram_event = LowRamWarning | CriticallyLowRamWarning | LowRamWarningCleared | CriticallyLowRamWarningCleared

fun ram_event_name :: "ram_event \<Rightarrow> string" where
  "ram_event_name LowRamWarning = ''onDeviceLowRamWarning''"
| "ram_event_name CriticallyLowRamWarning = ''onDeviceCriticallyLowRamWarning''"
| "ram_event_name LowRamWarningCleared = ''onDeviceLowRamWarningCleared''"
| "ram_event_name CriticallyLowRamWarningCleared = ''onDeviceCriticallyLowRamWarningCleared''"

definition onDeviceRam :: "ram_event \<Rightarrow> 32 word \<Rightarrow> 32 word \<Rightarrow> 32 word \<Rightarrow> ('w, 'd, unit) prog" where
  "onDeviceRam ev freeKb availableKb usedSwapKb =
     notify (ram_event_name ev) [(''ram'', JNumber (sint freeKb)),
       (''availablememory'', JNumber (sint availableKb)), (''usedswap'', JNumber (sint usedSwapKb))]"

section \<open>Easter eggs and the power key\<close>

definition find_last :: "char \<Rightarrow> string \<Rightarrow> nat option" where
  "find_last c s =
     (if c \<in> set s then Some (length s - 1 - length (takeWhile (\<lambda>x. x \<noteq> c) (rev s))) else None)"

definition call_sign_of :: "string \<Rightarrow> string option" where
  "call_sign_of invoke = map_option (\<lambda>i. take i invoke) (find_last CHR ''.'' invoke)"

definition params_of :: "('w, 'd) env \<Rightarrow> jobject \<Rightarrow> jobject" where
  "params_of E action = (if HasLabel action ''params'' then js_Object (js E) (jget action ''params'') else [])"

text \<open>
  Methods of RDKShell itself are called on another thread; for those of others the mutex is
  released, and their plugin is activated before.
\<close>

definition invoke_action :: "('w, 'd) env \<Rightarrow> jobject \<Rightarrow> ('w, 'd, unit) prog" where
  "invoke_action E action =
     (let invoke = get_string E action ''invoke'' in
      if call_sign_of invoke = Some ''org.rdk.RDKShell.1''
      then external (LaunchRequest (drop 19 invoke) (params_of E action))
      else do {
        _ \<leftarrow> (case call_sign_of invoke of
               None \<Rightarrow> State_Monad.return ERROR_NONE
             | Some callsign \<Rightarrow> call_service E ''Activate'' [callsign]);
        _ \<leftarrow> unlock;
        _ \<leftarrow> thunder_invoke E [] invoke
               (if HasLabel action ''params'' then js_Object (js E) (jget action ''params'')
                else [(''params'', JObject [])]);
        lock
      })"

definition element :: "('w, 'd) env \<Rightarrow> json list \<Rightarrow> nat \<Rightarrow> json" where
  "element E xs i = (if i < length xs then xs ! i else array_beyond E xs i)"

text \<open>One entry to be stored; what it does not name is left from the entry before it.\<close>

definition store_entry ::
  "('w, 'd) env \<Rightarrow> json \<Rightarrow> jobject \<times> string \<times> string \<times> string \<Rightarrow>
   ('w, 'd, jobject \<times> string \<times> string \<times> string) prog" where
  "store_entry E entry vars =
     (case vars of (params0, ns0, key0, value0) \<Rightarrow>
        let setparams = js_Object (js E) entry;
            params = (if HasLabel setparams ''params''
                      then js_Object (js E) (jget setparams ''params'') else params0);
            ns = opt_string E params ''namespace'' ns0;
            key = opt_string E params ''key'' key0;
            value = opt_string E params ''value'' value0 in do {
          _ \<leftarrow> call_service E ''SetValue'' [ns, key, value];
          State_Monad.return (params, ns, key, value)
        })"

definition init_data_count :: "('w, 'd) env \<Rightarrow> json list \<Rightarrow> 32 word" where
  "init_data_count E initData =
     opt_uint E (js_Object (js E) (element E initData 0)) ''initDataSize'' 0"

definition init_action :: "('w, 'd) env \<Rightarrow> jobject \<Rightarrow> ('w, 'd, unit) prog" where
  "init_action E action =
     (let initData = get_array E action ''initData'';
          initDataSizeCount = init_data_count E initData;
          RDklaunch = js_Object (js E) (element E initData (unat initDataSizeCount));
          CallsignValue = opt_string E RDklaunch ''invoke'' [] in do {
        _ \<leftarrow> foldM (\<lambda>i. store_entry E (element E initData i)) [1..<nat (sint initDataSizeCount)] ([], [], [], []);
        if length CallsignValue < 19 then State_Monad.return ()
        else external (LaunchRequest (drop 19 CallsignValue) (params_of E RDklaunch))
      })"

definition onEasterEgg :: "('w, 'd) env \<Rightarrow> string \<Rightarrow> string \<Rightarrow> ('w, 'd, unit) prog" where
  "onEasterEgg E name actionJson = do {
     enabled \<leftarrow> asks mEnableEasterEggs;
     if \<not> enabled then State_Monad.return ()
     else if actionJson = [] then notify ''onEasterEgg'' [(''name'', JString name)]
     else
       let actionObject = js_FromString (js E) actionJson in
       if HasLabel actionObject ''invoke'' then invoke_action E actionObject
       else if HasLabel actionObject ''initData'' then init_action E actionObject
       else State_Monad.return ()
   }"

text \<open>The time since the last press is only printed.\<close>

definition onPowerKey :: "('w, 'd) env \<Rightarrow> ('w, 'd, unit) prog" where
  "onPowerKey E = do {
     (status, joGetResult) \<leftarrow> thunder_invoke E [] ''org.rdk.System.1.getPowerState'' [(''params'', JObject [])];
     if status \<noteq> ERROR_NONE \<or> \<not> HasLabel joGetResult ''powerState'' then State_Monad.return ()
     else do {
       _ \<leftarrow> thunder_invoke E [] ''org.rdk.System.1.setPowerState''
         [(''powerState'', JString (if get_string E joGetResult ''powerState'' = ''ON'' then ''STANDBY'' else ''ON'')),
          (''standbyReason'', JString ''power button pressed'')];
       State_Monad.return ()
     }
   }"

section \<open>All that is heard\<close>

datatype 'd cc_event =
    Launched string | Connected string | Disconnected string | Terminated string | FirstFrame string
  | Suspended string | Resumed string | Activated string | FocusChanged string | SizeChangeComplete string
  | UserInactive 'd
  | DeviceRam ram_event "32 word" "32 word" "32 word"
  | EasterEgg string string
  | PowerKey

fun listener :: "('w, 'd) env \<Rightarrow> 'd cc_event \<Rightarrow> ('w, 'd, unit) prog" where
  "listener E (Launched client) = onApplicationLaunched client"
| "listener E (Connected client) = onApplicationConnected client"
| "listener E (Disconnected client) = onApplicationDisconnected client"
| "listener E (Terminated client) = onApplicationTerminated client"
| "listener E (FirstFrame client) = onApplicationFirstFrame client"
| "listener E (Suspended client) = onApplicationSuspended client"
| "listener E (Resumed client) = onApplicationResumed client"
| "listener E (Activated client) = onApplicationActivated client"
| "listener E (FocusChanged client) = onApplicationFocusChanged client"
| "listener E (SizeChangeComplete client) = onSizeChangeComplete E client"
| "listener E (UserInactive minutes) = onUserInactive E minutes"
| "listener E (DeviceRam ev freeKb availableKb usedSwapKb) = onDeviceRam ev freeKb availableKb usedSwapKb"
| "listener E (EasterEgg name actionJson) = onEasterEgg E name actionJson"
| "listener E PowerKey = onPowerKey E"

datatype monitor_event =
    Initialize plugin_shell
  | ActivatedPlugin plugin_shell
  | Deactivated plugin_shell
  | Deinitialized plugin_shell
  | Changed plugin_shell
  | ControlChanged string bool
  | PluginChanged string jobject

fun monitor :: "('w, 'd) env \<Rightarrow> monitor_event \<Rightarrow> ('w, 'd, unit) prog" where
  "monitor E (Initialize sv) = handleInitialize E sv"
| "monitor E (ActivatedPlugin sv) = handleActivated sv"
| "monitor E (Deactivated sv) = handleDeactivated sv"
| "monitor E (Deinitialized sv) = handleDeinitialized E sv"
| "monitor E (Changed sv) = StateChange E sv"
| "monitor E (ControlChanged callsign isSuspended) = control_StateChange callsign isSuspended"
| "monitor E (PluginChanged callsign params) = onStateChangeEvent E callsign params"

section \<open>The mutex is left as it was\<close>

lemma thunder_held [locking_intros]: "held_to_held (thunder_invoke E c m p)"
  by (auto simp: from_to_def thunder_invoke_def keeping case_prod_unfold Let_def)

lemma call_service_held [locking_intros]: "held_to_held (call_service E f args)"
  by (auto simp: from_to_def call_service_def keeping case_prod_unfold Let_def)

lemma monitor_leaves_free [locking_intros]:
  "free_to_free (ignoreResidentAppLaunch activated)" "free_to_free (add_active_plugin sv)"
  "free_to_free persistent_store_activated" "free_to_free (external_destroy sv)"
  "free_to_free (release_notification sv)" "free_to_free (exit_reason sv r)" "free_to_free (forget_plugin sv)"
  unfolding ignoreResidentAppLaunch_def add_active_plugin_def persistent_store_activated_def
    external_destroy_def release_notification_def exit_reason_def forget_plugin_def
  by (rule locking_intros upd_free upd_held | simp add: keeping)+

lemma monitor_handlers_free [locking_intros]:
  "free_to_free (handleInitialize E sv)" "free_to_free (handleActivated sv)"
  "free_to_free (handleDeactivated sv)" "free_to_free (handleDeinitialized E sv)"
  unfolding handleInitialize_def handleActivated_def handleDeactivated_def handleDeinitialized_def
  by (rule locking_intros upd_held | simp add: keeping)+

lemma state_changed_free [locking_intros]:
  "free_to_free disable \<Longrightarrow> free_to_free (state_changed callsign b launchEnabled disable)"
  unfolding state_changed_def by (rule locking_intros | assumption)+

lemma monitor_free [locking_intros]: "free_to_free (monitor E e)"
  by (cases e)
    (simp_all only: monitor.simps StateChange_def control_StateChange_def onStateChangeEvent_def,
      (rule locking_intros upd_free | simp add: keeping)+)

lemma onEasterEgg_held [locking_intros]: "held_to_held (onEasterEgg E name actionJson)"
  unfolding onEasterEgg_def invoke_action_def init_action_def store_entry_def Let_def
  by (rule locking_intros)+

lemma listener_held [locking_intros]: "held_to_held (listener E e)"
  by (cases e)
    (simp_all only: listener.simps onApplicationLaunched_def onApplicationConnected_def
      onApplicationDisconnected_def onApplicationTerminated_def onApplicationFirstFrame_def
      onApplicationSuspended_def onApplicationResumed_def onApplicationActivated_def
      onApplicationFocusChanged_def onSizeChangeComplete_def onUserInactive_def onDeviceRam_def onPowerKey_def,
      (rule locking_intros)+)

end
