(* ===== verification/Shell_Methods.thy ===== *)
theory Shell_Methods
  imports Shell_Monitor
begin

text \<open>
  The methods RDKShell registers in its constructor, and what holds of all of them: which calls
  of the compositor are made under the mutex, what marks stay, and what an incomplete request
  does.  The interleaving of requests, threads that serve requests, reports of the framework and
  frames of the render thread is a run of \<open>shell_step\<close>.
\<close>

section \<open>The table of methods\<close>

text \<open>The methods in the order of their registration.\<close>

definition shell_methods :: "('w, 'd) env \<Rightarrow> (string \<times> (jobject \<Rightarrow> ('w, 'd, reply) prog)) list" where
  "shell_methods E =
     [(''moveToFront'', moveToFrontWrapper E), (''moveToBack'', moveToBackWrapper E),
      (''moveBehind'', moveBehindWrapper E), (''setFocus'', setFocusWrapper E),
      (''getFocused'', getFocusedWrapper E), (''kill'', killWrapper E),
      (''addKeyIntercept'', addKeyInterceptWrapper E),
      (''addKeyIntercepts'', addKeyInterceptsWrapper E),
      (''removeKeyIntercept'', removeKeyInterceptWrapper E),
      (''addKeyListener'', addKeyListenersWrapper E),
      (''removeKeyListener'', removeKeyListenersWrapper E),
      (''addKeyMetadataListener'', addKeyMetadataListenerWrapper E),
      (''removeKeyMetadataListener'', removeKeyMetadataListenerWrapper E),
      (''injectKey'', injectKeyWrapper E), (''generateKey'', generateKeyWrapper E),
      (''getScreenResolution'', getScreenResolutionWrapper E),
      (''setScreenResolution'', setScreenResolutionWrapper E),
      (''createDisplay'', createDisplayWrapper E), (''getClients'', getClientsWrapper E),
      (''getZOrder'', getZOrderWrapper E), (''getBounds'', getBoundsWrapper E),
      (''setBounds'', setBoundsWrapper E), (''getVisibility'', getVisibilityWrapper E),
      (''setVisibility'', setVisibilityWrapper E), (''getOpacity'', getOpacityWrapper E),
      (''setOpacity'', setOpacityWrapper E), (''getScale'', getScaleWrapper E),
      (''setScale'', setScaleWrapper E), (''getHolePunch'', getHolePunchWrapper E),
      (''setHolePunch'', setHolePunchWrapper E), (''getLogLevel'', getLogLevelWrapper E),
      (''setLogLevel'', setLogLevelWrapper E), (''showSplashLogo'', showSplashLogoWrapper E),
      (''hideSplashLogo'', hideSplashLogoWrapper E),
      (''removeAnimation'', removeAnimationWrapper E), (''addAnimation'', addAnimationWrapper E),
      (''enableInactivityReporting'', enableInactivityReportingWrapper E),
      (''setInactivityInterval'', setInactivityIntervalWrapper E),
      (''resetInactivityTime'', resetInactivityTimeWrapper E),
      (''scaleToFit'', scaleToFitWrapper E), (''launch'', launchWrapper E),
      (''launchApplication'', launchApplicationWrapper E), (''suspend'', suspendWrapper E),
      (''suspendApplication'', suspendApplicationWrapper E),
      (''resumeApplication'', resumeApplicationWrapper E), (''destroy'', destroyWrapper E),
      (''getAvailableTypes'', getAvailableTypesWrapper E),
      (''getState'', getState E), (''getSystemMemory'', getSystemMemoryWrapper E),
      (''getSystemResourceInfo'', getSystemResourceInfoWrapper E),
      (''setMemoryMonitor'', setMemoryMonitorWrapper E),
      (''showWatermark'', showWatermarkWrapper E),
      (''showFullScreenImage'', showFullScreenImageWrapper E),
      (''hideFullScreenImage'', hideFullScreenImageWrapper E),
      (''launchFactoryApp'', launchFactoryAppWrapper E),
      (''launchFactoryAppShortcut'', launchFactoryAppShortcutWrapper E),
      (''launchResidentApp'', launchResidentAppWrapper E),
      (''toggleFactoryApp'', toggleFactoryAppWrapper E), (''exitAgingMode'', exitAgingModeWrapper E),
      (''enableKeyRepeats'', enableKeyRepeatsWrapper E),
      (''getKeyRepeatsEnabled'', getKeyRepeatsEnabledWrapper E),
      (''setTopmost'', setTopmostWrapper E),
      (''getVirtualResolution'', getVirtualResolutionWrapper E),
      (''setVirtualResolution'', setVirtualResolutionWrapper E),
      (''enableVirtualDisplay'', enableVirtualDisplayWrapper E),
      (''getVirtualDisplayEnabled'', getVirtualDisplayEnabledWrapper E),
      (''getLastWakeupKey'', getLastWakeupKeyWrapper E),
      (''hideAllClients'', hideAllClientsWrapper E), (''getScreenshot'', getScreenshotWrapper),
      (''enableEasterEggs'', enableEasterEggsWrapper E),
      (''enableLogsFlushing'', enableLogsFlushingWrapper E),
      (''getLogsFlushingEnabled'', getLogsFlushingEnabledWrapper E),
      (''ignoreKeyInputs'', ignoreKeyInputsWrapper E), (''showCursor'', showCursorWrapper E),
      (''hideCursor'', hideCursorWrapper E), (''getCursorSize'', getCursorSizeWrapper E),
      (''setCursorSize'', setCursorSizeWrapper E), (''addEasterEggs'', addEasterEggsWrapper E),
      (''removeEasterEggs'', removeEasterEggsWrapper E),
      (''getEasterEggs'', getEasterEggsWrapper E),
      (''enableInputEvents'', enableInputEventsWrapper E),
      (''keyRepeatConfig'', keyRepeatConfigWrapper E),
      (''getGraphicsFrameRate'', getGraphicsFrameRateWrapper E),
      (''setGraphicsFrameRate'', setGraphicsFrameRateWrapper E),
      (''setAVBlocked'', setAVBlockedWrapper E),
      (''getBlockedAVApplications'', getBlockedAVApplicationsWrapper E)]"

definition shell_handler :: "('w, 'd) env \<Rightarrow> string \<Rightarrow> (jobject \<Rightarrow> ('w, 'd, reply) prog) option" where
  "shell_handler E m = map_of (shell_methods E) m"

lemma shell_methods_free: "list_all (\<lambda>(m, h). \<forall>p. free_to_free (h p)) (shell_methods E)"
  unfolding shell_methods_def list.pred_inject(2) prod.case
  by (intro conjI allI list.pred_inject(1); rule locking_intros)

lemma shell_handler_free: "shell_handler E m = Some h \<Longrightarrow> free_to_free (h p)"
  using shell_methods_free[of E] map_of_SomeD[of "shell_methods E" m h]
  by (auto simp: shell_handler_def list_all_iff)

lemma distinct_methods: "distinct (map fst (shell_methods E))"
  by (simp add: shell_methods_def)

section \<open>Requests and frames\<close>

text \<open>
  What happens to the plugin: a request, a thread started for a request, a report of the framework
  or of a plugin, a change of the power state, the timer, a callback of the compositor, or a frame.
  The compositor calls back from the calls that the render thread makes, hence with the mutex held.
\<close>

datatype 'd shell_event =
    Request string jobject
  | Thread string jobject
  | Monitored monitor_event
  | PowerState jobject
  | Timer
  | Callback "'d cc_event"
  | Frame

definition callback :: "('w, 'd) env \<Rightarrow> 'd cc_event \<Rightarrow> ('w, 'd, unit) prog" where
  "callback E e = do { _ \<leftarrow> lock; _ \<leftarrow> listener E e; unlock }"

definition shell_step :: "('w, 'd) env \<Rightarrow> 'd shell_event \<Rightarrow> ('w, 'd) shell \<Rightarrow> ('w, 'd) shell" where
  "shell_step E e s =
     (case e of
        Request m p \<Rightarrow>
          (case shell_handler E m of None \<Rightarrow> s | Some h \<Rightarrow> snd (run_state (h p) s))
      | Thread name p \<Rightarrow> snd (run_state (serve_request E name p) s)
      | Monitored ev \<Rightarrow> snd (run_state (monitor E ev) s)
      | PowerState p \<Rightarrow> snd (run_state (pluginEventHandler E p) s)
      | Timer \<Rightarrow> snd (run_state (onTimer E) s)
      | Callback ev \<Rightarrow> snd (run_state (callback E ev) s)
      | Frame \<Rightarrow> snd (run_state (render_frame E) s))"

text \<open>
  What holds between events: the mutex is free and no application is marked as being launched or
  destroyed, unless the thread has died; every call recorded was made with the mutex held (but
  for the functions in \<open>unguarded\<close>), the render thread is kept running, and nobody waits for ever.
\<close>

definition disciplined :: "('w, 'd) shell \<Rightarrow> bool" where
  "disciplined s =
     ((running s \<longrightarrow> \<not> sh_mutex s \<and> gLaunchApplications s = [] \<and> gDestroyApplications s = []) \<and>
      list_all guarded (sh_calls s) \<and> rendering s \<and> sh_status s \<noteq> Blocked)"

lemma free_to_free_disciplined:
  assumes "free_to_free m" "disciplined s"
  shows "disciplined (snd (run_state m s))"
proof (cases "running s")
  case True
  then have "\<not> sh_mutex s" using assms(2) by (simp add: disciplined_def)
  from from_to_rel[OF assms(1) True this] from_to_post[OF assms(1) True this] assms(2)
  show ?thesis by (auto simp: disciplined_def progress_def no_new_marks_def)
next
  case False
  then show ?thesis using from_to_dead[OF assms(1) False] assms(2) by simp
qed

lemma callback_free: "free_to_free (callback E e)"
  unfolding callback_def by (rule locking_intros)+

interpretation shell: machine "shell_step E" disciplined for E
proof
  fix s :: "('a, 'b) shell" and e
  assume s: "disciplined s"
  show "disciplined (shell_step E e s)"
  proof (cases e)
    case (Request m p)
    then show ?thesis
      by (cases "shell_handler E m")
        (auto simp: shell_step_def s intro: free_to_free_disciplined shell_handler_free)
  qed (simp add: shell_step_def, rule free_to_free_disciplined[OF _ s], rule locking_intros callback_free)+
qed

lemma shell_init_disciplined: "disciplined (shell_init w rate)"
  by (simp add: disciplined_def shell_init_def rendering_def)

lemma disciplined_run: "disciplined (fold (shell_step E) es (shell_init w rate))"
  by (rule shell.run_inv[OF shell_init_disciplined])



text \<open>
  C3: no mark of a launch or a destruction is left behind: after any sequence of events, as long as
  no thread has died, no application is marked, so that a later launch or destruction of any
  application is not refused because of an earlier one.
\<close>

theorem no_marks_left:
  "sh_status (fold (shell_step E) es (shell_init w rate)) = Running \<and>
     gLaunchApplications (fold (shell_step E) es (shell_init w rate)) = [] \<and>
     gDestroyApplications (fold (shell_step E) es (shell_init w rate)) = [] \<or>
   sh_status (fold (shell_step E) es (shell_init w rate)) = Thrown \<or>
   sh_status (fold (shell_step E) es (shell_init w rate)) = Crashed"
  using disciplined_run[of E es w rate] unfolding disciplined_def
  by (cases "sh_status (fold (shell_step E) es (shell_init w rate))") simp_all

section \<open>Incomplete requests\<close>

definition refuses :: "('w, 'd, reply) prog \<Rightarrow> bool" where
  "refuses m = (\<forall>s. \<exists>rsp. run_state m s = ((ERROR_GENERAL, rsp), s) \<and>
     jget rsp ''success'' = JBool False \<and> HasLabel rsp ''message'')"

lemma refuses_when_ok: "\<not> fst rr \<Longrightarrow> HasLabel (snd rr) ''message'' \<Longrightarrow> refuses (when_ok rr body)"
  by (simp add: refuses_def when_ok_def)

lemma refuses_if: "c \<Longrightarrow> HasLabel rsp ''message'' \<Longrightarrow> refuses (if c then returnResponse False rsp else m)"
  by (simp add: refuses_def)

lemma need_fails: "fst (need c msg rr) = (c \<and> fst rr)"
  and need_message: "HasLabel (snd (need c msg rr)) ''message'' = (\<not> c \<or> HasLabel (snd rr) ''message'')"
  by (simp_all add: need_def with_message_def)

text \<open>
  The parameters that the methods of the table ask for: of each list, one has to be there.
\<close>

abbreviation a_client :: "string list" where
  "a_client \<equiv> [''client'', ''callsign'']"

definition required_parameters :: "(string \<times> string list list) list" where
  "required_parameters =
     [(''moveToFront'', [a_client]), (''moveToBack'', [a_client]),
      (''moveBehind'', [a_client, [''target'']]), (''setFocus'', [a_client]), (''kill'', [a_client]),
      (''addKeyIntercept'', [a_client, [''keyCode'']]), (''addKeyIntercepts'', [[''intercepts'']]),
      (''removeKeyIntercept'', [a_client, [''keyCode'']]), (''addKeyListener'', [a_client, [''keys'']]),
      (''removeKeyListener'', [a_client, [''keys'']]), (''addKeyMetadataListener'', [a_client]),
      (''removeKeyMetadataListener'', [a_client]), (''injectKey'', [[''keyCode'']]),
      (''generateKey'', [[''keys'']]), (''setScreenResolution'', [[''w''], [''h'']]),
      (''createDisplay'', [a_client]), (''getBounds'', [a_client]), (''setBounds'', [a_client]),
      (''getVisibility'', [a_client]), (''setVisibility'', [a_client, [''visible'']]),
      (''getOpacity'', [a_client]), (''setOpacity'', [a_client, [''opacity'']]),
      (''getScale'', [a_client]), (''setScale'', [a_client, [''sx'', ''sy'']]),
      (''getHolePunch'', [a_client]), (''setHolePunch'', [a_client, [''holePunch'']]),
      (''setLogLevel'', [[''logLevel'']]), (''showSplashLogo'', [[''displayTime'']]),
      (''removeAnimation'', [a_client]), (''scaleToFit'', [a_client]),
      (''launchApplication'', [[''client''], [''uri''], [''mimeType'']]),
      (''suspendApplication'', [[''client'']]), (''resumeApplication'', [[''client'']]),
      (''suspend'', [[''callsign'']]), (''destroy'', [[''callsign'']]),
      (''setMemoryMonitor'', [[''enable'']]), (''showFullScreenImage'', [[''path'']]),
      (''enableKeyRepeats'', [[''enable'']]), (''setTopmost'', [a_client, [''topmost'']]),
      (''getVirtualResolution'', [a_client]), (''setVirtualResolution'', [a_client]),
      (''getVirtualDisplayEnabled'', [a_client]), (''hideAllClients'', [[''hide'']]),
      (''enableEasterEggs'', [[''enable'']]), (''enableLogsFlushing'', [[''enable'']]),
      (''ignoreKeyInputs'', [[''ignore'']]), (''setCursorSize'', [[''width''], [''height'']]),
      (''addEasterEggs'', [[''keySequence''], [''id''], [''duration''], [''api'']]),
      (''enableInputEvents'', [[''clients''], [''enable'']]), (''setGraphicsFrameRate'', [[''framerate'']])]"

definition refusal :: "('w, 'd) env \<Rightarrow> jobject \<Rightarrow> string \<times> string list list \<Rightarrow> bool" where
  "refusal E p mr =
     (list_ex (list_all (\<lambda>k. \<not> HasLabel p k)) (snd mr) \<longrightarrow>
      (case shell_handler E (fst mr) of None \<Rightarrow> False | Some h \<Rightarrow> refuses (h p)))"

lemma refusalI:
  assumes "(m, h) \<in> set (shell_methods E)"
    and "list_ex (list_all (\<lambda>k. \<not> HasLabel p k)) required \<Longrightarrow> refuses (h p)"
  shows "refusal E p (m, required)"
  using assms(2) map_of_is_SomeI[OF distinct_methods assms(1)] by (simp add: refusal_def shell_handler_def)

lemma refusals: "list_all (refusal E p) required_parameters"
proof -
  note wrappers = moveToFrontWrapper_def moveToBackWrapper_def moveBehindWrapper_def setFocusWrapper_def
    killWrapper_def addKeyInterceptWrapper_def addKeyInterceptsWrapper_def
    removeKeyInterceptWrapper_def addKeyListenersWrapper_def removeKeyListenersWrapper_def
    addKeyMetadataListenerWrapper_def removeKeyMetadataListenerWrapper_def injectKeyWrapper_def
    generateKeyWrapper_def setScreenResolutionWrapper_def createDisplayWrapper_def
    getBoundsWrapper_def setBoundsWrapper_def getVisibilityWrapper_def setVisibilityWrapper_def
    getOpacityWrapper_def setOpacityWrapper_def getScaleWrapper_def setScaleWrapper_def
    getHolePunchWrapper_def setHolePunchWrapper_def setLogLevelWrapper_def showSplashLogoWrapper_def
    removeAnimationWrapper_def scaleToFitWrapper_def setMemoryMonitorWrapper_def
    showFullScreenImageWrapper_def enableKeyRepeatsWrapper_def setTopmostWrapper_def
    getVirtualResolutionWrapper_def setVirtualResolutionWrapper_def
    getVirtualDisplayEnabledWrapper_def hideAllClientsWrapper_def enableEasterEggsWrapper_def
    enableLogsFlushingWrapper_def ignoreKeyInputsWrapper_def setCursorSizeWrapper_def
    addEasterEggsWrapper_def enableInputEventsWrapper_def setGraphicsFrameRateWrapper_def
    launchApplicationWrapper_def suspendApplicationWrapper_def resumeApplicationWrapper_def
    suspendWrapper_def destroyWrapper_def
  show ?thesis
    unfolding required_parameters_def list.pred_inject(2)
    by (intro conjI list.pred_inject(1);
        rule refusalI, unfold shell_methods_def, (rule list.set_intros(1) | rule list.set_intros(2))+,
        unfold wrappers, (rule refuses_when_ok | rule refuses_if))
      (auto simp: need_fails need_message has_client_def with_message_def)
qed

text \<open>
  C14: a request of a method of the table that lacks one of the parameters it needs is refused
  with \<^verbatim>\<open>ERROR_GENERAL\<close>, a message and \<^verbatim>\<open>success\<close> false, and changes nothing: no call of the
  compositor, no request to the render thread.
\<close>

theorem missing_parameter:
  assumes "(m, required) \<in> set required_parameters" "alternatives \<in> set required"
    and "list_all (\<lambda>k. \<not> HasLabel p k) alternatives"
  shows "\<exists>h rsp. shell_handler E m = Some h \<and> run_state (h p) s = ((ERROR_GENERAL, rsp), s) \<and>
    jget rsp ''success'' = JBool False \<and> HasLabel rsp ''message''"
proof -
  have "refusal E p (m, required)"
    using refusals[of E p] assms(1) by (simp add: list_all_iff)
  moreover have "list_ex (list_all (\<lambda>k. \<not> HasLabel p k)) required"
    using assms(2,3) by (auto simp: list_ex_iff)
  ultimately show ?thesis by (auto simp: refusal_def refuses_def split: option.splits)
qed

lemma missing_parameter_witness:
  "\<exists>h rsp. shell_handler plain_env ''kill'' = Some h \<and>
     run_state (h [(''id'', JNumber 1)]) (shell_init [''a''] 40) = ((ERROR_GENERAL, rsp), shell_init [''a''] 40) \<and>
     jget rsp ''success'' = JBool False \<and> HasLabel rsp ''message''"
  by (rule missing_parameter[of _ "[a_client]" a_client]) (simp_all add: required_parameters_def)

end
