(* ===== verification/Shell_Contract.thy ===== *)
theory Shell_Contract
  imports Shell_Clients
begin

text \<open>
  RDKShell as a registry of clients: creating displays and killing clients, each through the
  render thread, refine operations on a set of names.  What is relied on is the contract of the
  compositor about its list of clients.
\<close>

section \<open>The contract of the compositor\<close>

text \<open>
  How a call changes the set of clients: a display that was created adds the client's name in
  lower case, a client that was killed is removed, and nothing else changes the set.
\<close>

definition clients_after :: "'d cc_call \<Rightarrow> bool \<Rightarrow> string set \<Rightarrow> string set" where
  "clients_after c ok S =
     (case c of
        (f, Str x # args) \<Rightarrow>
          (if ok \<and> f = ''createDisplay'' then insert (toLower x) S
           else if ok \<and> f = ''kill'' then S - {toLower x} else S)
      | _ \<Rightarrow> S)"

definition clients :: "('w, 'd) env \<Rightarrow> 'w \<Rightarrow> string set" where
  "clients E w = set (out_clients E w)"

definition client_contract :: "('w, 'd) env \<Rightarrow> bool" where
  "client_contract E =
     (\<forall>c w. clients E (snd (cc E c w)) = clients_after c (fst (cc E c w)) (clients E w))"

lemma contract_step:
  "client_contract E \<Longrightarrow> clients E (snd (cc E c w)) = clients_after c (fst (cc E c w)) (clients E w)"
  unfolding client_contract_def by blast

lemma plain_client_contract: "client_contract plain_env"
proof -
  have "clients plain_env (snd (plain_cc c w)) = clients_after c (fst (plain_cc c w)) (clients plain_env w)" for c w
    by (auto simp: clients_def plain_cc_def clients_after_def split: prod.splits list.splits arg.splits)
  then show ?thesis by (simp add: client_contract_def)
qed

definition harmless :: "'d cc_call \<Rightarrow> bool" where
  "harmless c = (fst c \<noteq> ''createDisplay'' \<and> fst c \<noteq> ''kill'')"

lemma clients_after_harmless: "harmless c \<Longrightarrow> clients_after c ok S = S"
  by (auto simp: clients_after_def harmless_def split: prod.splits list.splits arg.splits)

lemma clients_harmless:
  "client_contract E \<Longrightarrow> list_all harmless cs \<Longrightarrow> clients E (snd (run_calls E cs w)) = clients E w"
  by (induction cs arbitrary: w)
    (auto simp: client_contract_def clients_after_harmless case_prod_unfold Let_def)

section \<open>Operations on the set of clients\<close>

datatype client_op =
    Create string string "32 word" "32 word" bool "32 word" "32 word" bool bool
  | Kill string

fun client_prog :: "('w, 'd) env \<Rightarrow> client_op \<Rightarrow> ('w, 'd, bool) prog" where
  "client_prog E (Create client name w h virtual vw vh topmost focus) =
     createDisplay E client name w h virtual vw vh topmost focus"
| "client_prog E (Kill client) = kill E client"

fun client_ops :: "('w, 'd) env \<Rightarrow> client_op list \<Rightarrow> ('w, 'd, bool list) prog" where
  "client_ops E [] = State_Monad.return []"
| "client_ops E (op # ops) =
     do { r \<leftarrow> client_prog E op; rs \<leftarrow> client_ops E ops; State_Monad.return (r # rs) }"

text \<open>
  The abstract registry: what an operation with a given answer does to the set, and which
  answers it may give.
\<close>

fun set_step :: "client_op \<Rightarrow> bool \<Rightarrow> string set \<Rightarrow> string set" where
  "set_step (Create client _ _ _ _ _ _ _ _) ok S = (if ok then insert (toLower client) S else S)"
| "set_step (Kill client) ok S = (if ok then S - {toLower client} else S)"

fun set_allows :: "client_op \<Rightarrow> bool \<Rightarrow> string set \<Rightarrow> bool" where
  "set_allows (Create client _ _ _ _ _ _ _ _) ok S = (ok \<longrightarrow> toLower client \<notin> S)"
| "set_allows (Kill client) ok S = True"

fun set_run :: "client_op list \<Rightarrow> bool list \<Rightarrow> string set \<Rightarrow> string set \<Rightarrow> bool" where
  "set_run (op # ops) (ok # oks) S S' = (set_allows op ok S \<and> set_run ops oks (set_step op ok S) S')"
| "set_run [] [] S S' = (S' = S)"
| "set_run _ _ S S' = False"

text \<open>The plugin between two operations, with its render thread running.\<close>

definition idle :: "('w, 'd) shell \<Rightarrow> bool" where
  "idle s = (running s \<and> \<not> sh_mutex s \<and> gCurrentFramerate s \<noteq> 0 \<and> isRunning s \<and> sRunning s \<and>
     nothing_pending s)"

lemma createDisplay_step:
  assumes contract: "client_contract E" and s: "idle s"
    and op: "op = Create client name w h virtual vw vh topmost focus"
  shows "\<exists>ok t. run_state (client_prog E op) s = (ok, t) \<and> idle t \<and> set_allows op ok (clients E (sh_world s)) \<and>
    clients E (sh_world t) = set_step op ok (clients E (sh_world s))"
proof -
  let ?w = "snd (cc E get_clients_call (sh_world s))" and ?add = "(''addListener'', [Str client]) :: 'b cc_call"
  have s': "running s" "\<not> sh_mutex s" "gCurrentFramerate s \<noteq> 0" "isRunning s" "sRunning s"
    "gCreateDisplayRequests s = []" "nothing_pending s"
    using s by (simp_all add: idle_def nothing_pending_def)
  have same: "set (out_clients E ?w) = clients E (sh_world s)"
    using clients_harmless[OF contract, of "[get_clients_call]" "sh_world s"]
    by (simp add: harmless_def get_clients_call_def clients_def case_prod_unfold Let_def)
  show ?thesis
  proof (cases "toLower client \<in> clients E (sh_world s)")
    case True
    define t where "t = s\<lparr>sh_world := snd (run_calls E [get_clients_call, ?add] (sh_world s)),
      sh_calls := sh_calls s @ [(True, get_clients_call), (True, ?add)]\<rparr>"
    have "run_state (isClientExists E client) s = (True, s\<lparr>sh_world := ?w,
        sh_calls := sh_calls s @ [(True, get_clients_call)]\<rparr>)"
      using True same unfolding run_isClientExists[OF s'(1,2)] by (simp add: s'(6) Let_def)
    then have "run_state (client_prog E op) s = (False, t)"
      using s'(1,2) by (simp add: op createDisplay_def t_def case_prod_unfold Let_def unlock_free)
    moreover have "clients E (sh_world t) = clients E (sh_world s)"
      using clients_harmless[OF contract, of "[get_clients_call, ?add]" "sh_world s"]
      by (simp add: t_def harmless_def get_clients_call_def)
    moreover have "idle t" using s by (simp add: t_def idle_def nothing_pending_def)
    ultimately show ?thesis by (intro exI[of _ False] exI[of _ t]) (simp add: op)
  next
    case False
    let ?r = "new_create_request client name w h virtual vw vh"
    let ?c = "create_call ?r :: 'b cc_call"
    have frame: "frame_calls (requested E ?r s) = [?c, (''draw'', []), (''update'', [])]"
      using s'(7) by (simp add: frame_calls_def requested_def nothing_pending_def flag_calls_def shot_calls_def)
    from run_createDisplay[OF s'(1-4) _ _ refl, of client E name w h virtual vw vh topmost focus]
    obtain t where t: "run_state (createDisplay E client name w h virtual vw vh topmost focus) s =
        (answers E (frame_calls (requested E ?r s)) (requested E ?r s) ! length (gCreateDisplayRequests s), t)"
      "running t" "\<not> sh_mutex t" "nothing_pending t" "isRunning t = sRunning s" "sRunning t = sRunning s"
      "gCurrentFramerate t = gCurrentFramerate s"
      "sh_world t = snd (run_calls E (get_clients_call # frame_calls (requested E ?r s) @ [?add]) (sh_world s))"
      using False same by (auto simp: s'(6))
    have ok: "answers E (frame_calls (requested E ?r s)) (requested E ?r s) ! length (gCreateDisplayRequests s) =
        fst (cc E ?c ?w)"
      by (simp add: frame answers_Cons s'(6)) (simp add: requested_def)
    have "clients E (sh_world t) = clients E (snd (cc E ?c ?w))"
      using clients_harmless[OF contract, of "[(''draw'', []), (''update'', []), ?add]" "snd (cc E ?c ?w)"]
      by (simp add: t(8) frame harmless_def case_prod_unfold Let_def)
    also have "\<dots> = clients_after ?c (fst (cc E ?c ?w)) (clients E (sh_world s))"
      using contract_step[OF contract, of ?c ?w] same by (simp add: clients_def)
    also have "\<dots> = set_step op (fst (cc E ?c ?w)) (clients E (sh_world s))"
      by (simp add: op clients_after_def create_call_def new_create_request_def)
    finally have after: "clients E (sh_world t) = set_step op (fst (cc E ?c ?w)) (clients E (sh_world s))" .
    show ?thesis
      using t(1)[unfolded ok] t(2-7) s' False after
      by (intro exI[of _ "fst (cc E ?c ?w)"] exI[of _ t]) (simp add: op idle_def)
  qed
qed

lemma kill_step:
  assumes contract: "client_contract E" and s: "idle s"
  shows "\<exists>ok t. run_state (client_prog E (Kill client)) s = (ok, t) \<and> idle t \<and>
    clients E (sh_world t) = set_step (Kill client) ok (clients E (sh_world s))"
proof -
  let ?remove = "(''removeListener'', [Str client]) :: 'b cc_call" and ?kill = "(''kill'', [Str client]) :: 'b cc_call"
  let ?w = "snd (cc E ?remove (sh_world s))"
  have s': "running s" "\<not> sh_mutex s" "gCurrentFramerate s \<noteq> 0" "isRunning s" "nothing_pending s"
    using s by (simp_all add: idle_def)
  from run_kill[OF s' refl, of E client] obtain t where t:
    "run_state (kill E client) s = (fst (cc E ?kill ?w), t)" "running t" "\<not> sh_mutex t" "nothing_pending t"
    "isRunning t = sRunning s" "sRunning t = sRunning s" "gCurrentFramerate t = gCurrentFramerate s"
    "sh_world t = snd (run_calls E [?remove, ?kill, (''draw'', []), (''update'', [])] (sh_world s))"
    by blast
  have "clients E (sh_world t) = clients E (snd (cc E ?kill ?w))"
    using clients_harmless[OF contract, of "[(''draw'', []), (''update'', [])]" "snd (cc E ?kill ?w)"]
    by (simp add: t(8) harmless_def case_prod_unfold Let_def)
  also have "\<dots> = clients_after ?kill (fst (cc E ?kill ?w)) (clients E ?w)"
    by (rule contract_step[OF contract])
  also have "clients E ?w = clients E (sh_world s)"
    using clients_harmless[OF contract, of "[?remove]" "sh_world s"]
    by (simp add: harmless_def case_prod_unfold Let_def)
  finally show ?thesis using t s by (simp add: clients_after_def idle_def)
qed

text \<open>
  C8: after any sequence of displays created and clients killed, the set of clients is the one
  the answers tell: an operation that reports success has added or removed exactly its client,
  one that reports failure has changed nothing, and a display is never created for a client that
  already exists.  Nothing is left pending.
\<close>

theorem clients_refine_registry:
  assumes "client_contract E" "idle s"
  shows "\<exists>oks t. run_state (client_ops E ops) s = (oks, t) \<and> idle t \<and>
    set_run ops oks (clients E (sh_world s)) (clients E (sh_world t))"
  using assms(2)
proof (induction ops arbitrary: s)
  case Nil
  then show ?case by simp
next
  case (Cons op ops)
  have "\<exists>ok t. run_state (client_prog E op) s = (ok, t) \<and> idle t \<and> set_allows op ok (clients E (sh_world s)) \<and>
    clients E (sh_world t) = set_step op ok (clients E (sh_world s))"
  proof (cases op)
    case (Create client name w h virtual vw vh topmost focus)
    then show ?thesis by (rule createDisplay_step[OF assms(1) Cons.prems])
  next
    case (Kill client)
    then show ?thesis using kill_step[OF assms(1) Cons.prems, of client] by simp
  qed
  then obtain ok t where t: "run_state (client_prog E op) s = (ok, t)" "idle t"
    "set_allows op ok (clients E (sh_world s))" "clients E (sh_world t) = set_step op ok (clients E (sh_world s))"
    by blast
  from Cons.IH[OF t(2)] obtain oks u where "run_state (client_ops E ops) t = (oks, u)" "idle u"
    "set_run ops oks (clients E (sh_world t)) (clients E (sh_world u))" by blast
  with t show ?case by simp
qed

lemma clients_refine_registry_witness:
  "\<exists>oks t. run_state (client_ops plain_env [Create ''YouTube'' [] 0 0 False 0 0 False False, Kill ''YouTube''])
     (shell_init [''netflix''] 40) = (oks, t) \<and> idle t \<and>
     set_run [Create ''YouTube'' [] 0 0 False 0 0 False False, Kill ''YouTube''] oks {''netflix''}
       (clients plain_env (sh_world t))"
  using clients_refine_registry[OF plain_client_contract, of "shell_init [''netflix''] 40"
      "[Create ''YouTube'' [] 0 0 False 0 0 False False, Kill ''YouTube'']"]
  by (simp add: idle_def shell_init_def nothing_pending_def clients_def)

end
