(* ===== verification/Shell_Life.thy ===== *)
theory Shell_Life
  imports Shell_Monitor
begin

text \<open>
  What is kept of the applications: which were reported as launched, which are active, being
  launched or destroyed, which notifications wait.  The operations on windows and the render
  thread leave all of it alone; on this rest the properties of launching and destroying.
\<close>

section \<open>The life cycle is left alone by everything below it\<close>

definition launches :: "('w, 'd) shell \<Rightarrow> (string \<times> jobject) list" where
  "launches s = filter (\<lambda>e. fst e = ''onLaunched'') (sh_events s)"

definition life where
  "life s = (launches s, gActivePluginsData s, gDestroyApplications s, gExternalDestroyApplications s,
     gLaunchApplications s, gStateNotifications s, gPluginsEventListener s, sFactoryAppLaunchStatus s,
     sForceResidentAppLaunch s, sResidentAppFirstActivated s)"

lemma launches_init [simp]: "launches (shell_init w rate) = []"
  by (simp add: launches_def shell_init_def)

named_theorems life_intros \<open>programs that keep a part of the state\<close>

abbreviation keeps :: "(('w, 'd) shell \<Rightarrow> 'x) \<Rightarrow> ('w, 'd, 'a) prog \<Rightarrow> bool" where
  "keeps f \<equiv> from_to (\<lambda>s. True) (\<lambda>s. True) (\<lambda>s. True) (\<lambda>s t. f t = f s)"

interpretation kept: stepping "\<lambda>s. True" "\<lambda>s t. f t = f s" for f
  by unfold_locales simp_all

lemmas kept_composing [life_intros] =
  kept.return_from_to kept.bind_from_to kept.if_from_to kept.option_from_to kept.prod_from_to
  kept.let_from_to kept.foldM_from_to

lemma keepsI: "(\<And>s. f (snd (run_state m s)) = f s) \<Longrightarrow> keeps f m"
  by (simp add: from_to_def)

lemma keepsD: "keeps f m \<Longrightarrow> run_state m s = (x, t) \<Longrightarrow> f t = f s"
  unfolding from_to_def by (metis snd_conv)

lemma keeps_asks [life_intros]: "keeps f (asks g)"
  by (simp add: from_to_def)

lemma keeps_read_out [life_intros]: "keeps f (read_out g)"
  by (simp add: from_to_def)

lemma keeps_upd: "(\<And>s. f (g s) = f s) \<Longrightarrow> keeps f (upd g)"
  by (simp add: from_to_def)

lemma keeps_primitives [life_intros]:
  "keeps life lock" "keeps life lockRdkShellMutex" "keeps life unlock" "keeps life (command E c)"
  "keeps life (external x)" "keeps life (thunder_invoke E cs m p)" "keeps life (call_service E g args)"
  by (rule keepsI; simp add: life_def launches_def thunder_invoke_def call_service_def case_prod_unfold Let_def)+

lemma keeps_notify [life_intros]:
  "event \<noteq> ''onLaunched'' \<Longrightarrow> keeps life (notify event ps)"
  by (rule keepsI) (simp add: life_def launches_def)

lemma keeps_critical [life_intros]:
  "keeps life (locked E c)" "keeps life (plainly_locked E c)"
  "keeps life (locked_get E c out)" "keeps life (plainly_locked_get E c out)"
  unfolding locked_def plainly_locked_def locked_get_def plainly_locked_get_def by (rule life_intros)+

lemma keeps_returnResponse [life_intros]: "keeps f (returnResponse b r)"
  by (rule keepsI) simp

lemma keeps_finish [life_intros]: "keeps f (finish m r b)"
  unfolding finish_def by (rule life_intros)

lemma keeps_when_ok [life_intros]: "(\<And>r. keeps f (body r)) \<Longrightarrow> keeps f (when_ok rr body)"
  unfolding when_ok_def by (rule life_intros | assumption)+

lemma keeps_render_frame [life_intros]: "keeps life (render_frame E)"
  unfolding render_frame_def check_persistent_store_def factory_start_def factory_check_def
    checkForBootupFactoryAppLaunch_def factory_launch_def serve_creates_def serve_create_def
    serve_kills_def serve_kill_def serve_flags_def serve_screenshot_def onScreenCapture_def
    serve_tasks_def serve_task_def
  by (rule life_intros keeps_upd | simp add: life_def launches_def split: option.split)+

lemma keeps_await_frame [life_intros]: "keeps life (await_frame E)"
  unfolding await_frame_def by (rule life_intros keeps_upd | simp add: life_def launches_def)+

lemma keeps_render_requests [life_intros]:
  "keeps life (isClientExists E client)"
  "keeps life (createDisplay E client name w h virtual vw vh topmost focus)" "keeps life (kill E client)"
  unfolding isClientExists_def createDisplay_def kill_def
  by (rule life_intros keeps_upd | simp add: life_def launches_def)+

lemma keeps_if_client [life_intros]: "keeps life (if_client E client c)"
  unfolding if_client_def by (rule life_intros)+

lemma keeps_windows [life_intros]:
  "keeps life (moveBehind E client target)" "keeps life (setFocus E client)"
  "keeps life (setBounds E client r)" "keeps life (setScale E client x y)"
  "keeps life (setVisibility E client visible)" "keeps life (setHolePunch E client hole)"
  "keeps life (setTopmost E client topmost focus)" "keeps life (setAVBlocked E client blockAV)"
  unfolding moveBehind_def setFocus_def tell_focus_def setBounds_def setScale_def setVisibility_def
    setHolePunch_def setTopmost_def setAVBlocked_def
  by (rule life_intros keeps_upd | simp add: life_def launches_def)+

lemma keeps_part: "keeps life m \<Longrightarrow> (\<And>s t. life t = life s \<Longrightarrow> f t = f s) \<Longrightarrow> keeps f m"
  unfolding from_to_def by blast

lemma keeps_launches [life_intros]: "keeps life m \<Longrightarrow> keeps launches m"
  by (rule keeps_part) (simp_all add: life_def)

lemma running_before: "free_to_free m \<Longrightarrow> run_state m s = (x, t) \<Longrightarrow> running t \<Longrightarrow> running s"
  using from_to_dead[of running "\<lambda>s. \<not> sh_mutex s" "\<lambda>s. \<not> sh_mutex s" progress m s] by fastforce

section \<open>A launch is reported once\<close>

text \<open>The notification that will report the launch later.\<close>

definition awaits :: "('w, 'd) shell \<Rightarrow> string \<Rightarrow> bool" where
  "awaits s callsign = (map_of (gStateNotifications s) callsign = Some True \<or>
     map_of (gPluginsEventListener s) callsign = Some True)"

lemma omap_put_here [simp]: "map_of (omap_put k v m) k = Some v"
  by (induction k v m rule: omap_put.induct) auto

lemma keeps_awaits: "keeps life m \<Longrightarrow> keeps (\<lambda>s. awaits s callsign) m"
  by (rule keeps_part) (simp_all add: life_def awaits_def)

lemma keeps_phases [life_intros]:
  "keeps life (find_plugins E lo)" "keeps life (clone_plugin E lo)"
  "keeps life (configure_plugin E lo)" "keeps life (activate_plugin E callsign lt)"
  "keeps life (place_client E p lo)" "keeps life (show_client E lo visible)"
  unfolding find_plugins_def clone_plugin_def configure_plugin_def activate_plugin_def place_client_def
    show_client_def twice_def
  by (rule life_intros keeps_upd | simp add: life_def launches_def)+

lemma watch_state_launches [life_intros]: "keeps launches (watch_state E callsign)"
  and enable_listener_launches [life_intros]: "keeps launches (enable_listener callsign)"
  unfolding watch_state_def enable_listener_def
  by (rule life_intros keeps_upd | simp add: launches_def)+

lemma present_client_launches [life_intros]: "keeps launches (present_client E p lo setState lt)"
  unfolding present_client_def set_state_def by (rule life_intros)+

lemma watch_state_awaits:
  "run_state (watch_state E callsign) s = (True, t) \<Longrightarrow> running t \<Longrightarrow> awaits t callsign"
  by (auto simp: watch_state_def awaits_def split: if_splits)

lemma enable_listener_awaits:
  "run_state (enable_listener callsign) s = (b, t) \<Longrightarrow> running t \<Longrightarrow>
   b \<or> awaits s callsign \<Longrightarrow> awaits t callsign"
  by (auto simp: enable_listener_def awaits_def split: if_splits)

lemma set_state_awaits:
  assumes run: "run_state (set_state E lo lt defer) s = ((lt', defer', status), t)"
    and t: "running t" and s: "defer \<Longrightarrow> awaits s (lo_callsign lo)" and d: "defer'"
  shows "awaits t (lo_callsign lo)"
proof -
  obtain b s1 where en: "run_state (if lt = UNKNOWN then enable_listener (lo_callsign lo) else State_Monad.return False) s = (b, s1)"
    by (metis prod.exhaust)
  let ?call = "call_service E ''SetProperty'' [lo_callsign lo, ''state'', if lo_suspend lo then ''suspended'' else ''resumed'']"
  obtain st where call: "run_state ?call s1 = (st, t)" and defer': "defer' = (defer \<or> b)"
    using run en by (auto simp: set_state_def split: prod.splits)
  have s1: "running s1" by (rule running_before[OF _ call t]) (rule locking_intros)
  have "awaits s1 (lo_callsign lo)"
    using en enable_listener_awaits[OF _ s1, of "lo_callsign lo" s b] s d defer' by (auto split: if_splits)
  then show ?thesis using keepsD[OF keeps_awaits call] by (simp add: life_intros)
qed

lemma present_client_awaits:
  assumes run: "run_state (present_client E p lo setState lt) s = ((lt', True, status), t)" and t: "running t"
  shows "awaits t (lo_callsign lo)"
proof -
  let ?visible = "if setState \<and> lo_suspend lo then False else lo_visible lo"
  obtain s1 where s1: "run_state (place_client E p lo) s = ((), s1)" by (metis prod.exhaust old.unit.exhaust)
  obtain d s2 where s2: "run_state (watch_state E (lo_callsign lo)) s1 = (d, s2)" by (metis prod.exhaust)
  let ?set = "if setState then set_state E lo lt d else State_Monad.return (lt, d, ERROR_NONE)"
  obtain lt1 d1 st s3 where s3: "run_state ?set s2 = ((lt1, d1, st), s3)" by (metis prod.exhaust)
  let ?finish = "do { _ \<leftarrow> show_client E lo ?visible;
     status \<leftarrow> (if lo_uri lo \<noteq> [] then call_service E ''SetProperty'' [lo_callsign lo, ''url'', lo_uri lo]
               else State_Monad.return st);
     State_Monad.return status }"
  have "run_state ?finish s3 = (status, t)" and d1: "d1"
    using run s1 s2 s3 by (auto simp: present_client_def split: prod.splits)
  note fin = this(1)
  have s3r: "running s3" by (rule running_before[OF _ fin t]) (rule locking_intros)+
  have s2r: "running s2" by (rule running_before[OF _ s3 s3r]) (rule locking_intros)+
  have "d \<Longrightarrow> awaits s2 (lo_callsign lo)" using s2 watch_state_awaits[OF _ s2r] by auto
  then have "awaits s3 (lo_callsign lo)"
    using s3 d1 set_state_awaits[OF _ s3r, of E lo lt d s2 lt1 d1 st] by (auto split: if_splits)
  moreover have "keeps (\<lambda>s. awaits s (lo_callsign lo)) ?finish"
    by (rule keeps_awaits) (rule life_intros)+
  ultimately show ?thesis using keepsD[OF _ fin, of "\<lambda>s. awaits s (lo_callsign lo)"] by simp
qed

text \<open>The report of a launch of the given type, now or by a notification that waits.\<close>

definition reported :: "string \<Rightarrow> launch_type \<Rightarrow> ('w, 'd) shell \<Rightarrow> ('w, 'd) shell \<Rightarrow> bool" where
  "reported callsign lt s t =
     (launches t = launches s @ [(''onLaunched'', [(''client'', JString callsign),
        (''launchType'', JString (launch_type_string lt))])] \<or>
      launches t = launches s \<and> awaits t callsign \<and> (lt = SUSPEND \<or> lt = RESUME))"

lemma launch_plugin_reports:
  assumes run: "run_state (launch_plugin E p lo newFound) s = ((result, rsp), t)" and t: "running t"
  shows "if result then \<exists>lt. rsp = [(''launchType'', JString (launch_type_string lt))] \<and> reported (lo_callsign lo) lt s t
    else launches t = launches s"
proof -
  let ?clone = "if newFound then State_Monad.return () else clone_plugin E lo"
  let ?prepare = "do { _ \<leftarrow> ?clone; _ \<leftarrow> configure_plugin E lo;
    activate_plugin E (lo_callsign lo) (if newFound then UNKNOWN else CREATE) }"
  define setState where "setState = (\<not> (lo_type lo = ''Netflix'' \<and> \<not> newFound \<and> \<not> lo_suspend lo))"
  obtain lt status s1 where s1: "run_state ?prepare s = ((lt, status), s1)" by (metis prod.exhaust)
  have l1: "launches s1 = launches s" by (rule keepsD[OF _ s1]) (rule life_intros)+
  have bind: "launch_plugin E p lo newFound = do { ls \<leftarrow> ?prepare;
      if snd ls \<noteq> ERROR_NONE then State_Monad.return (False, [])
      else do {
        (lt, defer, status) \<leftarrow> present_client E p lo setState (fst ls);
        if status \<noteq> ERROR_NONE then State_Monad.return (False, [])
        else do {
          _ \<leftarrow> (if setState \<and> defer \<and> (lt = SUSPEND \<or> lt = RESUME) then State_Monad.return ()
               else onLaunched (lo_callsign lo) (launch_type_string lt));
          State_Monad.return (True, [(''launchType'', JString (launch_type_string lt))])
        } } }"
    by (simp add: launch_plugin_def setState_def case_prod_unfold cong: if_cong)
  obtain lt2 later status2 s2 where s2: "run_state (present_client E p lo setState lt) s1 = ((lt2, later, status2), s2)"
    by (metis prod.exhaust)
  have l2: "launches s2 = launches s1" by (rule keepsD[OF _ s2]) (rule life_intros)+
  show ?thesis
  proof (cases "status = ERROR_NONE \<and> status2 = ERROR_NONE")
    case False
    then have "\<not> result \<and> (t = s1 \<or> t = s2)"
      using run s2 unfolding bind run_bind[OF s1] by (auto split: if_splits)
    then show ?thesis using l1 l2 by auto
  next
    case True
    let ?deferred = "setState \<and> later \<and> (lt2 = SUSPEND \<or> lt2 = RESUME)"
    have last: "run_state (do { _ \<leftarrow> (if ?deferred then State_Monad.return ()
               else onLaunched (lo_callsign lo) (launch_type_string lt2));
          State_Monad.return (True, [(''launchType'', JString (launch_type_string lt2))]) }) s2 = ((result, rsp), t)"
      using run True unfolding bind run_bind[OF s1] by (simp add: s2)
    have s2r: "running s2" by (rule running_before[OF _ last t]) (rule locking_intros)+
    have "result \<and> rsp = [(''launchType'', JString (launch_type_string lt2))]"
      using last by (auto split: if_splits prod.splits)
    moreover have "reported (lo_callsign lo) lt2 s t"
    proof (cases ?deferred)
      case True
      then have "t = s2" using last by simp
      with True show ?thesis
        using present_client_awaits[OF _ s2r, of E p lo setState lt s1 lt2 status2] s2 l1 l2
        by (simp add: reported_def)
    next
      case False
      then show ?thesis
        using last s2r l1 l2 by (auto simp: reported_def onLaunched_def launches_def)
    qed
    ultimately show ?thesis by auto
  qed
qed

lemma keeps_marks [life_intros]:
  "keeps launches (upd (\<lambda>s. s\<lparr>gLaunchApplications := m s\<rparr>))" "keeps launches (unmark_launch callsign)"
  "keeps (\<lambda>s. awaits s x) (upd (\<lambda>s. s\<lparr>gLaunchApplications := m s\<rparr>))"
  "keeps (\<lambda>s. awaits s x) (unmark_launch callsign)"
  unfolding unmark_launch_def by (rule keeps_upd; simp add: launches_def awaits_def)+

lemma launch_marked_reports:
  assumes run: "run_state (launch_marked E p lo) s = ((result, rsp), t)" and t: "running t"
  shows "if result then \<exists>lt. rsp = [(''launchType'', JString (launch_type_string lt))] \<and> reported (lo_callsign lo) lt s t
    else launches t = launches s \<and> HasLabel rsp ''message''"
proof -
  let ?before = "do { erm \<leftarrow> asks mErmEnabled;
     _ \<leftarrow> (if HasLabel p ''blockAV'' \<and> erm
          then setAVBlocked E (lo_callsign lo) (get_bool E p ''blockAV'') else State_Monad.return False);
     find_plugins E lo }"
  obtain newFound original s1 where s1: "run_state ?before s = ((newFound, original), s1)" by (metis prod.exhaust)
  have l1: "launches s1 = launches s" by (rule keepsD[OF _ s1]) (rule life_intros)+
  have bind: "launch_marked E p lo = do { found \<leftarrow> ?before;
      if \<not> fst found \<and> \<not> snd found
      then State_Monad.return (False, with_message ''failed to launch application.  type not found'' [])
      else do { (result, rsp) \<leftarrow> launch_plugin E p lo (fst found);
        State_Monad.return (result, if result then rsp else with_message ''failed to launch application'' rsp) } }"
    by (simp add: launch_marked_def case_prod_unfold)
  show ?thesis
  proof (cases "newFound \<or> original")
    case False
    then show ?thesis using run l1 unfolding bind run_bind[OF s1] by (auto simp: with_message_def)
  next
    case True
    obtain r rsp' where plug: "run_state (launch_plugin E p lo newFound) s1 = ((r, rsp'), t)"
      "result = r" "rsp = (if r then rsp' else with_message ''failed to launch application'' rsp')"
      using run True unfolding bind run_bind[OF s1] by (auto split: prod.splits)
    show ?thesis
      using launch_plugin_reports[OF plug(1) t] plug(2,3) l1 by (auto simp: with_message_def reported_def)
  qed
qed



end
