(* ===== verification/Shell_Outcomes.thy ===== *)
theory Shell_Outcomes
  imports Shell_Life
begin

text \<open>
  What remains when an application is destroyed, when the factory application was launched or
  not, and when a plugin goes through its life as the framework reports it.
\<close>

section \<open>Destroying\<close>

text \<open>The state after the application was hidden, which is the first thing \<^verbatim>\<open>destroy\<close> does.\<close>

definition hidden :: "('w, 'd) env \<Rightarrow> string \<Rightarrow> ('w, 'd) shell \<Rightarrow> ('w, 'd) shell" where
  "hidden E callsign s = snd (run_state (setVisibility E callsign False) s)"

lemma hidden_fields:
  assumes "running s" "\<not> sh_mutex s"
  shows "running (hidden E c s)" "\<not> sh_mutex (hidden E c s)" "sh_events (hidden E c s) = sh_events s"
    "life (hidden E c s) = life s" "gLaunchApplications (hidden E c s) = gLaunchApplications s"
    "gDestroyApplications (hidden E c s) = gDestroyApplications s"
    "sFactoryModeStart (hidden E c s) = sFactoryModeStart s"
  using assms unfolding hidden_def run_setVisibility[OF assms refl] by (simp_all add: life_def launches_def)

lemma delete_marked: "map_of al k = None \<Longrightarrow> AList.delete k (AList.update k v al) = al"
proof (induction al)
  case (Cons x al)
  then show ?case by (cases x) (auto simp: AList.delete_eq split: if_splits)
qed (simp add: AList.delete_eq)

definition egg_gone :: "string \<Rightarrow> 'd cc_call" where
  "egg_gone name = (''removeEasterEgg'', [Str name])"

abbreviation factory_eggs_gone :: "'d cc_call list" where
  "factory_eggs_gone \<equiv> [egg_gone ''AGING_MODE_EXIT1'', egg_gone ''AGING_MODE_EXIT2'']"

lemma run_destroy_marked:
  fixes E :: "('w, 'd) env" and callsign :: string
  assumes "running s"
  defines "w \<equiv> snd (service_call E ''Deactivate'' [callsign] (sh_world s))"
    and "result \<equiv> fst (service_call E ''Deactivate'' [callsign] (sh_world s)) = ERROR_NONE"
  shows "run_state (destroy_marked E callsign) s = (result,
    (if \<not> result then s\<lparr>sh_world := w, sh_ext := sh_ext s @ [ServiceCall ''Deactivate'' [callsign]]\<rparr>
     else if callsign \<noteq> ''factoryapp''
     then s\<lparr>sh_world := w, sh_ext := sh_ext s @ [ServiceCall ''Deactivate'' [callsign]],
       sh_events := sh_events s @ [(''onDestroyed'', [(''client'', JString callsign)])]\<rparr>
     else s\<lparr>sh_world := snd (run_calls E factory_eggs_gone w),
       sh_calls := sh_calls s @ map (Pair (sh_mutex s)) factory_eggs_gone,
       sh_ext := sh_ext s @ [ServiceCall ''Deactivate'' [callsign]],
       sh_events := sh_events s @ [(''onDestroyed'', [(''client'', JString callsign)])],
       sFactoryModeStart := False, sFactoryAppLaunchStatus := NOTLAUNCHED\<rparr>))"
proof -
  let ?t = "s\<lparr>sh_world := w, sh_ext := sh_ext s @ [ServiceCall ''Deactivate'' [callsign]]\<rparr>"
  have call: "run_state (call_service E ''Deactivate'' [callsign]) s =
      (fst (service_call E ''Deactivate'' [callsign] (sh_world s)), ?t)"
    using assms(1) by (simp add: run_call_service w_def)
  show ?thesis
  proof (cases result)
    case False
    then show ?thesis unfolding destroy_marked_def run_bind[OF call] by (simp add: result_def)
  next
    case True
    then have ok: "fst (service_call E ''Deactivate'' [callsign] (sh_world s)) = ERROR_NONE" by (simp add: result_def)
    show ?thesis
    proof (cases "callsign = ''factoryapp''")
      case False
      then show ?thesis using True assms(1) unfolding destroy_marked_def run_bind[OF call] ok
        by (simp add: onDestroyed_def)
    next
      case fac: True
      then show ?thesis using True assms(1) unfolding destroy_marked_def run_bind[OF call] ok
        by (simp add: onDestroyed_def removeFactoryModeEasterEggs_def egg_gone_def case_prod_unfold Let_def)
    qed
  qed
qed

lemma destroy_marked_fields:
  assumes "running s" and run: "run_state (destroy_marked E callsign) s = (r, u)"
  shows "r = (fst (service_call E ''Deactivate'' [callsign] (sh_world s)) = ERROR_NONE)"
    and "sh_ext u = sh_ext s @ [ServiceCall ''Deactivate'' [callsign]]"
    and "sh_events u = sh_events s @ (if r then [(''onDestroyed'', [(''client'', JString callsign)])] else [])"
    and "gDestroyApplications u = gDestroyApplications s" "gLaunchApplications u = gLaunchApplications s"
    and "running u"
    and "sFactoryAppLaunchStatus u = (if r \<and> callsign = ''factoryapp'' then NOTLAUNCHED else sFactoryAppLaunchStatus s)"
    and "sFactoryModeStart u = (if r \<and> callsign = ''factoryapp'' then False else sFactoryModeStart s)"
  using run_destroy_marked[OF assms(1), of E callsign] assms(1) unfolding run by (auto split: if_splits)



section \<open>The factory application\<close>

text \<open>What holds of the answer and the state in which a program ends, if its thread is alive.\<close>

definition ends :: "('a \<Rightarrow> ('w, 'd) shell \<Rightarrow> bool) \<Rightarrow> ('w, 'd, 'a) prog \<Rightarrow> bool" where
  "ends Q m = (\<forall>s. running (snd (run_state m s)) \<longrightarrow> Q (fst (run_state m s)) (snd (run_state m s)))"

lemma ends_composing:
  "(\<And>x. ends Q (k x)) \<Longrightarrow> ends Q (State_Monad.bind first k)"
  "ends Q m \<Longrightarrow> ends Q n \<Longrightarrow> ends Q (if b then m else n)"
  "ends Q m \<Longrightarrow> (\<And>x. ends Q (f x)) \<Longrightarrow> ends Q (case z of None \<Rightarrow> m | Some x \<Rightarrow> f x)"
  "(\<And>x y. ends Q (g x y)) \<Longrightarrow> ends Q (case w of (x, y) \<Rightarrow> g x y)"
  by (auto simp: ends_def case_prod_unfold split: option.split)

definition factory_outcome :: "reply \<Rightarrow> ('w, 'd) shell \<Rightarrow> bool" where
  "factory_outcome r t =
     (fst r = ERROR_NONE \<and> sFactoryAppLaunchStatus t = COMPLETED \<or>
      fst r = ERROR_GENERAL \<and> sFactoryAppLaunchStatus t = NOTLAUNCHED)"

lemma factory_ends:
  "ends factory_outcome (factory_refused msg rsp)"
  "ends factory_outcome (do { _ \<leftarrow> set_factory_status COMPLETED; returnResponse True rsp })"
  by (simp_all add: ends_def factory_outcome_def factory_refused_def set_factory_status_def)

lemma launch_factory_ends: "ends factory_outcome (launch_factory E p url)"
  unfolding launch_factory_def by (rule factory_ends ends_composing)+

text \<open>
  C6: a request for the factory application is refused and changes nothing while one is under way
  or has succeeded.  Otherwise it ends, whatever fails on the way, in one of two states: launched,
  and the reply is success, or not launched, and the reply is an error.  It never stays started, so
  that a later request is not blocked by a failure.
\<close>

theorem launchFactoryApp_outcome:
  assumes "running (snd (run_state (launchFactoryAppWrapper E p) s))"
  shows "if sFactoryAppLaunchStatus s \<noteq> NOTLAUNCHED
    then fst (fst (run_state (launchFactoryAppWrapper E p) s)) = ERROR_GENERAL \<and>
      snd (run_state (launchFactoryAppWrapper E p) s) = s
    else factory_outcome (fst (run_state (launchFactoryAppWrapper E p) s))
      (snd (run_state (launchFactoryAppWrapper E p) s))"
proof (cases "sFactoryAppLaunchStatus s = NOTLAUNCHED")
  case True
  let ?rest = "do {
    _ \<leftarrow> set_factory_status STARTED;
    _ \<leftarrow> subscribeForSystemEvent E;
    aging \<leftarrow> read_out (\<lambda>w. factory_value E w ''AgingState'');
    if opt_bool E p ''startup'' False \<and> aging = None
    then factory_refused '' unable to check aging flag'' []
    else if opt_bool E p ''startup'' False \<and> aging \<noteq> Some ''true''
    then factory_refused '' aging is not set for startup'' []
    else (case factory_app_url E of
            None \<Rightarrow> factory_refused '' factory app url is empty'' []
          | Some url \<Rightarrow> launch_factory E p url) }"
  have "run_state (launchFactoryAppWrapper E p) s = run_state ?rest s"
    using True by (simp add: launchFactoryAppWrapper_def)
  moreover have "ends factory_outcome ?rest" by (rule factory_ends launch_factory_ends ends_composing)+
  ultimately show ?thesis using True assms by (simp add: ends_def)
next
  case False
  then show ?thesis by (simp add: launchFactoryAppWrapper_def)
qed

definition factory_env :: "(string list, int) env" where
  "factory_env = plain_env\<lparr>factory_app_url := Some ''http''\<rparr>"

lemma launchFactoryApp_outcome_witness:
  "sFactoryAppLaunchStatus (snd (run_state (launchFactoryAppWrapper factory_env []) (shell_init [''ResidentApp''] 40)))
   = COMPLETED"
proof -
  let ?run = "run_state (launchFactoryAppWrapper factory_env []) (shell_init [''ResidentApp''] 40)"
  have "running (snd ?run)" "fst (fst ?run) = ERROR_NONE" by code_simp+
  moreover have "sFactoryAppLaunchStatus (shell_init [''ResidentApp''] 40 :: (string list, int) shell) = NOTLAUNCHED"
    by (simp add: shell_init_def)
  ultimately show ?thesis using launchFactoryApp_outcome[of factory_env "[]" "shell_init [''ResidentApp''] 40"]
    by (simp add: factory_outcome_def)
qed

section \<open>A deferred launch\<close>

definition changes :: "string \<Rightarrow> bool list \<Rightarrow> ('w, 'd, unit) prog" where
  "changes callsign states = foldM (\<lambda>b _. control_StateChange callsign b) states ()"

lemma control_reported:
  "running s \<Longrightarrow> map_of (gStateNotifications s) callsign = Some b \<Longrightarrow>
   running (snd (run_state (control_StateChange callsign x) s)) \<and>
   map_of (gStateNotifications (snd (run_state (control_StateChange callsign x) s))) callsign = Some False \<and>
   launches (snd (run_state (control_StateChange callsign x) s)) = launches s @
     (if b then [(''onLaunched'', [(''client'', JString callsign),
        (''launchType'', JString (if x then ''suspend'' else ''resume''))])] else [])"
  by (simp add: control_StateChange_def state_changed_def launches_def)

lemma run_changes:
  "snd (run_state (changes callsign (x # xs)) s) =
     snd (run_state (changes callsign xs) (snd (run_state (control_StateChange callsign x) s)))"
  by (simp add: changes_def case_prod_unfold)

lemma changes_reported:
  "running s \<Longrightarrow> map_of (gStateNotifications s) callsign = Some False \<Longrightarrow>
   launches (snd (run_state (changes callsign states) s)) = launches s"
proof (induction states arbitrary: s)
  case (Cons x states)
  then show ?case
    using control_reported[OF Cons.prems, of x] by (simp add: run_changes)
qed (simp add: changes_def)

text \<open>
  a launch that was deferred is reported by the first change of state that the application
  reports, with the type that goes with the new state, and by no later one.
\<close>

theorem deferred_launch_reported_once:
  assumes "running s" "map_of (gStateNotifications s) callsign = Some True"
  shows "launches (snd (run_state (changes callsign (suspended # states)) s)) = launches s @
    [(''onLaunched'', [(''client'', JString callsign),
       (''launchType'', JString (if suspended then ''suspend'' else ''resume''))])]"
  using control_reported[OF assms, of suspended] unfolding run_changes
  by (subst changes_reported) simp_all

lemma deferred_launch_reported_once_witness:
  "launches (snd (run_state (changes ''netflix'' [True, False, True])
     ((shell_init [''netflix''] 40)\<lparr>gStateNotifications := [(''netflix'', True)]\<rparr>))) =
   [(''onLaunched'', [(''client'', JString ''netflix''), (''launchType'', JString ''suspend'')])]"
  using deferred_launch_reported_once[of "(shell_init [''netflix''] 40)\<lparr>gStateNotifications := [(''netflix'', True)]\<rparr>"
      "''netflix''" True "[False, True]"]
  by (simp add: shell_init_def launches_def)

section \<open>The life of a plugin as the framework reports it\<close>

text \<open>What is kept of one call sign.\<close>

definition record_of :: "string \<Rightarrow> ('w, 'd) shell \<Rightarrow> string option \<times> bool option \<times> bool option \<times> bool option" where
  "record_of c s = (map_of (gActivePluginsData s) c, map_of (gStateNotifications s) c,
     map_of (gPluginsEventListener s) c, map_of (gExternalDestroyApplications s) c)"

lemma omap_put_other: "k' \<noteq> k \<Longrightarrow> map_of (omap_put k v m) k' = map_of m k'"
  by (induction k v m rule: omap_put.induct) auto

lemma keeps_record: "keeps life m \<Longrightarrow> keeps (record_of c) m"
  by (rule keeps_part) (simp_all add: life_def record_of_def)

lemma monitor_records:
  assumes "c \<noteq> ps_callsign sv"
  shows "keeps (record_of c) (add_active_plugin sv)" "keeps (record_of c) (external_destroy sv)"
    "keeps (record_of c) (release_notification sv)" "keeps (record_of c) (forget_plugin sv)"
  using assms unfolding add_active_plugin_def external_destroy_def release_notification_def forget_plugin_def
  by - (rule keeps_upd, simp add: record_of_def omap_put_other update_conv' AList.delete_conv')+

lemma monitor_steps [life_intros]:
  "keeps (record_of c) (ignoreResidentAppLaunch activated)" "keeps (record_of c) (exit_reason sv r)"
  "keeps life (upd (\<lambda>s. s\<lparr>gCreateDisplayRequests := rs s\<rparr>))"
  "keeps life (upd (\<lambda>s. s\<lparr>gKillClientRequests := ks s\<rparr>))"
  unfolding ignoreResidentAppLaunch_def exit_reason_def
  by (rule life_intros keeps_upd | simp add: record_of_def life_def launches_def)+

lemma handlers_keep_others:
  assumes "c \<noteq> ps_callsign sv"
  shows "keeps (record_of c) (handleInitialize E sv)" "keeps (record_of c) (handleDeactivated sv)"
    "keeps (record_of c) (handleDeinitialized E sv)"
  unfolding handleInitialize_def handleDeactivated_def handleDeinitialized_def Let_def
  by (rule kept_composing monitor_records[OF assms] monitor_steps
      | rule keeps_record, (rule life_intros)+)+

definition plugin_life :: "('w, 'd) env \<Rightarrow> plugin_shell \<Rightarrow> ('w, 'd, unit) prog" where
  "plugin_life E sv = do { _ \<leftarrow> handleInitialize E sv; _ \<leftarrow> handleDeactivated sv; handleDeinitialized E sv }"

lemma handleDeactivated_releases:
  "running s \<Longrightarrow> running (snd (run_state (handleDeactivated sv) s)) \<and>
   map_of (gStateNotifications (snd (run_state (handleDeactivated sv) s))) (ps_callsign sv) = None"
  by (simp add: handleDeactivated_def external_destroy_def release_notification_def exit_reason_def AList.delete_conv')

definition forgotten :: "string \<Rightarrow> ('w, 'd) shell \<Rightarrow> bool" where
  "forgotten c s = (map_of (gActivePluginsData s) c = None \<and> map_of (gPluginsEventListener s) c = None \<and>
     map_of (gExternalDestroyApplications s) c = None)"

lemma forget_plugin_ends: "ends (\<lambda>_. forgotten (ps_callsign sv)) (forget_plugin sv)"
  by (simp add: ends_def forget_plugin_def forgotten_def AList.delete_conv')

lemma deinitialized_forgets:
  "ps_config sv \<noteq> [] \<Longrightarrow> ends (\<lambda>_. forgotten (ps_callsign sv)) (handleDeinitialized E sv)"
  unfolding handleDeinitialized_def
  by (simp only: if_False, rule ends_composing(1), rule forget_plugin_ends)

lemma keeps_notifications: "keeps life m \<Longrightarrow> keeps (\<lambda>s. map_of (gStateNotifications s) c) m"
  by (rule keeps_part) (simp_all add: life_def)

lemma forget_plugin_notifications: "keeps (\<lambda>s. map_of (gStateNotifications s) c) (forget_plugin sv)"
  unfolding forget_plugin_def by (rule keeps_upd) simp

lemma deinitialized_notifications:
  "keeps (\<lambda>s. map_of (gStateNotifications s) c) (handleDeinitialized E sv)"
  unfolding handleDeinitialized_def
  by (rule kept_composing forget_plugin_notifications keeps_notifications life_intros)+


text \<open>A framework whose configuration line names the client.\<close>

definition config_env :: "(string list, int) env" where
  "config_env = plain_env\<lparr>js := plain_json\<lparr>js_FromString := (\<lambda>s. [(''clientidentifier'', JString s)])\<rparr>\<rparr>"

definition netflix_shell :: "string \<Rightarrow> plugin_shell" where
  "netflix_shell config = \<lparr> ps_callsign = ''netflix'', ps_state = ACTIVATED, ps_config = config,
     ps_class = ''Netflix'', ps_failure = False \<rparr>"


text \<open>
  The end of a plugin without a configuration line is not noticed.  The reports about it:
\<close>

fun about_unconfigured :: "string \<Rightarrow> monitor_event \<Rightarrow> bool" where
  "about_unconfigured c (Initialize sv) = (ps_callsign sv = c \<and> ps_config sv = [])"
| "about_unconfigured c (ActivatedPlugin sv) = (ps_callsign sv = c)"
| "about_unconfigured c (Deactivated sv) = (ps_callsign sv = c)"
| "about_unconfigured c (Deinitialized sv) = (ps_callsign sv = c \<and> ps_config sv = [])"
| "about_unconfigured c (ControlChanged callsign isSuspended) = True"
| "about_unconfigured c _ = False"

definition gone_from_outside :: "string \<Rightarrow> ('w, 'd) shell \<Rightarrow> bool" where
  "gone_from_outside c s = (map_of (gExternalDestroyApplications s) c \<noteq> None)"

lemma keeps_gone: "keeps gExternalDestroyApplications m \<Longrightarrow> gone_from_outside c s \<Longrightarrow>
    gone_from_outside c (snd (run_state m s))"
  by (simp add: from_to_def gone_from_outside_def)

lemma keeps_external [life_intros]: "keeps life m \<Longrightarrow> keeps gExternalDestroyApplications m"
  by (rule keeps_part) (simp_all add: life_def)

lemma reports_keep_external:
  "keeps gExternalDestroyApplications (handleActivated sv)"
  "keeps gExternalDestroyApplications (control_StateChange callsign b)"
  unfolding handleActivated_def ignoreResidentAppLaunch_def persistent_store_activated_def
    control_StateChange_def state_changed_def
  by (rule kept_composing life_intros keeps_upd keepsI | simp)+

lemma reports_keep_gone:
  assumes "about_unconfigured c e" "gone_from_outside c s"
  shows "gone_from_outside c (snd (run_state (monitor E e) s))"
proof (cases e)
  case (Deactivated sv)
  then show ?thesis using assms
    by (auto simp: handleDeactivated_def external_destroy_def release_notification_def exit_reason_def
        gone_from_outside_def update_conv')
qed (use assms in \<open>simp_all add: handleInitialize_def handleDeinitialized_def
    keeps_gone[OF reports_keep_external(1)] keeps_gone[OF reports_keep_external(2)]\<close>)

lemma reports_keep_all_gone:
  "list_all (about_unconfigured c) es \<Longrightarrow> gone_from_outside c s \<Longrightarrow>
   gone_from_outside c (snd (run_state (foldM (\<lambda>e _. monitor E e) es ()) s))"
  by (induction es arbitrary: s) (simp_all add: case_prod_unfold reports_keep_gone)

lemma gone_stays_hidden:
  assumes "gone_from_outside c s"
  shows "fst (run_state (setVisibility E c visible) s) = False"
proof -
  have "gone_from_outside c (snd (run_state (locked E (''setVisibility'', [Str c, Flag visible])) s))"
    by (rule keeps_gone[OF _ assms]) (rule life_intros)+
  then show ?thesis by (auto simp: setVisibility_def gone_from_outside_def case_prod_unfold)
qed

text \<open>
  the end of a plugin without a configuration line is not noticed: once the framework has
  deactivated it, it counts as being destroyed for ever.  Whatever is reported about it later,
  \<^verbatim>\<open>Initialize\<close> and \<^verbatim>\<open>Activated\<close> included, a request to show it fails.
\<close>

theorem unconfigured_stays_hidden:
  assumes "running s" "map_of (gDestroyApplications s) (ps_callsign sv) = None"
    and "list_all (about_unconfigured (ps_callsign sv)) es"
  shows "fst (run_state (setVisibility E (ps_callsign sv) visible)
    (snd (run_state (foldM (\<lambda>e _. monitor E e) (Deactivated sv # es) ()) s))) = False"
proof -
  have "gone_from_outside (ps_callsign sv) (snd (run_state (monitor E (Deactivated sv)) s))"
    using assms(1,2) by (auto simp: handleDeactivated_def external_destroy_def release_notification_def
        exit_reason_def gone_from_outside_def update_conv')
  from gone_stays_hidden[OF reports_keep_all_gone[OF assms(3) this]] show ?thesis
    by (simp add: case_prod_unfold)
qed

lemma unconfigured_stays_hidden_witness:
  "fst (run_state (setVisibility plain_env ''netflix'' True)
     (snd (run_state (foldM (\<lambda>e _. monitor plain_env e)
        [Deactivated (netflix_shell []), Deinitialized (netflix_shell []), Initialize (netflix_shell []),
         ActivatedPlugin (netflix_shell [])] ()) (shell_init [''netflix''] 40)))) = False"
  using unconfigured_stays_hidden[of "shell_init [''netflix''] 40" "netflix_shell []"
      "[Deinitialized (netflix_shell []), Initialize (netflix_shell []), ActivatedPlugin (netflix_shell [])]"
      plain_env True]
  by (simp only: foldM.simps) (simp add: shell_init_def netflix_shell_def)

end
