(* ===== verification/Shell_Start.thy ===== *)
theory Shell_Start
  imports Shell_Life
begin

text \<open>
  Starting and stopping RDKShell.  What \<^verbatim>\<open>Initialize\<close> reads from the environment of the process are
  arguments; the security token, the timer and the start-up file (read only with RFC) are left out.
\<close>

section \<open>Initialize\<close>

text \<open>
  \<^verbatim>\<open>updateSurfaceClientIdentifiers\<close>.  The text of a configuration that cannot be read is the one of
  the service before.
\<close>

definition surface_config :: "('w, 'd) env \<Rightarrow> string \<Rightarrow> string" where
  "surface_config E configString =
     js_ToString (js E) (jset ''clientidentifier'' (JString ''rdkshell_display'') (js_FromString (js E) configString))"

definition surface_service :: "('w, 'd) env \<Rightarrow> service \<Rightarrow> string \<Rightarrow> ('w, 'd, string) prog" where
  "surface_service E sv configString =
     (if HasLabel (js_FromString (js E) (sv_config sv)) ''clientidentifier'' then do {
        config \<leftarrow> read_out (\<lambda>w. plugin_config E w (unquoted sv));
        configString \<leftarrow> State_Monad.return (case config of None \<Rightarrow> configString | Some c \<Rightarrow> c);
        _ \<leftarrow> call_service E ''ConfigLine'' [unquoted sv, surface_config E configString];
        State_Monad.return configString
      } else State_Monad.return configString)"

definition updateSurfaceClientIdentifiers :: "('w, 'd) env \<Rightarrow> ('w, 'd, string) prog" where
  "updateSurfaceClientIdentifiers E = do {
     availablePluginResult \<leftarrow> read_out (services E);
     foldM (surface_service E) availablePluginResult []
   }"

text \<open>The render thread before its loop.\<close>

definition start_thread :: "('w, 'd) env \<Rightarrow> ('w, 'd, unit) prog" where
  "start_thread E = do {
     _ \<leftarrow> lock;
     _ \<leftarrow> command E (''initialize'', []);
     wait \<leftarrow> asks waitForPersistentStore;
     subSystems \<leftarrow> read_out (has_subsystems E);
     _ \<leftarrow> (if \<not> wait \<and> subSystems then do {
            _ \<leftarrow> factory_check E;
            factory_launch
          } else State_Monad.return ());
     _ \<leftarrow> upd (\<lambda>s. s\<lparr>isRunning := sRunning s\<rparr>);
     _ \<leftarrow> unlock;
     surface \<leftarrow> command E (''isSurfaceModeEnabled'', []);
     upd (\<lambda>s. s\<lparr>gRdkShellSurfaceModeEnabled := surface\<rparr>)
   }"

definition Initialize :: "('w, 'd) env \<Rightarrow> bool \<Rightarrow> bool \<Rightarrow> bool \<Rightarrow> ('w, 'd, unit) prog" where
  "Initialize E waitValue blockResidentApp surfaceType = do {
     _ \<leftarrow> command E (''setEventListener'', [Flag True]);
     _ \<leftarrow> upd (\<lambda>s. s\<lparr>mEnableUserInactivityNotification := True\<rparr>);
     _ \<leftarrow> enableInactivityReporting E True;
     _ \<leftarrow> upd (\<lambda>s. s\<lparr>waitForPersistentStore := waitValue\<rparr>);
     _ \<leftarrow> (if blockResidentApp then upd (\<lambda>s. s\<lparr>sFactoryModeBlockResidentApp := True\<rparr>)
          else State_Monad.return ());
     erm \<leftarrow> command E (''isErmEnabled'', []);
     _ \<leftarrow> upd (\<lambda>s. s\<lparr>mErmEnabled := erm\<rparr>);
     _ \<leftarrow> start_thread E;
     _ \<leftarrow> (if surfaceType then updateSurfaceClientIdentifiers E else State_Monad.return []);
     State_Monad.return ()
   }"

section \<open>Deinitialize\<close>

text \<open>The render thread ends after the frame in which it finds \<^verbatim>\<open>sRunning\<close> false; that is waited for.\<close>

definition join_thread :: "('w, 'd) env \<Rightarrow> ('w, 'd, unit) prog" where
  "join_thread E = do {
     alive \<leftarrow> asks isRunning;
     if alive then do { _ \<leftarrow> render_frame E; State_Monad.return () } else State_Monad.return ()
   }"

definition remove_listeners :: "('w, 'd) env \<Rightarrow> string list \<Rightarrow> ('w, 'd, unit) prog" where
  "remove_listeners E clientList =
     foldM (\<lambda>c _. do { _ \<leftarrow> command E (''removeListener'', [Str c]); State_Monad.return () }) clientList ()"

definition Deinitialize :: "('w, 'd) env \<Rightarrow> ('w, 'd, unit) prog" where
  "Deinitialize E = do {
     _ \<leftarrow> lock;
     _ \<leftarrow> command E (''deinitialize'', []);
     _ \<leftarrow> upd (\<lambda>s. s\<lparr>sRunning := False\<rparr>);
     _ \<leftarrow> unlock;
     _ \<leftarrow> join_thread E;
     _ \<leftarrow> command E (''getClients'', []);
     clientList \<leftarrow> read_out (out_clients E);
     _ \<leftarrow> remove_listeners E clientList;
     _ \<leftarrow> command E (''setEventListener'', [Flag False]);
     _ \<leftarrow> upd (\<lambda>s. s\<lparr>mEnableUserInactivityNotification := False, gActivePluginsData := []\<rparr>);
     _ \<leftarrow> lock;
     _ \<leftarrow> upd (\<lambda>s. s\<lparr>gCreateDisplayRequests := [], gKillClientRequests := []\<rparr>);
     _ \<leftarrow> unlock;
     upd (\<lambda>s. s\<lparr>gExternalDestroyApplications := []\<rparr>)
   }"

lemma run_remove_listeners:
  "running s \<Longrightarrow> run_state (remove_listeners E cs) s = ((),
     s\<lparr>sh_world := snd (run_calls E (map (\<lambda>c. (''removeListener'', [Str c])) cs) (sh_world s)),
       sh_calls := sh_calls s @ map (\<lambda>c. (sh_mutex s, (''removeListener'', [Str c]))) cs\<rparr>)"
proof (induction cs arbitrary: s)
  case (Cons c cs)
  let ?c = "(''removeListener'', [Str c]) :: 'b cc_call"
  let ?s = "s\<lparr>sh_world := snd (cc E ?c (sh_world s)), sh_calls := sh_calls s @ [(sh_mutex s, ?c)]\<rparr>"
  have "run_state (remove_listeners E (c # cs)) s = run_state (remove_listeners E cs) ?s"
    using Cons.prems by (simp add: remove_listeners_def)
  also have "\<dots> = ((), ?s\<lparr>sh_world := snd (run_calls E (map (\<lambda>c. (''removeListener'', [Str c])) cs) (sh_world ?s)),
       sh_calls := sh_calls ?s @ map (\<lambda>c. (sh_mutex ?s, (''removeListener'', [Str c]))) cs\<rparr>)"
    by (rule Cons.IH) (simp add: Cons.prems)
  finally show ?case by (simp add: case_prod_unfold Let_def)
qed (simp add: remove_listeners_def)

text \<open>The state in which the last frame starts.\<close>

definition stopping :: "('w, 'd) env \<Rightarrow> ('w, 'd) shell \<Rightarrow> ('w, 'd) shell" where
  "stopping E s = s\<lparr>sh_world := snd (cc E (''deinitialize'', []) (sh_world s)),
     sh_calls := sh_calls s @ [(True, (''deinitialize'', []))], sRunning := False\<rparr>"

text \<open>
  C28: \<^verbatim>\<open>Deinitialize\<close> stops the library first and then lets the render thread draw one more frame,
  which serves everything that was pending.  After it the thread has ended, nothing is pending, no
  plugin is known, and the listener has been taken from exactly the clients that were left; these
  last calls are made without the mutex.
\<close>

theorem Deinitialize_spec:
  fixes E :: "('w, 'd) env"
  assumes "running s" "\<not> sh_mutex s" "gCurrentFramerate s \<noteq> 0" "isRunning s"
  defines "t \<equiv> snd (run_state (Deinitialize E) s)"
    and "w \<equiv> snd (run_calls E ((''deinitialize'', []) # frame_calls s @ [get_clients_call]) (sh_world s))"
  shows "sh_calls t = sh_calls s @ map (Pair True) ((''deinitialize'', []) # frame_calls s) @
      map (Pair False) (get_clients_call # map (\<lambda>c. (''removeListener'', [Str c])) (out_clients E w) @
        [(''setEventListener'', [Flag False])]) \<and>
      running t \<and> \<not> sh_mutex t \<and> \<not> isRunning t \<and> \<not> sRunning t \<and> nothing_pending t \<and>
      gActivePluginsData t = [] \<and> gExternalDestroyApplications t = []"
proof -
  let ?q = "stopping E s"
  have q: "running ?q" "\<not> sh_mutex ?q" "gCurrentFramerate ?q \<noteq> 0" "isRunning ?q"
    and calls: "frame_calls ?q = (frame_calls s :: 'd cc_call list)"
    using assms(1-4) by (simp_all add: stopping_def frame_calls_def flag_calls_def shot_calls_def)
  obtain posted u where u: "run_state (render_frame E) ?q = (posted, u)" "running u" "\<not> sh_mutex u"
    "nothing_pending u" "sh_calls u = sh_calls ?q @ map (Pair True) (frame_calls ?q)"
    "sh_world u = snd (run_calls E (frame_calls ?q) (sh_world ?q))"
    "isRunning u = sRunning ?q" "sRunning u = sRunning ?q"
    by (rule frame_result[OF q(1-3), of E]) blast
  let ?w = "snd (cc E get_clients_call (sh_world u))"
  let ?rest = "do {
     _ \<leftarrow> command E (''getClients'', []);
     clientList \<leftarrow> read_out (out_clients E);
     _ \<leftarrow> remove_listeners E clientList;
     _ \<leftarrow> command E (''setEventListener'', [Flag False]);
     _ \<leftarrow> upd (\<lambda>s. s\<lparr>mEnableUserInactivityNotification := False, gActivePluginsData := []\<rparr>);
     _ \<leftarrow> lock;
     _ \<leftarrow> upd (\<lambda>s. s\<lparr>gCreateDisplayRequests := [], gKillClientRequests := []\<rparr>);
     _ \<leftarrow> unlock;
     upd (\<lambda>s. s\<lparr>gExternalDestroyApplications := []\<rparr>) }"
  have run: "run_state (Deinitialize E) s = run_state ?rest u"
    using assms(1,2) q(4) u(1)
    by (simp add: Deinitialize_def join_thread_def stopping_def unlock_free)
  have w: "w = ?w"
    by (simp add: w_def u(6) calls) (simp add: stopping_def run_calls_append case_prod_unfold Let_def)
  have "sh_calls t = sh_calls s @ map (Pair True) ((''deinitialize'', []) # frame_calls s) @
      map (Pair False) (get_clients_call # map (\<lambda>c. (''removeListener'', [Str c])) (out_clients E w) @
        [(''setEventListener'', [Flag False])])"
    using u(2,3,5) by (simp add: t_def run run_remove_listeners w calls)
      (simp add: stopping_def get_clients_call_def)
  moreover have "running t \<and> \<not> sh_mutex t \<and> \<not> isRunning t \<and> \<not> sRunning t \<and> nothing_pending t \<and>
      gActivePluginsData t = [] \<and> gExternalDestroyApplications t = []"
    using u(2-4,7,8) by (simp add: t_def run run_remove_listeners)
      (simp add: stopping_def nothing_pending_def)
  ultimately show ?thesis by blast
qed

lemma Deinitialize_spec_witness:
  "let t = snd (run_state (Deinitialize plain_env) (shell_init [''netflix''] 40)) in
   sh_calls t = [(True, (''deinitialize'', [])), (True, (''draw'', [])), (True, (''update'', [])),
     (False, (''getClients'', [])), (False, (''removeListener'', [Str ''netflix''])),
     (False, (''setEventListener'', [Flag False]))] \<and> \<not> isRunning t"
  using Deinitialize_spec[of "shell_init [''netflix''] 40" plain_env]
  by (simp add: Let_def shell_init_def frame_calls_def flag_calls_def shot_calls_def get_clients_call_def plain_cc_def)

end
