(* ===== verification/Utils_Validator.thy ===== *)
theory Utils_Validator
  imports Utils_Strings "HOL-Library.List_Lexorder" "HOL-Library.Char_ord"
begin

text \<open>
  \<^verbatim>\<open>helpers/UtilsInputValidator.h\<close>: expected values, validators and the manager that looks them up by
  name.  Regular expressions are kept as text; matching them is the parameter \<open>rx\<close>, whether one is
  well formed the parameter \<open>ok\<close>.  The template parameter is instantiated with four types.
\<close>

section \<open>Expected values\<close>

datatype expected_type = NoneExpected | Discrete | Range | RegExp

text \<open>A range that was never set is \<open>None\<close>: the members of the structure are then not initialized.\<close>

record 'a expected =
  m_type :: expected_type
  m_range :: "('a \<times> 'a) option"
  m_values :: "'a set"
  m_regex :: string

definition no_values :: "'a expected" where
  "no_values = \<lparr>m_type = NoneExpected, m_range = None, m_values = {}, m_regex = []\<rparr>"

definition range_values :: "'a \<Rightarrow> 'a \<Rightarrow> 'a expected" where
  "range_values lo hi = no_values\<lparr>m_type := Range, m_range := Some (lo, hi)\<rparr>"

text \<open>The constructor of \<^verbatim>\<open>std::regex\<close> throws on a malformed text.\<close>

definition regex_values :: "(string \<Rightarrow> bool) \<Rightarrow> string \<Rightarrow> 'a expected option" where
  "regex_values ok regexStr =
     (if ok regexStr then Some (no_values\<lparr>m_type := RegExp, m_regex := regexStr\<rparr>) else None)"

definition set_values :: "'a list \<Rightarrow> 'a expected" where
  "set_values values = no_values\<lparr>m_type := Discrete, m_values := set values\<rparr>"

text \<open>Texts given as pointers; null pointers are skipped.\<close>

primrec c_string_values :: "string option list \<Rightarrow> string set" where
  "c_string_values [] = {}"
| "c_string_values (v # vs) =
     (case v of None \<Rightarrow> c_string_values vs | Some s \<Rightarrow> insert s (c_string_values vs))"

definition pointer_values :: "string option list \<Rightarrow> string expected" where
  "pointer_values values = no_values\<lparr>m_type := Discrete, m_values := c_string_values values\<rparr>"

text \<open>Assignments: the discrete values of the source are put in beside those that are there.\<close>

definition copy_assign :: "'a expected \<Rightarrow> 'a expected \<Rightarrow> 'a expected" where
  "copy_assign this copy =
     (let this = this\<lparr>m_type := m_type copy\<rparr> in
      case m_type this of
        Discrete \<Rightarrow> this\<lparr>m_values := m_values this \<union> m_values copy\<rparr>
      | Range \<Rightarrow> this\<lparr>m_range := m_range copy\<rparr>
      | RegExp \<Rightarrow> this\<lparr>m_regex := m_regex copy\<rparr>
      | NoneExpected \<Rightarrow> this)"

definition copy_construct :: "'a expected \<Rightarrow> 'a expected" where
  "copy_construct copy = copy_assign no_values copy"

text \<open>The second component is what is left of the source.\<close>

definition move_assign :: "'a expected \<Rightarrow> 'a expected \<Rightarrow> 'a expected \<times> 'a expected" where
  "move_assign this copy =
     (let source = copy\<lparr>m_type := m_type this\<rparr>; this = this\<lparr>m_type := m_type copy\<rparr> in
      case m_type this of
        Discrete \<Rightarrow> (this\<lparr>m_values := m_values copy\<rparr>, source\<lparr>m_values := {}\<rparr>)
      | Range \<Rightarrow> (this\<lparr>m_range := m_range copy\<rparr>, source)
      | RegExp \<Rightarrow> (this\<lparr>m_regex := m_regex copy\<rparr>, source\<lparr>m_regex := []\<rparr>)
      | NoneExpected \<Rightarrow> (this, source))"

definition move_construct :: "'a expected \<Rightarrow> 'a expected \<times> 'a expected" where
  "move_construct copy = move_assign no_values copy"

text \<open>The text of a value is what \<^verbatim>\<open>std::to_string\<close> makes of it, a string itself.\<close>

definition accepts :: "(string \<Rightarrow> string \<Rightarrow> bool) \<Rightarrow> ('a::linorder \<Rightarrow> string) \<Rightarrow> 'a expected \<Rightarrow> 'a \<Rightarrow> bool" where
  "accepts rx to_string e value =
     (case m_type e of
        Discrete \<Rightarrow> value \<in> m_values e
      | Range \<Rightarrow> (case m_range e of None \<Rightarrow> False | Some (lo, hi) \<Rightarrow> lo \<le> value \<and> value \<le> hi)
      | RegExp \<Rightarrow> rx (m_regex e) (to_string value)
      | NoneExpected \<Rightarrow> True)"

definition accepts_pointer :: "(string \<Rightarrow> string \<Rightarrow> bool) \<Rightarrow> string expected \<Rightarrow> string option \<Rightarrow> bool" where
  "accepts_pointer rx e value = (case value of None \<Rightarrow> False | Some v \<Rightarrow> accepts rx id e v)"

text \<open>All values come from the constructors and the assignments; a range is set where it is needed.\<close>

definition range_set :: "'a expected \<Rightarrow> bool" where
  "range_set e \<longleftrightarrow> (m_type e = Range \<longrightarrow> m_range e \<noteq> None)"

lemma range_set_built:
  "range_set no_values" "range_set (range_values a b)" "regex_values ok r = Some e \<Longrightarrow> range_set e"
  "range_set (set_values vs)" "range_set (pointer_values ps)"
  by (auto simp: range_set_def no_values_def range_values_def regex_values_def set_values_def
      pointer_values_def split: if_splits)

lemma range_set_assign:
  assumes "range_set this" "range_set copy"
  shows "range_set (copy_assign this copy)" "range_set (fst (move_assign this copy))"
  using assms by (auto simp: range_set_def copy_assign_def move_assign_def Let_def split: expected_type.splits)

lemma accepts_moved: "accepts rx ts (fst (move_assign this copy)) = accepts rx ts copy"
  by (rule ext) (simp add: accepts_def move_assign_def Let_def split: expected_type.split)

lemma accepts_copied:
  "accepts rx ts (copy_assign this copy) v =
     (accepts rx ts copy v \<or> m_type copy = Discrete \<and> v \<in> m_values this)"
  by (auto simp: accepts_def copy_assign_def Let_def split: expected_type.split)

text \<open>
  Constructing from another object, by copying or moving, and assigning by moving accept what
  the source accepts.  Assigning a copy accepts, for discrete values, in addition everything that was
  ever put into the set of the target, even if the target was a range or an expression in between.
  The source of a move takes the kind of the target.
\<close>

theorem assignments_spec:
  fixes target source :: "'a::linorder expected"
  shows "accepts rx ts (copy_construct source) = accepts rx ts source \<and>
    accepts rx ts (fst (move_construct source)) = accepts rx ts source \<and>
    accepts rx ts (fst (move_assign target source)) = accepts rx ts source \<and>
    m_type (snd (move_assign target source)) = m_type target \<and>
    accepts rx ts (copy_assign target source) v =
      (accepts rx ts source v \<or> m_type source = Discrete \<and> v \<in> m_values target) \<and>
    accepts rx ts (copy_assign (copy_assign (set_values [v]) (range_values a b)) (set_values [a])) v"
proof -
  have "accepts rx ts (copy_construct source) = accepts rx ts source"
    by (rule ext) (simp add: copy_construct_def accepts_copied, simp add: no_values_def)
  moreover have "m_type (snd (move_assign target source)) = m_type target"
    by (simp add: move_assign_def Let_def split: expected_type.split)
  moreover have "accepts rx ts (copy_assign (copy_assign (set_values [v]) (range_values a b)) (set_values [a])) v"
    by (simp add: accepts_def copy_assign_def Let_def set_values_def range_values_def no_values_def)
  ultimately show ?thesis by (simp add: move_construct_def accepts_moved accepts_copied)
qed

section \<open>Validators\<close>

datatype 'a validator = NoValidation | UseExpectedValues "'a expected" | CustomValidation "'a \<Rightarrow> bool"

text \<open>\<^verbatim>\<open>create\<close>: the object is moved into the argument of the constructor and from there into the member.\<close>

definition create_expected :: "'a expected \<Rightarrow> 'a validator" where
  "create_expected expectedValues =
     (let argument = fst (move_construct expectedValues) in UseExpectedValues (fst (move_construct argument)))"

definition create_custom :: "('a \<Rightarrow> bool) \<Rightarrow> 'a validator" where
  "create_custom func = CustomValidation func"

definition run_validator :: "(string \<Rightarrow> string \<Rightarrow> bool) \<Rightarrow> ('a::linorder \<Rightarrow> string) \<Rightarrow> 'a validator \<Rightarrow> 'a \<Rightarrow> bool" where
  "run_validator rx to_string v value =
     (case v of
        CustomValidation func \<Rightarrow> func value
      | UseExpectedValues e \<Rightarrow> accepts rx to_string e value
      | NoValidation \<Rightarrow> False)"

lemma run_created [simp]:
  "run_validator rx ts (create_expected e) = accepts rx ts e"
  "run_validator rx ts (create_custom f) = f"
  by (simp_all add: fun_eq_iff run_validator_def create_expected_def create_custom_def move_construct_def
      accepts_moved)

section \<open>The manager\<close>

text \<open>The types of the template parameter: \<^verbatim>\<open>std::string\<close>, \<^verbatim>\<open>int\<close>, \<^verbatim>\<open>unsigned\<close> and \<^verbatim>\<open>bool\<close>.\<close>

datatype cpp_type = T_string | T_int | T_unsigned | T_bool

datatype cpp_value = V_string string | V_int int | V_unsigned "32 word" | V_bool bool

datatype validator_base =
    B_string "string validator" | B_int "int validator" | B_unsigned "32 word validator" | B_bool "bool validator"

primrec type_of :: "cpp_value \<Rightarrow> cpp_type" where
  "type_of (V_string s) = T_string"
| "type_of (V_int i) = T_int"
| "type_of (V_unsigned u) = T_unsigned"
| "type_of (V_bool b) = T_bool"

primrec validator_type :: "validator_base \<Rightarrow> cpp_type" where
  "validator_type (B_string v) = T_string"
| "validator_type (B_int v) = T_int"
| "validator_type (B_unsigned v) = T_unsigned"
| "validator_type (B_bool v) = T_bool"

text \<open>\<^verbatim>\<open>dynamic_cast\<close> and the call; \<open>None\<close> is the null pointer of a cast that fails.\<close>

fun cast_validate :: "(string \<Rightarrow> string \<Rightarrow> bool) \<Rightarrow> validator_base \<Rightarrow> cpp_value \<Rightarrow> bool option" where
  "cast_validate rx (B_string v) (V_string s) = Some (run_validator rx id v s)"
| "cast_validate rx (B_int v) (V_int i) = Some (run_validator rx show_int v i)"
| "cast_validate rx (B_unsigned v) (V_unsigned u) = Some (run_validator rx (\<lambda>u. show_nat (unat u)) v u)"
| "cast_validate rx (B_bool v) (V_bool b) = Some (run_validator rx (\<lambda>b. if b then ''1'' else ''0'') v b)"
| "cast_validate rx v x = None"

text \<open>A report of a failure: whether it went to the logger, the key, whether the cast had failed.\<close>

record failure =
  to_logger :: bool
  fail_key :: string
  not_found :: bool
  fail_value :: cpp_value

record manager =
  m_validators :: "(string, validator_base list) omap"
  m_logger :: bool

definition new_manager :: manager where
  "new_manager = \<lparr>m_validators = [], m_logger = False\<rparr>"

definition addValidator :: "string \<Rightarrow> validator_base \<Rightarrow> manager \<Rightarrow> manager" where
  "addValidator name validator m =
     m\<lparr>m_validators := omap_put name
        ((case map_of (m_validators m) name of None \<Rightarrow> [] | Some vs \<Rightarrow> vs) @ [validator]) (m_validators m)\<rparr>"

definition setLogger :: "bool \<Rightarrow> manager \<Rightarrow> manager" where
  "setLogger logger m = m\<lparr>m_logger := logger\<rparr>"

fun validate_all :: "(string \<Rightarrow> string \<Rightarrow> bool) \<Rightarrow> bool \<Rightarrow> string \<Rightarrow> cpp_value \<Rightarrow> validator_base list \<Rightarrow> bool \<times> failure list" where
  "validate_all rx logger name value [] = (True, [])"
| "validate_all rx logger name value (v # vs) =
     (let validator = cast_validate rx v value in
      if validator = None \<or> validator = Some False
      then (False, [\<lparr>to_logger = logger, fail_key = name, not_found = (validator = None), fail_value = value\<rparr>])
      else validate_all rx logger name value vs)"

definition validate :: "(string \<Rightarrow> string \<Rightarrow> bool) \<Rightarrow> string \<Rightarrow> cpp_value \<Rightarrow> manager \<Rightarrow> bool \<times> failure list" where
  "validate rx name value m =
     (case map_of (m_validators m) name of
        None \<Rightarrow> (False, [])
      | Some vs \<Rightarrow> validate_all rx (m_logger m) name value vs)"

definition validate_pointer :: "(string \<Rightarrow> string \<Rightarrow> bool) \<Rightarrow> string \<Rightarrow> string option \<Rightarrow> manager \<Rightarrow> bool \<times> failure list" where
  "validate_pointer rx name value m =
     (case value of None \<Rightarrow> (False, []) | Some v \<Rightarrow> validate rx name (V_string v) m)"

text \<open>What was registered under a name, in order.\<close>

definition registered :: "string \<Rightarrow> (string \<times> validator_base) list \<Rightarrow> validator_base list" where
  "registered name regs = map snd (filter (\<lambda>r. fst r = name) regs)"

definition add_all :: "(string \<times> validator_base) list \<Rightarrow> manager \<Rightarrow> manager" where
  "add_all regs m = fold (\<lambda>(name, v). addValidator name v) regs m"

lemma add_all_validators:
  assumes "omap_ok (m_validators m)"
  shows "omap_ok (m_validators (add_all regs m)) \<and> m_logger (add_all regs m) = m_logger m \<and>
    map_of (m_validators (add_all regs m)) name =
      (case map_of (m_validators m) name of
         None \<Rightarrow> if registered name regs = [] then None else Some (registered name regs)
       | Some vs \<Rightarrow> Some (vs @ registered name regs))"
  using assms
proof (induction regs arbitrary: m)
  case Nil
  then show ?case by (simp add: add_all_def registered_def split: option.split)
next
  case (Cons r regs)
  obtain n v where r: "r = (n, v)" by (cases r)
  let ?m = "addValidator n v m"
  have ok: "omap_ok (m_validators ?m)" and log: "m_logger ?m = m_logger m"
    using Cons.prems by (simp_all add: addValidator_def omap_put_ok)
  have look: "map_of (m_validators ?m) name =
      (if n = name then Some ((case map_of (m_validators m) n of None \<Rightarrow> [] | Some vs \<Rightarrow> vs) @ [v])
       else map_of (m_validators m) name)"
    using Cons.prems by (simp add: addValidator_def omap_put_lookup)
  have step: "add_all (r # regs) m = add_all regs ?m"
    "registered name (r # regs) = (if n = name then [v] else []) @ registered name regs"
    by (simp_all add: add_all_def registered_def r)
  show ?case
    unfolding step using Cons.IH[OF ok] by (simp add: look log split: option.split)
qed

lemma cast_validate_typed: "cast_validate rx v x \<noteq> None \<longleftrightarrow> validator_type v = type_of x"
  by (cases v; cases x) simp_all

lemma validate_all_iff:
  "fst (validate_all rx log name x vs) \<longleftrightarrow> (\<forall>v \<in> set vs. cast_validate rx v x = Some True)"
  by (induction vs) (auto simp: Let_def)

lemma validate_all_failures:
  "snd (validate_all rx log name x vs) =
     (case filter (\<lambda>v. cast_validate rx v x \<noteq> Some True) vs of [] \<Rightarrow> []
      | v # _ \<Rightarrow> [\<lparr>to_logger = log, fail_key = name, not_found = (validator_type v \<noteq> type_of x), fail_value = x\<rparr>])"
proof (induction vs)
  case (Cons v vs)
  have "cast_validate rx v x = Some True \<or> cast_validate rx v x = Some False \<or> cast_validate rx v x = None"
    by (cases "cast_validate rx v x") auto
  then show ?case
    using Cons cast_validate_typed[of rx v x] by (auto simp: Let_def)
qed simp



end
