(* ===== verification/Utils_Property.thy ===== *)
theory Utils_Property
  imports Utils_Strings
begin

text \<open>
  The reading of property files in \<^verbatim>\<open>helpers/UtilsgetFileContent.h\<close>.  A file that cannot be opened is
  \<open>None\<close>; it is read again, unchanged, for every reference.  Not returning is \<open>None\<close>.
\<close>

section \<open>Lines\<close>

abbreviation newline :: char where "newline \<equiv> CHR 0x0A"
abbreviation return_char :: char where "return_char \<equiv> CHR 0x0D"
abbreviation dollar :: char where "dollar \<equiv> CHR ''$''"

text \<open>What \<^verbatim>\<open>std::getline\<close> reads one after the other; nothing follows the last newline.\<close>

function getlines :: "string \<Rightarrow> string list" where
  "getlines s =
     (if s = [] then []
      else takeWhile (\<lambda>c. c \<noteq> newline) s # getlines (tl (dropWhile (\<lambda>c. c \<noteq> newline) s)))"
  by pat_completeness auto
termination
proof (relation "measure length")
  show "(tl (dropWhile (\<lambda>c. c \<noteq> newline) s), s) \<in> measure length" if "s \<noteq> []" for s
  proof -
    have "length (dropWhile (\<lambda>c. c \<noteq> newline) s) - 1 < length s"
      using length_dropWhile_le[of "\<lambda>c. c \<noteq> newline" s] that length_greater_0_conv[of s] by linarith
    then show ?thesis by simp
  qed
qed simp

declare getlines.simps [simp del]

lemma getlines_Nil [simp]: "getlines [] = []"
  by (simp add: getlines.simps)

lemma getlines_line [simp]: "newline \<notin> set l \<Longrightarrow> getlines (l @ newline # s) = l # getlines s"
proof -
  assume "newline \<notin> set l"
  then have "takeWhile (\<lambda>c. c \<noteq> newline) (l @ newline # s) = l"
    "dropWhile (\<lambda>c. c \<noteq> newline) (l @ newline # s) = newline # s"
    by (auto simp: takeWhile_append dropWhile_append)
  then show ?thesis by (subst getlines.simps) simp
qed

section \<open>readPropertyFromFile\<close>

definition is_comment :: "string \<Rightarrow> bool" where
  "is_comment line \<longleftrightarrow> line \<noteq> [] \<and> hd line = CHR ''#''"

definition has_property :: "string \<Rightarrow> string \<Rightarrow> bool" where
  "has_property property line \<longleftrightarrow>
     str_find (property @ '' '') line = Some 0 \<or> str_find (property @ ''='') line = Some 0"

text \<open>Without a \<^verbatim>\<open>=\<close> the position \<^verbatim>\<open>npos + 1\<close> is zero.\<close>

definition property_content :: "string \<Rightarrow> string" where
  "property_content line = (case str_find ''='' line of None \<Rightarrow> line | Some i \<Rightarrow> drop (i + 1) line)"

definition without_newline :: "string \<Rightarrow> string" where
  "without_newline v = (if v \<noteq> [] \<and> (last v = return_char \<or> last v = newline) then butlast v else v)"

text \<open>The loop over the lines that are left of the file; the flag \<^verbatim>\<open>found\<close> and the value.\<close>

partial_function (option) read_lines_of :: "string list \<Rightarrow> string \<Rightarrow> string list \<Rightarrow> (bool \<times> string) option" where
  "read_lines_of content property rest =
     (case rest of
        [] \<Rightarrow> Some (False, [])
      | line # rest \<Rightarrow>
          if is_comment line \<or> \<not> has_property property line then read_lines_of content property rest
          else if property_content line \<noteq> [] \<and> hd (property_content line) = dollar
          then Option.bind (read_lines_of content (tl (property_content line)) content)
            (\<lambda>(found, v). if found then Some (True, v) else read_lines_of content property rest)
          else Some (True, without_newline (property_content line)))"

definition readPropertyFromFile :: "string option \<Rightarrow> string \<Rightarrow> (bool \<times> string) option" where
  "readPropertyFromFile file property =
     (case file of
        None \<Rightarrow> Some (False, [])
      | Some content \<Rightarrow> read_lines_of (getlines content) property (getlines content))"

lemma read_lines_of_Nil [simp]: "read_lines_of content p [] = Some (False, [])"
  by (simp add: read_lines_of.simps)

lemma read_lines_of_other:
  "is_comment line \<or> \<not> has_property p line \<Longrightarrow>
   read_lines_of content p (line # rest) = read_lines_of content p rest"
  by (subst read_lines_of.simps) simp

lemma read_lines_of_value:
  "\<lbrakk>\<not> is_comment line; has_property p line; property_content line = [] \<or> hd (property_content line) \<noteq> dollar\<rbrakk> \<Longrightarrow>
   read_lines_of content p (line # rest) = Some (True, without_newline (property_content line))"
  by (subst read_lines_of.simps) auto

lemma read_lines_of_reference:
  "\<lbrakk>\<not> is_comment line; has_property p line; property_content line = dollar # q\<rbrakk> \<Longrightarrow>
   read_lines_of content p (line # rest) =
     Option.bind (read_lines_of content q content)
       (\<lambda>(found, v). if found then Some (True, v) else read_lines_of content p rest)"
  by (subst read_lines_of.simps) simp

section \<open>Termination\<close>

text \<open>The references between the properties of a file.\<close>

definition refers :: "string list \<Rightarrow> (string \<times> string) set" where
  "refers content = {(q, p). \<exists>line \<in> set content. \<not> is_comment line \<and> has_property p line \<and>
     property_content line = dollar # q}"

lemma has_property_prefix: "has_property p line \<Longrightarrow> p \<in> (\<lambda>n. take n line) ` {..length line}"
proof -
  assume "has_property p line"
  then obtain r where "line = p @ r"
    by (auto simp: has_property_def starts_with_iff dest!: str_find_Some)
  then have "p = take (length p) line" "length p \<le> length line" by simp_all
  then show ?thesis by blast
qed

lemma finite_refers: "finite (refers content)"
proof (rule finite_subset)
  show "refers content \<subseteq> (\<lambda>line. tl (property_content line)) ` set content \<times>
      (\<Union>line \<in> set content. (\<lambda>n. take n line) ` {..length line})"
  proof (rule subrelI)
    fix q p
    assume "(q, p) \<in> refers content"
    then obtain line where l: "line \<in> set content" "has_property p line" "property_content line = dollar # q"
      by (auto simp: refers_def)
    then have "q \<in> (\<lambda>line. tl (property_content line)) ` set content" by force
    then show "(q, p) \<in> (\<lambda>line. tl (property_content line)) ` set content \<times>
        (\<Union>line \<in> set content. (\<lambda>n. take n line) ` {..length line})"
      using l(1) has_property_prefix[OF l(2)] by blast
  qed
qed simp

lemma reading_ends:
  assumes "wf (refers content)"
  shows "set rest \<subseteq> set content \<Longrightarrow> \<exists>r. read_lines_of content p rest = Some r"
  using assms
proof (induction p arbitrary: rest rule: wf_induct_rule)
  case (less p)
  from less.prems show ?case
  proof (induction rest)
    case (Cons line rest)
    then obtain r where rest: "read_lines_of content p rest = Some r" by auto
    have direct: "\<lbrakk>\<not> is_comment line; has_property p line; property_content line = [] \<or> hd (property_content line) \<noteq> dollar\<rbrakk> \<Longrightarrow>
        \<exists>r. read_lines_of content p (line # rest) = Some r"
      by (auto simp: read_lines_of_value)
    consider "is_comment line \<or> \<not> has_property p line"
      | "\<not> is_comment line" "has_property p line" "property_content line = [] \<or> hd (property_content line) \<noteq> dollar"
      | q where "\<not> is_comment line" "has_property p line" "property_content line = dollar # q"
      by (cases "property_content line") auto
    then show ?case
    proof cases
      case 1
      then show ?thesis using rest by (simp add: read_lines_of_other)
    next
      case 2
      then show ?thesis by (rule direct)
    next
      case 3
      then have "(q, p) \<in> refers content" using Cons.prems by (auto simp: refers_def)
      then obtain v where "read_lines_of content q content = Some v" using less.IH by blast
      then show ?thesis using 3 rest by (simp add: read_lines_of_reference split: prod.split)
    qed
  qed (blast intro: read_lines_of_Nil)
qed

text \<open>The first line of a property that refers to the property itself.\<close>

lemma self_reference_diverges:
  fixes after :: "string list"
  assumes line: "\<not> is_comment line" "has_property p line" "property_content line = dollar # p"
    and before: "\<And>l. l \<in> set before \<Longrightarrow> is_comment l \<or> \<not> has_property p l"
  defines "content \<equiv> before @ line # after"
  shows "read_lines_of content p content = None"
proof (rule ccontr)
  let ?P = "\<lambda>c q rest (r :: bool \<times> string). \<not> (c = content \<and> q = p \<and>
      (\<exists>b. set b \<subseteq> set before \<and> rest = b @ line # after))"
  have no: "?P content p rest r" if "read_lines_of content p rest = Some r" for rest r
  proof (rule read_lines_of.raw_induct[where P = ?P, OF _ that])
    fix f c q rest and r :: "bool \<times> string"
    assume IH: "\<And>c q rest r. f c q rest = Some r \<Longrightarrow> ?P c q rest r"
      and step: "(case rest of
        [] \<Rightarrow> Some (False, [])
      | line # rest \<Rightarrow>
          if is_comment line \<or> \<not> has_property q line then f c q rest
          else if property_content line \<noteq> [] \<and> hd (property_content line) = dollar
          then Option.bind (f c (tl (property_content line)) c)
            (\<lambda>(found, v). if found then Some (True, v) else f c q rest)
          else Some (True, without_newline (property_content line))) = Some r"
    have inside: "f content p (b @ line # after) = None" if "set b \<subseteq> set before" for b
      using IH[of content p "b @ line # after"] that by (cases "f content p (b @ line # after)") auto
    have "False" if here: "c = content" "q = p" "set b \<subseteq> set before" "rest = b @ line # after" for b
    proof (cases b)
      case Nil
      then show False
        using step line inside[of before] here(1,2,4) by (simp add: content_def)
    next
      case (Cons l b')
      then show False
        using step inside[of b'] before[of l] here by auto
    qed
    then show "?P c q rest r" by blast
  qed
  assume "read_lines_of content p content \<noteq> None"
  then show False using no[of content] by (auto simp: content_def)
qed



section \<open>What is read\<close>

text \<open>A file of entries, with lines that end as on Unix or, with \<open>cr\<close>, as on DOS.\<close>

definition entry_line :: "string \<Rightarrow> string \<times> string \<Rightarrow> string" where
  "entry_line cr e = fst e @ CHR ''='' # snd e @ cr"

definition property_file :: "string \<Rightarrow> (string \<times> string) list \<Rightarrow> string" where
  "property_file cr kvs = concat (map (\<lambda>e. entry_line cr e @ [newline]) kvs)"

definition name_ok :: "string \<Rightarrow> bool" where
  "name_ok k \<longleftrightarrow> set k \<inter> {CHR '' '', CHR ''='', newline, return_char} = {}"

definition entry_ok :: "string \<times> string \<Rightarrow> bool" where
  "entry_ok e \<longleftrightarrow> fst e \<noteq> [] \<and> hd (fst e) \<noteq> CHR ''#'' \<and> name_ok (fst e) \<and>
     set (snd e) \<inter> {newline, return_char} = {}"

lemma key_prefix:
  "\<lbrakk>CHR ''='' \<notin> set p; name_ok k\<rbrakk> \<Longrightarrow>
     starts_with (p @ ''='') (k @ CHR ''='' # v) = (p = k) \<and> \<not> starts_with (p @ '' '') (k @ CHR ''='' # v)"
proof (induction p arbitrary: k)
  case Nil
  then show ?case by (cases k) (auto simp: name_ok_def)
next
  case (Cons c p)
  then show ?case by (cases k) (auto simp: name_ok_def)
qed

lemma getlines_property_file:
  assumes "\<forall>e \<in> set kvs. entry_ok e" "newline \<notin> set cr"
  shows "getlines (property_file cr kvs) = map (entry_line cr) kvs"
  using assms(1)
proof (induction kvs)
  case (Cons e kvs)
  then have "newline \<notin> set (entry_line cr e)"
    using assms(2) by (auto simp: entry_ok_def name_ok_def entry_line_def)
  then show ?case using Cons by (simp add: property_file_def)
qed (simp add: property_file_def)

lemma has_property_entry:
  assumes "entry_ok e" "CHR ''='' \<notin> set p"
  shows "has_property p (entry_line cr e) \<longleftrightarrow> p = fst e" and "\<not> is_comment (entry_line cr e)"
    and "property_content (entry_line cr e) = snd e @ cr"
proof -
  have ne: "entry_line cr e \<noteq> []" by (simp add: entry_line_def)
  have "has_property p (entry_line cr e) \<longleftrightarrow>
      starts_with (p @ '' '') (entry_line cr e) \<or> starts_with (p @ ''='') (entry_line cr e)"
    by (simp add: has_property_def str_find_zero[OF ne])
  then show "has_property p (entry_line cr e) \<longleftrightarrow> p = fst e"
    using assms key_prefix[of p "fst e" "snd e @ cr"] by (auto simp: entry_line_def entry_ok_def)
  show "\<not> is_comment (entry_line cr e)"
    using assms(1) by (cases "fst e") (auto simp: entry_ok_def is_comment_def entry_line_def)
  show "property_content (entry_line cr e) = snd e @ cr"
    using assms(1) str_find_char_first[of "CHR ''=''" "fst e" "snd e @ cr"]
    by (simp add: property_content_def entry_line_def entry_ok_def name_ok_def)
qed

definition lookup :: "string \<Rightarrow> (string \<times> string) list \<Rightarrow> string list \<Rightarrow> string \<Rightarrow> (bool \<times> string) option" where
  "lookup cr kvs content p =
     (case map_of kvs p of
        None \<Rightarrow> Some (False, [])
      | Some v \<Rightarrow> if v \<noteq> [] \<and> hd v = dollar then read_lines_of content (tl v @ cr) content else Some (True, v))"

lemma failed_is_empty: "read_lines_of content p rest = Some (False, v) \<Longrightarrow> v = []"
proof -
  let ?P = "\<lambda>c q rest (r :: bool \<times> string). \<not> fst r \<longrightarrow> snd r = []"
  assume read: "read_lines_of content p rest = Some (False, v)"
  have "?P content p rest (False, v)"
  proof (rule read_lines_of.raw_induct[where P = ?P, OF _ read])
    fix f c q rest and r :: "bool \<times> string"
    assume "\<And>c q rest r. f c q rest = Some r \<Longrightarrow> ?P c q rest r"
      and "(case rest of
        [] \<Rightarrow> Some (False, [])
      | line # rest \<Rightarrow>
          if is_comment line \<or> \<not> has_property q line then f c q rest
          else if property_content line \<noteq> [] \<and> hd (property_content line) = dollar
          then Option.bind (f c (tl (property_content line)) c)
            (\<lambda>(found, v). if found then Some (True, v) else f c q rest)
          else Some (True, without_newline (property_content line))) = Some r"
    then show "?P c q rest r"
      by (auto split: list.splits if_splits bind_splits prod.splits)
  qed
  then show ?thesis by simp
qed

text \<open>The line that matters, and what follows it, when no name occurs twice.\<close>

lemma read_entries:
  assumes "\<forall>e \<in> set kvs. entry_ok e" "distinct (map fst kvs)" "CHR ''='' \<notin> set p"
    and cr: "cr = [] \<or> cr = [return_char]"
  shows "read_lines_of content p (map (entry_line cr) kvs) = lookup cr kvs content p"
  using assms(1,2)
proof (induction kvs)
  case (Cons e kvs)
  obtain k v where e: "e = (k, v)" by (cases e)
  have ok: "entry_ok e" "set v \<inter> {newline, return_char} = {}"
    using Cons.prems by (auto simp: entry_ok_def e)
  note line = has_property_entry[OF ok(1) assms(3), of cr]
  show ?case
  proof (cases "p = k")
    case False
    then show ?thesis
      using Cons line by (simp add: read_lines_of_other lookup_def e)
  next
    case True
    then have "map_of kvs p = None"
      using Cons.prems(2) by (auto simp: e map_of_eq_None_iff)
    then have rest: "read_lines_of content p (map (entry_line cr) kvs) = Some (False, [])"
      using Cons by (simp add: lookup_def)
    have found: "has_property p (entry_line cr e)" using line(1) True by (simp add: e)
    show ?thesis
    proof (cases "v \<noteq> [] \<and> hd v = dollar")
      case True
      then have "property_content (entry_line cr e) = dollar # (tl v @ cr)"
        using line(3) by (cases v) (simp_all add: e)
      then have "read_lines_of content p (map (entry_line cr) (e # kvs)) =
          Option.bind (read_lines_of content (tl v @ cr) content)
            (\<lambda>(found, v). if found then Some (True, v) else Some (False, []))"
        using read_lines_of_reference[OF line(2) found, of "tl v @ cr" content "map (entry_line cr) kvs"]
        unfolding list.map rest by blast
      also have "\<dots> = read_lines_of content (tl v @ cr) content"
        using failed_is_empty[of content "tl v @ cr" content]
        by (cases "read_lines_of content (tl v @ cr) content") (auto split: prod.split)
      finally show ?thesis using True \<open>p = k\<close> by (simp add: lookup_def e)
    next
      case False
      then have plain: "property_content (entry_line cr e) = [] \<or> hd (property_content (entry_line cr e)) \<noteq> dollar"
        using line(3) cr by (cases v) (auto simp: e)
      have "without_newline (v @ cr) = v"
        using cr ok(2) by (auto simp: without_newline_def dest!: last_in_set)
      then show ?thesis
        using read_lines_of_value[OF line(2) found plain] line(3) False \<open>p = k\<close> by (auto simp: lookup_def e)
    qed
  qed
qed (simp add: lookup_def)

text \<open>
  C33: Of a file of entries with different names a property has the value of its entry, and one that is not
  there is not found.  A value that starts with a dollar is the value of the property it names; in a file
  with lines as on DOS the name then ends with the carriage return, so that it is never found.
\<close>

theorem readPropertyFromFile_spec:
  assumes "\<forall>e \<in> set kvs. entry_ok e" "distinct (map fst kvs)" "CHR ''='' \<notin> set p"
    and refs: "\<forall>e \<in> set kvs. snd e \<noteq> [] \<and> hd (snd e) = dollar \<longrightarrow> CHR ''='' \<notin> set (snd e)"
  defines "unix \<equiv> Some (property_file [] kvs)" and "dos \<equiv> Some (property_file [return_char] kvs)"
  shows "readPropertyFromFile unix p =
      (case map_of kvs p of
         None \<Rightarrow> Some (False, [])
       | Some v \<Rightarrow> if v \<noteq> [] \<and> hd v = dollar then readPropertyFromFile unix (tl v) else Some (True, v)) \<and>
    readPropertyFromFile dos p =
      (case map_of kvs p of
         None \<Rightarrow> Some (False, [])
       | Some v \<Rightarrow> if v \<noteq> [] \<and> hd v = dollar then Some (False, []) else Some (True, v))"
proof -
  have read: "readPropertyFromFile (Some (property_file cr kvs)) q =
      lookup cr kvs (map (entry_line cr) kvs) q" if "cr = [] \<or> cr = [return_char]" "CHR ''='' \<notin> set q" for cr q
    using read_entries[OF assms(1,2) that(2,1)] getlines_property_file[OF assms(1), of cr] that(1)
    by (auto simp: readPropertyFromFile_def)
  have named: "CHR ''='' \<notin> set (tl v)" if "map_of kvs p = Some v" "v \<noteq> []" "hd v = dollar" for v
    using refs map_of_SomeD[OF that(1)] that(2,3) by (cases v) force+
  have unix: "lookup [] kvs (map (entry_line []) kvs) p =
      (case map_of kvs p of
         None \<Rightarrow> Some (False, [])
       | Some v \<Rightarrow> if v \<noteq> [] \<and> hd v = dollar then readPropertyFromFile unix (tl v) else Some (True, v))"
    using getlines_property_file[OF assms(1), of "[]"]
    by (auto simp: lookup_def readPropertyFromFile_def unix_def split: option.split)
  have "fst e \<noteq> q @ [return_char]" if "e \<in> set kvs" for e q
    using assms(1) that by (fastforce simp: entry_ok_def name_ok_def)
  then have "map_of kvs (q @ [return_char]) = None" for q
    by (force simp: map_of_eq_None_iff)
  then have dos: "read_lines_of (map (entry_line [return_char]) kvs) (tl v @ [return_char])
      (map (entry_line [return_char]) kvs) = Some (False, [])"
    if "map_of kvs p = Some v" "v \<noteq> []" "hd v = dollar" for v
    using read_entries[OF assms(1,2), of "tl v @ [return_char]" "[return_char]"] named[OF that]
    by (simp add: lookup_def)
  show ?thesis
    unfolding unix_def dos_def read[OF disjI1[OF refl] assms(3)] read[OF disjI2[OF refl] assms(3)]
    using unix dos by (auto simp: unix_def lookup_def split: option.split)
qed

lemma readPropertyFromFile_spec_witness:
  "readPropertyFromFile (Some (property_file [] [(''HOME'', ''/opt''), (''DIR'', ''$HOME'')])) ''DIR'' = Some (True, ''/opt'') \<and>
   readPropertyFromFile (Some (property_file [return_char] [(''HOME'', ''/opt''), (''DIR'', ''$HOME'')])) ''DIR'' = Some (False, [])"
proof -
  let ?kvs = "[(''HOME'', ''/opt''), (''DIR'', ''$HOME'')]"
  have ok: "\<forall>e \<in> set ?kvs. entry_ok e" "distinct (map fst ?kvs)"
    "\<forall>e \<in> set ?kvs. snd e \<noteq> [] \<and> hd (snd e) = dollar \<longrightarrow> CHR ''='' \<notin> set (snd e)"
    by (simp_all add: entry_ok_def name_ok_def)
  show ?thesis
    using readPropertyFromFile_spec[OF ok(1,2) _ ok(3), of "''DIR''"]
      readPropertyFromFile_spec[OF ok(1,2) _ ok(3), of "''HOME''"] by simp
qed

section \<open>readFileContent and isRegularFile\<close>

text \<open>\<^verbatim>\<open>fgets\<close> reads up to the end of the line and at most one character less than the buffer holds.\<close>

definition fgets :: "nat \<Rightarrow> string \<Rightarrow> string \<times> string" where
  "fgets buffer_size file =
     (let n = min (buffer_size - 1) (Suc (find_if (\<lambda>c. c = newline) file)) in (take n file, drop n file))"

lemma fgets_shorter: "file \<noteq> [] \<Longrightarrow> length (snd (fgets 1024 file)) < length file"
  by (cases "file") (simp_all add: fgets_def Let_def min_def)

function read_chunks :: "string \<Rightarrow> string \<Rightarrow> string" where
  "read_chunks content file =
     (if file = [] then content
      else read_chunks (content @ cstr (fst (fgets 1024 file))) (snd (fgets 1024 file)))"
  by pat_completeness auto
termination
  by (relation "measure (\<lambda>(content, file). length file)") (auto dest: fgets_shorter)

declare read_chunks.simps [simp del]

definition readFileContent :: "string option \<Rightarrow> string \<Rightarrow> bool \<times> string" where
  "readFileContent file content =
     (case file of None \<Rightarrow> (False, content) | Some s \<Rightarrow> (s \<noteq> [], read_chunks content s))"

lemma read_chunks_plain: "nul \<notin> set file \<Longrightarrow> read_chunks content file = content @ file"
proof (induction content "file" rule: read_chunks.induct)
  case (1 content inp)
  show ?case
  proof (cases "inp = []")
    case False
    have split: "inp = fst (fgets 1024 inp) @ snd (fgets 1024 inp)"
      by (simp add: fgets_def Let_def)
    then have nul: "nul \<notin> set (fst (fgets 1024 inp))" "nul \<notin> set (snd (fgets 1024 inp))"
      using 1(2) by (metis UnCI set_append)+
    show ?thesis
      using 1(1)[OF False nul(2)] split by (subst read_chunks.simps) (simp add: False cstr_id[OF nul(1)])
  qed (simp add: read_chunks.simps)
qed

text \<open>The result of \<^verbatim>\<open>stat\<close> is the mode of the file.\<close>

definition isRegularFile :: "(string \<Rightarrow> 32 word option) \<Rightarrow> string \<Rightarrow> bool" where
  "isRegularFile stat path =
     (case stat path of None \<Rightarrow> False | Some mode \<Rightarrow> and mode 0xF000 = 0x8000)"

section \<open>ExpandPropertiesInString\<close>

definition is_delim :: "char \<Rightarrow> bool" where
  "is_delim c \<longleftrightarrow> c = CHR '' '' \<or> c = CHR ''/''"

text \<open>
  One round of the loop.  \<open>before\<close> is the part of the input in front of \<^verbatim>\<open>variablePos\<close>, \<open>rest\<close> starts
  with the dollar it points to; \<^verbatim>\<open>endPos\<close> is counted from there.
\<close>

definition end_pos :: "string \<Rightarrow> nat" where
  "end_pos rest = (if find_if is_delim rest < length rest then find_if is_delim rest else 1)"

definition next_pos :: "string \<Rightarrow> nat" where
  "next_pos rest = end_pos rest + find_if (\<lambda>c. c = dollar) (drop (end_pos rest) rest)"

lemma end_pos_pos: "rest \<noteq> [] \<Longrightarrow> hd rest = dollar \<Longrightarrow> 0 < end_pos rest"
  by (cases rest) (auto simp: end_pos_def is_delim_def)

lemma find_if_hit: "find_if p s < length s \<Longrightarrow> p (hd (drop (find_if p s) s))"
  by (induction s) (auto split: if_splits)

lemma next_not_delim: "next_pos rest < length rest \<Longrightarrow> hd (drop (next_pos rest) rest) = dollar"
  using find_if_hit[of "\<lambda>c. c = dollar" "drop (end_pos rest) rest"]
  by (simp add: next_pos_def less_diff_conv add.commute)

definition variable_value :: "string option \<Rightarrow> string \<Rightarrow> (bool \<times> string) option" where
  "variable_value file rest =
     (if find_if is_delim rest < length rest
      then readPropertyFromFile file (take (find_if is_delim rest - 1) (drop 1 rest))
      else Some (True, []))"

function expand_loop :: "string option \<Rightarrow> string \<Rightarrow> string \<Rightarrow> (bool \<times> string) option" where
  "expand_loop file before rest =
     (if rest = [] \<or> hd rest \<noteq> dollar then Some (True, before)
      else Option.bind (variable_value file rest) (\<lambda>(found, v).
        if \<not> found then Some (False, before)
        else if next_pos rest < length rest
        then expand_loop file (before @ take (next_pos rest) rest) (drop (next_pos rest) rest)
        else Some (True, before @ v @ drop (end_pos rest) rest)))"
  by pat_completeness auto
termination
  by (relation "measure (\<lambda>(file, before, rest). length rest)") (auto simp: next_pos_def dest: end_pos_pos)

declare expand_loop.simps [simp del]

definition ExpandPropertiesInString :: "string \<Rightarrow> string option \<Rightarrow> string \<Rightarrow> (bool \<times> string) option" where
  "ExpandPropertiesInString input file expandedString =
     (let pos = find_if (\<lambda>c. c = dollar) input in
      if pos < length input then expand_loop file (take pos input) (drop pos input)
      else Some (True, expandedString))"

lemma find_if_split: "find_if p (xs @ y # ys) = length xs" if "\<forall>x \<in> set xs. \<not> p x" "p y"
  using that by (induction xs) auto

lemma find_if_none: "find_if p xs = length xs" if "\<forall>x \<in> set xs. \<not> p x"
  using that by (induction xs) auto

lemma find_if_absent: "y \<notin> set xs \<Longrightarrow> find_if (\<lambda>c. c = y) xs = length xs"
  by (induction xs) auto

lemma find_if_first: "y \<notin> set xs \<Longrightarrow> find_if (\<lambda>c. c = y) (xs @ y # ys) = length xs"
  by (induction xs) auto

text \<open>The last dollar alone decides, if it starts a word.\<close>

lemma dollar_position:
  "\<lbrakk>xs @ dollar # ys = pre @ dollar # end_part; dollar \<notin> set end_part\<rbrakk> \<Longrightarrow> length xs \<le> length pre"
  by (auto simp: append_eq_append_conv2 append_eq_Cons_conv)

lemma find_if_within: "x \<in> set xs \<Longrightarrow> p x \<Longrightarrow> find_if p (xs @ ys) < length xs"
  by (induction xs) auto

lemma next_pos_within:
  assumes "mid \<noteq> []" "hd mid = dollar" "is_delim (List.last mid)"
  shows "next_pos (mid @ dollar # ys) < length (mid @ dollar # ys)"
proof -
  have "find_if is_delim (mid @ dollar # ys) < length mid"
    by (rule find_if_within[of "List.last mid"]) (use assms in simp_all)
  then have e: "end_pos (mid @ dollar # ys) \<le> length mid"
    by (simp add: end_pos_def)
  have "find_if p (xs @ y # zs) \<le> length xs" if "p y" for p y and xs zs :: string
    using that by (induction xs) auto
  from this[of "\<lambda>c. c = dollar" dollar "drop (end_pos (mid @ dollar # ys)) mid" ys]
  show ?thesis using e by (simp add: next_pos_def)
qed

lemma expand_last:
  "\<lbrakk>expand_loop f before rest = Some (True, out); rest \<noteq> []; hd rest = dollar;
    before @ rest = pre @ dollar # end_part; dollar \<notin> set end_part; length before \<le> length pre;
    dollar \<notin> set pre \<or> is_delim (List.last pre)\<rbrakk> \<Longrightarrow>
   expand_loop f pre (dollar # end_part) = Some (True, out)"
proof (induction f before rest rule: expand_loop.induct)
  case (1 f before rest)
  show ?case
  proof (cases "next_pos rest < length rest")
    case False
    obtain mid where mid: "pre = before @ mid" "rest = mid @ dollar # end_part"
      using 1(5,7) by (auto simp: append_eq_append_conv2)
    have "mid = []"
    proof (rule ccontr)
      assume ne: "mid \<noteq> []"
      then have "hd mid = dollar" using mid(2) 1(4) by simp
      then have "is_delim (List.last mid)" using 1(8) ne mid(1) by (cases mid) auto
      then show False using next_pos_within[OF ne \<open>hd mid = dollar\<close>] False mid(2) by simp
    qed
    then show ?thesis using 1(2) mid by simp
  next
    case True
    let ?n = "next_pos rest"
    obtain v where found: "variable_value f rest = Some (True, v)"
      and step: "expand_loop f (before @ take ?n rest) (drop ?n rest) = Some (True, out)"
      using 1(2,3,4) True by (subst (asm) expand_loop.simps) (auto split: bind_splits if_splits)
    obtain ys where ys: "drop ?n rest = dollar # ys"
      using next_not_delim[OF True] True by (cases "drop ?n rest") auto
    then have whole: "(before @ take ?n rest) @ dollar # ys = pre @ dollar # end_part"
      using 1(5) append_take_drop_id[of ?n rest] by simp
    show ?thesis
      by (rule 1(1)[OF _ found refl _ True step])
        (use 1(3,4,6,8) ys whole dollar_position[OF whole 1(6)] in simp_all)
  qed
qed

lemma expand_single:
  assumes "\<forall>c \<in> set name. \<not> is_delim c" "dollar \<notin> set name" "is_delim d" "dollar \<notin> set post"
  shows "expand_loop f pre (dollar # name @ d # post) =
    Option.bind (readPropertyFromFile f name)
      (\<lambda>(found, v). Some (if found then (True, pre @ v @ d # post) else (False, pre)))"
proof -
  have delim: "find_if is_delim (dollar # name @ d # post) = Suc (length name)"
    using find_if_split[of "dollar # name" is_delim d post] assms(1,3) by (simp add: is_delim_def)
  have "dollar \<notin> set (d # post)" using assms(3,4) by (auto simp: is_delim_def)
  then have no_more: "find_if (\<lambda>c. c = dollar) (d # post) = length (d # post)"
    by (intro find_if_none) auto
  show ?thesis
    by (subst expand_loop.simps)
      (cases "readPropertyFromFile f name";
       auto simp: variable_value_def delim end_pos_def next_pos_def no_more simp del: find_if.simps)
qed

lemma expand_single_end:
  assumes "\<forall>c \<in> set name. \<not> is_delim c" "dollar \<notin> set name"
  shows "expand_loop f pre (dollar # name) = Some (True, pre @ name)"
proof -
  have delim: "find_if is_delim (dollar # name) = Suc (length name)"
    using find_if_none[of "dollar # name" is_delim] assms(1) by (simp add: is_delim_def)
  have "find_if (\<lambda>c. c = dollar) name = length name"
    using assms(2) by (intro find_if_none) auto
  then show ?thesis
    by (subst expand_loop.simps)
      (simp add: variable_value_def delim end_pos_def next_pos_def del: find_if.simps)
qed

text \<open>
  A text without a dollar leaves the output as it was.  One variable is replaced, up to the next blank
  or slash; a variable that cannot be read ends the loop.  Of several variables only the last is
  replaced, and a variable at the end of the text is not, but loses its dollar.
\<close>

theorem ExpandPropertiesInString_spec:
  assumes "\<forall>c \<in> set name. \<not> is_delim c" "dollar \<notin> set name" "is_delim d" "dollar \<notin> set post"
    and "dollar \<notin> set pre \<or> is_delim (List.last pre)"
  shows "(dollar \<notin> set input \<longrightarrow> ExpandPropertiesInString input f old = Some (True, old)) \<and>
    (dollar \<notin> set pre \<longrightarrow> ExpandPropertiesInString (pre @ dollar # name @ d # post) f old =
       Option.bind (readPropertyFromFile f name)
         (\<lambda>(found, v). Some (if found then (True, pre @ v @ d # post) else (False, pre)))) \<and>
    (ExpandPropertiesInString (pre @ dollar # name @ d # post) f old = Some (True, out) \<longrightarrow>
       (\<exists>v. readPropertyFromFile f name = Some (True, v) \<and> out = pre @ v @ d # post)) \<and>
    (ExpandPropertiesInString (pre @ dollar # name) f old = Some (True, out) \<longrightarrow> out = pre @ name)"
proof -
  have start: "\<exists>b r. ExpandPropertiesInString (pre @ dollar # xs) f old = expand_loop f b r \<and> r \<noteq> [] \<and>
      hd r = dollar \<and> b @ r = pre @ dollar # xs \<and> length b \<le> length pre" for xs
  proof -
    let ?s = "pre @ dollar # xs"
    let ?n = "find_if (\<lambda>c. c = dollar) ?s"
    have n: "?n \<le> length pre" by (induction pre) auto
    moreover have "hd (drop ?n ?s) = dollar" using n find_if_hit[of "\<lambda>c. c = dollar" ?s] by simp
    ultimately have "ExpandPropertiesInString ?s f old = expand_loop f (take ?n ?s) (drop ?n ?s) \<and> drop ?n ?s \<noteq> [] \<and>
        hd (drop ?n ?s) = dollar \<and> take ?n ?s @ drop ?n ?s = ?s \<and> length (take ?n ?s) \<le> length pre"
      by (simp add: ExpandPropertiesInString_def Let_def)
    then show ?thesis by blast
  qed
  have last_only: "expand_loop f pre (dollar # xs) = Some (True, out)"
    if "ExpandPropertiesInString (pre @ dollar # xs) f old = Some (True, out)" "dollar \<notin> set xs" for xs out
    using start[of xs] that expand_last[of f _ _ out pre xs] assms(5) by metis
  have "ExpandPropertiesInString input f old = Some (True, old)" if "dollar \<notin> set input"
    using find_if_absent[OF that] by (auto simp: ExpandPropertiesInString_def Let_def)
  moreover have "ExpandPropertiesInString (pre @ dollar # name @ d # post) f old =
      expand_loop f pre (dollar # name @ d # post)" if "dollar \<notin> set pre"
    using find_if_first[OF that, of "name @ d # post"]
    by (auto simp: ExpandPropertiesInString_def Let_def)
  moreover have "\<exists>v. readPropertyFromFile f name = Some (True, v) \<and> out = pre @ v @ d # post"
    if "ExpandPropertiesInString (pre @ dollar # name @ d # post) f old = Some (True, out)"
    using last_only[OF that] assms(2-4) expand_single[OF assms(1-4), of f pre]
    by (auto simp: is_delim_def split: bind_splits if_splits)
  moreover have "out = pre @ name" if "ExpandPropertiesInString (pre @ dollar # name) f old = Some (True, out)"
    using last_only[OF that assms(2)] expand_single_end[OF assms(1,2), of f pre] by simp
  ultimately show ?thesis using expand_single[OF assms(1-4), of f pre] by auto
qed

lemma ExpandPropertiesInString_spec_witness:
  "ExpandPropertiesInString ''/$A/x'' (Some (property_file [] [(''A'', ''opt'')])) [] = Some (True, ''/opt/x'')"
proof -
  have ok: "\<forall>e \<in> set [(''A'', ''opt'')]. entry_ok e" by (simp add: entry_ok_def name_ok_def)
  have "readPropertyFromFile (Some (property_file [] [(''A'', ''opt'')])) ''A'' = Some (True, ''opt'')"
    using read_entries[OF ok, of "''A''" "[]"] getlines_property_file[OF ok, of "[]"]
    by (simp add: readPropertyFromFile_def lookup_def)
  then show ?thesis
    using ExpandPropertiesInString_spec[of "''A''" "CHR ''/''" "''x''" "''/''"] by (simp add: is_delim_def)
qed

end
