(* ===== verification/Utils_Search.thy ===== *)
theory Utils_Search
  imports Utils_Property
begin

text \<open>
  The search for files in \<^verbatim>\<open>helpers/UtilsgetFileContent.h\<close>.  Directories and their entries are
  parameters.  The regular expressions the code makes of wildcards are modelled; what a path
  with other special characters means as an expression is a parameter, \<open>None\<close> when it is malformed.
\<close>

section \<open>Patterns\<close>

definition replace_char :: "char \<Rightarrow> string \<Rightarrow> string \<Rightarrow> string" where
  "replace_char c by_text s = concat (map (\<lambda>x. if x = c then by_text else [x]) s)"

text \<open>The text is \<^verbatim>\<open>[^\n]\<close> with a backslash; the loops step over what they have put in.\<close>

definition not_newline :: string where
  "not_newline = [CHR ''['', CHR 0x5E, CHR 0x5C, CHR ''n'', CHR '']'']"

definition wildcard_pattern :: "string \<Rightarrow> string" where
  "wildcard_pattern s =
     replace_char (CHR ''?'') (not_newline @ ''{1}'') (replace_char (CHR ''*'') (not_newline @ ''*'') s)"

text \<open>Expressions of characters, the dot and the two that stand for wildcards.\<close>

datatype atom = Lit char | Dot | One | Many

definition special_chars :: string where
  "special_chars = [CHR 0x5E, CHR ''$'', CHR 0x5C, CHR ''*'', CHR ''+'', CHR ''?'', CHR ''('', CHR '')'',
     CHR ''['', CHR '']'', CHR ''{'', CHR ''}'', CHR ''|'']"

function parse_regex :: "string \<Rightarrow> atom list option" where
  "parse_regex s =
     (if s = [] then Some []
      else if starts_with (not_newline @ ''*'') s then map_option ((#) Many) (parse_regex (drop 6 s))
      else if starts_with (not_newline @ ''{1}'') s then map_option ((#) One) (parse_regex (drop 8 s))
      else if hd s \<in> set special_chars then None
      else map_option ((#) (if hd s = CHR ''.'' then Dot else Lit (hd s))) (parse_regex (tl s)))"
  by pat_completeness auto
termination by (relation "measure length") auto

declare parse_regex.simps [simp del]

definition line_end :: "char \<Rightarrow> bool" where
  "line_end c \<longleftrightarrow> c = newline \<or> c = return_char"

fun match_here :: "atom list \<Rightarrow> string \<Rightarrow> bool" where
  "match_here [] s = True"
| "match_here (Many # r) [] = match_here r []"
| "match_here (Many # r) (c # s) = (match_here r (c # s) \<or> c \<noteq> newline \<and> match_here (Many # r) s)"
| "match_here (a # r) [] = False"
| "match_here (Lit x # r) (c # s) = (c = x \<and> match_here r s)"
| "match_here (Dot # r) (c # s) = (\<not> line_end c \<and> match_here r s)"
| "match_here (One # r) (c # s) = (c \<noteq> newline \<and> match_here r s)"

text \<open>\<^verbatim>\<open>std::regex_search\<close>: a match anywhere.\<close>

fun search_atoms :: "atom list \<Rightarrow> string \<Rightarrow> bool" where
  "search_atoms r [] = match_here r []"
| "search_atoms r (c # s) = (match_here r (c # s) \<or> search_atoms r s)"

section \<open>The search\<close>

record files =
  fs_opendir :: "string \<Rightarrow> string list option"
  fs_access :: "string \<Rightarrow> bool"
  fs_regex :: "string \<Rightarrow> (string \<Rightarrow> bool) option"

definition regex_of :: "files \<Rightarrow> string \<Rightarrow> (string \<Rightarrow> bool) option" where
  "regex_of fs pattern =
     (case parse_regex pattern of Some r \<Rightarrow> Some (search_atoms r) | None \<Rightarrow> fs_regex fs pattern)"

definition wanted :: "(string \<Rightarrow> bool) \<Rightarrow> string list \<Rightarrow> string \<Rightarrow> bool" where
  "wanted found exclusions fileName \<longleftrightarrow>
     fileName \<noteq> ''.'' \<and> fileName \<noteq> ''..'' \<and> found fileName \<and> fileName \<notin> set exclusions"

text \<open>The loop over the entries on the last level; \<^verbatim>\<open>inputPath\<close> grows with every name.\<close>

primrec leaf_loop :: "files \<Rightarrow> (string \<Rightarrow> bool) \<Rightarrow> string list \<Rightarrow> string \<Rightarrow> nat \<Rightarrow> string \<Rightarrow> string" where
  "leaf_loop fs want [] inputPath hits result = result"
| "leaf_loop fs want (fileName # entries) inputPath hits result =
     (if \<not> want fileName then leaf_loop fs want entries inputPath hits result
      else let inputPath = inputPath @ fileName in
        if fs_access fs inputPath
        then let result = result @ inputPath @ [newline] in
          if hits + 1 \<ge> 10 then result else leaf_loop fs want entries inputPath (hits + 1) result
        else leaf_loop fs want entries inputPath hits result)"

text \<open>The loop on a level above; the list of the path is changed for good.\<close>

primrec dir_loop :: "(string list \<Rightarrow> string \<Rightarrow> (bool \<times> string list \<times> string) option) \<Rightarrow> (string \<Rightarrow> bool) \<Rightarrow>
    nat \<Rightarrow> string list \<Rightarrow> string list \<Rightarrow> string \<Rightarrow> (bool \<times> string list \<times> string) option" where
  "dir_loop sub want currentDepth [] pathList result = Some (True, pathList, result)"
| "dir_loop sub want currentDepth (fileName # entries) pathList result =
     (if \<not> want fileName then dir_loop sub want currentDepth entries pathList result
      else Option.bind (sub (pathList[currentDepth := fileName]) result)
        (\<lambda>(_, pathList, result). dir_loop sub want currentDepth entries pathList result))"

definition path_prefix :: "string list \<Rightarrow> nat \<Rightarrow> string" where
  "path_prefix pathList currentDepth = ''/'' @ concat (map (\<lambda>p. p @ ''/'') (take currentDepth pathList))"

definition has_wildcard :: "string \<Rightarrow> bool" where
  "has_wildcard s \<longleftrightarrow> CHR ''*'' \<in> set s \<or> CHR ''?'' \<in> set s"

text \<open>One level; \<open>sub\<close> is the search of the level below, if there is one.\<close>

definition search_level :: "files \<Rightarrow> string list \<Rightarrow> nat \<Rightarrow>
    (string list \<Rightarrow> string \<Rightarrow> (bool \<times> string list \<times> string) option) option \<Rightarrow>
    string list \<Rightarrow> string \<Rightarrow> (bool \<times> string list \<times> string) option" where
  "search_level fs exclusions currentDepth sub pathList result =
     (let inputPath = path_prefix pathList currentDepth; currentPath = pathList ! currentDepth in
      if has_wildcard currentPath then
        (case fs_opendir fs inputPath of
           None \<Rightarrow> Some (False, pathList, result)
         | Some entries \<Rightarrow>
             Option.bind (regex_of fs (wildcard_pattern currentPath)) (\<lambda>found.
               case sub of
                 None \<Rightarrow> Some (True, pathList, leaf_loop fs (wanted found exclusions) entries inputPath 0 result)
               | Some f \<Rightarrow> dir_loop f (wanted found exclusions) currentDepth entries pathList result))
      else (case sub of
          None \<Rightarrow> Some (True, pathList,
            if fs_access fs (inputPath @ currentPath) then result @ inputPath @ currentPath @ [newline] else result)
        | Some f \<Rightarrow> map_option (\<lambda>(_, pathList, result). (True, pathList, result)) (f pathList result)))"

text \<open>The number of levels below the current one; the length of the path never changes.\<close>

primrec search_rec :: "files \<Rightarrow> string list \<Rightarrow> nat \<Rightarrow> nat \<Rightarrow> string list \<Rightarrow> string \<Rightarrow>
    (bool \<times> string list \<times> string) option" where
  "search_rec fs exclusions 0 currentDepth = search_level fs exclusions currentDepth None"
| "search_rec fs exclusions (Suc n) currentDepth =
     search_level fs exclusions currentDepth (Some (search_rec fs exclusions n (Suc currentDepth)))"

definition searchFilesRec :: "files \<Rightarrow> string list \<Rightarrow> nat \<Rightarrow> string list \<Rightarrow> string \<Rightarrow>
    (bool \<times> string list \<times> string) option" where
  "searchFilesRec fs pathList currentDepth exclusions result =
     (if pathList = [] then Some (False, pathList, result)
      else search_rec fs exclusions (length pathList - 1 - currentDepth) currentDepth pathList result)"

text \<open>The depths are not used.\<close>

definition searchFiles :: "files \<Rightarrow> string \<Rightarrow> int \<Rightarrow> int \<Rightarrow> string list \<Rightarrow> string \<Rightarrow> (bool \<times> string) option" where
  "searchFiles fs inputPath maxDepth minDepth exclusions result =
     map_option (\<lambda>(ok, _, result). (ok, result))
       (searchFilesRec fs (tl (split_str [] inputPath ''/'')) 0 exclusions result)"

section \<open>Wildcards\<close>

text \<open>The usual meaning of wildcards, for a whole name; a dot of the pattern stands for any character.\<close>

fun glob :: "string \<Rightarrow> string \<Rightarrow> bool" where
  "glob [] s = (s = [])"
| "glob (p # ps) [] = (p = CHR ''*'' \<and> glob ps [])"
| "glob (p # ps) (c # s) =
     (if p = CHR ''*'' then glob ps (c # s) \<or> glob (p # ps) s
      else (p = CHR ''?'' \<or> p = CHR ''.'' \<or> p = c) \<and> glob ps s)"

definition plain_pattern :: "string \<Rightarrow> bool" where
  "plain_pattern p \<longleftrightarrow> (\<forall>c \<in> set p. c \<in> set special_chars \<longrightarrow> c = CHR ''*'' \<or> c = CHR ''?'')"

definition atom_of :: "char \<Rightarrow> atom" where
  "atom_of c = (if c = CHR ''*'' then Many else if c = CHR ''?'' then One else if c = CHR ''.'' then Dot else Lit c)"

lemma wildcard_pattern_Cons:
  "wildcard_pattern (c # p) =
     (if c = CHR ''*'' then not_newline @ ''*'' else if c = CHR ''?'' then not_newline @ ''{1}'' else [c]) @
     wildcard_pattern p"
  by (simp add: wildcard_pattern_def replace_char_def not_newline_def)

lemma parse_wildcards: "plain_pattern p \<Longrightarrow> parse_regex (wildcard_pattern p) = Some (map atom_of p)"
proof (induction p)
  case Nil
  then show ?case by (simp add: wildcard_pattern_def replace_char_def parse_regex.simps)
next
  case (Cons c p)
  then have rest: "parse_regex (wildcard_pattern p) = Some (map atom_of p)"
    and c: "c \<in> set special_chars \<longrightarrow> c = CHR ''*'' \<or> c = CHR ''?''"
    by (simp_all add: plain_pattern_def)
  show ?case
    unfolding wildcard_pattern_Cons
    by (subst parse_regex.simps)
      (use c in \<open>auto simp: rest not_newline_def special_chars_def atom_of_def\<close>)
qed

definition one_line :: "string \<Rightarrow> bool" where
  "one_line s \<longleftrightarrow> (\<forall>c \<in> set s. \<not> line_end c)"

lemma match_many: "one_line s \<Longrightarrow> match_here (Many # r) s \<longleftrightarrow> (\<exists>x y. s = x @ y \<and> match_here r y)"
proof (induction s)
  case (Cons c s)
  then have "match_here (Many # r) (c # s) \<longleftrightarrow> match_here r (c # s) \<or> (\<exists>x y. s = x @ y \<and> match_here r y)"
    by (auto simp: one_line_def line_end_def)
  then show ?case by (auto simp: Cons_eq_append_conv)
qed simp

lemma glob_many: "glob (CHR ''*'' # p) s \<longleftrightarrow> (\<exists>x y. s = x @ y \<and> glob p y)"
  by (induction s) (auto simp: Cons_eq_append_conv)

lemma glob_one: "c \<noteq> CHR ''*'' \<Longrightarrow>
    glob (c # p) y \<longleftrightarrow> (\<exists>d y'. y = d # y' \<and> (c = CHR ''?'' \<or> c = CHR ''.'' \<or> c = d) \<and> glob p y')"
  by (cases y) auto

lemma match_one: "c \<noteq> CHR ''*'' \<Longrightarrow> \<not> line_end d \<Longrightarrow>
    match_here (atom_of c # r) (d # s) \<longleftrightarrow> (c = CHR ''?'' \<or> c = CHR ''.'' \<or> c = d) \<and> match_here r s"
  by (auto simp: atom_of_def line_end_def)

lemma match_glob: "one_line s \<Longrightarrow> match_here (map atom_of p) s \<longleftrightarrow> (\<exists>y z. s = y @ z \<and> glob p y)"
proof (induction p arbitrary: s)
  case (Cons c p)
  show ?case
  proof (cases "c = CHR ''*''")
    case True
    have part: "one_line y" if "s = x @ y" for x y using Cons.prems that by (simp add: one_line_def)
    have "match_here (map atom_of (c # p)) s \<longleftrightarrow> (\<exists>x y. s = x @ y \<and> match_here (map atom_of p) y)"
      using match_many[OF Cons.prems] by (simp add: True atom_of_def)
    also have "\<dots> \<longleftrightarrow> (\<exists>x y z. s = x @ y @ z \<and> glob p y)"
      using Cons.IH part by blast
    also have "\<dots> \<longleftrightarrow> (\<exists>y z. s = y @ z \<and> glob (c # p) y)"
      by (auto simp: True glob_many; metis append.assoc)
    finally show ?thesis .
  next
    case False
    show ?thesis
    proof (cases s)
      case (Cons d s')
      then have "one_line s'" "\<not> line_end d" using Cons.prems by (simp_all add: one_line_def)
      have "(\<exists>y z. d # s' = y @ z \<and> glob (c # p) y) \<longleftrightarrow>
          (c = CHR ''?'' \<or> c = CHR ''.'' \<or> c = d) \<and> (\<exists>y z. s' = y @ z \<and> glob p y)"
        unfolding glob_one[OF False] by (auto simp: Cons_eq_append_conv)
      then show ?thesis
        using match_one[OF False \<open>\<not> line_end d\<close>] Cons.IH[OF \<open>one_line s'\<close>] by (simp add: Cons)
    qed (use False in \<open>auto simp: atom_of_def\<close>)
  qed
qed simp

lemma search_anywhere: "search_atoms r s \<longleftrightarrow> (\<exists>x y. s = x @ y \<and> match_here r y)"
  by (induction s) (auto simp: Cons_eq_append_conv)

text \<open>
  A wildcard pattern without other special characters finds the names that have, anywhere within them, a part
  that matches the pattern in the usual sense: it is not tied to the ends of the name.
\<close>

theorem wildcard_spec:
  assumes "plain_pattern p" "one_line name"
  shows "\<exists>found. regex_of fs (wildcard_pattern p) = Some found \<and>
    (found name \<longleftrightarrow> (\<exists>x y z. name = x @ y @ z \<and> glob p y))"
proof -
  have "one_line y" if "name = x @ y" for x y using assms(2) that by (simp add: one_line_def)
  then have "search_atoms (map atom_of p) name \<longleftrightarrow> (\<exists>x y z. name = x @ y @ z \<and> glob p y)"
    using match_glob by (fastforce simp: search_anywhere)
  then show ?thesis using parse_wildcards[OF assms(1)] by (simp add: regex_of_def)
qed

definition no_files :: files where
  "no_files = \<lparr>fs_opendir = (\<lambda>_. None), fs_access = (\<lambda>_. False), fs_regex = (\<lambda>_. None)\<rparr>"

lemma wildcard_spec_witness:
  "\<exists>found. regex_of no_files (wildcard_pattern ''a?c'') = Some found \<and> found ''xabcy''"
proof -
  have "plain_pattern ''a?c''" "one_line ''xabcy''"
    by (simp_all add: plain_pattern_def special_chars_def one_line_def line_end_def)
  moreover have "''xabcy'' = ''x'' @ ''abc'' @ ''y'' \<and> glob ''a?c'' ''abc''" by simp
  ultimately show ?thesis using wildcard_spec[of "''a?c''" "''xabcy''" no_files] by blast
qed

section \<open>What is found\<close>

lemma join_inject:
  "\<lbrakk>join [d] ps = join [d] qs; ps \<noteq> []; qs \<noteq> []; \<forall>p \<in> set ps. d \<notin> set p; \<forall>q \<in> set qs. d \<notin> set q\<rbrakk> \<Longrightarrow> ps = qs"
proof (induction ps arbitrary: qs)
  case (Cons p ps)
  then obtain q qs' where qs: "qs = q # qs'" by (cases qs) auto
  show ?case
  proof (cases "ps = [] \<or> qs' = []")
    case True
    then show ?thesis
      using Cons.prems by (cases "ps = []"; cases "qs' = []") (auto simp: qs join_Cons)
  next
    case False
    then have "p @ d # join [d] ps = q @ d # join [d] qs'"
      using Cons.prems(1) by (simp add: qs join_Cons)
    moreover have "d \<notin> set p" "d \<notin> set q" using Cons.prems by (simp_all add: qs)
    ultimately have "p = q \<and> join [d] ps = join [d] qs'"
      by (auto simp: append_eq_append_conv2 append_eq_Cons_conv Cons_eq_append_conv)
    then show ?thesis using Cons.IH[of qs'] Cons.prems False by (simp add: qs)
  qed
qed simp

definition path_of :: "string list \<Rightarrow> string" where
  "path_of comps = concat (map (\<lambda>c. CHR ''/'' # c) comps)"

lemma path_of_join: "path_of comps = join ''/'' ([] # comps)"
proof (induction comps rule: induct_list012)
  case (3 x y zs)
  then show ?case by (simp add: path_of_def join_Cons)
qed (simp_all add: path_of_def)

lemma split_path:
  assumes "\<forall>c \<in> set comps. CHR ''/'' \<notin> set c"
  shows "split_str [] (path_of comps) ''/'' = [] # comps"
proof (rule join_inject[where d = "CHR ''/''"])
  show "join ''/'' (split_str [] (path_of comps) ''/'') = join ''/'' ([] # comps)"
    using split_loop_join[of "CHR ''/''" "path_of comps" 0] by (simp add: split_str_def path_of_join)
  show "\<forall>p \<in> set (split_str [] (path_of comps) ''/''). CHR ''/'' \<notin> set p"
    using split_loop_parts[of _ "path_of comps" "''/''" 0] by (auto simp: split_str_def)
qed (use assms in \<open>simp_all add: split_str_def split_loop_nonempty\<close>)

text \<open>The paths that are tried on the last level: the names one after the other behind the directory.\<close>

definition tried :: "string \<Rightarrow> string list \<Rightarrow> string list" where
  "tried dir names = map (\<lambda>k. dir @ concat (take (Suc k) names)) [0..<length names]"

definition report :: "string list \<Rightarrow> string" where
  "report paths = concat (map (\<lambda>p. p @ [newline]) paths)"

lemma tried_Nil [simp]: "tried dir [] = []"
  by (simp add: tried_def)

lemma tried_Cons: "tried dir (n # names) = (dir @ n) # tried (dir @ n) names"
proof -
  have "[0..<length (n # names)] = 0 # map Suc [0..<length names]"
    by (simp add: upt_conv_Cons map_Suc_upt del: upt_Suc)
  then show ?thesis unfolding tried_def by simp
qed

lemma leaf_loop_report:
  "hits < 10 \<Longrightarrow> leaf_loop fs want entries dir hits result =
     result @ report (take (10 - hits) (filter (fs_access fs) (tried dir (filter want entries))))"
proof (induction entries arbitrary: dir hits result)
  case (Cons n entries)
  consider "\<not> want n" | "want n" "\<not> fs_access fs (dir @ n)"
    | "want n" "fs_access fs (dir @ n)" "hits = 9" | "want n" "fs_access fs (dir @ n)" "hits < 9"
    using Cons.prems by fastforce
  then show ?case
  proof cases
    case 4
    then have "10 - hits = Suc (10 - Suc hits)" by simp
    then show ?thesis using 4 Cons.IH[of "Suc hits"] by (simp add: tried_Cons report_def Let_def)
  qed (use Cons in \<open>simp_all add: tried_Cons report_def Let_def\<close>)
qed (simp add: tried_def report_def)

lemma search_plain_dirs:
  assumes "\<forall>c \<in> set dirs. \<not> has_wildcard c" "k \<le> length dirs"
  shows "search_rec fs exclusions (length dirs - k) k (dirs @ [leaf]) result =
    map_option (\<lambda>(ok, pathList, result). (ok \<or> k < length dirs, pathList, result))
      (search_level fs exclusions (length dirs) None (dirs @ [leaf]) result)"
  using assms(2)
proof (induction "length dirs - k" arbitrary: k)
  case 0
  then show ?case
    by (cases "search_level fs exclusions (length dirs) None (dirs @ [leaf]) result") auto
next
  case (Suc n)
  then have k: "k < length dirs" "n = length dirs - Suc k" by auto
  then have "\<not> has_wildcard ((dirs @ [leaf]) ! k)"
    using assms(1) by (simp add: nth_append)
  then have "search_rec fs exclusions (length dirs - k) k (dirs @ [leaf]) result =
      map_option (\<lambda>(_, pathList, result). (True, pathList, result))
        (search_rec fs exclusions (length dirs - Suc k) (Suc k) (dirs @ [leaf]) result)"
    using k Suc.hyps(2) by (simp add: search_level_def Let_def flip: Suc.hyps(2))
  then show ?case
    using Suc.hyps(1)[OF k(2)] k
    by (cases "search_level fs exclusions (length dirs) None (dirs @ [leaf]) result") auto
qed

text \<open>
  A path without wildcards is reported if it exists.  With a wildcard in its last part the search
  does not try the paths of the names found but the concatenations of these names, one after
  the other: only the first name found is looked up at its own path.  At most ten are reported.
\<close>

theorem searchFiles_spec:
  assumes "\<forall>c \<in> set (dirs @ [leaf]). CHR ''/'' \<notin> set c" "\<forall>c \<in> set dirs. \<not> has_wildcard c"
  defines "dir \<equiv> path_prefix dirs (length dirs)"
  shows "searchFiles fs (path_of (dirs @ [leaf])) maxDepth minDepth exclusions result =
    (if \<not> has_wildcard leaf
     then Some (True, result @ report (filter (fs_access fs) [dir @ leaf]))
     else (case fs_opendir fs dir of
        None \<Rightarrow> Some (dirs \<noteq> [], result)
      | Some entries \<Rightarrow> map_option (\<lambda>found. (True, result @
          report (take 10 (filter (fs_access fs) (tried dir (filter (wanted found exclusions) entries))))))
          (regex_of fs (wildcard_pattern leaf))))"
proof -
  have "searchFiles fs (path_of (dirs @ [leaf])) maxDepth minDepth exclusions result =
      map_option (\<lambda>(ok, _, result). (ok \<or> dirs \<noteq> [], result))
        (search_level fs exclusions (length dirs) None (dirs @ [leaf]) result)"
    using search_plain_dirs[OF assms(2), of 0 fs exclusions leaf result] split_path[OF assms(1)]
    by (simp add: searchFiles_def searchFilesRec_def option.map_comp comp_def split_def)
  moreover have "path_prefix (dirs @ [leaf]) (length dirs) = dir"
    by (simp add: dir_def path_prefix_def)
  moreover have "leaf_loop fs want entries dir 0 result =
      result @ report (take 10 (filter (fs_access fs) (tried dir (filter want entries))))" for want entries
    using leaf_loop_report[of 0] by simp
  ultimately show ?thesis
    by (cases "regex_of fs (wildcard_pattern leaf)")
      (auto simp: search_level_def Let_def report_def split: option.split)
qed

definition two_files :: files where
  "two_files = \<lparr>fs_opendir = (\<lambda>d. if d = ''/d/'' then Some [''a1'', ''a2''] else None),
     fs_access = (\<lambda>p. p = ''/d/a1'' \<or> p = ''/d/a2''), fs_regex = (\<lambda>_. None)\<rparr>"

lemma searchFiles_spec_witness:
  "searchFiles two_files ''/d/a*'' 0 0 [] [] = Some (True, ''/d/a1'' @ [newline])"
proof -
  have "regex_of two_files (wildcard_pattern ''a*'') = Some (search_atoms [Lit (CHR ''a''), Many])"
    using parse_wildcards[of "''a*''"]
    by (simp add: regex_of_def plain_pattern_def special_chars_def atom_of_def)
  then show ?thesis
    using searchFiles_spec[of "[''d'']" "''a*''" two_files 0 0 "[]" "[]"]
    by (simp add: path_of_def path_prefix_def has_wildcard_def two_files_def wanted_def tried_Cons report_def)
qed

end
