(* ===== verification/Front_Panel.thy ===== *)
theory Front_Panel
  imports Json Utils_Strings
begin

text \<open>
  \<^verbatim>\<open>helpers/frontpanel.cpp\<close>: the lights of the front panel (class \<^verbatim>\<open>CFrontPanel\<close> and the static
  variables of the file), built with \<^verbatim>\<open>USE_DS\<close> and \<^verbatim>\<open>HAS_API_POWERSTATE\<close>, without
  \<^verbatim>\<open>CLOCK_BRIGHTNESS_ENABLED\<close>.  The device-settings library is the parameter \<open>panel_lib\<close>; a call
  of it can throw.  The timer is the duration it is armed with.
\<close>

section \<open>The library of devices\<close>

type_synonym int32 = "32 word"

datatype clock_mode = kModeClock12Hr | kModeClock24Hr

datatype led_call =
    SetState string bool
  | SetBrightness string int32
  | SetBrightnessTransient string int32
  | SetColor string int32
  | SetColorTransient string int32
  | SetColorName string string
  | SetTimeFormat clock_mode

text \<open>A call returns whether it did not throw.  Queries that throw are \<open>None\<close>.\<close>

record 'w panel_lib =
  pl_call :: "led_call \<Rightarrow> 'w \<Rightarrow> bool \<times> 'w"
  pl_indicators :: "'w \<Rightarrow> string list option"
  pl_brightness :: "string \<Rightarrow> 'w \<Rightarrow> int32 option"
  pl_format :: "'w \<Rightarrow> clock_mode option"
  pl_write :: "string \<Rightarrow> 'w \<Rightarrow> 'w"
  pl_read :: "'w \<Rightarrow> string"

record FrontPanelBlinkInfo =
  ledIndicator :: string
  colorName :: string
  colorValue :: "32 word"
  brightness :: int32
  durationInMs :: int32
  colorMode :: int32

datatype frontPanelIndicator =
    FRONT_PANEL_INDICATOR_CLOCK | FRONT_PANEL_INDICATOR_MESSAGE | FRONT_PANEL_INDICATOR_POWER
  | FRONT_PANEL_INDICATOR_RECORD | FRONT_PANEL_INDICATOR_REMOTE | FRONT_PANEL_INDICATOR_RFBYPASS
  | FRONT_PANEL_INDICATOR_ALL

record 'w panel =
  fp_world :: 'w
  fp_calls :: "led_call list"
  fp_timer :: "int32 option"
  initDone :: bool
  globalLedBrightness :: int32
  isMessageLedOn :: bool
  isRecordLedOn :: bool
  powerStatus :: bool
  started :: bool
  m_numberOfBlinks :: int32
  m_maxNumberOfBlinkRepeats :: int32
  m_currentBlinkListIndex :: int32
  m_lights :: "string list"
  fpIndicators :: "string list"
  m_isBlinking :: bool
  m_blinkList :: "FrontPanelBlinkInfo list"
  m_preferencesHash :: jobject
  observers :: "nat list"
  lastError :: string

definition panel_init :: "'w \<Rightarrow> 'w panel" where
  "panel_init w = \<lparr>fp_world = w, fp_calls = [], fp_timer = None, initDone = False, globalLedBrightness = 100,
     isMessageLedOn = False, isRecordLedOn = False, powerStatus = False, started = False,
     m_numberOfBlinks = 0, m_maxNumberOfBlinkRepeats = 0, m_currentBlinkListIndex = 0, m_lights = [],
     fpIndicators = [], m_isBlinking = False, m_blinkList = [], m_preferencesHash = [], observers = [],
     lastError = []\<rparr>"

definition led_call :: "'w panel_lib \<Rightarrow> led_call \<Rightarrow> 'w panel \<Rightarrow> bool \<times> 'w panel" where
  "led_call L c p =
     (let (ok, w) = pl_call L c (fp_world p) in (ok, p\<lparr>fp_world := w, fp_calls := fp_calls p @ [c]\<rparr>))"

text \<open>Calls in one \<^verbatim>\<open>try\<close> block: the first that throws ends it.\<close>

primrec led_calls :: "'w panel_lib \<Rightarrow> led_call list \<Rightarrow> 'w panel \<Rightarrow> bool \<times> 'w panel" where
  "led_calls L [] p = (True, p)"
| "led_calls L (c # cs) p = (let (ok, p) = led_call L c p in if ok then led_calls L cs p else (False, p))"

section \<open>Start and stop\<close>

text \<open>A number, or a text that \<^verbatim>\<open>std::stoi\<close> reads; zero when it throws.\<close>

definition number_parameter :: "json_lib \<Rightarrow> jobject \<Rightarrow> string \<Rightarrow> int32" where
  "number_parameter J parameters name =
     (case jget parameters name of
        JNumber n \<Rightarrow> word_of_int (js_Number J (JNumber n))
      | v \<Rightarrow> (case stoi (js_String J v) of None \<Rightarrow> 0 | Some i \<Rightarrow> word_of_int i))"

primrec name_mappings :: "(string \<times> string) list \<Rightarrow> string \<Rightarrow> string" where
  "name_mappings [] name = name"
| "name_mappings (m # ms) name = (if snd m = name then fst m else name_mappings ms name)"

definition svc2iarm :: "string \<Rightarrow> string" where
  "svc2iarm name = name_mappings
     [(''Record'', ''record_led''), (''Message'', ''data_led''), (''Power'', ''power_led'')] name"

definition add_lights :: "string list \<Rightarrow> string list \<Rightarrow> string list" where
  "add_lights indicators lights = fold (\<lambda>n ls. if n \<in> set ls then ls else ls @ [n]) indicators lights"

definition init_calls :: "bool \<Rightarrow> int32 \<Rightarrow> string list \<Rightarrow> led_call list" where
  "init_calls powered level indicators =
     concat (map (\<lambda>n. (if powered then [SetBrightness n level] else []) @ [SetState n False]) indicators) @
     (if powered then [SetState ''Power'' True] else [])"

text \<open>\<open>power_on\<close>: the power manager was reached and reports that the device is on.\<close>

definition panel_instance :: "'w panel_lib \<Rightarrow> bool \<Rightarrow> 'w panel \<Rightarrow> 'w panel" where
  "panel_instance L power_on p =
     (if initDone p then p
      else (case pl_indicators L (fp_world p) of
          None \<Rightarrow> p
        | Some indicators \<Rightarrow>
            let p = p\<lparr>fpIndicators := indicators, m_lights := add_lights indicators (m_lights p),
                     powerStatus := powerStatus p \<or> power_on\<rparr> in
            (case pl_brightness L ''Power'' (fp_world p) of
               None \<Rightarrow> p
             | Some b \<Rightarrow> snd (led_calls L (init_calls (powerStatus p) b indicators) (p\<lparr>globalLedBrightness := b\<rparr>))))
        \<lparr>initDone := True\<rparr>)"

definition stopBlinkTimer :: "'w panel \<Rightarrow> 'w panel" where
  "stopBlinkTimer p = p\<lparr>m_isBlinking := False, fp_timer := None\<rparr>"

definition start_panel :: "'w panel_lib \<Rightarrow> 'w panel \<Rightarrow> bool \<times> 'w panel" where
  "start_panel L p =
     (let (ok, p) = (if powerStatus p then led_call L (SetState ''Power'' True) p else (True, p));
          p = (if ok then (case pl_indicators L (fp_world p) of
                 None \<Rightarrow> p
               | Some indicators \<Rightarrow> p\<lparr>m_lights := add_lights indicators (m_lights p)\<rparr>) else p) in
      (True, if started p then p
             else p\<lparr>m_numberOfBlinks := 0, m_maxNumberOfBlinkRepeats := 0, m_currentBlinkListIndex := 0,
                    started := True\<rparr>))"

definition stop_panel :: "'w panel \<Rightarrow> bool \<times> 'w panel" where
  "stop_panel p = (True, stopBlinkTimer p)"

definition setPowerStatus :: "bool \<Rightarrow> 'w panel \<Rightarrow> 'w panel" where
  "setPowerStatus bPowerStatus p = p\<lparr>powerStatus := bPowerStatus\<rparr>"

definition getLastError :: "'w panel \<Rightarrow> string" where
  "getLastError p = lastError p"

definition addEventObserver :: "nat \<Rightarrow> 'w panel \<Rightarrow> 'w panel" where
  "addEventObserver ob p = (if ob \<in> set (observers p) then p else p\<lparr>observers := observers p @ [ob]\<rparr>)"

definition removeEventObserver :: "nat \<Rightarrow> 'w panel \<Rightarrow> 'w panel" where
  "removeEventObserver ob p = p\<lparr>observers := removeAll ob (observers p)\<rparr>"

section \<open>Lights\<close>

definition on_calls :: "frontPanelIndicator \<Rightarrow> 'w panel \<Rightarrow> led_call list" where
  "on_calls fp_indicator p =
     (case fp_indicator of
        FRONT_PANEL_INDICATOR_CLOCK \<Rightarrow> []
      | FRONT_PANEL_INDICATOR_MESSAGE \<Rightarrow> [SetState ''Message'' True]
      | FRONT_PANEL_INDICATOR_RECORD \<Rightarrow> [SetState ''Record'' True]
      | FRONT_PANEL_INDICATOR_REMOTE \<Rightarrow> [SetState ''Remote'' True]
      | FRONT_PANEL_INDICATOR_RFBYPASS \<Rightarrow> [SetState ''RfByPass'' True]
      | FRONT_PANEL_INDICATOR_ALL \<Rightarrow>
          (if isMessageLedOn p then [SetState ''Message'' True] else []) @
          (if isRecordLedOn p then [SetState ''Record'' True] else []) @ [SetState ''Power'' True]
      | FRONT_PANEL_INDICATOR_POWER \<Rightarrow> [SetState ''Power'' True])"

definition note_led :: "frontPanelIndicator \<Rightarrow> bool \<Rightarrow> 'w panel \<Rightarrow> 'w panel" where
  "note_led fp_indicator lit p =
     (case fp_indicator of
        FRONT_PANEL_INDICATOR_MESSAGE \<Rightarrow> p\<lparr>isMessageLedOn := lit\<rparr>
      | FRONT_PANEL_INDICATOR_RECORD \<Rightarrow> p\<lparr>isRecordLedOn := lit\<rparr>
      | _ \<Rightarrow> p)"

definition powerOnLed :: "'w panel_lib \<Rightarrow> frontPanelIndicator \<Rightarrow> 'w panel \<Rightarrow> bool \<times> 'w panel" where
  "powerOnLed L fp_indicator p =
     (let p = stopBlinkTimer p in
      if powerStatus p then led_calls L (on_calls fp_indicator p) (note_led fp_indicator True p)
      else (True, p))"

definition off_calls :: "frontPanelIndicator \<Rightarrow> 'w panel \<Rightarrow> led_call list" where
  "off_calls fp_indicator p =
     (case fp_indicator of
        FRONT_PANEL_INDICATOR_CLOCK \<Rightarrow> []
      | FRONT_PANEL_INDICATOR_MESSAGE \<Rightarrow> [SetState ''Message'' False]
      | FRONT_PANEL_INDICATOR_RECORD \<Rightarrow> [SetState ''Record'' False]
      | FRONT_PANEL_INDICATOR_REMOTE \<Rightarrow> [SetState ''Remote'' False]
      | FRONT_PANEL_INDICATOR_RFBYPASS \<Rightarrow> [SetState ''RfByPass'' False]
      | FRONT_PANEL_INDICATOR_ALL \<Rightarrow> map (\<lambda>n. SetState n False) (fpIndicators p)
      | FRONT_PANEL_INDICATOR_POWER \<Rightarrow> [SetState ''Power'' False])"

definition powerOffLed :: "'w panel_lib \<Rightarrow> frontPanelIndicator \<Rightarrow> 'w panel \<Rightarrow> bool \<times> 'w panel" where
  "powerOffLed L fp_indicator p =
     (let p = stopBlinkTimer p in led_calls L (off_calls fp_indicator p) (note_led fp_indicator False p))"

definition powerOffAllLed :: "'w panel_lib \<Rightarrow> 'w panel \<Rightarrow> bool \<times> 'w panel" where
  "powerOffAllLed L p = (True, snd (powerOffLed L FRONT_PANEL_INDICATOR_ALL p))"

definition powerOnAllLed :: "'w panel_lib \<Rightarrow> 'w panel \<Rightarrow> bool \<times> 'w panel" where
  "powerOnAllLed L p = (True, snd (powerOnLed L FRONT_PANEL_INDICATOR_ALL p))"

definition setBrightness :: "'w panel_lib \<Rightarrow> int32 \<Rightarrow> 'w panel \<Rightarrow> bool \<times> 'w panel" where
  "setBrightness L fp_brightness p =
     (let p = (stopBlinkTimer p)\<lparr>globalLedBrightness := fp_brightness\<rparr>;
          (_, p) = led_calls L (map (\<lambda>n. SetBrightness n fp_brightness) (fpIndicators p)) p;
          (_, p) = powerOnLed L FRONT_PANEL_INDICATOR_ALL p in
      (True, p))"

definition getBrightness :: "'w panel_lib \<Rightarrow> 'w panel \<Rightarrow> int32 \<times> 'w panel" where
  "getBrightness L p =
     (let p = (case pl_brightness L ''Power'' (fp_world p) of None \<Rightarrow> p | Some b \<Rightarrow> p\<lparr>globalLedBrightness := b\<rparr>) in
      (globalLedBrightness p, p))"

text \<open>The second \<^verbatim>\<open>try\<close> block of \<^verbatim>\<open>setLED\<close> and of \<^verbatim>\<open>setBlinkLed\<close>: -1 stands for the brightness it has.\<close>

definition set_level :: "'w panel_lib \<Rightarrow> string \<Rightarrow> int32 \<Rightarrow> 'w panel \<Rightarrow> bool \<times> 'w panel" where
  "set_level L led level p =
     (case (if level = - 1 then pl_brightness L led (fp_world p) else Some level) of
        None \<Rightarrow> (False, p)
      | Some b \<Rightarrow> led_call L (SetBrightnessTransient led b) p)"

definition rgb :: "json_lib \<Rightarrow> jobject \<Rightarrow> 32 word" where
  "rgb J ob =
     or (or (push_bit 16 (number_parameter J ob ''red'')) (push_bit 8 (number_parameter J ob ''green'')))
       (number_parameter J ob ''blue'')"

definition color_calls :: "json_lib \<Rightarrow> string \<Rightarrow> jobject \<Rightarrow> led_call list" where
  "color_calls J led parameters =
     (if HasLabel parameters ''color'' then [SetColorName led (js_String J (jget parameters ''color''))]
      else if HasLabel parameters ''red'' then [SetColor led (rgb J parameters)]
      else [])"

text \<open>The success of the first block is overwritten by that of the second.\<close>

definition setLED :: "'w panel_lib \<Rightarrow> json_lib \<Rightarrow> jobject \<Rightarrow> 'w panel \<Rightarrow> bool \<times> 'w panel" where
  "setLED L J parameters p =
     (let p = stopBlinkTimer p;
          led = svc2iarm (js_String J (jget parameters ''ledIndicator''));
          level = (if HasLabel parameters ''brightness'' then number_parameter J parameters ''brightness'' else - 1);
          (_, p) = led_calls L (color_calls J led parameters) p in
      set_level L led level p)"

section \<open>Blinking\<close>

definition setBlinkLed :: "'w panel_lib \<Rightarrow> FrontPanelBlinkInfo \<Rightarrow> 'w panel \<Rightarrow> 'w panel" where
  "setBlinkLed L blinkInfo p =
     (let led = ledIndicator blinkInfo;
          (_, p) = (if colorMode blinkInfo = 1 then led_call L (SetColorTransient led (colorValue blinkInfo)) p
                    else if colorMode blinkInfo = 2 then led_call L (SetColorName led (colorName blinkInfo)) p
                    else (True, p));
          (_, p) = set_level L led (brightness blinkInfo) p in
      p)"

definition schedule_blink :: "FrontPanelBlinkInfo \<Rightarrow> 'w panel \<Rightarrow> 'w panel" where
  "schedule_blink blinkInfo p = (if m_isBlinking p then p\<lparr>fp_timer := Some (durationInMs blinkInfo)\<rparr> else p)"

definition startBlinkTimer :: "'w panel_lib \<Rightarrow> int32 \<Rightarrow> 'w panel \<Rightarrow> 'w panel" where
  "startBlinkTimer L numberOfBlinkRepeats p =
     (let p = (stopBlinkTimer p)\<lparr>m_numberOfBlinks := 0, m_isBlinking := True,
            m_maxNumberOfBlinkRepeats := numberOfBlinkRepeats, m_currentBlinkListIndex := 0\<rparr> in
      case m_blinkList p of
        [] \<Rightarrow> p
      | blinkInfo # _ \<Rightarrow> schedule_blink blinkInfo (setBlinkLed L blinkInfo p))"

text \<open>The pattern of one entry; without a colour the name of the colour is empty.\<close>

definition blink_entry :: "json_lib \<Rightarrow> string \<Rightarrow> json \<Rightarrow> FrontPanelBlinkInfo" where
  "blink_entry J led entry =
     (let hash = js_Object J entry;
          info = \<lparr>ledIndicator = led, colorName = [], colorValue = 0,
                  brightness = (if HasLabel hash ''brightness'' then number_parameter J hash ''brightness'' else - 1),
                  durationInMs = number_parameter J hash ''duration'', colorMode = 0\<rparr> in
      if HasLabel hash ''color'' then info\<lparr>colorName := js_String J (jget hash ''color''), colorMode := 2\<rparr>
      else if HasLabel hash ''red'' then info\<lparr>colorValue := rgb J hash, colorMode := 1\<rparr>
      else info)"

definition setBlink :: "'w panel_lib \<Rightarrow> json_lib \<Rightarrow> jobject \<Rightarrow> 'w panel \<Rightarrow> 'w panel" where
  "setBlink L J blinkInfo p =
     (let led = svc2iarm (js_String J (jget blinkInfo ''ledIndicator''));
          iterations = number_parameter J blinkInfo ''iterations'';
          patternList = js_Array J (jget blinkInfo ''pattern'') in
      startBlinkTimer L iterations ((stopBlinkTimer p)\<lparr>m_blinkList := map (blink_entry J led) patternList\<rparr>))"

text \<open>\<open>None\<close>: \<^verbatim>\<open>at\<close> throws. The counters wrap at their width.\<close>

definition onBlinkTimer :: "'w panel_lib \<Rightarrow> 'w panel \<Rightarrow> 'w panel option" where
  "onBlinkTimer L p =
     (let p = p\<lparr>m_currentBlinkListIndex := m_currentBlinkListIndex p + 1\<rparr>;
          over = length (m_blinkList p) \<le> unat (m_currentBlinkListIndex p);
          p = (if over then p\<lparr>m_currentBlinkListIndex := 0, m_numberOfBlinks := m_numberOfBlinks p + 1\<rparr> else p);
          blinkAgain = (\<not> over \<or> sint (m_maxNumberOfBlinkRepeats p) < 0 \<or>
                        sint (m_numberOfBlinks p) \<le> sint (m_maxNumberOfBlinkRepeats p)) in
      if \<not> blinkAgain then Some p
      else if unat (m_currentBlinkListIndex p) < length (m_blinkList p)
      then let blinkInfo = m_blinkList p ! unat (m_currentBlinkListIndex p) in
        Some (schedule_blink blinkInfo (setBlinkLed L blinkInfo p))
      else None)"

text \<open>\<^verbatim>\<open>Timed\<close>: the timer runs out.\<close>

definition Timed :: "'w panel_lib \<Rightarrow> 'w panel \<Rightarrow> 'w panel option" where
  "Timed L p = (case fp_timer p of None \<Rightarrow> Some p | Some _ \<Rightarrow> onBlinkTimer L (p\<lparr>fp_timer := None\<rparr>))"

section \<open>Preferences and the clock\<close>

definition getPreferences :: "'w panel \<Rightarrow> jobject" where
  "getPreferences p = m_preferencesHash p"

definition setPreferences :: "'w panel_lib \<Rightarrow> json_lib \<Rightarrow> jobject \<Rightarrow> 'w panel \<Rightarrow> 'w panel" where
  "setPreferences L J preferences p =
     p\<lparr>m_preferencesHash := preferences, fp_world := pl_write L (js_ToString J preferences) (fp_world p)\<rparr>"

definition loadPreferences :: "'w panel_lib \<Rightarrow> json_lib \<Rightarrow> 'w panel \<Rightarrow> 'w panel" where
  "loadPreferences L J p = p\<lparr>m_preferencesHash := js_FromString J (pl_read L (fp_world p))\<rparr>"

definition set24HourClock :: "'w panel_lib \<Rightarrow> bool \<Rightarrow> 'w panel \<Rightarrow> 'w panel" where
  "set24HourClock L is24Hour p =
     (case pl_format L (fp_world p) of
        None \<Rightarrow> p
      | Some _ \<Rightarrow> snd (led_call L (SetTimeFormat (if is24Hour then kModeClock24Hr else kModeClock12Hr)) p))"

definition is24HourClock :: "'w panel_lib \<Rightarrow> 'w panel \<Rightarrow> bool" where
  "is24HourClock L p = (pl_format L (fp_world p) = Some kModeClock24Hr)"

section \<open>What blinking is made of\<close>

text \<open>The part of the state that belongs to blinking, and the part that the library sees.\<close>

definition blink_state :: "'w panel \<Rightarrow>
    int32 option \<times> bool \<times> FrontPanelBlinkInfo list \<times> int32 \<times> int32 \<times> int32" where
  "blink_state p = (fp_timer p, m_isBlinking p, m_blinkList p, m_currentBlinkListIndex p, m_numberOfBlinks p,
     m_maxNumberOfBlinkRepeats p)"

definition seen :: "'w panel \<Rightarrow> 'w \<times> led_call list" where
  "seen p = (fp_world p, fp_calls p)"

lemma led_call_blink [simp]: "blink_state (snd (led_call L c p)) = blink_state p"
  by (simp add: led_call_def blink_state_def split_def Let_def)

lemma led_calls_blink [simp]: "blink_state (snd (led_calls L cs p)) = blink_state p"
proof (induction cs arbitrary: p)
  case (Cons c cs)
  then show ?case using led_call_blink[of L c p] by (simp add: split_def Let_def)
qed simp

lemma set_level_blink [simp]: "blink_state (snd (set_level L led b p)) = blink_state p"
  by (simp add: set_level_def split: option.split)

lemma setBlinkLed_blink [simp]: "blink_state (setBlinkLed L b p) = blink_state p"
  by (simp add: setBlinkLed_def split_def Let_def)

lemma blink_state_fields:
  "blink_state p = blink_state q \<longleftrightarrow> fp_timer p = fp_timer q \<and> m_isBlinking p = m_isBlinking q \<and>
     m_blinkList p = m_blinkList q \<and> m_currentBlinkListIndex p = m_currentBlinkListIndex q \<and>
     m_numberOfBlinks p = m_numberOfBlinks q \<and> m_maxNumberOfBlinkRepeats p = m_maxNumberOfBlinkRepeats q"
  by (simp add: blink_state_def)

lemma seen_led_call:
  "seen p = seen q \<Longrightarrow> seen (snd (led_call L c p)) = seen (snd (led_call L c q)) \<and>
     fst (led_call L c p) = fst (led_call L c q)"
  by (simp add: seen_def led_call_def split_def Let_def)

lemma seen_set_level: "seen p = seen q \<Longrightarrow> seen (snd (set_level L led b p)) = seen (snd (set_level L led b q))"
  using seen_led_call[of p q L] by (auto simp: set_level_def split: option.split) (auto simp: seen_def)

lemma seen_setBlinkLed: "seen p = seen q \<Longrightarrow> seen (setBlinkLed L b p) = seen (setBlinkLed L b q)"
  using seen_led_call[of p q L] by (auto simp: setBlinkLed_def split_def Let_def intro!: seen_set_level)

lemma seen_update [simp]:
  "seen (p\<lparr>m_currentBlinkListIndex := i\<rparr>) = seen p" "seen (p\<lparr>m_numberOfBlinks := n\<rparr>) = seen p"
  "seen (p\<lparr>fp_timer := t\<rparr>) = seen p" "seen (p\<lparr>m_isBlinking := b\<rparr>) = seen p"
  "seen (p\<lparr>m_maxNumberOfBlinkRepeats := x\<rparr>) = seen p"
  by (simp_all add: seen_def)

text \<open>The entries shown one after the other, \<open>n\<close> of them.\<close>

definition showing :: "FrontPanelBlinkInfo list \<Rightarrow> nat \<Rightarrow> FrontPanelBlinkInfo list" where
  "showing xs n = map (\<lambda>i. xs ! (i mod length xs)) [0..<n]"

definition show_all :: "'w panel_lib \<Rightarrow> FrontPanelBlinkInfo list \<Rightarrow> 'w panel \<Rightarrow> 'w panel" where
  "show_all L bs p = fold (setBlinkLed L) bs p"

lemma show_all_Suc:
  "show_all L (showing xs (Suc n)) p = setBlinkLed L (xs ! (n mod length xs)) (show_all L (showing xs n) p)"
  by (simp add: showing_def show_all_def)

primrec fires :: "'w panel_lib \<Rightarrow> nat \<Rightarrow> 'w panel \<Rightarrow> 'w panel option" where
  "fires L 0 p = Some p"
| "fires L (Suc n) p = Option.bind (fires L n p) (Timed L)"

text \<open>The state while entry number \<open>n\<close> is shown.\<close>

definition at_entry :: "'w panel_lib \<Rightarrow> int32 \<Rightarrow> 'w panel \<Rightarrow> nat \<Rightarrow> 'w panel \<Rightarrow> bool" where
  "at_entry L k p n q \<longleftrightarrow> (let xs = m_blinkList p in
     blink_state q = (Some (durationInMs (xs ! (n mod length xs))), True, xs, word_of_nat (n mod length xs),
       word_of_nat (n div length xs), k) \<and>
     seen q = seen (show_all L (showing xs (Suc n)) p))"

lemma at_entry_start:
  assumes "m_blinkList p \<noteq> []"
  shows "at_entry L k p 0 (startBlinkTimer L k p)"
proof -
  obtain b bs where xs: "m_blinkList p = b # bs" using assms by (cases "m_blinkList p") auto
  let ?p = "(stopBlinkTimer p)\<lparr>m_numberOfBlinks := 0, m_isBlinking := True,
            m_maxNumberOfBlinkRepeats := k, m_currentBlinkListIndex := 0\<rparr>"
  have "startBlinkTimer L k p = schedule_blink b (setBlinkLed L b ?p)"
    using xs by (simp add: startBlinkTimer_def stopBlinkTimer_def)
  moreover have "blink_state (setBlinkLed L b ?p) = (None, True, b # bs, 0, 0, k)"
    unfolding setBlinkLed_blink by (simp add: blink_state_def stopBlinkTimer_def xs)
  moreover have "seen (setBlinkLed L b ?p) = seen (setBlinkLed L b p)"
    by (rule seen_setBlinkLed) (simp add: stopBlinkTimer_def)
  ultimately show ?thesis
    by (simp add: at_entry_def xs schedule_blink_def blink_state_def showing_def show_all_def)
qed

lemma sint_small: "m < 2 ^ 31 \<Longrightarrow> sint (word_of_nat m :: int32) = int m"
  by (simp add: signed_of_nat signed_take_bit_int_eq_self)

lemma unat_next: "m < 2 ^ 31 \<Longrightarrow> unat (word_of_nat m + 1 :: int32) = Suc m"
proof -
  assume m: "m < 2 ^ 31"
  then have "take_bit 32 m = m" by (simp add: take_bit_nat_eq_self_iff)
  then show ?thesis using m by (simp add: unat_word_ariths unsigned_of_nat)
qed

definition goes_on :: "int32 \<Rightarrow> nat \<Rightarrow> bool" where
  "goes_on k rounds \<longleftrightarrow> sint k < 0 \<or> sint (word_of_nat rounds :: int32) \<le> sint k"

text \<open>One more entry, or the end after a whole round.\<close>

lemma next_entry:
  assumes at: "at_entry L k p n q" and xs: "m_blinkList p \<noteq> []" "length (m_blinkList p) < 2 ^ 31"
    and more: "Suc n mod length (m_blinkList p) = 0 \<longrightarrow> goes_on k (Suc n div length (m_blinkList p))"
  shows "\<exists>q'. Timed L q = Some q' \<and> at_entry L k p (Suc n) q'"
proof -
  let ?xs = "m_blinkList p" and ?len = "length (m_blinkList p)"
  let ?j = "Suc n mod ?len"
  let ?b = "?xs ! ?j"
  have len: "0 < ?len" "?j < ?len" using xs(1) by simp_all
  have q: "fp_timer q = Some (durationInMs (?xs ! (n mod ?len)))" "m_isBlinking q" "m_blinkList q = ?xs"
    "m_currentBlinkListIndex q = word_of_nat (n mod ?len)" "m_numberOfBlinks q = word_of_nat (n div ?len)"
    "m_maxNumberOfBlinkRepeats q = k" "seen q = seen (show_all L (showing ?xs (Suc n)) p)"
    using at by (simp_all add: at_entry_def blink_state_def Let_def)
  have idx: "unat (word_of_nat (n mod ?len) + 1 :: int32) = Suc (n mod ?len)"
    using xs(2) mod_less_divisor[OF len(1), of n] by (intro unat_next) linarith
  let ?q = "q\<lparr>fp_timer := None, m_currentBlinkListIndex := word_of_nat ?j, m_numberOfBlinks := word_of_nat (Suc n div ?len)\<rparr>"
  have "Timed L q = Some (schedule_blink ?b (setBlinkLed L ?b ?q))"
  proof (cases "Suc (n mod ?len) = ?len")
    case True
    then have j: "?j = 0" "Suc n div ?len = Suc (n div ?len)" by (simp_all add: mod_Suc div_Suc)
    then have "goes_on k (Suc (n div ?len))" using more by simp
    then show ?thesis
      using True j q xs(1) idx
      by (auto simp: Timed_def onBlinkTimer_def Let_def goes_on_def add.commute[of "1::int32"])
  next
    case False
    then have j: "?j = Suc (n mod ?len)" "Suc n div ?len = n div ?len" by (simp_all add: mod_Suc div_Suc)
    have same: "?q = q\<lparr>fp_timer := None, m_currentBlinkListIndex := word_of_nat (n mod ?len) + 1\<rparr>"
      using j q(5) by (cases q) (simp add: add.commute[of "1::int32"])
    have "Suc (n mod ?len) < ?len" using False len(1) mod_less_divisor[of ?len n] by linarith
    then have "Timed L q = Some (schedule_blink (?xs ! Suc (n mod ?len)) (setBlinkLed L (?xs ! Suc (n mod ?len))
        (q\<lparr>fp_timer := None, m_currentBlinkListIndex := word_of_nat (n mod ?len) + 1\<rparr>)))"
      using q idx by (simp add: Timed_def onBlinkTimer_def Let_def)
    then show ?thesis unfolding same unfolding j(1) .
  qed
  moreover have "at_entry L k p (Suc n) (schedule_blink ?b (setBlinkLed L ?b ?q))"
  proof -
    have "blink_state (setBlinkLed L ?b ?q) =
        (None, True, ?xs, word_of_nat ?j, word_of_nat (Suc n div ?len), k)"
      unfolding setBlinkLed_blink using q by (simp add: blink_state_def)
    moreover have "seen (setBlinkLed L ?b ?q) = seen (setBlinkLed L ?b (show_all L (showing ?xs (Suc n)) p))"
      by (rule seen_setBlinkLed) (simp add: q(7))
    ultimately show ?thesis
      by (simp add: at_entry_def Let_def schedule_blink_def blink_state_def show_all_Suc[of L ?xs "Suc n"])
  qed
  ultimately show ?thesis by blast
qed

lemma last_entry:
  assumes at: "at_entry L k p n q" and xs: "m_blinkList p \<noteq> []" "length (m_blinkList p) < 2 ^ 31"
    and stop: "Suc n mod length (m_blinkList p) = 0" "\<not> goes_on k (Suc n div length (m_blinkList p))"
  shows "\<exists>q'. Timed L q = Some q' \<and> fp_timer q' = None \<and> seen q' = seen q"
proof -
  let ?xs = "m_blinkList p" and ?len = "length (m_blinkList p)"
  have len: "0 < ?len" using xs(1) by simp
  have q: "fp_timer q \<noteq> None" "m_blinkList q = ?xs"
    "m_currentBlinkListIndex q = word_of_nat (n mod ?len)" "m_numberOfBlinks q = word_of_nat (n div ?len)"
    "m_maxNumberOfBlinkRepeats q = k"
    using at by (simp_all add: at_entry_def blink_state_def Let_def)
  have idx: "unat (word_of_nat (n mod ?len) + 1 :: int32) = Suc (n mod ?len)"
    using xs(2) mod_less_divisor[OF len, of n] by (intro unat_next) linarith
  have last: "Suc (n mod ?len) = ?len" "Suc n div ?len = Suc (n div ?len)"
    using stop(1) len by (auto simp: mod_Suc div_Suc split: if_splits)
  then show ?thesis
    using q idx stop(2)
    by (auto simp: Timed_def onBlinkTimer_def Let_def goes_on_def add.commute[of "1::int32"])
qed

lemma entries_in_turn:
  assumes xs: "m_blinkList p \<noteq> []" "length (m_blinkList p) < 2 ^ 31"
  shows "sint k < 0 \<or> n < (nat (sint k) + 1) * length (m_blinkList p) \<Longrightarrow>
    \<exists>q. fires L n (startBlinkTimer L k p) = Some q \<and> at_entry L k p n q"
proof (induction n)
  case 0
  show ?case using at_entry_start[OF xs(1)] by simp
next
  case (Suc n)
  let ?len = "length (m_blinkList p)"
  obtain q where q: "fires L n (startBlinkTimer L k p) = Some q" "at_entry L k p n q"
    using Suc by auto
  have "goes_on k (Suc n div ?len)"
  proof (cases "sint k < 0")
    case False
    then have "Suc n < (nat (sint k) + 1) * ?len" using Suc.prems by simp
    then have le: "Suc n div ?len \<le> nat (sint k)"
      using less_mult_imp_div_less[of "Suc n" "nat (sint k) + 1" ?len] by simp
    moreover have "nat (sint k) < 2 ^ 31" using sint_lt[of k] False by simp
    ultimately have "sint (word_of_nat (Suc n div ?len) :: int32) = int (Suc n div ?len)"
      by (intro sint_small) simp
    then show ?thesis using le False by (simp add: goes_on_def)
  qed (simp add: goes_on_def)
  then show ?case using next_entry[OF q(2) xs] q(1) by auto
qed

text \<open>
  C18: A pattern with \<open>k\<close> iterations, not negative, is shown \<open>k + 1\<close> times: as long as entries are left the timer is
  armed with the duration of the one that is shown, then it is not armed again and the
  last entry stays.  With a negative number the pattern is repeated for ever.  The timer never throws.
\<close>

theorem blinking_spec:
  fixes L :: "'w panel_lib"
  assumes "m_blinkList p \<noteq> []" "length (m_blinkList p) < 2 ^ 31" "sint k < 2 ^ 31 - 1"
  defines "xs \<equiv> m_blinkList p" and "all_shown \<equiv> (nat (sint k) + 1) * length (m_blinkList p)"
  shows "\<exists>q. fires L n (startBlinkTimer L k p) = Some q \<and>
    fp_timer q = (if sint k < 0 \<or> n < all_shown then Some (durationInMs (xs ! (n mod length xs))) else None) \<and>
    seen q = seen (show_all L (showing xs (if sint k < 0 then Suc n else min (Suc n) all_shown)) p)"
proof (cases "sint k < 0 \<or> n < all_shown")
  case True
  then show ?thesis
    using entries_in_turn[OF assms(1,2), of k n L]
    by (auto simp: at_entry_def blink_state_def Let_def xs_def all_shown_def min_def not_le)
next
  case False
  let ?len = "length (m_blinkList p)" and ?k = "nat (sint k)"
  have all_shown: "0 < all_shown" "all_shown = Suc (all_shown - 1)" using assms(1) by (simp_all add: all_shown_def)
  obtain q where q: "fires L (all_shown - 1) (startBlinkTimer L k p) = Some q" "at_entry L k p (all_shown - 1) q"
    using entries_in_turn[OF assms(1,2), of k "all_shown - 1" L] all_shown(1) by (auto simp: all_shown_def)
  have round: "Suc (all_shown - 1) mod ?len = 0" "Suc (all_shown - 1) div ?len = Suc ?k"
    using assms(1) unfolding all_shown(2)[symmetric] by (simp_all add: all_shown_def del: mult_Suc)
  have "sint (word_of_nat (Suc ?k) :: int32) = int (Suc ?k)"
    using assms(3) by (intro sint_small) (simp add: nat_less_iff)
  then have "\<not> goes_on k (Suc (all_shown - 1) div ?len)"
    using False unfolding round by (simp add: goes_on_def)
  then obtain r where r: "Timed L q = Some r" "fp_timer r = None" "seen r = seen q"
    using last_entry[OF q(2) assms(1,2) round(1)] by blast
  have "fires L (all_shown + m) (startBlinkTimer L k p) = Some r" for m
  proof (induction m)
    case 0
    then show ?case using q(1) r(1) by (subst all_shown(2)) simp
  next
    case (Suc m)
    then show ?case using r(2) by (simp add: Timed_def)
  qed
  from this[of "n - all_shown"] have "fires L n (startBlinkTimer L k p) = Some r" using False by simp
  moreover have "seen q = seen (show_all L (showing xs all_shown) p)"
    using q(2) all_shown(2) by (simp add: at_entry_def Let_def xs_def)
  ultimately show ?thesis using r False by (simp add: min_def)
qed

definition plain_panel :: "nat panel_lib" where
  "plain_panel = \<lparr>pl_call = (\<lambda>c n. (True, Suc n)), pl_indicators = (\<lambda>_. Some [''Power'', ''Message'']),
     pl_brightness = (\<lambda>_ _. Some 50), pl_format = (\<lambda>_. Some kModeClock12Hr), pl_write = (\<lambda>_ w. w), pl_read = (\<lambda>_. [])\<rparr>"

definition two_levels :: "FrontPanelBlinkInfo list" where
  "two_levels = [\<lparr>ledIndicator = ''Power'', colorName = [], colorValue = 0, brightness = 100, durationInMs = 500, colorMode = 0\<rparr>,
     \<lparr>ledIndicator = ''Power'', colorName = [], colorValue = 0, brightness = 0, durationInMs = 250, colorMode = 0\<rparr>]"

lemma blinking_spec_witness:
  "\<exists>q. fires plain_panel 4 (startBlinkTimer plain_panel 1 ((panel_init 0)\<lparr>m_blinkList := two_levels\<rparr>)) = Some q \<and>
     fp_timer q = None \<and>
     fp_calls q = [SetBrightnessTransient ''Power'' 100, SetBrightnessTransient ''Power'' 0,
       SetBrightnessTransient ''Power'' 100, SetBrightnessTransient ''Power'' 0]"
proof -
  let ?p = "(panel_init 0)\<lparr>m_blinkList := two_levels\<rparr>"
  have len: "length two_levels = 2" "two_levels \<noteq> []" by (simp_all add: two_levels_def)
  have upt: "[0..<4] = [0, 1, 2, 3::nat]" by (simp add: upt_rec)
  have "showing two_levels 4 = map (\<lambda>i. two_levels ! i) [0, 1, 0, 1]"
    by (simp add: showing_def upt two_levels_def flip: numeral_2_eq_2)
  then have "fp_calls (show_all plain_panel (showing two_levels 4) ?p) = [SetBrightnessTransient ''Power'' 100,
      SetBrightnessTransient ''Power'' 0, SetBrightnessTransient ''Power'' 100, SetBrightnessTransient ''Power'' 0]"
    by (simp add: show_all_def two_levels_def setBlinkLed_def set_level_def led_call_def
        plain_panel_def panel_init_def Let_def)
  then show ?thesis
    using blinking_spec[of ?p 1 plain_panel 4] len by (auto simp: seen_def)
qed

section \<open>All operations\<close>

datatype panel_event =
    Instance bool | Start | Stop | Power_Status bool | Add_Observer nat | Remove_Observer nat
  | Set_Brightness int32 | Get_Brightness | Power_On frontPanelIndicator | Power_Off frontPanelIndicator
  | All_On | All_Off | Set_LED jobject | Set_Blink jobject | Set_Preferences jobject | Load_Preferences
  | Set_Clock bool | Timer_Runs_Out

primrec panel_step :: "'w panel_lib \<Rightarrow> json_lib \<Rightarrow> panel_event \<Rightarrow> 'w panel \<Rightarrow> 'w panel option" where
  "panel_step L J (Instance power_on) p = Some (panel_instance L power_on p)"
| "panel_step L J Start p = Some (snd (start_panel L p))"
| "panel_step L J Stop p = Some (snd (stop_panel p))"
| "panel_step L J (Power_Status b) p = Some (setPowerStatus b p)"
| "panel_step L J (Add_Observer ob) p = Some (addEventObserver ob p)"
| "panel_step L J (Remove_Observer ob) p = Some (removeEventObserver ob p)"
| "panel_step L J (Set_Brightness b) p = Some (snd (setBrightness L b p))"
| "panel_step L J Get_Brightness p = Some (snd (getBrightness L p))"
| "panel_step L J (Power_On ind) p = Some (snd (powerOnLed L ind p))"
| "panel_step L J (Power_Off ind) p = Some (snd (powerOffLed L ind p))"
| "panel_step L J All_On p = Some (snd (powerOnAllLed L p))"
| "panel_step L J All_Off p = Some (snd (powerOffAllLed L p))"
| "panel_step L J (Set_LED ob) p = Some (snd (setLED L J ob p))"
| "panel_step L J (Set_Blink ob) p = Some (setBlink L J ob p)"
| "panel_step L J (Set_Preferences ob) p = Some (setPreferences L J ob p)"
| "panel_step L J Load_Preferences p = Some (loadPreferences L J p)"
| "panel_step L J (Set_Clock b) p = Some (set24HourClock L b p)"
| "panel_step L J Timer_Runs_Out p = Timed L p"

primrec panel_run :: "'w panel_lib \<Rightarrow> json_lib \<Rightarrow> panel_event list \<Rightarrow> 'w panel \<Rightarrow> 'w panel option" where
  "panel_run L J [] p = Some p"
| "panel_run L J (ev # evs) p = Option.bind (panel_step L J ev p) (panel_run L J evs)"

text \<open>An armed timer has an entry to go on from.\<close>

definition blink_ok :: "'w panel \<Rightarrow> bool" where
  "blink_ok p \<longleftrightarrow> (fp_timer p \<noteq> None \<longrightarrow>
     m_isBlinking p \<and> unat (m_currentBlinkListIndex p) < length (m_blinkList p)) \<and> length (m_blinkList p) < 2 ^ 31"

definition lists_ok :: "'w panel \<Rightarrow> bool" where
  "lists_ok p \<longleftrightarrow> distinct (observers p) \<and> distinct (m_lights p)"

lemma blink_ok_state: "blink_state p = blink_state q \<Longrightarrow> blink_ok p \<Longrightarrow> blink_ok q"
  by (simp add: blink_state_fields blink_ok_def)

lemma blink_ok_same:
  "blink_ok (snd (led_calls L cs p)) = blink_ok p" "blink_ok (snd (led_call L c p)) = blink_ok p"
  "blink_ok (snd (set_level L led b p)) = blink_ok p" "blink_ok (setBlinkLed L bi p) = blink_ok p"
  using blink_ok_state led_calls_blink led_call_blink set_level_blink setBlinkLed_blink by metis+

lemma lists_ok_same:
  "lists_ok (snd (led_calls L cs p)) = lists_ok p" "lists_ok (snd (led_call L c p)) = lists_ok p"
  "lists_ok (snd (set_level L led b p)) = lists_ok p" "lists_ok (setBlinkLed L bi p) = lists_ok p"
proof -
  have call: "lists_ok (snd (led_call L c p)) = lists_ok p" for c and p :: "'a panel"
    by (simp add: led_call_def lists_ok_def split_def Let_def)
  show "lists_ok (snd (led_call L c p)) = lists_ok p" by (rule call)
  have level: "lists_ok (snd (set_level L led b p)) = lists_ok p" for led b and p :: "'a panel"
    by (simp add: set_level_def call split: option.split)
  show "lists_ok (snd (set_level L led b p)) = lists_ok p" by (rule level)
  show "lists_ok (snd (led_calls L cs p)) = lists_ok p"
  proof (induction cs arbitrary: p)
    case (Cons c cs)
    then show ?case by (simp add: split_def Let_def call)
  qed simp
  show "lists_ok (setBlinkLed L bi p) = lists_ok p"
    by (simp add: setBlinkLed_def split_def Let_def call level)
qed

lemma blink_ok_stop [simp]: "blink_ok p \<Longrightarrow> blink_ok (stopBlinkTimer p)"
  by (simp add: blink_ok_def stopBlinkTimer_def)

lemma lists_ok_stop [simp]: "lists_ok (stopBlinkTimer p) = lists_ok p"
  by (simp add: lists_ok_def stopBlinkTimer_def)

lemma distinct_add_lights: "distinct ls \<Longrightarrow> distinct (add_lights ns ls)"
proof -
  have "distinct ls \<Longrightarrow> distinct (fold (\<lambda>n ls. if n \<in> set ls then ls else ls @ [n]) ns ls)" for ls :: "string list"
    by (induction ns arbitrary: ls) auto
  then show "distinct ls \<Longrightarrow> distinct (add_lights ns ls)" by (simp add: add_lights_def)
qed

lemma note_led_ok [simp]:
  "blink_ok (note_led ind b p) = blink_ok p" "lists_ok (note_led ind b p) = lists_ok p"
  by (simp_all add: note_led_def blink_ok_def lists_ok_def split: frontPanelIndicator.split)

lemmas panel_same = blink_ok_same lists_ok_same split_def Let_def

text \<open>Updates of fields that do not matter here.\<close>

lemma panel_ok_update [simp]:
  "blink_ok (p\<lparr>globalLedBrightness := b\<rparr>) = blink_ok p" "lists_ok (p\<lparr>globalLedBrightness := b\<rparr>) = lists_ok p"
  "blink_ok (p\<lparr>initDone := d\<rparr>) = blink_ok p" "lists_ok (p\<lparr>initDone := d\<rparr>) = lists_ok p"
  "blink_ok (p\<lparr>powerStatus := d\<rparr>) = blink_ok p" "lists_ok (p\<lparr>powerStatus := d\<rparr>) = lists_ok p"
  "blink_ok (p\<lparr>started := d\<rparr>) = blink_ok p" "lists_ok (p\<lparr>started := d\<rparr>) = lists_ok p"
  "blink_ok (p\<lparr>fpIndicators := ns\<rparr>) = blink_ok p" "lists_ok (p\<lparr>fpIndicators := ns\<rparr>) = lists_ok p"
  "blink_ok (p\<lparr>m_lights := ns\<rparr>) = blink_ok p" "lists_ok p \<Longrightarrow> lists_ok (p\<lparr>m_lights := add_lights ns (m_lights p)\<rparr>)"
  by (simp_all add: blink_ok_def lists_ok_def distinct_add_lights)

definition panel_ok :: "'w panel \<Rightarrow> bool" where
  "panel_ok p \<longleftrightarrow> blink_ok p \<and> lists_ok p"

lemma lights_ok:
  assumes "panel_ok p"
  shows "panel_ok (snd (powerOnLed L ind p))" "panel_ok (snd (powerOffLed L ind p))"
    "panel_ok (snd (setBrightness L b p))" "panel_ok (snd (setLED L J ob p))" "panel_ok (snd (getBrightness L p))"
proof -
  have on: "panel_ok (snd (powerOnLed L ind p))" if "panel_ok p" for ind and p :: "'a panel"
    using that by (simp add: panel_ok_def powerOnLed_def panel_same)
  then show "panel_ok (snd (powerOnLed L ind p))" using assms .
  show "panel_ok (snd (powerOffLed L ind p))"
    using assms by (simp add: panel_ok_def powerOffLed_def panel_same)
  show "panel_ok (snd (setBrightness L b p))"
    using assms on by (simp add: panel_ok_def setBrightness_def panel_same)
  show "panel_ok (snd (setLED L J ob p))"
    using assms by (simp add: panel_ok_def setLED_def panel_same)
  show "panel_ok (snd (getBrightness L p))"
    using assms by (simp add: panel_ok_def getBrightness_def split: option.split)
qed

lemma instance_ok: "panel_ok p \<Longrightarrow> panel_ok (panel_instance L power_on p)"
  by (simp add: panel_ok_def panel_instance_def panel_same split: option.split)
    (simp add: blink_ok_def lists_ok_def distinct_add_lights)

lemma start_ok: "panel_ok p \<Longrightarrow> panel_ok (snd (start_panel L p))"
proof -
  assume p: "panel_ok p"
  obtain ok q where q: "(if powerStatus p then led_call L (SetState ''Power'' True) p else (True, p)) = (ok, q)"
    by (cases "if powerStatus p then led_call L (SetState ''Power'' True) p else (True, p)")
  have "panel_ok (snd (if powerStatus p then led_call L (SetState ''Power'' True) p else (True, p)))"
    using p by (simp add: panel_ok_def panel_same)
  then have 1: "panel_ok q" by (simp only: q snd_conv)
  define r where "r = (if ok then (case pl_indicators L (fp_world q) of None \<Rightarrow> q
      | Some indicators \<Rightarrow> q\<lparr>m_lights := add_lights indicators (m_lights q)\<rparr>) else q)"
  have "panel_ok r" using 1 by (simp add: r_def panel_ok_def split: option.split)
  moreover have "snd (start_panel L p) = (if started r then r else
      r\<lparr>m_numberOfBlinks := 0, m_maxNumberOfBlinkRepeats := 0, m_currentBlinkListIndex := 0, started := True\<rparr>)"
    unfolding start_panel_def q r_def Let_def by simp
  ultimately show ?thesis by (auto simp: panel_ok_def blink_ok_def lists_ok_def)
qed

lemma schedule_ok:
  assumes ok: "panel_ok p" and idx: "unat (m_currentBlinkListIndex p) < length (m_blinkList p)"
    and off: "fp_timer p = None"
  shows "panel_ok (schedule_blink b (setBlinkLed L b p))"
proof -
  have fields: "fp_timer (setBlinkLed L b p) = fp_timer p" "m_isBlinking (setBlinkLed L b p) = m_isBlinking p"
    "m_blinkList (setBlinkLed L b p) = m_blinkList p"
    "m_currentBlinkListIndex (setBlinkLed L b p) = m_currentBlinkListIndex p"
    using setBlinkLed_blink[of L b p] unfolding blink_state_fields by blast+
  have "panel_ok (setBlinkLed L b p)" using ok by (simp add: panel_ok_def panel_same)
  then show ?thesis
    using idx off by (auto simp: panel_ok_def schedule_blink_def blink_ok_def lists_ok_def fields)
qed

lemma index_next:
  assumes "unat (i :: int32) < len" "len < 2 ^ 31"
  shows "unat (i + 1) = Suc (unat i)"
  using assms unat_next[of "unat i"] by simp

lemma Timed_ok:
  assumes "panel_ok p"
  shows "\<exists>q. Timed L p = Some q \<and> panel_ok q"
proof (cases "fp_timer p")
  case None
  then show ?thesis using assms by (simp add: Timed_def)
next
  case (Some d)
  let ?len = "length (m_blinkList p)"
  let ?p = "p\<lparr>fp_timer := None\<rparr>"
  have blink: "m_isBlinking p" "unat (m_currentBlinkListIndex p) < ?len" "?len < 2 ^ 31" "lists_ok p"
    using assms Some by (simp_all add: panel_ok_def blink_ok_def)
  have idx: "unat (m_currentBlinkListIndex p + 1) = Suc (unat (m_currentBlinkListIndex p))"
    by (rule index_next[OF blink(2,3)])
  show ?thesis
  proof (cases "?len \<le> unat (m_currentBlinkListIndex p + 1)")
    case False
    let ?q = "p\<lparr>fp_timer := None, m_currentBlinkListIndex := m_currentBlinkListIndex p + 1\<rparr>"
    have "Timed L p = Some (schedule_blink (m_blinkList p ! unat (m_currentBlinkListIndex p + 1))
        (setBlinkLed L (m_blinkList p ! unat (m_currentBlinkListIndex p + 1)) ?q))"
      using False Some by (simp add: Timed_def onBlinkTimer_def Let_def)
    moreover have "panel_ok ?q"
      using blink by (simp add: panel_ok_def blink_ok_def lists_ok_def)
    ultimately show ?thesis using schedule_ok[of ?q] False by auto
  next
    case True
    let ?q = "p\<lparr>fp_timer := None, m_currentBlinkListIndex := 0, m_numberOfBlinks := m_numberOfBlinks p + 1\<rparr>"
    have "Timed L p = Some ?q \<or>
        Timed L p = Some (schedule_blink (m_blinkList p ! 0) (setBlinkLed L (m_blinkList p ! 0) ?q))"
      using True Some blink(2) by (auto simp: Timed_def onBlinkTimer_def Let_def)
    moreover have "panel_ok ?q"
      using blink by (simp add: panel_ok_def blink_ok_def lists_ok_def)
    moreover have "0 < ?len" using blink(2) by linarith
    ultimately show ?thesis using schedule_ok[of ?q] by auto
  qed
qed

lemma startBlinkTimer_ok: "panel_ok p \<Longrightarrow> panel_ok (startBlinkTimer L k p)"
proof (cases "m_blinkList p")
  case Nil
  then show "panel_ok p \<Longrightarrow> ?thesis"
    by (simp add: startBlinkTimer_def stopBlinkTimer_def panel_ok_def blink_ok_def lists_ok_def)
next
  case (Cons b bs)
  let ?q = "(stopBlinkTimer p)\<lparr>m_numberOfBlinks := 0, m_isBlinking := True, m_maxNumberOfBlinkRepeats := k,
    m_currentBlinkListIndex := 0\<rparr>"
  assume "panel_ok p"
  then have "panel_ok ?q" by (simp add: panel_ok_def blink_ok_def lists_ok_def stopBlinkTimer_def)
  moreover have "startBlinkTimer L k p = schedule_blink b (setBlinkLed L b ?q)"
    using Cons by (simp add: startBlinkTimer_def stopBlinkTimer_def)
  ultimately show ?thesis using schedule_ok[of ?q] Cons by (simp add: stopBlinkTimer_def)
qed

text \<open>A pattern the counters can number.\<close>

definition event_ok :: "json_lib \<Rightarrow> panel_event \<Rightarrow> bool" where
  "event_ok J ev \<longleftrightarrow>
     (case ev of Set_Blink ob \<Rightarrow> length (js_Array J (jget ob ''pattern'')) < 2 ^ 31 | _ \<Rightarrow> True)"

lemma other_ops_ok:
  assumes "panel_ok p"
  shows "panel_ok (snd (stop_panel p))" "panel_ok (setPowerStatus b p)" "panel_ok (addEventObserver ob p)"
    "panel_ok (removeEventObserver ob p)" "panel_ok (snd (powerOnAllLed L p))" "panel_ok (snd (powerOffAllLed L p))"
    "panel_ok (setPreferences L J js p)" "panel_ok (loadPreferences L J p)" "panel_ok (set24HourClock L b p)"
proof -
  show "panel_ok (snd (powerOnAllLed L p))" "panel_ok (snd (powerOffAllLed L p))"
    using lights_ok(1,2)[OF assms] by (simp_all add: powerOnAllLed_def powerOffAllLed_def)
  show "panel_ok (snd (stop_panel p))" "panel_ok (setPowerStatus b p)"
    using assms by (simp_all add: panel_ok_def stop_panel_def setPowerStatus_def)
  show "panel_ok (addEventObserver ob p)" "panel_ok (removeEventObserver ob p)"
    using assms
    by (simp_all add: panel_ok_def addEventObserver_def removeEventObserver_def blink_ok_def lists_ok_def distinct_removeAll)
  show "panel_ok (setPreferences L J js p)" "panel_ok (loadPreferences L J p)"
    using assms by (simp_all add: panel_ok_def setPreferences_def loadPreferences_def blink_ok_def lists_ok_def)
  show "panel_ok (set24HourClock L b p)"
    using assms by (simp add: panel_ok_def set24HourClock_def blink_ok_same lists_ok_same split: option.split)
qed

lemma panel_step_ok:
  assumes "panel_ok p" "event_ok J ev"
  shows "\<exists>q. panel_step L J ev p = Some q \<and> panel_ok q"
proof (cases ev)
  case (Set_Blink ob)
  have "panel_ok ((stopBlinkTimer p)\<lparr>m_blinkList := map f (js_Array J (jget ob ''pattern''))\<rparr>)" for f
    using assms Set_Blink by (simp add: panel_ok_def blink_ok_def lists_ok_def stopBlinkTimer_def event_ok_def)
  then show ?thesis using Set_Blink by (simp add: setBlink_def Let_def startBlinkTimer_ok)
next
  case Timer_Runs_Out
  then show ?thesis using Timed_ok[OF assms(1)] by simp
qed (use lights_ok[OF assms(1)] instance_ok[OF assms(1)] start_ok[OF assms(1)] other_ops_ok[OF assms(1)] in simp_all)

text \<open>
  Whatever sequence of operations and time-outs, no time-out throws: an armed timer always finds an entry
  of the pattern, it is armed only while blinking, and no observer or light is listed twice.
\<close>

theorem panel_never_throws:
  assumes "\<forall>ev \<in> set evs. event_ok J ev"
  shows "\<exists>p. panel_run L J evs (panel_init w) = Some p \<and> panel_ok p"
proof -
  have "\<exists>q. panel_run L J evs p = Some q \<and> panel_ok q" if "panel_ok p" for p
    using assms that
  proof (induction evs arbitrary: p)
    case (Cons ev evs)
    obtain q where "panel_step L J ev p = Some q" "panel_ok q"
      using panel_step_ok[of p J ev L] Cons.prems by auto
    then show ?case using Cons.IH[of q] Cons.prems(1) by auto
  qed simp
  moreover have "panel_ok (panel_init w)"
    by (simp add: panel_init_def panel_ok_def blink_ok_def lists_ok_def)
  ultimately show ?thesis by blast
qed

lemma panel_never_throws_witness:
  "\<exists>p. panel_run plain_panel plain_json [Instance True, Set_Blink [(''pattern'', JArray [JNull])], Timer_Runs_Out, Stop]
     (panel_init 0) = Some p \<and> panel_ok p"
  by (rule panel_never_throws) (simp add: event_ok_def)

text \<open>
  While the device is on, switching all lights off and on again lights the power light and exactly those of the
  message and the record light that were switched on last, each on its own.
\<close>

theorem lights_restored:
  assumes "powerStatus p" "\<forall>c w. fst (pl_call L c w)"
  defines "q \<equiv> snd (powerOnAllLed L (snd (powerOffAllLed L p)))"
  shows "fp_calls q = fp_calls p @ map (\<lambda>n. SetState n False) (fpIndicators p) @
      (if isMessageLedOn p then [SetState ''Message'' True] else []) @
      (if isRecordLedOn p then [SetState ''Record'' True] else []) @ [SetState ''Power'' True] \<and>
    isMessageLedOn q = isMessageLedOn p \<and> isRecordLedOn q = isRecordLedOn p \<and> \<not> m_isBlinking q"
proof -
  have run: "\<exists>w. led_calls L cs r = (True, r\<lparr>fp_world := w, fp_calls := fp_calls r @ cs\<rparr>)" for cs r
  proof (induction cs arbitrary: r)
    case Nil
    have "led_calls L [] r = (True, r\<lparr>fp_world := fp_world r, fp_calls := fp_calls r @ []\<rparr>)" by simp
    then show ?case by blast
  next
    case (Cons c cs)
    let ?r = "r\<lparr>fp_world := snd (pl_call L c (fp_world r)), fp_calls := fp_calls r @ [c]\<rparr>"
    obtain w where "led_calls L cs ?r = (True, ?r\<lparr>fp_world := w, fp_calls := fp_calls ?r @ cs\<rparr>)"
      using Cons.IH by blast
    then show ?case
      using assms(2) by (intro exI[of _ w]) (simp add: led_call_def split_def Let_def)
  qed
  let ?p = "stopBlinkTimer p"
  obtain w where off: "led_calls L (off_calls FRONT_PANEL_INDICATOR_ALL ?p) ?p =
      (True, ?p\<lparr>fp_world := w, fp_calls := fp_calls ?p @ off_calls FRONT_PANEL_INDICATOR_ALL ?p\<rparr>)"
    using run by blast
  let ?r = "stopBlinkTimer (?p\<lparr>fp_world := w, fp_calls := fp_calls ?p @ off_calls FRONT_PANEL_INDICATOR_ALL ?p\<rparr>)"
  obtain w' where on: "led_calls L (on_calls FRONT_PANEL_INDICATOR_ALL ?r) ?r =
      (True, ?r\<lparr>fp_world := w', fp_calls := fp_calls ?r @ on_calls FRONT_PANEL_INDICATOR_ALL ?r\<rparr>)"
    using run by blast
  have "q = ?r\<lparr>fp_world := w', fp_calls := fp_calls ?r @ on_calls FRONT_PANEL_INDICATOR_ALL ?r\<rparr>"
    using assms(1) off on
    by (simp add: q_def powerOnAllLed_def powerOffAllLed_def powerOnLed_def powerOffLed_def note_led_def Let_def)
      (simp add: stopBlinkTimer_def)
  then show ?thesis by (simp add: stopBlinkTimer_def on_calls_def off_calls_def)
qed

lemma lights_restored_witness:
  "fp_calls (snd (powerOnAllLed plain_panel (snd (powerOffAllLed plain_panel
     ((panel_init 0)\<lparr>powerStatus := True, isRecordLedOn := True, fpIndicators := [''Record'', ''Power'']\<rparr>))))) =
   [SetState ''Record'' False, SetState ''Power'' False, SetState ''Record'' True, SetState ''Power'' True]"
  using lights_restored[of "(panel_init 0)\<lparr>powerStatus := True, isRecordLedOn := True, fpIndicators := [''Record'', ''Power'']\<rparr>"
      plain_panel]
  by (simp add: panel_init_def plain_panel_def)

end
