(* ===== verification/Rust_Adapter.thy ===== *)
theory Rust_Adapter
  imports Rust_Socket Utils_Property
begin

text \<open>
  \<^verbatim>\<open>RustAdapter/RustAdapter.cpp\<close>, \<^verbatim>\<open>LocalPlugin.cpp\<close>, \<^verbatim>\<open>RemotePlugin.cpp\<close> and
  \<^verbatim>\<open>helpers/UtilsSearchRDKProfile.h\<close>: the adapter and the two ways it runs a plugin written in Rust, in
  the process or behind the socket of \<open>Rust_Socket\<close>.  The variant for \<^verbatim>\<open>JSON_RPC_CONTEXT\<close> is modelled.
  A call through a null or a stale pointer is \<open>None\<close>.
\<close>

section \<open>The profile of the device\<close>

datatype profile = NOT_FOUND | STB | TV

text \<open>The text behind the first \<^verbatim>\<open>RDK_PROFILE=\<close>, within the 255 characters that are read at once.\<close>

function profile_loop :: "string \<Rightarrow> string option" where
  "profile_loop content =
     (if content = [] then None
      else let line = cstr (fst (fgets 256 content)) in
        case str_find ''RDK_PROFILE='' line of
          Some i \<Rightarrow> Some (drop (i + 12) line)
        | None \<Rightarrow> profile_loop (snd (fgets 256 content)))"
  by pat_completeness auto
termination
proof (relation "measure length")
  fix content :: string and line
  assume "content \<noteq> []"
  then show "(snd (fgets 256 content), content) \<in> measure length"
    by (cases content) (simp_all add: fgets_def Let_def min_def)
qed simp

declare profile_loop.simps [simp del]

definition searchRdkProfile :: "string option \<Rightarrow> profile" where
  "searchRdkProfile file =
     (case file of
        None \<Rightarrow> NOT_FOUND
      | Some content \<Rightarrow>
          (case profile_loop content of
             None \<Rightarrow> NOT_FOUND
           | Some p \<Rightarrow> if starts_with ''TV'' p then TV else if starts_with ''STB'' p then STB else NOT_FOUND))"

section \<open>State\<close>

record config =
  OutOfProcess :: bool
  Address :: string
  Port :: "16 word"
  AutoExec :: bool
  LibName :: string

text \<open>Calls of the library of the plugin; the plugin is the pointer it was created with.\<close>

datatype rust_call =
    PluginCreate string int string
  | PluginInit "nat option"
  | PluginDestroy nat
  | PluginInvoke "nat option" string "32 word" string
  | ClientConnect "nat option" "32 word"
  | ClientDisconnect "nat option" "32 word"

record local_plugin =
  lp_symbols :: "string \<Rightarrow> bool"
  lp_plugin :: "nat option"
  lp_token :: string

record remote_plugin =
  rp_stream :: socket_server
  rp_pid :: int
  rp_token :: string
  rp_spawned :: "(string list \<times> string option) list"

datatype impl = Local local_plugin | Remote remote_plugin

record adapter =
  m_impl :: "impl option"
  m_refcount :: "32 word"

text \<open>
  The process: the globals of \<^verbatim>\<open>LocalPlugin.cpp\<close>, the adapters that were created (\<open>None\<close> once
  deleted), the calls of the libraries, and what was submitted to channels by which adapter.
\<close>

record host =
  ctx_next_id :: int
  ctx_array :: "(int \<times> nat) list"
  rh_adapters :: "adapter option list"
  rh_calls :: "rust_call list"
  rh_submitted :: "(nat \<times> 32 word \<times> string) list"

text \<open>What is outside: files, the loader, the security agent, system calls, the framework.\<close>

record rust_env =
  re_exists :: "string \<Rightarrow> bool"
  re_ld_path :: "string option"
  re_dlopen :: "string \<Rightarrow> (string \<Rightarrow> bool) option"
  re_create :: "nat option"
  re_callsign :: string
  re_class :: string
  re_profile :: "string option"
  re_security :: "(nat \<Rightarrow> string \<Rightarrow> string option) option"
  re_open :: open_calls
  re_thread :: bool
  re_fork :: int
  re_send :: "byte list \<Rightarrow> int"

definition host_init :: host where
  "host_init = \<lparr>ctx_next_id = 1, ctx_array = [], rh_adapters = [], rh_calls = [], rh_submitted = []\<rparr>"

definition SocketServer_init :: socket_server where
  "SocketServer_init = \<lparr>m_serverSocket = 0, m_clientSocket = 0, m_running = False, m_address = [], m_port = 0,
     ss_open = [], ss_sent = [], ss_in = []\<rparr>"

definition LocalPlugin_init :: local_plugin where
  "LocalPlugin_init = \<lparr>lp_symbols = (\<lambda>_. False), lp_plugin = None, lp_token = []\<rparr>"

definition RemotePlugin_init :: remote_plugin where
  "RemotePlugin_init = \<lparr>rp_stream = SocketServer_init, rp_pid = 0, rp_token = [], rp_spawned = []\<rparr>"

definition new_adapter :: "host \<Rightarrow> host" where
  "new_adapter h = h\<lparr>rh_adapters := rh_adapters h @ [Some \<lparr>m_impl = None, m_refcount = 1\<rparr>]\<rparr>"

definition adapter_at :: "host \<Rightarrow> nat \<Rightarrow> adapter option" where
  "adapter_at h i = (if i < length (rh_adapters h) then rh_adapters h ! i else None)"

definition set_impl :: "nat \<Rightarrow> impl \<Rightarrow> host \<Rightarrow> host" where
  "set_impl i im h = h\<lparr>rh_adapters := (rh_adapters h)[i := map_option (\<lambda>a. a\<lparr>m_impl := Some im\<rparr>) (adapter_at h i)]\<rparr>"

definition log_call :: "rust_call \<Rightarrow> host \<Rightarrow> host" where
  "log_call c h = h\<lparr>rh_calls := rh_calls h @ [c]\<rparr>"

section \<open>Names and tokens\<close>

definition GetLibraryPathOrName :: "string \<Rightarrow> string \<Rightarrow> string" where
  "GetLibraryPathOrName lib_name callsign =
     (if lib_name \<noteq> [] then lib_name else ''lib'' @ map tolower callsign @ ''.so'')"

text \<open>
  \<^verbatim>\<open>snprintf\<close> into 256 bytes returns the length of the whole text; so many bytes of the buffer are handed
  to \<^verbatim>\<open>CreateToken\<close>.
\<close>

definition token_payload :: "string \<Rightarrow> nat \<times> string" where
  "token_payload callsign =
     (let text = ''plugin://'' @ cstr callsign in (length text, take 255 text))"

definition GetAuthToken :: "rust_env \<Rightarrow> string" where
  "GetAuthToken E =
     (case re_security E of
        None \<Rightarrow> []
      | Some create \<Rightarrow>
          let (n, buff) = token_payload (re_callsign E) in
          (case create n buff of None \<Rightarrow> [] | Some encoded \<Rightarrow> encoded))"

text \<open>\<^verbatim>\<open>strtok_r\<close> skips empty parts.\<close>

definition get_library_search_paths :: "rust_env \<Rightarrow> string list" where
  "get_library_search_paths E =
     (case re_ld_path E of None \<Rightarrow> [] | Some paths \<Rightarrow> filter (\<lambda>p. p \<noteq> []) (split_str [] paths '':''))"

text \<open>Only the first file that exists is tried.\<close>

primrec search_library :: "rust_env \<Rightarrow> string \<Rightarrow> string list \<Rightarrow> (string \<Rightarrow> bool) option" where
  "search_library E fname [] = None"
| "search_library E fname (path # paths) =
     (let full_path = path @ ''/'' @ fname in
      if re_exists E full_path then re_dlopen E full_path else search_library E fname paths)"

definition find_rust_plugin :: "rust_env \<Rightarrow> string \<Rightarrow> (string \<Rightarrow> bool) option" where
  "find_rust_plugin E fname =
     (if re_exists E fname then re_dlopen E fname
      else search_library E fname (get_library_search_paths E))"

section \<open>The plugin in the process\<close>

definition SendTo :: "nat \<Rightarrow> 32 word \<Rightarrow> string \<Rightarrow> host \<Rightarrow> host" where
  "SendTo i channel json h = h\<lparr>rh_submitted := rh_submitted h @ [(i, channel, json)]\<rparr>"

text \<open>Called by the library of a plugin with the number it was given.\<close>

definition wpe_send_to :: "32 word \<Rightarrow> string \<Rightarrow> int \<Rightarrow> host \<Rightarrow> host option" where
  "wpe_send_to channel json ctx_id h =
     (case map_of (ctx_array h) ctx_id of
        None \<Rightarrow> Some h
      | Some i \<Rightarrow> if adapter_at h i = None then None else Some (SendTo i channel json h))"

definition local_Initialize :: "rust_env \<Rightarrow> config \<Rightarrow> nat \<Rightarrow> host \<Rightarrow> (string \<times> host) option" where
  "local_Initialize E conf i h =
     (let lp = LocalPlugin_init\<lparr>lp_token := GetAuthToken E\<rparr>;
          lib_name = GetLibraryPathOrName (LibName conf) (re_callsign E) in
      case find_rust_plugin E lib_name of
        None \<Rightarrow> Some (''cannot find '' @ lib_name, set_impl i (Local lp) h)
      | Some symbols \<Rightarrow>
          if \<not> symbols ''wpe_rust_plugin_create'' \<or> \<not> symbols ''wpe_rust_plugin_init'' then None
          else
            let h = h\<lparr>ctx_next_id := ctx_next_id h + 1, ctx_array := ctx_array h @ [(ctx_next_id h, i)]\<rparr>;
                h = log_call (PluginCreate (re_class E) (ctx_next_id h - 1) (lp_token lp)) h;
                h = log_call (PluginInit (re_create E)) h in
            Some ([], set_impl i (Local (lp\<lparr>lp_symbols := symbols, lp_plugin := re_create E\<rparr>)) h))"

definition local_Deinitialize :: "nat \<Rightarrow> local_plugin \<Rightarrow> host \<Rightarrow> host option" where
  "local_Deinitialize i lp h =
     (case lp_plugin lp of
        None \<Rightarrow> Some h
      | Some p \<Rightarrow>
          if \<not> lp_symbols lp ''wpe_rust_plugin_destroy'' then None
          else Some (set_impl i (Local (lp\<lparr>lp_plugin := None\<rparr>)) (log_call (PluginDestroy p) h)))"

text \<open>Strings cross to Rust as C strings.\<close>

definition local_Invoke :: "local_plugin \<Rightarrow> 32 word \<Rightarrow> string \<Rightarrow> string \<Rightarrow> host \<Rightarrow> host option" where
  "local_Invoke lp channel token req h =
     (if lp_symbols lp ''wpe_rust_plugin_invoke''
      then Some (log_call (PluginInvoke (lp_plugin lp) (cstr req) channel (cstr token)) h) else None)"

definition local_Attach :: "local_plugin \<Rightarrow> 32 word \<Rightarrow> host \<Rightarrow> host option" where
  "local_Attach lp channel h =
     (if lp_symbols lp ''wpe_rust_plugin_on_client_connect''
      then Some (log_call (ClientConnect (lp_plugin lp) channel) h) else None)"

definition local_Detach :: "local_plugin \<Rightarrow> 32 word \<Rightarrow> host \<Rightarrow> host option" where
  "local_Detach lp channel h =
     (if lp_symbols lp ''wpe_rust_plugin_on_client_disconnect''
      then Some (log_call (ClientDisconnect (lp_plugin lp) channel) h) else None)"

section \<open>The plugin behind a socket\<close>

definition LaunchRemoteProcess :: "rust_env \<Rightarrow> string \<Rightarrow> remote_plugin \<Rightarrow> remote_plugin" where
  "LaunchRemoteProcess E rust_shared_lib rp =
     (let argv = [''WPEHost'', rust_shared_lib, m_address (rp_stream rp), show_int (m_port (rp_stream rp))];
          token = (if rp_token rp = [] then None else Some (rp_token rp)) in
      rp\<lparr>rp_pid := re_fork E,
         rp_spawned := rp_spawned rp @ (if re_fork E < 0 then [] else [(argv, token)])\<rparr>)"

text \<open>Nothing is undone when a later step fails.\<close>

definition remote_Initialize :: "rust_env \<Rightarrow> config \<Rightarrow> string \<times> remote_plugin" where
  "remote_Initialize E conf =
     (let rp = RemotePlugin_init\<lparr>rp_token := GetAuthToken E\<rparr>;
          address = (if Address conf = [] then ''127.0.0.1'' else Address conf);
          (rc, ss) = Open_socket (re_open E) address (int (unat (Port conf))) (rp_stream rp);
          rp = rp\<lparr>rp_stream := ss\<rparr> in
      if rc < 0 then (''RustAdapter RemotePlugin couldn't open socket stream'', rp)
      else if \<not> re_thread E then (''RustAdapter RemotePlugin failed to run stream thread'', rp)
      else
        let rp = rp\<lparr>rp_stream := (rp_stream rp)\<lparr>m_running := True\<rparr>\<rparr> in
        if \<not> AutoExec conf then ([], rp)
        else
          let rp = LaunchRemoteProcess E (GetLibraryPathOrName (LibName conf) (re_callsign E)) rp in
          (if rp_pid rp < 0 then ''RustAdapter RemotePlugin failed spawn remote process'' else [], rp))"

text \<open>The result is whether it waits for the process to end, which may be for ever.\<close>

definition remote_Deinitialize :: "rust_env \<Rightarrow> remote_plugin \<Rightarrow> bool \<times> int \<times> remote_plugin" where
  "remote_Deinitialize E rp =
     (let (rc, ss) = SendExit (re_send E) (rp_stream rp) in
      (0 < rp_pid rp, rc, rp\<lparr>rp_stream := Close_socket ss\<rparr>))"

definition remote_Invoke :: "rust_env \<Rightarrow> 32 word \<Rightarrow> string \<Rightarrow> string \<Rightarrow> remote_plugin \<Rightarrow> remote_plugin" where
  "remote_Invoke E channel token json rp =
     rp\<lparr>rp_stream := snd (SendInvoke (re_send E) channel token json (rp_stream rp))\<rparr>"

definition remote_Attach :: "rust_env \<Rightarrow> 32 word \<Rightarrow> bool \<Rightarrow> remote_plugin \<Rightarrow> remote_plugin" where
  "remote_Attach E channel attach rp =
     rp\<lparr>rp_stream := snd (SendAttach (re_send E) channel attach (rp_stream rp))\<rparr>"

definition onRead :: "nat \<Rightarrow> response \<Rightarrow> host \<Rightarrow> host" where
  "onRead i rsp h = SendTo i (channel_id rsp) (cstr (rsp_json rsp)) h"

section \<open>The adapter\<close>

text \<open>\<open>None\<close>: there is no such adapter any more, or it has no implementation.\<close>

definition impl_of :: "host \<Rightarrow> nat \<Rightarrow> impl option" where
  "impl_of h i = Option.bind (adapter_at h i) m_impl"

definition adapter_Initialize :: "rust_env \<Rightarrow> config \<Rightarrow> nat \<Rightarrow> host \<Rightarrow> (string \<times> host) option" where
  "adapter_Initialize E conf i h =
     (if adapter_at h i = None then None
      else if searchRdkProfile (re_profile E) \<noteq> TV then Some (''Not supported'', h)
      else if OutOfProcess conf
      then let (msg, rp) = remote_Initialize E conf in Some (msg, set_impl i (Remote rp) h)
      else local_Initialize E conf i h)"

definition adapter_Deinitialize :: "rust_env \<Rightarrow> nat \<Rightarrow> host \<Rightarrow> host option" where
  "adapter_Deinitialize E i h =
     (if searchRdkProfile (re_profile E) \<noteq> TV then (if adapter_at h i = None then None else Some h)
      else (case impl_of h i of
          None \<Rightarrow> None
        | Some (Local lp) \<Rightarrow> local_Deinitialize i lp h
        | Some (Remote rp) \<Rightarrow> Some (set_impl i (Remote (snd (snd (remote_Deinitialize E rp)))) h)))"

definition adapter_Invoke :: "rust_env \<Rightarrow> nat \<Rightarrow> 32 word \<Rightarrow> string \<Rightarrow> string \<Rightarrow> host \<Rightarrow> host option" where
  "adapter_Invoke E i channel token req h =
     (case impl_of h i of
        None \<Rightarrow> None
      | Some (Local lp) \<Rightarrow> local_Invoke lp channel token req h
      | Some (Remote rp) \<Rightarrow> Some (set_impl i (Remote (remote_Invoke E channel token req rp)) h))"

definition adapter_Attach :: "rust_env \<Rightarrow> nat \<Rightarrow> 32 word \<Rightarrow> host \<Rightarrow> host option" where
  "adapter_Attach E i channel h =
     (case impl_of h i of
        None \<Rightarrow> None
      | Some (Local lp) \<Rightarrow> local_Attach lp channel h
      | Some (Remote rp) \<Rightarrow> Some (set_impl i (Remote (remote_Attach E channel True rp)) h))"

definition adapter_Detach :: "rust_env \<Rightarrow> nat \<Rightarrow> 32 word \<Rightarrow> host \<Rightarrow> host option" where
  "adapter_Detach E i channel h =
     (case impl_of h i of
        None \<Rightarrow> None
      | Some (Local lp) \<Rightarrow> local_Detach lp channel h
      | Some (Remote rp) \<Rightarrow> Some (set_impl i (Remote (remote_Attach E channel False rp)) h))"

text \<open>A message that comes in over a channel; the remote plugin does not get it.\<close>

definition adapter_Inbound :: "nat \<Rightarrow> 32 word \<Rightarrow> string \<Rightarrow> host \<Rightarrow> host option" where
  "adapter_Inbound i channel req h =
     (case impl_of h i of
        None \<Rightarrow> None
      | Some (Local lp) \<Rightarrow> local_Invoke lp channel [] req h
      | Some (Remote rp) \<Rightarrow> Some h)"

definition adapter_AddRef :: "nat \<Rightarrow> host \<Rightarrow> host option" where
  "adapter_AddRef i h =
     (case adapter_at h i of
        None \<Rightarrow> None
      | Some a \<Rightarrow> Some (h\<lparr>rh_adapters := (rh_adapters h)[i := Some (a\<lparr>m_refcount := m_refcount a + 1\<rparr>)]\<rparr>))"

text \<open>The result is whether the adapter was deleted.\<close>

definition adapter_Release :: "nat \<Rightarrow> host \<Rightarrow> (bool \<times> host) option" where
  "adapter_Release i h =
     (case adapter_at h i of
        None \<Rightarrow> None
      | Some a \<Rightarrow>
          if m_refcount a = 1 then Some (True, h\<lparr>rh_adapters := (rh_adapters h)[i := None]\<rparr>)
          else Some (False, h\<lparr>rh_adapters := (rh_adapters h)[i := Some (a\<lparr>m_refcount := m_refcount a - 1\<rparr>)]\<rparr>))"

section \<open>What happens in the process\<close>

datatype host_event =
    New_Adapter
  | Initialize_Adapter rust_env config nat
  | Deinitialize_Adapter rust_env nat
  | Invoke_Adapter rust_env nat "32 word" string string
  | Attach_Adapter rust_env nat "32 word"
  | Detach_Adapter rust_env nat "32 word"
  | Inbound_Adapter nat "32 word" string
  | Answer_Read nat response
  | From_Rust "32 word" string int
  | Add_Reference nat
  | Release_Adapter nat

primrec host_step :: "host_event \<Rightarrow> host \<Rightarrow> host option" where
  "host_step New_Adapter h = Some (new_adapter h)"
| "host_step (Initialize_Adapter E conf i) h = map_option snd (adapter_Initialize E conf i h)"
| "host_step (Deinitialize_Adapter E i) h = adapter_Deinitialize E i h"
| "host_step (Invoke_Adapter E i ch token req) h = adapter_Invoke E i ch token req h"
| "host_step (Attach_Adapter E i ch) h = adapter_Attach E i ch h"
| "host_step (Detach_Adapter E i ch) h = adapter_Detach E i ch h"
| "host_step (Inbound_Adapter i ch req) h = adapter_Inbound i ch req h"
| "host_step (Answer_Read i rsp) h = (if impl_of h i = None then None else Some (onRead i rsp h))"
| "host_step (From_Rust ch json ctx) h = wpe_send_to ch json ctx h"
| "host_step (Add_Reference i) h = adapter_AddRef i h"
| "host_step (Release_Adapter i) h = map_option snd (adapter_Release i h)"

primrec host_run :: "host_event list \<Rightarrow> host \<Rightarrow> host option" where
  "host_run [] h = Some h"
| "host_run (ev # evs) h = Option.bind (host_step ev h) (host_run evs)"

text \<open>The numbers are given out one after the other and none is ever taken back.\<close>

definition created :: "rust_call list \<Rightarrow> int list" where
  "created cs = concat (map (\<lambda>c. case c of PluginCreate _ n _ \<Rightarrow> [n] | _ \<Rightarrow> []) cs)"

definition contexts_ok :: "host \<Rightarrow> bool" where
  "contexts_ok h \<longleftrightarrow> distinct (map fst (ctx_array h)) \<and> created (rh_calls h) = map fst (ctx_array h) \<and>
     (\<forall>e \<in> set (ctx_array h). fst e < ctx_next_id h \<and> snd e < length (rh_adapters h))"

definition grows :: "host \<Rightarrow> host \<Rightarrow> bool" where
  "grows h h' \<longleftrightarrow> (\<exists>cs. ctx_array h' = ctx_array h @ cs) \<and> ctx_next_id h \<le> ctx_next_id h'"

lemma created_append [simp]: "created (cs @ ds) = created cs @ created ds"
  by (simp add: created_def)

lemma created_simps [simp]:
  "created [] = []" "created (PluginCreate n k t # cs) = k # created cs" "created (PluginInit p # cs) = created cs"
  "created (PluginDestroy q # cs) = created cs" "created (PluginInvoke p j ch t # cs) = created cs"
  "created (ClientConnect p ch # cs) = created cs" "created (ClientDisconnect p ch # cs) = created cs"
  by (simp_all add: created_def)

lemma host_step_ok:
  assumes "contexts_ok h" "host_step ev h = Some h'"
  shows "contexts_ok h' \<and> grows h h'"
proof -
  have same: "contexts_ok k \<and> grows h k"
    if "ctx_array k = ctx_array h" "ctx_next_id k = ctx_next_id h" "created (rh_calls k) = created (rh_calls h)"
      "length (rh_adapters h) \<le> length (rh_adapters k)" for k
    using assms(1) that by (fastforce simp: contexts_ok_def grows_def)
  have keeps: "ctx_array h' = ctx_array h \<and> ctx_next_id h' = ctx_next_id h \<and> created (rh_calls h') = created (rh_calls h) \<and>
      length (rh_adapters h) \<le> length (rh_adapters h')" if "\<And>E conf i. ev \<noteq> Initialize_Adapter E conf i"
    using assms(2) that
    by (cases ev) (auto simp: new_adapter_def adapter_Deinitialize_def local_Deinitialize_def
      adapter_Invoke_def local_Invoke_def adapter_Attach_def local_Attach_def adapter_Detach_def local_Detach_def
      adapter_Inbound_def onRead_def SendTo_def wpe_send_to_def adapter_AddRef_def adapter_Release_def
      set_impl_def log_call_def split: if_splits option.splits impl.splits)
  show ?thesis
  proof (cases ev)
    case (Initialize_Adapter E conf i)
    then obtain msg where run: "adapter_Initialize E conf i h = Some (msg, h')" using assms(2) by auto
    show ?thesis
    proof (cases "ctx_next_id h' = ctx_next_id h")
      case True
      then have "ctx_array h' = ctx_array h \<and> created (rh_calls h') = created (rh_calls h) \<and>
          length (rh_adapters h) \<le> length (rh_adapters h')"
        using run by (auto simp: adapter_Initialize_def local_Initialize_def Let_def set_impl_def log_call_def split_def
            split: if_splits option.splits)
      then show ?thesis using same True by blast
    next
      case False
      then have "ctx_array h' = ctx_array h @ [(ctx_next_id h, i)] \<and> ctx_next_id h' = ctx_next_id h + 1 \<and>
          created (rh_calls h') = created (rh_calls h) @ [ctx_next_id h] \<and>
          length (rh_adapters h') = length (rh_adapters h) \<and> i < length (rh_adapters h)"
        using run by (auto simp: adapter_Initialize_def local_Initialize_def Let_def set_impl_def log_call_def split_def
            adapter_at_def split: if_splits option.splits)
      then show ?thesis using assms(1) by (fastforce simp: contexts_ok_def grows_def)
    qed
  qed (use keeps same in simp_all)
qed

lemma host_run_ok:
  "contexts_ok h \<Longrightarrow> host_run evs h = Some h' \<Longrightarrow> contexts_ok h' \<and> grows h h'"
proof (induction evs arbitrary: h)
  case (Cons ev evs)
  then obtain k where k: "host_step ev h = Some k" "host_run evs k = Some h'" by (auto split: bind_splits)
  have "contexts_ok k \<and> grows h k" by (rule host_step_ok[OF Cons.prems(1) k(1)])
  moreover have "contexts_ok h' \<and> grows k h'" using Cons.IH[OF _ k(2)] calculation by blast
  ultimately show ?case by (auto simp: grows_def)
qed (simp add: grows_def)

lemma contexts_init: "contexts_ok host_init"
  by (simp add: contexts_ok_def host_init_def)


definition rust_sample :: rust_env where
  "rust_sample = \<lparr>re_exists = (\<lambda>f. f = ''/usr/lib/libhello.so''), re_ld_path = Some ''/lib:/usr/lib'',
     re_dlopen = (\<lambda>_. Some (\<lambda>_. True)), re_create = Some 7, re_callsign = ''Hello'', re_class = ''Hello'',
     re_profile = Some ''RDK_PROFILE=TV'', re_security = None,
     re_open = \<lparr>sys_socket = 9, sys_pton = 1, sys_getfd = 0, sys_setfd = 0, sys_bind = 0, sys_listen = 0, sys_name = None\<rparr>,
     re_thread = True, re_fork = 42, re_send = (\<lambda>bs. int (length bs))\<rparr>"

definition rust_config :: config where
  "rust_config = \<lparr>OutOfProcess = False, Address = [], Port = 0, AutoExec = False, LibName = []\<rparr>"

lemma sample_profile: "searchRdkProfile (re_profile rust_sample) = TV"
  by (simp add: rust_sample_def searchRdkProfile_def profile_loop.simps fgets_def Let_def cstr_def nul_def)

lemma sample_paths: "split_str [] ''/lib:/usr/lib'' '':'' = [''/lib'', ''/usr/lib'']"
  by code_simp

lemma sample_loaded: "find_rust_plugin rust_sample ''libhello.so'' = Some (\<lambda>_. True)"
  using sample_paths by (simp add: find_rust_plugin_def get_library_search_paths_def rust_sample_def)

lemma sample_name: "GetLibraryPathOrName (LibName rust_config) (re_callsign rust_sample) = ''libhello.so''"
  by code_simp

definition sample_host :: host where
  "sample_host = \<lparr>ctx_next_id = 2, ctx_array = [(1, 0)],
     rh_adapters = [Some \<lparr>m_impl = Some (Local \<lparr>lp_symbols = (\<lambda>_. True), lp_plugin = Some 7, lp_token = []\<rparr>), m_refcount = 1\<rparr>],
     rh_calls = [PluginCreate ''Hello'' 1 [], PluginInit (Some 7)], rh_submitted = []\<rparr>"

lemma sample_initialized:
  "adapter_Initialize rust_sample rust_config 0 (new_adapter host_init) = Some ([], sample_host)"
proof -
  have "re_create rust_sample = Some 7" "GetAuthToken rust_sample = []" "\<not> OutOfProcess rust_config"
    "re_class rust_sample = ''Hello''"
    by (simp_all add: rust_sample_def rust_config_def GetAuthToken_def)
  then show ?thesis
    using sample_profile sample_loaded
    by (simp add: adapter_Initialize_def local_Initialize_def sample_name new_adapter_def host_init_def adapter_at_def
        set_impl_def log_call_def Let_def sample_host_def LocalPlugin_init_def)
qed


section \<open>Local and remote plugins\<close>

text \<open>
  The interface \<^verbatim>\<open>Rust::IPlugin\<close> as the adapter uses it: what it sends to a plugin that is ready is
  delivered once, behind what was delivered before.
\<close>

datatype rust_message = Request "32 word" string string | Attached "32 word" | Detached "32 word"

primrec message_ok :: "rust_message \<Rightarrow> bool" where
  "message_ok (Request ch token req) \<longleftrightarrow> nul \<notin> set token \<and> nul \<notin> set req \<and>
     length token < 2 ^ 32 \<and> length req < 2 ^ 32"
| "message_ok (Attached ch) \<longleftrightarrow> True"
| "message_ok (Detached ch) \<longleftrightarrow> True"

locale rust_plugin =
  fixes deliver :: "rust_message \<Rightarrow> 's \<Rightarrow> 's option"
    and delivered :: "'s \<Rightarrow> rust_message list"
    and ready :: "'s \<Rightarrow> bool"
  assumes delivers: "ready s \<Longrightarrow> message_ok m \<Longrightarrow>
    \<exists>t. deliver m s = Some t \<and> ready t \<and> delivered t = delivered s @ [m]"
begin

primrec deliver_all :: "rust_message list \<Rightarrow> 's \<Rightarrow> 's option" where
  "deliver_all [] s = Some s"
| "deliver_all (m # ms) s = Option.bind (deliver m s) (deliver_all ms)"

lemma in_order:
  "ready s \<Longrightarrow> \<forall>m \<in> set ms. message_ok m \<Longrightarrow>
    \<exists>t. deliver_all ms s = Some t \<and> delivered t = delivered s @ ms"
proof (induction ms arbitrary: s)
  case (Cons m ms)
  obtain t where t: "deliver m s = Some t" "ready t" "delivered t = delivered s @ [m]"
    using delivers[of s m] Cons.prems by auto
  then show ?case using Cons.IH[of t] Cons.prems by auto
qed simp

end

primrec adapter_message :: "rust_env \<Rightarrow> nat \<Rightarrow> rust_message \<Rightarrow> host \<Rightarrow> host option" where
  "adapter_message E i (Request ch token req) h = adapter_Invoke E i ch token req h"
| "adapter_message E i (Attached ch) h = adapter_Attach E i ch h"
| "adapter_message E i (Detached ch) h = adapter_Detach E i ch h"

primrec adapter_messages :: "rust_env \<Rightarrow> nat \<Rightarrow> rust_message list \<Rightarrow> host \<Rightarrow> host option" where
  "adapter_messages E i [] h = Some h"
| "adapter_messages E i (m # ms) h = Option.bind (adapter_message E i m h) (adapter_messages E i ms)"

text \<open>In the process: the calls of the library.\<close>

primrec message_of :: "rust_call \<Rightarrow> rust_message list" where
  "message_of (PluginInvoke p req ch token) = [Request ch token req]"
| "message_of (ClientConnect p ch) = [Attached ch]"
| "message_of (ClientDisconnect p ch) = [Detached ch]"
| "message_of (PluginCreate n k t) = []"
| "message_of (PluginInit p) = []"
| "message_of (PluginDestroy q) = []"

definition called :: "host \<Rightarrow> rust_message list" where
  "called h = concat (map message_of (rh_calls h))"

definition local_ready :: "nat \<Rightarrow> host \<Rightarrow> bool" where
  "local_ready i h \<longleftrightarrow> (case impl_of h i of
     Some (Local lp) \<Rightarrow> lp_symbols lp ''wpe_rust_plugin_invoke'' \<and>
       lp_symbols lp ''wpe_rust_plugin_on_client_connect'' \<and> lp_symbols lp ''wpe_rust_plugin_on_client_disconnect''
   | _ \<Rightarrow> False)"

lemma impl_of_log [simp]: "impl_of (log_call c h) i = impl_of h i"
  by (simp add: impl_of_def adapter_at_def log_call_def)

interpretation local_rust: rust_plugin "adapter_message E i" called "local_ready i"
proof
  fix h m
  assume ready: "local_ready i h" and m: "message_ok m"
  then obtain lp where lp: "impl_of h i = Some (Local lp)" "lp_symbols lp ''wpe_rust_plugin_invoke''"
    "lp_symbols lp ''wpe_rust_plugin_on_client_connect''" "lp_symbols lp ''wpe_rust_plugin_on_client_disconnect''"
    by (auto simp: local_ready_def split: option.splits impl.splits)
  have "called (log_call c h) = called h @ message_of c" "local_ready i (log_call c h)" for c
    using ready by (simp_all add: called_def local_ready_def) (simp add: log_call_def)
  then show "\<exists>t. adapter_message E i m h = Some t \<and> local_ready i t \<and> called t = called h @ [m]"
    using lp m by (cases m) (simp_all add: adapter_Invoke_def local_Invoke_def adapter_Attach_def local_Attach_def
        adapter_Detach_def local_Detach_def cstr_id)
qed

text \<open>Behind the socket: how the plugin reads its end.\<close>

definition encode_message :: "rust_message \<Rightarrow> byte list" where
  "encode_message m = (case m of
     Request ch token req \<Rightarrow> htonl ID_INVOKE @ htonl ch @ htonl (word_of_nat (length token)) @
       htonl (word_of_nat (length req)) @ map byte_of token @ map byte_of req
   | Attached ch \<Rightarrow> htonl ID_ATTACH @ htonl ch @ [1]
   | Detached ch \<Rightarrow> htonl ID_ATTACH @ htonl ch @ [0])"

function parse_stream :: "byte list \<Rightarrow> rust_message list" where
  "parse_stream bs =
     (let command = ntohl (take 4 bs); ch = ntohl (take 4 (drop 4 bs));
          n = unat (ntohl (take 4 (drop 8 bs))); m = unat (ntohl (take 4 (drop 12 bs))) in
      if command = ID_INVOKE \<and> 16 + n + m \<le> length bs
      then Request ch (map char_of_byte (take n (drop 16 bs))) (map char_of_byte (take m (drop (16 + n) bs))) #
        parse_stream (drop (16 + n + m) bs)
      else if command = ID_ATTACH \<and> 9 \<le> length bs
      then (if bs ! 8 = 1 then Attached ch else Detached ch) # parse_stream (drop 9 bs)
      else [])"
  by pat_completeness auto
termination by (relation "measure length") auto

declare parse_stream.simps [simp del]

lemma parse_message: "message_ok m \<Longrightarrow> parse_stream (encode_message m @ rest) = m # parse_stream rest"
proof (cases m)
  case (Request ch token req)
  assume "message_ok m"
  then have len: "unat (word_of_nat (length token) :: 32 word) = length token"
    "unat (word_of_nat (length req) :: 32 word) = length req"
    by (simp_all add: Request unat_of_nat)
  show ?thesis
    by (subst parse_stream.simps) (simp add: Request encode_message_def len Let_def del: map_map)
qed (subst parse_stream.simps, simp add: encode_message_def ID_INVOKE_def ID_ATTACH_def nth_append Let_def)+

lemma parse_messages:
  "\<forall>m \<in> set ms. message_ok m \<Longrightarrow> parse_stream (concat (map encode_message ms)) = ms"
proof (induction ms)
  case Nil
  then show ?case by (subst parse_stream.simps) (simp add: ID_INVOKE_def ID_ATTACH_def Let_def)
qed (simp add: parse_message)

definition sent_stream :: "socket_server \<Rightarrow> byte list" where
  "sent_stream ss = concat (map snd (ss_sent ss))"

definition received :: "nat \<Rightarrow> host \<Rightarrow> rust_message list" where
  "received i h = (case impl_of h i of Some (Remote rp) \<Rightarrow> parse_stream (sent_stream (rp_stream rp)) | _ \<Rightarrow> [])"

definition remote_ready :: "rust_env \<Rightarrow> nat \<Rightarrow> host \<Rightarrow> bool" where
  "remote_ready E i h \<longleftrightarrow> re_send E = (\<lambda>bs. int (length bs)) \<and> (case impl_of h i of
     Some (Remote rp) \<Rightarrow> connected_to (rp_stream rp) \<and>
       (\<exists>ms. (\<forall>m \<in> set ms. message_ok m) \<and> sent_stream (rp_stream rp) = concat (map encode_message ms))
   | _ \<Rightarrow> False)"

lemma sends_message:
  assumes "connected_to (rp_stream rp)" "re_send E = (\<lambda>bs. int (length bs))"
  shows "connected_to (rp_stream (remote_Invoke E ch token req rp))"
    "sent_stream (rp_stream (remote_Invoke E ch token req rp)) =
       sent_stream (rp_stream rp) @ encode_message (Request ch token req)"
    "connected_to (rp_stream (remote_Attach E ch b rp))"
    "sent_stream (rp_stream (remote_Attach E ch b rp)) =
       sent_stream (rp_stream rp) @ encode_message (if b then Attached ch else Detached ch)"
  using assms
  by (simp_all add: remote_Invoke_def remote_Attach_def SendInvoke_def SendAttach_def connected_to_def sys_send_def
      send_part_full sent_stream_def encode_message_def Let_def)

lemma stream_only:
  "rp\<lparr>rp_stream := rp_stream (remote_Invoke E ch token req rp)\<rparr> = remote_Invoke E ch token req rp"
  "rp\<lparr>rp_stream := rp_stream (remote_Attach E ch b rp)\<rparr> = remote_Attach E ch b rp"
  by (simp_all add: remote_Invoke_def remote_Attach_def)

lemma impl_of_set: "impl_of h i \<noteq> None \<Longrightarrow> impl_of (set_impl i im h) i = Some im"
  by (auto simp: impl_of_def set_impl_def adapter_at_def split: bind_splits if_splits)

interpretation remote_rust: rust_plugin "adapter_message E i" "received i" "remote_ready E i"
proof
  fix h m
  assume ready: "remote_ready E i h" and m: "message_ok m"
  then obtain rp ms where rp: "impl_of h i = Some (Remote rp)" "connected_to (rp_stream rp)"
    "re_send E = (\<lambda>bs. int (length bs))" "\<forall>m \<in> set ms. message_ok m"
    "sent_stream (rp_stream rp) = concat (map encode_message ms)"
    by (auto simp: remote_ready_def split: option.splits impl.splits)
  have "\<exists>ss. connected_to ss \<and> sent_stream ss = sent_stream (rp_stream rp) @ encode_message m \<and>
      adapter_message E i m h = Some (set_impl i (Remote (rp\<lparr>rp_stream := ss\<rparr>)) h)"
  proof (cases m)
    case (Request ch token req)
    then show ?thesis
      using sends_message(1,2)[OF rp(2,3), of ch token req] rp(1)
      by (intro exI[of _ "rp_stream (remote_Invoke E ch token req rp)"]) (simp add: adapter_Invoke_def stream_only)
  next
    case (Attached ch)
    then show ?thesis
      using sends_message(3,4)[OF rp(2,3), of ch True] rp(1)
      by (intro exI[of _ "rp_stream (remote_Attach E ch True rp)"]) (simp add: adapter_Attach_def stream_only)
  next
    case (Detached ch)
    then show ?thesis
      using sends_message(3,4)[OF rp(2,3), of ch False] rp(1)
      by (intro exI[of _ "rp_stream (remote_Attach E ch False rp)"]) (simp add: adapter_Detach_def stream_only)
  qed
  then obtain ss where ss: "connected_to ss" "sent_stream ss = concat (map encode_message (ms @ [m]))"
    "adapter_message E i m h = Some (set_impl i (Remote (rp\<lparr>rp_stream := ss\<rparr>)) h)"
    using rp(5) by auto
  have all: "\<forall>m \<in> set (ms @ [m]). message_ok m" using rp(4) m by simp
  have impl: "impl_of (set_impl i (Remote (rp\<lparr>rp_stream := ss\<rparr>)) h) i = Some (Remote (rp\<lparr>rp_stream := ss\<rparr>))"
    by (rule impl_of_set) (simp add: rp(1))
  have "received i (set_impl i (Remote (rp\<lparr>rp_stream := ss\<rparr>)) h) = received i h @ [m]"
    using parse_messages[OF all] parse_messages[OF rp(4)] by (simp add: received_def impl rp(1,5) ss(2))
  moreover have "remote_ready E i (set_impl i (Remote (rp\<lparr>rp_stream := ss\<rparr>)) h)"
    using ss(1,2) all rp(3) unfolding remote_ready_def impl by (simp del: set_append map_append) blast
  ultimately show "\<exists>t. adapter_message E i m h = Some t \<and> remote_ready E i t \<and> received i t = received i h @ [m]"
    using ss(3) by blast
qed

lemma messages_eq:
  "local_rust.deliver_all E i ms h = adapter_messages E i ms h" "remote_rust.deliver_all E i ms h = adapter_messages E i ms h"
proof -
  have "local_rust.deliver_all E i ms = adapter_messages E i ms"
    by (induction ms; rule ext) simp_all
  then show "local_rust.deliver_all E i ms h = adapter_messages E i ms h" by simp
  have "remote_rust.deliver_all E i ms = adapter_messages E i ms"
    by (induction ms; rule ext) simp_all
  then show "remote_rust.deliver_all E i ms h = adapter_messages E i ms h" by simp
qed


definition remote_host :: host where
  "remote_host = host_init\<lparr>rh_adapters := [Some \<lparr>m_impl = Some (Remote (RemotePlugin_init\<lparr>rp_stream :=
     SocketServer_init\<lparr>m_serverSocket := 9, m_clientSocket := 10\<rparr>\<rparr>)), m_refcount = 1\<rparr>]\<rparr>"


text \<open>
  The text for the token fits into its buffer exactly if the call sign has at most 246 characters; with a longer
  one more bytes are handed out than the buffer holds.
\<close>

theorem token_payload_bounds:
  "length (snd (token_payload callsign)) \<le> 255 \<and>
   (snd (token_payload callsign) = ''plugin://'' @ cstr callsign \<longleftrightarrow> length (cstr callsign) \<le> 246) \<and>
   (256 < fst (token_payload callsign) \<longleftrightarrow> 247 < length (cstr callsign))"
proof -
  let ?t = "''plugin://'' @ cstr callsign"
  have len: "length ?t = 9 + length (cstr callsign)" by simp
  have "take 255 ?t = ?t \<longleftrightarrow> length ?t \<le> 255"
    using take_all_iff[of 255 ?t] by simp
  then show ?thesis
    using len unfolding token_payload_def Let_def fst_conv snd_conv by simp
qed

end
