(* ===== verification/Utils_Delegate.thy ===== *)
theory Utils_Delegate
  imports Prelude "HOL-Library.List_Lexorder" "HOL-Library.Char_ord" "HOL-Library.AList"
begin

text \<open>
  \<^verbatim>\<open>helpers/BaseEventDelegate.h\<close>: emitters registered for events, and the delivery of events to them on
  threads of a pool.  Emitters are numbers; \<open>refs\<close> counts the references the delegate holds on each.  The
  conversion to lower case is not in the repository and a parameter.  A set of emitters is a list
  without duplicates; its order is that of the visits.
\<close>

section \<open>State and operations\<close>

text \<open>A delivery in progress: the event, the payload and the emitters that are still to be called.\<close>

type_synonym delivery = "string \<times> string \<times> nat list"

record delegate =
  mRegisteredNotifications :: "(string, nat list) omap"
  refs :: "nat \<Rightarrow> int"
  jobs :: "(string \<times> string) list"
  deliveries :: "delivery list"
  emitted :: "(nat \<times> string \<times> string) list"

definition delegate_init :: delegate where
  "delegate_init = \<lparr>mRegisteredNotifications = [], refs = (\<lambda>_. 0), jobs = [], deliveries = [], emitted = []\<rparr>"

definition AddRef :: "nat \<Rightarrow> delegate \<Rightarrow> delegate" where
  "AddRef cb d = d\<lparr>refs := (refs d)(cb := refs d cb + 1)\<rparr>"

definition Release :: "nat \<Rightarrow> delegate \<Rightarrow> delegate" where
  "Release cb d = d\<lparr>refs := (refs d)(cb := refs d cb - 1)\<rparr>"

definition AddNotification :: "(string \<Rightarrow> string) \<Rightarrow> string \<Rightarrow> nat \<Rightarrow> delegate \<Rightarrow> delegate" where
  "AddNotification lower event cb d =
     (let event_l = lower event in
      case map_of (mRegisteredNotifications d) event_l of
        Some emitters \<Rightarrow>
          if cb \<in> set emitters then d
          else AddRef cb (d\<lparr>mRegisteredNotifications := omap_put event_l (emitters @ [cb]) (mRegisteredNotifications d)\<rparr>)
      | None \<Rightarrow> AddRef cb (d\<lparr>mRegisteredNotifications := omap_put event_l [cb] (mRegisteredNotifications d)\<rparr>))"

definition IsNotificationRegistered :: "(string \<Rightarrow> string) \<Rightarrow> string \<Rightarrow> delegate \<Rightarrow> bool" where
  "IsNotificationRegistered lower event d = (map_of (mRegisteredNotifications d) (lower event) \<noteq> None)"

definition GetEmittersForNotification :: "(string \<Rightarrow> string) \<Rightarrow> string \<Rightarrow> delegate \<Rightarrow> nat list \<times> delegate" where
  "GetEmittersForNotification lower event d =
     (case map_of (mRegisteredNotifications d) (lower event) of
        None \<Rightarrow> ([], d)
      | Some emitters \<Rightarrow> (emitters, fold AddRef emitters d))"

text \<open>The loop over all events for an empty event: how often it released, and what is left.\<close>

fun remove_everywhere :: "nat \<Rightarrow> (string, nat list) omap \<Rightarrow> nat \<times> (string, nat list) omap" where
  "remove_everywhere cb [] = (0, [])"
| "remove_everywhere cb ((k, emitters) # m) =
     (let (n, m) = remove_everywhere cb m; left = removeAll cb emitters in
      (if cb \<in> set emitters then Suc n else n, if left = [] then m else (k, left) # m))"

definition RemoveNotification :: "(string \<Rightarrow> string) \<Rightarrow> string \<Rightarrow> nat \<Rightarrow> delegate \<Rightarrow> delegate" where
  "RemoveNotification lower event cb d =
     (let event_l = lower event in
      if event_l \<noteq> [] then
        (case map_of (mRegisteredNotifications d) event_l of
           None \<Rightarrow> d
         | Some emitters \<Rightarrow>
             let left = removeAll cb emitters;
                 d = (if cb \<in> set emitters then Release cb d else d) in
             d\<lparr>mRegisteredNotifications :=
               (if left = [] then AList.delete event_l (mRegisteredNotifications d)
                else omap_put event_l left (mRegisteredNotifications d))\<rparr>)
      else
        let (n, m) = remove_everywhere cb (mRegisteredNotifications d) in
        (Release cb ^^ n) (d\<lparr>mRegisteredNotifications := m\<rparr>))"

definition Dispatch :: "(string \<Rightarrow> string) \<Rightarrow> string \<Rightarrow> string \<Rightarrow> delegate \<Rightarrow> bool \<times> delegate" where
  "Dispatch lower event payload d =
     (if \<not> IsNotificationRegistered lower event d then (False, d)
      else (True, d\<lparr>jobs := jobs d @ [(event, payload)]\<rparr>))"

text \<open>
  \<^verbatim>\<open>DispatchToAppNotifications\<close> on a thread of the pool, in steps: a job takes its emitters, then calls and
  releases one after the other.  Jobs run in any order and beside each other.
\<close>

definition start_job :: "(string \<Rightarrow> string) \<Rightarrow> nat \<Rightarrow> delegate \<Rightarrow> delegate" where
  "start_job lower n d =
     (if length (jobs d) \<le> n then d
      else
        let (event, payload) = jobs d ! n;
            (emitters, d) = GetEmittersForNotification lower event (d\<lparr>jobs := take n (jobs d) @ drop (Suc n) (jobs d)\<rparr>) in
        d\<lparr>deliveries := deliveries d @ [(event, payload, emitters)]\<rparr>)"

definition emit_next :: "nat \<Rightarrow> delegate \<Rightarrow> delegate" where
  "emit_next n d =
     (if length (deliveries d) \<le> n then d
      else (case deliveries d ! n of
          (event, payload, []) \<Rightarrow> d
        | (event, payload, emitter # rest) \<Rightarrow>
            Release emitter (d\<lparr>emitted := emitted d @ [(emitter, event, payload)],
              deliveries := (deliveries d)[n := (event, payload, rest)]\<rparr>)))"

text \<open>The destructor.\<close>

definition release_all :: "delegate \<Rightarrow> delegate" where
  "release_all d =
     (fold (\<lambda>e d. fold Release (snd e) d) (mRegisteredNotifications d) d)\<lparr>mRegisteredNotifications := []\<rparr>"

section \<open>References\<close>

datatype delegate_event =
    Add_Note string nat | Remove_Note string nat | Dispatch_Note string string | Start_Job nat | Emit_Next nat

primrec delegate_step :: "(string \<Rightarrow> string) \<Rightarrow> delegate_event \<Rightarrow> delegate \<Rightarrow> delegate" where
  "delegate_step lower (Add_Note event cb) d = AddNotification lower event cb d"
| "delegate_step lower (Remove_Note event cb) d = RemoveNotification lower event cb d"
| "delegate_step lower (Dispatch_Note event payload) d = snd (Dispatch lower event payload d)"
| "delegate_step lower (Start_Job n) d = start_job lower n d"
| "delegate_step lower (Emit_Next n) d = emit_next n d"

definition subscribers :: "(string, nat list) omap \<Rightarrow> string \<Rightarrow> nat list" where
  "subscribers m k = (case map_of m k of None \<Rightarrow> [] | Some s \<Rightarrow> s)"

definition registrations :: "(string, nat list) omap \<Rightarrow> nat \<Rightarrow> nat" where
  "registrations m e = card {k. e \<in> set (subscribers m k)}"

definition in_delivery :: "delivery list \<Rightarrow> nat \<Rightarrow> nat" where
  "in_delivery ds e = sum_list (map (\<lambda>(_, _, es). count_list es e) ds)"

definition notes_ok :: "(string, nat list) omap \<Rightarrow> bool" where
  "notes_ok m \<longleftrightarrow> omap_ok m \<and> (\<forall>(k, s) \<in> set m. s \<noteq> [] \<and> distinct s)"

definition delegate_ok :: "delegate \<Rightarrow> bool" where
  "delegate_ok d \<longleftrightarrow> notes_ok (mRegisteredNotifications d) \<and>
     (\<forall>e. refs d e = int (registrations (mRegisteredNotifications d) e) + int (in_delivery (deliveries d) e))"

lemma finite_registrations: "finite {k. e \<in> set (subscribers m k)}"
proof (rule finite_subset)
  show "{k. e \<in> set (subscribers m k)} \<subseteq> fst ` set m"
  proof
    fix k
    assume "k \<in> {k. e \<in> set (subscribers m k)}"
    then have "map_of m k \<noteq> None" by (cases "map_of m k") (auto simp: subscribers_def)
    then show "k \<in> fst ` set m" by (simp add: map_of_eq_None_iff)
  qed
qed simp

lemma card_update:
  assumes "finite {k. e \<in> set (f k)}"
  shows "int (card {k'. e \<in> set ((f(k := s)) k')}) =
    int (card {k. e \<in> set (f k)}) + (if e \<in> set s then 1 else 0) - (if e \<in> set (f k) then 1 else 0)"
proof -
  let ?A = "{k. e \<in> set (f k)} - {k}"
  have A: "finite ?A" "k \<notin> ?A" using assms by simp_all
  have new: "{k'. e \<in> set ((f(k := s)) k')} = (if e \<in> set s then insert k ?A else ?A)" by auto
  have old: "{k. e \<in> set (f k)} = (if e \<in> set (f k) then insert k ?A else ?A)" by auto
  have "int (card {k'. e \<in> set ((f(k := s)) k')}) = int (card ?A) + (if e \<in> set s then 1 else 0)"
    unfolding new by (simp only: card_insert_disjoint[OF A] split: if_split) simp
  moreover have "int (card {k. e \<in> set (f k)}) = int (card ?A) + (if e \<in> set (f k) then 1 else 0)"
    by (subst old) (simp only: card_insert_disjoint[OF A] split: if_split, simp)
  ultimately show ?thesis by simp
qed

lemma subscribers_put:
  "omap_ok m \<Longrightarrow> subscribers (omap_put k s m) = (subscribers m)(k := s)"
  by (auto simp: subscribers_def omap_put_lookup)

lemma subscribers_delete: "subscribers (AList.delete k m) = (subscribers m)(k := [])"
  by (auto simp: subscribers_def delete_conv')

lemma registrations_update:
  "subscribers m' = (subscribers m)(k := s) \<Longrightarrow>
   int (registrations m' e) = int (registrations m e) + (if e \<in> set s then 1 else 0)
     - (if e \<in> set (subscribers m k) then 1 else 0)"
  using card_update[OF finite_registrations] by (simp add: registrations_def)

lemma omap_put_members: "set (omap_put k v m) \<subseteq> insert (k, v) (set m)"
  by (induction k v m rule: omap_put.induct) auto

lemma notes_ok_put: "notes_ok m \<Longrightarrow> s \<noteq> [] \<Longrightarrow> distinct s \<Longrightarrow> notes_ok (omap_put k s m)"
  using omap_put_members[of k s m] by (fastforce simp: notes_ok_def omap_put_ok)

lemma notes_ok_delete: "notes_ok m \<Longrightarrow> notes_ok (AList.delete k m)"
  by (auto simp: notes_ok_def omap_ok_def AList.delete_eq sorted_wrt_map intro: sorted_wrt_filter)

lemma remove_everywhere_keys: "fst ` set (snd (remove_everywhere cb m)) \<subseteq> fst ` set m"
  by (induction cb m rule: remove_everywhere.induct) (auto simp: Let_def case_prod_unfold)

lemma notes_ok_Cons:
  "notes_ok ((k, s) # m) = (k \<notin> fst ` set m \<and> (\<forall>k' \<in> fst ` set m. k < k') \<and> s \<noteq> [] \<and> distinct s \<and> notes_ok m)"
  by (auto simp: notes_ok_def omap_ok_Cons)

lemma remove_everywhere_ok: "notes_ok m \<Longrightarrow> notes_ok (snd (remove_everywhere cb m))"
proof (induction cb m rule: remove_everywhere.induct)
  case (2 cb k s m)
  let ?m = "snd (remove_everywhere cb m)"
  have "fst ` set ?m \<subseteq> fst ` set m" by (rule remove_everywhere_keys)
  with 2 have "notes_ok ?m" "k \<notin> fst ` set ?m" "\<forall>k' \<in> fst ` set ?m. k < k'" "distinct (removeAll cb s)"
    unfolding notes_ok_Cons by (blast, blast, blast, simp add: distinct_removeAll)
  then show ?case by (simp add: Let_def case_prod_unfold notes_ok_Cons)
qed simp

lemma remove_everywhere_subscribers:
  "notes_ok m \<Longrightarrow> subscribers (snd (remove_everywhere cb m)) = (\<lambda>k. removeAll cb (subscribers m k))"
proof (induction cb m rule: remove_everywhere.induct)
  case (2 cb k s m)
  have ok: "notes_ok m" "map_of m k = None"
    using 2(2) by (simp_all add: notes_ok_Cons map_of_eq_None_iff)
  have "map_of (snd (remove_everywhere cb m)) k = None"
    using remove_everywhere_keys[of cb m] ok(2) by (auto simp only: map_of_eq_None_iff)
  with ok 2(1)[OF ok(1)] show ?case
    by (auto simp: fun_eq_iff subscribers_def Let_def case_prod_unfold)
qed (simp add: subscribers_def fun_eq_iff)

lemma remove_everywhere_count:
  "notes_ok m \<Longrightarrow> fst (remove_everywhere cb m) = registrations m cb"
proof (induction cb m rule: remove_everywhere.induct)
  case (1 cb)
  then show ?case by (simp add: registrations_def subscribers_def)
next
  case (2 cb k s m)
  have ok: "notes_ok m" "map_of m k = None"
    using 2(2) by (simp_all add: notes_ok_Cons map_of_eq_None_iff)
  have "subscribers ((k, s) # m) = (subscribers m)(k := s)" by (auto simp: subscribers_def)
  from registrations_update[OF this, of cb] have
    "registrations ((k, s) # m) cb = registrations m cb + (if cb \<in> set s then 1 else 0)"
    using ok(2) by (simp add: subscribers_def split: if_splits)
  with 2(1)[OF ok(1)] show ?case by (simp add: Let_def case_prod_unfold)
qed

section \<open>Every operation keeps the references\<close>

lemma delegate_ok_put:
  assumes "delegate_ok d" and "s \<noteq> []" and "distinct s"
    and m: "mRegisteredNotifications d' = omap_put k s (mRegisteredNotifications d)"
    and "deliveries d' = deliveries d"
    and r: "\<And>e. refs d' e = refs d e + (if e \<in> set s then 1 else 0)
      - (if e \<in> set (subscribers (mRegisteredNotifications d) k) then 1 else 0)"
  shows "delegate_ok d'"
proof -
  have "omap_ok (mRegisteredNotifications d)" using assms(1) by (simp add: delegate_ok_def notes_ok_def)
  from registrations_update[OF subscribers_put[OF this]] assms show ?thesis
    by (simp add: delegate_ok_def notes_ok_put)
qed

lemma delegate_ok_delete:
  assumes "delegate_ok d"
    and m: "mRegisteredNotifications d' = AList.delete k (mRegisteredNotifications d)"
    and "deliveries d' = deliveries d"
    and r: "\<And>e. refs d' e = refs d e
      - (if e \<in> set (subscribers (mRegisteredNotifications d) k) then 1 else 0)"
  shows "delegate_ok d'"
  using registrations_update[OF subscribers_delete] assms by (simp add: delegate_ok_def notes_ok_delete)

lemma notes_distinct: "notes_ok m \<Longrightarrow> map_of m k = Some s \<Longrightarrow> s \<noteq> [] \<and> distinct s"
  by (auto simp: notes_ok_def dest!: map_of_SomeD)

lemma AddNotification_ok: "delegate_ok d \<Longrightarrow> delegate_ok (AddNotification lower event cb d)"
proof -
  assume d: "delegate_ok d"
  let ?k = "lower event" and ?m = "mRegisteredNotifications d"
  show ?thesis
  proof (cases "map_of ?m ?k")
    case None
    show ?thesis
      by (rule delegate_ok_put[OF d, of "[cb]" _ ?k])
         (simp_all add: AddNotification_def AddRef_def None subscribers_def)
  next
    case (Some s)
    with d have s: "s \<noteq> []" "distinct s" using notes_distinct by (auto simp: delegate_ok_def)
    show ?thesis
    proof (cases "cb \<in> set s")
      case True then show ?thesis using d Some by (simp add: AddNotification_def)
    next
      case False
      show ?thesis
        by (rule delegate_ok_put[OF d, of "s @ [cb]" _ ?k])
           (use False s in \<open>auto simp: AddNotification_def AddRef_def Some subscribers_def\<close>)
    qed
  qed
qed

lemma Release_pow: "(Release cb ^^ n) d = d\<lparr>refs := (refs d)(cb := refs d cb - int n)\<rparr>"
  by (induction n) (auto simp: Release_def fun_eq_iff)

lemma removeAll_registrations:
  assumes "\<And>k. subscribers m' k = removeAll cb (subscribers m k)"
  shows "registrations m' e = (if e = cb then 0 else registrations m e)"
  by (simp add: registrations_def assms)

lemma RemoveNotification_ok: "delegate_ok d \<Longrightarrow> delegate_ok (RemoveNotification lower event cb d)"
proof -
  assume d: "delegate_ok d"
  let ?k = "lower event" and ?m = "mRegisteredNotifications d"
  show ?thesis
  proof (cases "?k = []")
    case True
    have m: "notes_ok ?m" using d by (simp add: delegate_ok_def)
    let ?m' = "snd (remove_everywhere cb ?m)"
    have "registrations ?m' e = (if e = cb then 0 else registrations ?m e)" for e
      by (rule removeAll_registrations) (simp add: remove_everywhere_subscribers[OF m])
    then show ?thesis using d True
      by (simp add: RemoveNotification_def case_prod_unfold Release_pow delegate_ok_def
          remove_everywhere_ok remove_everywhere_count)
  next
    case False
    show ?thesis
    proof (cases "map_of ?m ?k")
      case None then show ?thesis using d False by (simp add: RemoveNotification_def)
    next
      case (Some s)
      with d have s: "distinct s" using notes_distinct by (auto simp: delegate_ok_def)
      show ?thesis
      proof (cases "removeAll cb s = []")
        case True
        then have "set s \<subseteq> {cb}" by (metis Diff_eq_empty_iff list.set(1) set_removeAll)
        then show ?thesis using True False
          by (intro delegate_ok_delete[OF d, of _ ?k])
             (auto simp: RemoveNotification_def Let_def Release_def Some subscribers_def)
      next
        case nonempty: False
        show ?thesis
          by (rule delegate_ok_put[OF d nonempty, of _ ?k])
             (use s nonempty False in \<open>auto simp: RemoveNotification_def Let_def Release_def Some subscribers_def distinct_removeAll\<close>)
      qed
    qed
  qed
qed

lemma Dispatch_ok: "delegate_ok d \<Longrightarrow> delegate_ok (snd (Dispatch lower event payload d))"
  by (simp add: Dispatch_def delegate_ok_def)

lemma fold_AddRef: "fold AddRef es d = d\<lparr>refs := (\<lambda>e. refs d e + int (count_list es e))\<rparr>"
  by (induction es arbitrary: d) (simp_all add: AddRef_def fun_eq_iff)

lemma GetEmitters_eq:
  "GetEmittersForNotification lower event d =
   (let es = subscribers (mRegisteredNotifications d) (lower event) in
    (es, d\<lparr>refs := (\<lambda>e. refs d e + int (count_list es e))\<rparr>))"
  by (simp add: GetEmittersForNotification_def subscribers_def fold_AddRef split: option.split)

lemma start_job_ok: "delegate_ok d \<Longrightarrow> delegate_ok (start_job lower n d)"
  by (auto simp: start_job_def GetEmitters_eq Let_def case_prod_unfold delegate_ok_def in_delivery_def)

lemma in_delivery_update:
  "n < length ds \<Longrightarrow> ds ! n = (event, payload, es) \<Longrightarrow>
   int (in_delivery (ds[n := (event, payload, es')]) e) =
   int (in_delivery ds e) - int (count_list es e) + int (count_list es' e)"
proof (induction ds arbitrary: n)
  case (Cons x ds)
  then show ?case by (cases n) (auto simp: in_delivery_def)
qed simp

lemma emit_next_ok: "delegate_ok d \<Longrightarrow> delegate_ok (emit_next n d)"
proof (cases "n < length (deliveries d)")
  case True
  assume d: "delegate_ok d"
  obtain event payload es where j: "deliveries d ! n = (event, payload, es)" by (cases "deliveries d ! n")
  show ?thesis
  proof (cases es)
    case Nil then show ?thesis using d j True by (simp add: emit_next_def)
  next
    case (Cons e rest)
    with in_delivery_update[OF True j, of rest] d j True show ?thesis
      by (auto simp: emit_next_def delegate_ok_def Release_def)
  qed
qed (simp add: emit_next_def)

interpretation dg: machine "delegate_step lower" delegate_ok for lower
proof
  fix d e
  assume "delegate_ok d"
  then show "delegate_ok (delegate_step lower e d)"
    by (cases e) (simp_all add: AddNotification_ok RemoveNotification_ok Dispatch_ok start_job_ok emit_next_ok)
qed

lemma delegate_init_ok: "delegate_ok delegate_init"
  by (simp add: delegate_ok_def delegate_init_def notes_ok_def registrations_def subscribers_def in_delivery_def)

lemmas delegate_reachable = dg.run_inv[OF delegate_init_ok]

section \<open>The destructor\<close>

lemma fold_Release: "fold Release es d = d\<lparr>refs := (\<lambda>e. refs d e - int (count_list es e))\<rparr>"
  by (induction es arbitrary: d) (simp_all add: Release_def fun_eq_iff)

lemma fold_Release_all:
  "fold (\<lambda>x. fold Release (snd x)) m d =
   d\<lparr>refs := (\<lambda>e. refs d e - int (sum_list (map (\<lambda>x. count_list (snd x) e) m)))\<rparr>"
  by (induction m arbitrary: d) (simp_all add: fold_Release fun_eq_iff)

lemma count_list_distinct: "distinct s \<Longrightarrow> count_list s e = (if e \<in> set s then 1 else 0)"
  by (induction s) auto

lemma registrations_sum:
  "notes_ok m \<Longrightarrow> sum_list (map (\<lambda>x. count_list (snd x) e) m) = registrations m e"
proof (induction m)
  case Nil
  then show ?case by (simp add: registrations_def subscribers_def)
next
  case (Cons x m)
  obtain k s where x: "x = (k, s)" by (cases x)
  with Cons(2) have ok: "notes_ok m" "map_of m k = None" "distinct s"
    by (simp_all add: notes_ok_Cons map_of_eq_None_iff)
  have "subscribers (x # m) = (subscribers m)(k := s)" by (auto simp: subscribers_def x)
  from registrations_update[OF this, of e] ok(2) Cons(1)[OF ok(1)] show ?case
    by (simp add: x count_list_distinct[OF ok(3)] subscribers_def split: if_splits)
qed

lemma release_all_refs:
  "delegate_ok d \<Longrightarrow> refs (release_all d) e = int (in_delivery (deliveries d) e)"
  by (simp add: release_all_def fold_Release_all delegate_ok_def registrations_sum case_prod_unfold)

lemma delivering_counted:
  "n < length ds \<Longrightarrow> ds ! n = (event, payload, e # rest) \<Longrightarrow> 1 \<le> in_delivery ds e"
proof (induction ds arbitrary: n)
  case (Cons x ds)
  then show ?case by (cases n) (fastforce simp: in_delivery_def)+
qed simp

text \<open>C35: Whatever is registered, removed, dispatched and delivered, and in whatever order the jobs of the
  pool run: an emitter that is about to be called is alive (the delegate holds a reference on it), no
  reference count is negative, an event is registered exactly when it has an emitter, and the destructor
  leaves exactly the references of the deliveries that still run.\<close>
theorem delegate_references:
  fixes lower :: "string \<Rightarrow> string" and es :: "delegate_event list"
  defines "d \<equiv> fold (delegate_step lower) es delegate_init"
  shows "(\<forall>n event payload e rest. n < length (deliveries d) \<longrightarrow>
      deliveries d ! n = (event, payload, e # rest) \<longrightarrow> 1 \<le> refs d e) \<and>
    (\<forall>e. 0 \<le> refs d e \<and> refs (release_all d) e = int (in_delivery (deliveries d) e)) \<and>
    (\<forall>event. IsNotificationRegistered lower event d =
      (subscribers (mRegisteredNotifications d) (lower event) \<noteq> []))"
proof -
  have ok: "delegate_ok d" unfolding d_def by (rule delegate_reachable)
  have "1 \<le> refs d e" if "n < length (deliveries d)" "deliveries d ! n = (event, payload, e # rest)"
    for n event payload e rest
    using delivering_counted[OF that] ok by (simp add: delegate_ok_def)
  moreover have "0 \<le> refs d e" for e using ok by (simp add: delegate_ok_def)
  moreover have "IsNotificationRegistered lower event d =
      (subscribers (mRegisteredNotifications d) (lower event) \<noteq> [])" for event
    using ok notes_distinct[of "mRegisteredNotifications d" "lower event"]
    by (auto simp: IsNotificationRegistered_def subscribers_def delegate_ok_def split: option.splits)
  ultimately show ?thesis using release_all_refs[OF ok] by blast
qed

lemma delegate_references_witness:
  "let d = fold (delegate_step id) [Add_Note ''x'' 1, Dispatch_Note ''x'' ''p'', Start_Job 0, Remove_Note '''' 1] delegate_init
   in deliveries d = [(''x'', ''p'', [1])] \<and> 1 \<le> refs d 1"
proof -
  let ?d = "fold (delegate_step id) [Add_Note ''x'' 1, Dispatch_Note ''x'' ''p'', Start_Job 0, Remove_Note '''' 1] delegate_init"
  have d: "deliveries ?d = [(''x'', ''p'', [1])]" by code_simp
  with delegate_references[where lower = id
      and es = "[Add_Note ''x'' 1, Dispatch_Note ''x'' ''p'', Start_Job 0, Remove_Note '''' 1]"]
  show ?thesis unfolding Let_def by (metis length_Cons nth_Cons_0 zero_less_Suc)
qed

section \<open>Each emitter is called once\<close>

definition calls_of :: "delivery \<Rightarrow> (nat \<times> string \<times> string) list" where
  "calls_of = (\<lambda>(event, payload, es). map (\<lambda>e. (e, event, payload)) es)"

definition calls :: "delegate \<Rightarrow> (nat \<times> string \<times> string) multiset" where
  "calls d = mset (emitted d) + mset (concat (map calls_of (deliveries d)))"

fun started :: "(string \<Rightarrow> string) \<Rightarrow> delegate_event \<Rightarrow> delegate \<Rightarrow> (nat \<times> string \<times> string) multiset" where
  "started lower (Start_Job n) d =
     (if n < length (jobs d) then
        mset (calls_of (fst (jobs d ! n), snd (jobs d ! n),
          subscribers (mRegisteredNotifications d) (lower (fst (jobs d ! n)))))
      else {#})"
| "started lower _ d = {#}"

lemma calls_update:
  "n < length ds \<Longrightarrow> ds ! n = (event, payload, e # es) \<Longrightarrow>
   mset (concat (map calls_of ds)) = {#(e, event, payload)#} + mset (concat (map calls_of (ds[n := (event, payload, es)])))"
proof (induction ds arbitrary: n)
  case (Cons x ds)
  then show ?case by (cases n) (auto simp: calls_of_def)
qed simp

lemma emit_next_calls: "calls (emit_next n d) = calls d"
proof (cases "n < length (deliveries d)")
  case True
  obtain event payload es where j: "deliveries d ! n = (event, payload, es)" by (cases "deliveries d ! n")
  show ?thesis
  proof (cases es)
    case Nil then show ?thesis using j by (simp add: emit_next_def)
  next
    case (Cons e rest)
    with calls_update[OF True, of event payload e rest] j True show ?thesis
      by (simp add: emit_next_def calls_def Release_def)
  qed
qed (simp add: emit_next_def)

lemma start_job_calls: "calls (start_job lower n d) = calls d + started lower (Start_Job n) d"
  by (simp add: start_job_def GetEmitters_eq Let_def case_prod_unfold calls_def)

lemma RemoveNotification_calls: "calls (RemoveNotification lower event cb d) = calls d"
  by (simp add: RemoveNotification_def calls_def Let_def case_prod_unfold Release_pow Release_def split: option.split)

interpretation dl: ledger "delegate_step lower" delegate_ok calls "started lower" for lower
proof
  fix d e
  show "calls (delegate_step lower e d) = calls d + started lower e d"
  proof (cases e)
    case (Add_Note event cb)
    then show ?thesis by (simp add: AddNotification_def AddRef_def calls_def Let_def split: option.split)
  qed (simp_all add: Dispatch_def emit_next_calls start_job_calls RemoveNotification_calls calls_def[of "d\<lparr>jobs := _\<rparr>"] calls_def[of d])
qed

text \<open>The calls made and the calls still to make are together exactly those of the jobs that have started,
  one for each emitter registered for the event when the job started, whatever was added, removed or
  delivered meanwhile: no emitter is left out, none is called twice.\<close>
theorem delegate_calls:
  "calls (fold (delegate_step lower) es delegate_init) = credits (delegate_step lower) (started lower) es delegate_init \<and>
   distinct (subscribers (mRegisteredNotifications (fold (delegate_step lower) es delegate_init)) k)"
proof -
  let ?d = "fold (delegate_step lower) es delegate_init"
  have "distinct (subscribers (mRegisteredNotifications ?d) k)"
    using delegate_reachable[of lower es] notes_distinct[of "mRegisteredNotifications ?d" k]
    by (auto simp: delegate_ok_def subscribers_def split: option.split)
  then show ?thesis using dl.run_balance[OF delegate_init_ok] by (simp add: calls_def delegate_init_def)
qed

end
