(* ===== verification/Utils_Settings.thy ===== *)
theory Utils_Settings
  imports Json Utils_Strings
begin

text \<open>
  \<^verbatim>\<open>helpers/cSettings.h\<close>: settings as a JSON object in memory and as lines \<^verbatim>\<open>key=value\<close> in a file.  \<open>None\<close> is a file
  that does not exist; whether it can be opened is an argument.  Removing a label belongs to the framework
  (\<^verbatim>\<open>JsonObject::Remove\<close>) and is a parameter: the source notes that it is unreliable.
\<close>

section \<open>The object and its file\<close>

record settings =
  settings_data :: jobject
  settings_file :: "string option"

definition settings_newline :: char where "settings_newline = CHR 0x0A"

definition settings_getValue :: "string \<Rightarrow> settings \<Rightarrow> json" where
  "settings_getValue key s = jget (settings_data s) (cstr key)"

fun settings_text :: "json_lib \<Rightarrow> jobject \<Rightarrow> string" where
  "settings_text lib [] = []"
| "settings_text lib ((k, v) # ob) =
     (if js_String lib v \<noteq> [] then k @ ''='' @ js_String lib v @ [settings_newline] else []) @ settings_text lib ob"

definition writeToFile :: "json_lib \<Rightarrow> bool \<Rightarrow> settings \<Rightarrow> bool \<times> settings" where
  "writeToFile lib writable s =
     (if settings_file s \<noteq> None \<and> writable
      then (True, s\<lparr>settings_file := Some (settings_text lib (settings_data s))\<rparr>) else (False, s))"

definition settings_setValue :: "json_lib \<Rightarrow> bool \<Rightarrow> string \<Rightarrow> json \<Rightarrow> settings \<Rightarrow> bool \<times> settings" where
  "settings_setValue lib writable key v s =
     writeToFile lib writable (s\<lparr>settings_data := jset (cstr key) v (settings_data s)\<rparr>)"

definition settings_contains :: "json_lib \<Rightarrow> string \<Rightarrow> settings \<Rightarrow> bool" where
  "settings_contains lib key s =
     (if HasLabel (settings_data s) (cstr key) then js_String lib (jget (settings_data s) (cstr key)) \<noteq> [] else False)"

definition settings_remove ::
  "json_lib \<Rightarrow> (string \<Rightarrow> jobject \<Rightarrow> jobject) \<Rightarrow> bool \<Rightarrow> string \<Rightarrow> settings \<Rightarrow> bool \<times> settings" where
  "settings_remove lib removeLabel writable key s =
     (let s = s\<lparr>settings_data := removeLabel (cstr key) (jset (cstr key) (JString '''') (settings_data s))\<rparr> in
      if \<not> settings_contains lib key s then writeToFile lib writable s else (False, s))"

text \<open>\<^verbatim>\<open>getline\<close> until the end of the file: the pieces between the newlines, the one after the last included.\<close>

fun file_lines :: "string \<Rightarrow> string \<Rightarrow> string list" where
  "file_lines acc [] = [acc]"
| "file_lines acc (c # cs) = (if c = settings_newline then acc # file_lines [] cs else file_lines (acc @ [c]) cs)"

definition find_last_of :: "char \<Rightarrow> string \<Rightarrow> nat option" where
  "find_last_of c s = (let n = length (takeWhile (\<lambda>x. x \<noteq> c) (rev s)) in if n = length s then None else Some (length s - Suc n))"

definition settings_line :: "string \<Rightarrow> jobject \<Rightarrow> jobject" where
  "settings_line content d =
     (case find_last_of (CHR ''='') content of
        None \<Rightarrow> d
      | Some pos \<Rightarrow> jset (cstr (take pos content)) (JString (drop (pos + 1) content)) d)"

definition readFromFile :: "bool \<Rightarrow> settings \<Rightarrow> bool \<times> settings" where
  "readFromFile readable s =
     (case settings_file s of
        None \<Rightarrow> (False, s)
      | Some text \<Rightarrow>
          if readable then (True, s\<lparr>settings_data := fold settings_line (file_lines [] text) (settings_data s)\<rparr>)
          else (False, s))"

text \<open>The constructor: \<open>creatable\<close> tells whether a missing file can be created.\<close>

definition cSettings :: "bool \<Rightarrow> bool \<Rightarrow> string option \<Rightarrow> settings" where
  "cSettings readable creatable disk =
     (let (ok, s) = readFromFile readable \<lparr>settings_data = [], settings_file = disk\<rparr> in
      if \<not> ok \<and> settings_file s = None \<and> creatable then s\<lparr>settings_file := Some []\<rparr> else s)"

section \<open>What is read back\<close>

lemma file_lines_append:
  "settings_newline \<notin> set s \<Longrightarrow> file_lines acc (s @ settings_newline # cs) = (acc @ s) # file_lines [] cs"
  by (induction s arbitrary: acc) auto

lemma takeWhile_rev_last:
  "c \<notin> set b \<Longrightarrow> takeWhile (\<lambda>x. x \<noteq> c) (rev (a @ c # b)) = rev b"
  by (induction b rule: rev_induct) auto

lemma find_last_of_last: "c \<notin> set b \<Longrightarrow> find_last_of c (a @ c # b) = Some (length a)"
  unfolding find_last_of_def Let_def by (subst (1 2) takeWhile_rev_last) simp_all

text \<open>The last \<^verbatim>\<open>=\<close> of a line separates key and value.\<close>

lemma settings_line_written:
  "CHR ''='' \<notin> set v \<Longrightarrow> nul \<notin> set k \<Longrightarrow> settings_line (k @ CHR ''='' # v) d = jset k (JString v) d"
  by (simp add: settings_line_def find_last_of_last cstr_id)

definition label_ok :: "string \<Rightarrow> bool" where
  "label_ok k = (settings_newline \<notin> set k \<and> nul \<notin> set k)"

definition text_ok :: "string \<Rightarrow> bool" where
  "text_ok v = (settings_newline \<notin> set v \<and> CHR ''='' \<notin> set v)"

definition written :: "json_lib \<Rightarrow> jobject \<Rightarrow> (string \<times> string) list" where
  "written lib ob = filter (\<lambda>(k, v). v \<noteq> []) (map (\<lambda>(k, v). (k, js_String lib v)) ob)"

lemma read_empty_line [simp]: "settings_line [] d = d"
  by (simp add: settings_line_def find_last_of_def)

lemma read_text:
  assumes "\<forall>(k, v) \<in> set ob. label_ok k \<and> text_ok (js_String lib v)"
  shows "fold settings_line (file_lines [] (settings_text lib ob)) d =
    fold (\<lambda>(k, v). jset k (JString v)) (written lib ob) d"
  using assms
proof (induction ob arbitrary: d)
  case Nil
  then show ?case by (simp add: written_def)
next
  case (Cons x ob)
  obtain k v where x: "x = (k, v)" by (cases x)
  let ?v = "js_String lib v"
  show ?case
  proof (cases "?v = []")
    case True
    then show ?thesis using Cons by (simp add: x written_def)
  next
    case False
    have "settings_text lib (x # ob) = (k @ CHR ''='' # ?v) @ settings_newline # settings_text lib ob"
      using False by (simp add: x)
    moreover have "settings_newline \<notin> set (k @ CHR ''='' # ?v)"
      using Cons(2) by (auto simp: x label_ok_def text_ok_def settings_newline_def)
    ultimately have "file_lines [] (settings_text lib (x # ob)) =
        (k @ CHR ''='' # ?v) # file_lines [] (settings_text lib ob)"
      using file_lines_append[of "k @ CHR ''='' # ?v" "[]"] by simp
    moreover have "settings_line (k @ CHR ''='' # ?v) d = jset k (JString ?v) d"
      using Cons(2) by (intro settings_line_written) (simp_all add: x text_ok_def label_ok_def)
    ultimately show ?thesis using Cons False by (simp add: x written_def)
  qed
qed

lemma map_of_jset_fold:
  "map_of (fold (\<lambda>(k, v). jset k (JString v)) xs d) = (\<lambda>k. case map_of (rev xs) k of None \<Rightarrow> map_of d k | Some v \<Rightarrow> Some (JString v))"
proof (induction xs arbitrary: d)
  case (Cons x xs)
  obtain k v where x: "x = (k, v)" by (cases x)
  show ?case
    unfolding fold_Cons o_apply Cons.IH
    by (auto simp: x fun_eq_iff update_conv' map_add_def split: option.split)
qed simp

lemma map_of_rev_distinct: "distinct (map fst xs) \<Longrightarrow> map_of (rev xs) = map_of xs"
proof (induction xs)
  case (Cons x xs)
  then have "map_of xs (fst x) = None" by (simp add: map_of_eq_None_iff)
  with Cons show ?case by (auto simp: map_add_def fun_eq_iff split: option.split)
qed simp

section \<open>Refinement: a map from keys to texts\<close>

text \<open>
  The settings as their user sees them: the text of each key, empty where there is none.  A key that is removed has the
  empty text.
\<close>

definition settings_of :: "json_lib \<Rightarrow> jobject \<Rightarrow> string \<Rightarrow> string" where
  "settings_of lib ob k = (case map_of ob k of None \<Rightarrow> [] | Some v \<Rightarrow> js_String lib v)"

datatype settings_event = Set_Key string json | Remove_Key string

fun settings_spec :: "json_lib \<Rightarrow> settings_event \<Rightarrow> (string \<Rightarrow> string) \<Rightarrow> string \<Rightarrow> string" where
  "settings_spec lib (Set_Key k v) t = t(k := js_String lib v)"
| "settings_spec lib (Remove_Key k) t = t(k := [])"

fun settings_step ::
  "json_lib \<Rightarrow> (string \<Rightarrow> jobject \<Rightarrow> jobject) \<Rightarrow> settings_event \<Rightarrow> settings \<Rightarrow> settings" where
  "settings_step lib removeLabel (Set_Key k v) s = snd (settings_setValue lib True k v s)"
| "settings_step lib removeLabel (Remove_Key k) s = snd (settings_remove lib removeLabel True k s)"

text \<open>What the code relies on: a string reads as itself; \<^verbatim>\<open>Remove\<close> touches no other label, and either
  removes the label or leaves it as it is.\<close>

definition string_faithful :: "json_lib \<Rightarrow> bool" where
  "string_faithful lib \<longleftrightarrow> (\<forall>s. js_String lib (JString s) = s)"

definition remove_ok :: "(string \<Rightarrow> jobject \<Rightarrow> jobject) \<Rightarrow> bool" where
  "remove_ok removeLabel \<longleftrightarrow> (\<forall>k ob. (distinct (map fst ob) \<longrightarrow> distinct (map fst (removeLabel k ob))) \<and>
     (\<forall>k'. map_of (removeLabel k ob) k' = map_of ob k' \<or> k' = k \<and> map_of (removeLabel k ob) k' = None))"

definition settings_event_ok :: "json_lib \<Rightarrow> settings_event \<Rightarrow> bool" where
  "settings_event_ok lib e = (case e of Set_Key k v \<Rightarrow> label_ok k \<and> text_ok (js_String lib v) | Remove_Key k \<Rightarrow> label_ok k)"

definition entries_ok :: "json_lib \<Rightarrow> jobject \<Rightarrow> bool" where
  "entries_ok lib ob \<longleftrightarrow> distinct (map fst ob) \<and>
     (\<forall>k v. map_of ob k = Some v \<longrightarrow> label_ok k \<and> text_ok (js_String lib v))"

definition settings_ok :: "json_lib \<Rightarrow> settings \<Rightarrow> bool" where
  "settings_ok lib s \<longleftrightarrow> settings_file s = Some (settings_text lib (settings_data s)) \<and> entries_ok lib (settings_data s)"

lemma map_of_written:
  "distinct (map fst ob) \<Longrightarrow>
   map_of (written lib ob) k = (case map_of ob k of None \<Rightarrow> None | Some v \<Rightarrow> if js_String lib v = [] then None else Some (js_String lib v))"
  by (induction ob) (auto simp: written_def map_of_eq_None_iff image_iff split: option.split)

lemma written_distinct: "distinct (map fst ob) \<Longrightarrow> distinct (map fst (written lib ob))"
  unfolding written_def by (rule distinct_map_filter) (simp add: comp_def case_prod_unfold)

lemma reload_settings:
  assumes "settings_ok lib s" and "string_faithful lib"
  shows "settings_of lib (settings_data (cSettings True c (settings_file s))) = settings_of lib (settings_data s)"
proof -
  let ?ob = "settings_data s"
  have d: "distinct (map fst ?ob)" using assms(1) by (simp add: settings_ok_def entries_ok_def)
  have "\<forall>(k, v) \<in> set ?ob. label_ok k \<and> text_ok (js_String lib v)"
    using assms(1) map_of_is_SomeI[OF d] by (auto simp: settings_ok_def entries_ok_def)
  from read_text[OF this, of "[]"]
  have "settings_data (cSettings True c (settings_file s)) = fold (\<lambda>(k, v). jset k (JString v)) (written lib ?ob) []"
    using assms(1) by (simp add: cSettings_def readFromFile_def settings_ok_def)
  then show ?thesis using assms(2)
    by (auto simp: settings_of_def map_of_jset_fold map_of_rev_distinct[OF written_distinct[OF d]] map_of_written[OF d]
        string_faithful_def fun_eq_iff split: option.split)
qed

lemma entries_ok_set:
  "entries_ok lib ob \<Longrightarrow> label_ok k \<Longrightarrow> text_ok (js_String lib v) \<Longrightarrow> entries_ok lib (jset k v ob)"
  by (auto simp: entries_ok_def distinct_update update_conv' split: if_splits)

lemma entries_ok_remove:
  assumes "entries_ok lib ob" and "remove_ok removeLabel"
  shows "entries_ok lib (removeLabel k ob)"
proof -
  have "map_of (removeLabel k ob) k' = Some v \<Longrightarrow> map_of ob k' = Some v" for k' v
    using assms(2) unfolding remove_ok_def by (metis option.distinct(1))
  with assms show ?thesis unfolding entries_ok_def remove_ok_def by blast
qed

lemma settings_step_ok:
  assumes "settings_ok lib s" and "settings_event_ok lib e" and lib: "string_faithful lib" "remove_ok removeLabel"
  shows "settings_ok lib (settings_step lib removeLabel e s) \<and>
    settings_of lib (settings_data (settings_step lib removeLabel e s)) = settings_spec lib e (settings_of lib (settings_data s))"
proof (cases e)
  case (Set_Key k v)
  then have k: "cstr k = k" using assms(2) by (simp add: settings_event_ok_def label_ok_def cstr_id)
  let ?ob = "jset k v (settings_data s)"
  have step: "settings_step lib removeLabel e s = s\<lparr>settings_data := ?ob, settings_file := Some (settings_text lib ?ob)\<rparr>"
    using assms(1) Set_Key by (simp add: settings_setValue_def k writeToFile_def settings_ok_def)
  have "entries_ok lib ?ob" using assms(1,2) Set_Key by (simp add: settings_ok_def settings_event_ok_def entries_ok_set)
  moreover have "settings_of lib ?ob = (settings_of lib (settings_data s))(k := js_String lib v)"
    by (simp add: settings_of_def update_conv' fun_eq_iff)
  ultimately show ?thesis unfolding step by (simp add: settings_ok_def Set_Key)
next
  case (Remove_Key k)
  then have k: "cstr k = k" using assms(2) by (simp add: settings_event_ok_def label_ok_def cstr_id)
  let ?ob = "jset k (JString []) (settings_data s)" and ?ob' = "removeLabel k (jset k (JString []) (settings_data s))"
  have e: "text_ok (js_String lib (JString []))" using lib(1) by (simp add: string_faithful_def text_ok_def)
  have "entries_ok lib ?ob" using assms(1,2) Remove_Key e by (intro entries_ok_set) (simp_all add: settings_ok_def settings_event_ok_def)
  then have ok: "entries_ok lib ?ob'" using lib(2) by (rule entries_ok_remove)
  have at: "map_of ?ob' k' = map_of ?ob k' \<or> k' = k \<and> map_of ?ob' k' = None" for k'
    using lib(2) unfolding remove_ok_def by blast
  have "\<not> settings_contains lib k (s\<lparr>settings_data := ?ob'\<rparr>)"
    using at[of k] lib(1) by (auto simp: settings_contains_def k HasLabel_def jget_def update_conv' string_faithful_def)
  then have step: "settings_step lib removeLabel e s = s\<lparr>settings_data := ?ob', settings_file := Some (settings_text lib ?ob')\<rparr>"
    using assms(1) Remove_Key by (simp add: settings_remove_def k writeToFile_def settings_ok_def)
  have "settings_of lib ?ob' k' = ((settings_of lib (settings_data s))(k := [])) k'" for k'
    using at[of k'] lib(1) by (auto simp: settings_of_def update_conv' string_faithful_def)
  then have "settings_of lib ?ob' = (settings_of lib (settings_data s))(k := [])" by (rule ext)
  then show ?thesis using ok Remove_Key unfolding step by (simp add: settings_ok_def)
qed

lemma settings_run_ok:
  assumes "string_faithful lib" "remove_ok removeLabel"
  shows "settings_ok lib s \<Longrightarrow> \<forall>e \<in> set es. settings_event_ok lib e \<Longrightarrow>
    settings_ok lib (fold (settings_step lib removeLabel) es s) \<and>
    settings_of lib (settings_data (fold (settings_step lib removeLabel) es s)) =
      fold (settings_spec lib) es (settings_of lib (settings_data s))"
proof (induction es arbitrary: s)
  case (Cons e es)
  with settings_step_ok[OF Cons(2) _ assms, of e] show ?case by simp
qed simp



text \<open>A text that holds a \<^verbatim>\<open>=\<close> does not survive: the reader splits the line at its last \<^verbatim>\<open>=\<close>, so the key
  grows and the text keeps its tail only.\<close>
theorem settings_equals_sign:
  assumes "string_faithful lib" and "label_ok k" and "text_ok a" and "text_ok b" and "nul \<notin> set a"
  shows "settings_data (cSettings True c (settings_file
      (snd (settings_setValue lib True k (JString (a @ ''='' @ b)) (cSettings True True None))))) =
    [(k @ ''='' @ a, JString b)]"
proof -
  let ?line = "(k @ ''='' @ a) @ CHR ''='' # b"
  have k: "cstr k = k" using assms(2) by (simp add: label_ok_def cstr_id)
  have "settings_file (snd (settings_setValue lib True k (JString (a @ ''='' @ b)) (cSettings True True None))) =
      Some (?line @ settings_newline # [])"
    using assms(1) by (simp add: settings_setValue_def cSettings_def readFromFile_def writeToFile_def string_faithful_def k)
  moreover have "settings_newline \<notin> set ?line"
    using assms by (auto simp: label_ok_def text_ok_def settings_newline_def)
  then have "file_lines [] (?line @ settings_newline # []) = [?line, []]"
    using file_lines_append[of ?line "[]" "[]"] by simp
  moreover have "settings_line ?line [] = [(k @ ''='' @ a, JString b)]"
    using assms settings_line_written[of b "k @ ''='' @ a" "[]"] by (auto simp: label_ok_def text_ok_def nul_def)
  ultimately show ?thesis by (simp add: cSettings_def readFromFile_def)
qed

lemma settings_equals_sign_witness:
  "settings_data (cSettings True True (settings_file
      (snd (settings_setValue plain_json True ''url'' (JString (''h?x'' @ ''='' @ ''1'')) (cSettings True True None))))) =
    [(''url'' @ ''='' @ ''h?x'', JString ''1'')]"
  by (rule settings_equals_sign) (simp_all add: string_faithful_def label_ok_def text_ok_def settings_newline_def nul_def)

end
