(* ===== verification/Utils_Timer.thy ===== *)
theory Utils_Timer
  imports Prelude
begin

text \<open>
  \<^verbatim>\<open>helpers/tptimer.h\<close>: a timer on top of Thunder's timer thread.  The thread's queue holds the entries of this one
  timer (\<open>pending\<close>, as due times); adding milliseconds to a time is Thunder's and a parameter.  A callback
  is the list of the operations it makes on its own timer.
\<close>

section \<open>The timer\<close>

record tptimer =
  timer_now :: int
  pending :: "int list"
  m_isActive :: bool
  m_isSingleShot :: bool
  m_intervalInMs :: int
  onTimeoutCallback :: bool
  timeouts :: "int list"

definition TpTimer :: "int \<Rightarrow> tptimer" where
  "TpTimer t = \<lparr>timer_now = t, pending = [], m_isActive = False, m_isSingleShot = False, m_intervalInMs = -1,
     onTimeoutCallback = False, timeouts = []\<rparr>"

definition timer_Revoke :: "tptimer \<Rightarrow> tptimer" where
  "timer_Revoke t = t\<lparr>pending := []\<rparr>"

definition timer_Schedule :: "int \<Rightarrow> tptimer \<Rightarrow> tptimer" where
  "timer_Schedule due t = t\<lparr>pending := pending t @ [due]\<rparr>"

definition timer_stop :: "tptimer \<Rightarrow> tptimer" where
  "timer_stop t = (timer_Revoke t)\<lparr>m_isActive := False\<rparr>"

definition timer_start :: "(int \<Rightarrow> int \<Rightarrow> int) \<Rightarrow> tptimer \<Rightarrow> tptimer" where
  "timer_start add t =
     (let t = timer_Revoke t in (timer_Schedule (add (timer_now t) (m_intervalInMs t)) t)\<lparr>m_isActive := True\<rparr>)"

definition setInterval :: "int \<Rightarrow> tptimer \<Rightarrow> tptimer" where
  "setInterval msec t = t\<lparr>m_intervalInMs := msec\<rparr>"

definition setSingleShot :: "bool \<Rightarrow> tptimer \<Rightarrow> tptimer" where
  "setSingleShot val t = t\<lparr>m_isSingleShot := val\<rparr>"

definition timer_start_ms :: "(int \<Rightarrow> int \<Rightarrow> int) \<Rightarrow> int \<Rightarrow> tptimer \<Rightarrow> tptimer" where
  "timer_start_ms add msec t = timer_start add (setInterval msec t)"

definition timer_connect :: "bool \<Rightarrow> tptimer \<Rightarrow> tptimer" where
  "timer_connect callback t = t\<lparr>onTimeoutCallback := callback\<rparr>"

datatype timer_op = Timer_Stop | Timer_Start | Timer_Start_Ms int | Timer_Interval int | Timer_Single bool

primrec timer_do :: "(int \<Rightarrow> int \<Rightarrow> int) \<Rightarrow> timer_op \<Rightarrow> tptimer \<Rightarrow> tptimer" where
  "timer_do add Timer_Stop t = timer_stop t"
| "timer_do add Timer_Start t = timer_start add t"
| "timer_do add (Timer_Start_Ms n) t = timer_start_ms add n t"
| "timer_do add (Timer_Interval n) t = setInterval n t"
| "timer_do add (Timer_Single b) t = setSingleShot b t"

definition timer_Timed :: "(int \<Rightarrow> int \<Rightarrow> int) \<Rightarrow> timer_op list \<Rightarrow> tptimer \<Rightarrow> tptimer" where
  "timer_Timed add callback t =
     (let t = (if onTimeoutCallback t
          then fold (timer_do add) callback (t\<lparr>timeouts := timeouts t @ [timer_now t]\<rparr>) else t) in
      if m_isActive t then (if m_isSingleShot t then timer_stop t else timer_start add t) else t)"

text \<open>The timer thread at a time: it takes the entry that is due and runs \<^verbatim>\<open>Timed\<close>.\<close>

definition timer_fire :: "(int \<Rightarrow> int \<Rightarrow> int) \<Rightarrow> timer_op list \<Rightarrow> int \<Rightarrow> tptimer \<Rightarrow> tptimer" where
  "timer_fire add callback now t =
     (case pending t of
        [] \<Rightarrow> t
      | due # rest \<Rightarrow> if due \<le> now then timer_Timed add callback (t\<lparr>pending := rest, timer_now := now\<rparr>) else t)"

section \<open>Armed exactly when active\<close>

datatype timer_event = Do timer_op | Fire "timer_op list" int

primrec timer_step :: "(int \<Rightarrow> int \<Rightarrow> int) \<Rightarrow> timer_event \<Rightarrow> tptimer \<Rightarrow> tptimer" where
  "timer_step add (Do q) t = timer_do add q t"
| "timer_step add (Fire callback now) t = timer_fire add callback now t"

definition timer_ok :: "tptimer \<Rightarrow> bool" where
  "timer_ok t \<longleftrightarrow> length (pending t) = (if m_isActive t then 1 else 0)"

definition timer_low :: "tptimer \<Rightarrow> bool" where
  "timer_low t \<longleftrightarrow> length (pending t) \<le> (if m_isActive t then 1 else 0)"

lemmas timer_defs = timer_stop_def timer_start_def timer_start_ms_def setInterval_def setSingleShot_def
  timer_Revoke_def timer_Schedule_def Let_def

lemma timer_do_ok: "timer_ok t \<Longrightarrow> timer_ok (timer_do add q t)"
  by (cases q) (simp_all add: timer_defs timer_ok_def)

lemma timer_do_low: "timer_low t \<Longrightarrow> timer_low (timer_do add q t)"
  by (cases q) (auto simp: timer_defs timer_low_def)

lemma callback_low: "timer_low t \<Longrightarrow> timer_low (fold (timer_do add) qs t)"
  by (induction qs arbitrary: t) (simp_all add: timer_do_low)

lemma timer_Timed_ok:
  assumes "pending t = []"
  shows "timer_ok (timer_Timed add callback t)"
proof -
  have "timer_low (t\<lparr>timeouts := ts\<rparr>)" "timer_low t" for ts using assms by (simp_all add: timer_low_def)
  then have "timer_low (if onTimeoutCallback t
      then fold (timer_do add) callback (t\<lparr>timeouts := timeouts t @ [timer_now t]\<rparr>) else t)"
    by (simp add: callback_low)
  then show ?thesis unfolding timer_Timed_def Let_def
    by (auto simp: timer_ok_def timer_low_def timer_stop_def timer_start_def timer_Revoke_def timer_Schedule_def Let_def)
qed

lemma timer_fire_ok: "timer_ok t \<Longrightarrow> timer_ok (timer_fire add callback now t)"
proof (cases "pending t")
  case (Cons due rest)
  assume "timer_ok t"
  with Cons have "rest = []" by (simp add: timer_ok_def split: if_splits)
  with Cons \<open>timer_ok t\<close> show ?thesis by (simp add: timer_fire_def timer_Timed_ok)
qed (simp add: timer_fire_def)

interpretation tt: machine "timer_step add" timer_ok for add
proof
  fix t e
  assume "timer_ok t"
  then show "timer_ok (timer_step add e t)" by (cases e) (simp_all add: timer_do_ok timer_fire_ok)
qed

text \<open>Whatever is started, stopped, set and fired, in the callback too: the timer has one entry on the timer thread when it is
  active, and none when it is not.\<close>
theorem timer_armed:
  "length (pending (fold (timer_step add) es (TpTimer t))) =
     (if m_isActive (fold (timer_step add) es (TpTimer t)) then 1 else 0)"
  using tt.run_inv[of "TpTimer t" add es] by (simp add: timer_ok_def TpTimer_def)

text \<open>A single-shot timer is stopped after its timeout even where the callback has just started it again: the new start
  is lost.  A repeating timer that its callback leaves alone is armed for the next interval.\<close>
theorem timer_restart_lost:
  assumes "pending t = [due]" and "due \<le> now" and "m_isActive t" and "onTimeoutCallback t"
  shows "(m_isSingleShot t \<longrightarrow>
      m_isActive (timer_fire add [Timer_Start_Ms n] now t) = False \<and> pending (timer_fire add [Timer_Start_Ms n] now t) = []) \<and>
    (\<not> m_isSingleShot t \<longrightarrow> pending (timer_fire add [] now t) = [add now (m_intervalInMs t)])"
  using assms by (simp add: timer_fire_def timer_Timed_def timer_defs)

lemma timer_restart_lost_witness:
  "pending (timer_fire (+) [Timer_Start_Ms 5] 10
     ((TpTimer 0)\<lparr>pending := [10], m_isActive := True, m_isSingleShot := True, onTimeoutCallback := True\<rparr>)) = []"
  using timer_restart_lost[of "(TpTimer 0)\<lparr>pending := [10], m_isActive := True, m_isSingleShot := True, onTimeoutCallback := True\<rparr>"
      10 10 "(+)" 5]
  by simp

end
