(* ===== verification/Utils_Interface.thy ===== *)
theory Utils_Interface
  imports Prelude "HOL-Library.Word"
begin

text \<open>
  \<^verbatim>\<open>helpers/PluginInterfaceBuilder.h\<close>: the query of a plugin's interface with retries, and the reference that owns the
  interface.  What the controller answers to the n-th query is a parameter (\<open>query n\<close>); interfaces are
  numbers.
\<close>

section \<open>The builder\<close>

record builder =
  callSign :: string
  controller :: bool
  builder_version :: "32 word"
  builder_timeout :: "32 word"
  retryCount :: int
  retryInterval :: "32 word"

definition PluginInterfaceBuilder :: "string \<Rightarrow> builder" where
  "PluginInterfaceBuilder callsign = \<lparr>callSign = callsign, controller = False, builder_version = - 1, builder_timeout = 3000,
     retryCount = 0, retryInterval = 0\<rparr>"

definition withIShell :: "bool \<Rightarrow> builder \<Rightarrow> builder" where "withIShell service b = b\<lparr>controller := service\<rparr>"
definition withVersion :: "32 word \<Rightarrow> builder \<Rightarrow> builder" where "withVersion version b = b\<lparr>builder_version := version\<rparr>"
definition withTimeout :: "32 word \<Rightarrow> builder \<Rightarrow> builder" where "withTimeout ms b = b\<lparr>builder_timeout := ms\<rparr>"
definition withRetryCount :: "int \<Rightarrow> builder \<Rightarrow> builder" where "withRetryCount n b = b\<lparr>retryCount := n\<rparr>"

text \<open>The interval is an \<^verbatim>\<open>int\<close> argument stored in a \<^verbatim>\<open>uint32_t\<close>.\<close>

definition withRetryIntervalMS :: "int \<Rightarrow> builder \<Rightarrow> builder" where
  "withRetryIntervalMS ms b = b\<lparr>retryInterval := word_of_int ms\<rparr>"

text \<open>The loop: the interface, the number of queries and the sleeps in microseconds.\<close>

function create_loop :: "(nat \<Rightarrow> nat option) \<Rightarrow> int \<Rightarrow> 32 word \<Rightarrow> nat \<Rightarrow> nat option \<times> nat \<times> 32 word list" where
  "create_loop query retry_count retry_interval tries =
     (case query tries of
        Some pluginInterface \<Rightarrow> (Some pluginInterface, Suc tries, [])
      | None \<Rightarrow>
          let (result, queries, sleeps) =
            (if int (Suc tries) < retry_count then create_loop query retry_count retry_interval (Suc tries)
             else (None, Suc tries, [])) in
          (result, queries, retry_interval * 1000 # sleeps))"
  by pat_completeness auto

termination
  by (relation "measure (\<lambda>(_, retry_count, _, tries). nat (retry_count - int tries))") auto

declare create_loop.simps [simp del]

definition createInterface :: "(nat \<Rightarrow> nat option) \<Rightarrow> builder \<Rightarrow> nat option \<times> nat \<times> 32 word list" where
  "createInterface query b =
     (if \<not> controller b then (None, 0, [])
      else create_loop query (retryCount b) (retryInterval b) 0)"

lemma create_loop_result:
  "fst (create_loop query n w i) =
     (case List.find (\<lambda>k. query k \<noteq> None) [i..<max (Suc i) (nat n)] of None \<Rightarrow> None | Some k \<Rightarrow> query k)"
proof (induction query n w i rule: create_loop.induct)
  case (1 query n w i)
  have split: "[i..<max (Suc i) (nat n)] = i # [Suc i..<max (Suc i) (nat n)]" by (simp add: upt_conv_Cons)
  show ?case
  proof (cases "query i")
    case None
    show ?thesis
    proof (cases "int (Suc i) < n")
      case True
      then have "max (Suc i) (nat n) = max (Suc (Suc i)) (nat n)" by simp
      moreover have "create_loop query n w i = (fst (create_loop query n w (Suc i)),
          fst (snd (create_loop query n w (Suc i))), w * 1000 # snd (snd (create_loop query n w (Suc i))))"
        using None True by (simp add: create_loop.simps[of query n w i] case_prod_unfold Let_def)
      ultimately show ?thesis using 1[OF None True] None True upt_conv_Cons[of i "nat n"] by simp
    next
      case False
      then have "max (Suc i) (nat n) = Suc i" by simp
      with None False show ?thesis by (simp add: create_loop.simps[of query n w i])
    qed
  next
    case (Some x)
    then show ?thesis by (simp add: create_loop.simps[of query n w i] split)
  qed
qed

lemma create_loop_sleeps:
  "snd (snd (create_loop query n w i)) =
     replicate (fst (snd (create_loop query n w i)) - i - (if fst (create_loop query n w i) = None then 0 else 1)) (w * 1000) \<and>
   i < fst (snd (create_loop query n w i)) \<and> fst (snd (create_loop query n w i)) \<le> max (Suc i) (nat n)"
proof (induction query n w i rule: create_loop.induct)
  case (1 query n w i)
  show ?case
  proof (cases "query i")
    case None
    show ?thesis
    proof (cases "int (Suc i) < n")
      case True
      let ?r = "create_loop query n w (Suc i)"
      have r: "create_loop query n w i = (fst ?r, fst (snd ?r), w * 1000 # snd (snd ?r))"
        using None True by (simp add: create_loop.simps[of query n w i] case_prod_unfold Let_def)
      from 1[OF None True] True show ?thesis by (cases "fst ?r") (simp_all add: r Suc_diff_Suc flip: replicate_Suc)
    next
      case False
      with None show ?thesis by (simp add: create_loop.simps[of query n w i])
    qed
  next
    case (Some x)
    then show ?thesis by (simp add: create_loop.simps[of query n w i])
  qed
qed

text \<open>C37: The builder asks until it gets an interface and at most \<^verbatim>\<open>retry_count\<close> times, but at least once (also for a count of
  0 or below); the interface is that of the first query that gave one, and there is one sleep after each query that failed,
  the last included.\<close>
theorem createInterface_retries:
  assumes "controller b"
  shows "fst (createInterface query b) =
      (case List.find (\<lambda>k. query k \<noteq> None) [0..<max 1 (nat (retryCount b))] of None \<Rightarrow> None | Some k \<Rightarrow> query k) \<and>
    1 \<le> fst (snd (createInterface query b)) \<and> fst (snd (createInterface query b)) \<le> max 1 (nat (retryCount b)) \<and>
    snd (snd (createInterface query b)) =
      replicate (fst (snd (createInterface query b)) - (if fst (createInterface query b) = None then 0 else 1)) (retryInterval b * 1000)"
  using assms create_loop_result[of query "retryCount b" "retryInterval b" 0] create_loop_sleeps[of query "retryCount b" "retryInterval b" 0]
  by (simp add: createInterface_def)

lemma createInterface_retries_witness:
  "fst (createInterface (\<lambda>n. if n = 2 then Some 7 else None)
     (withRetryIntervalMS 10 (withRetryCount 5 (withIShell True (PluginInterfaceBuilder ''x''))))) = Some 7"
  using createInterface_retries[of "withRetryIntervalMS 10 (withRetryCount 5 (withIShell True (PluginInterfaceBuilder ''x'')))"
      "\<lambda>n. if n = 2 then Some 7 else None"]
  by (simp add: withIShell_def withRetryCount_def withRetryIntervalMS_def PluginInterfaceBuilder_def upt_rec)

section \<open>References\<close>

text \<open>\<^verbatim>\<open>PluginInterfaceRef\<close>s in a list, and the reference count of each interface.\<close>

record interface_ref =
  ref_interface :: "nat option"
  ref_service :: bool

record ref_heap =
  refs_of :: "interface_ref list"
  counts :: "nat \<Rightarrow> int"

definition ref_Release :: "nat \<Rightarrow> ref_heap \<Rightarrow> ref_heap" where
  "ref_Release i h = h\<lparr>counts := (counts h)(i := counts h i - 1)\<rparr>"

text \<open>\<^verbatim>\<open>createInterface()\<close> of the builder; the query has added a reference.\<close>

definition ref_create :: "nat option \<Rightarrow> ref_heap \<Rightarrow> ref_heap" where
  "ref_create interface h =
     (let h = h\<lparr>refs_of := refs_of h @ [\<lparr>ref_interface = interface, ref_service = True\<rparr>]\<rparr> in
      case interface of None \<Rightarrow> h | Some i \<Rightarrow> h\<lparr>counts := (counts h)(i := counts h i + 1)\<rparr>)"

definition ref_move :: "nat \<Rightarrow> ref_heap \<Rightarrow> ref_heap" where
  "ref_move other h =
     (if other < length (refs_of h)
      then h\<lparr>refs_of := (refs_of h)[other := \<lparr>ref_interface = None, ref_service = False\<rparr>] @ [refs_of h ! other]\<rparr> else h)"

definition ref_assign :: "nat \<Rightarrow> nat \<Rightarrow> ref_heap \<Rightarrow> ref_heap" where
  "ref_assign this other h =
     (if this < length (refs_of h) \<and> other < length (refs_of h) \<and> this \<noteq> other
      then h\<lparr>refs_of := (refs_of h)
        [this := (refs_of h ! this)\<lparr>ref_interface := ref_interface (refs_of h ! other)\<rparr>,
         other := (refs_of h ! other)\<lparr>ref_interface := None\<rparr>]\<rparr>
      else h)"

definition ref_Reset :: "nat \<Rightarrow> ref_heap \<Rightarrow> ref_heap" where
  "ref_Reset n h =
     (if n < length (refs_of h)
      then (case ref_interface (refs_of h ! n) of
          None \<Rightarrow> h
        | Some i \<Rightarrow> (ref_Release i h)\<lparr>refs_of := (refs_of h)[n := (refs_of h ! n)\<lparr>ref_interface := None\<rparr>]\<rparr>)
      else h)"

datatype ref_event = Ref_Create "nat option" | Ref_Move nat | Ref_Assign nat nat | Ref_Reset nat

primrec ref_step :: "ref_event \<Rightarrow> ref_heap \<Rightarrow> ref_heap" where
  "ref_step (Ref_Create i) h = ref_create i h"
| "ref_step (Ref_Move n) h = ref_move n h"
| "ref_step (Ref_Assign n m) h = ref_assign n m h"
| "ref_step (Ref_Reset n) h = ref_Reset n h"

definition ref_empty :: ref_heap where
  "ref_empty = \<lparr>refs_of = [], counts = (\<lambda>_. 0)\<rparr>"

definition holders :: "nat \<Rightarrow> interface_ref list \<Rightarrow> int" where
  "holders i rs = sum_list (map (\<lambda>r. if ref_interface r = Some i then 1 else 0) rs)"

lemma holders_append [simp]: "holders i (rs @ rs') = holders i rs + holders i rs'"
  by (simp add: holders_def)

lemma holders_single [simp]: "holders i [r] = (if ref_interface r = Some i then 1 else 0)"
  by (simp add: holders_def)

lemma holders_update:
  "n < length rs \<Longrightarrow> holders i (rs[n := r]) =
     holders i rs + (if ref_interface r = Some i then 1 else 0) - (if ref_interface (rs ! n) = Some i then 1 else 0)"
proof (induction rs arbitrary: n)
  case (Cons r' rs)
  then show ?case by (cases n) (simp_all add: holders_def)
qed simp

definition heap_ok :: "ref_heap \<Rightarrow> bool" where
  "heap_ok h \<longleftrightarrow> (\<forall>i. holders i (refs_of h) \<le> counts h i)"

text \<open>How many references an assignment drops: those of the interface that its target held.\<close>

fun overwritten :: "nat \<Rightarrow> ref_event \<Rightarrow> ref_heap \<Rightarrow> int" where
  "overwritten i (Ref_Assign n m) h =
     (if n < length (refs_of h) \<and> m < length (refs_of h) \<and> n \<noteq> m \<and> ref_interface (refs_of h ! n) = Some i then 1 else 0)"
| "overwritten i _ h = 0"

lemma ref_step_balance:
  "counts (ref_step e h) i - holders i (refs_of (ref_step e h)) = counts h i - holders i (refs_of h) + overwritten i e h"
proof (cases e)
  case (Ref_Create x)
  then show ?thesis by (auto simp: ref_create_def Let_def split: option.split)
next
  case (Ref_Move n)
  then show ?thesis by (simp add: ref_move_def holders_update)
next
  case (Ref_Assign n m)
  then show ?thesis by (simp add: ref_assign_def holders_update)
next
  case (Ref_Reset n)
  then show ?thesis by (simp add: ref_Reset_def ref_Release_def holders_update split: option.split)
qed

lemma overwritten_range: "0 \<le> overwritten i e h"
  by (cases e) simp_all

interpretation rh: machine ref_step heap_ok
proof
  fix h e
  assume "heap_ok h"
  then show "heap_ok (ref_step e h)"
    unfolding heap_ok_def by (metis add_increasing2 diff_ge_0_iff_ge overwritten_range ref_step_balance)
qed

lemma ref_empty_ok: "heap_ok ref_empty"
  by (simp add: heap_ok_def ref_empty_def holders_def)

lemma ref_run_balance:
  "\<forall>k < length es. overwritten i (es ! k) (fold ref_step (take k es) h) = 0 \<Longrightarrow>
   counts (fold ref_step es h) i - holders i (refs_of (fold ref_step es h)) = counts h i - holders i (refs_of h)"
proof (induction es arbitrary: h)
  case (Cons e es)
  have "overwritten i (es ! k) (fold ref_step (take k es) (ref_step e h)) = 0" if "k < length es" for k
    using Cons(2)[rule_format, of "Suc k"] that by simp
  moreover have "overwritten i e h = 0" using Cons(2)[rule_format, of 0] by simp
  ultimately show ?case using Cons(1)[of "ref_step e h"] ref_step_balance[of e h i] by simp
qed simp

text \<open>An interface that a reference points to is never released below its holders, whatever is created, moved, assigned and
  reset; and the counts are exact as long as no assignment overwrites a reference that holds an interface.\<close>
theorem interface_counts:
  "(\<forall>i. holders i (refs_of (fold ref_step es ref_empty)) \<le> counts (fold ref_step es ref_empty) i) \<and>
   (\<forall>i. (\<forall>k < length es. overwritten i (es ! k) (fold ref_step (take k es) ref_empty) = 0) \<longrightarrow>
     counts (fold ref_step es ref_empty) i = holders i (refs_of (fold ref_step es ref_empty)))"
  using rh.run_inv[OF ref_empty_ok, of es] ref_run_balance[of es _ ref_empty]
  by (auto simp: heap_ok_def ref_empty_def holders_def)

lemma interface_counts_witness:
  "counts (fold ref_step [Ref_Create (Some 3), Ref_Move 0] ref_empty) 3 =
     holders 3 (refs_of (fold ref_step [Ref_Create (Some 3), Ref_Move 0] ref_empty))"
proof -
  have "\<forall>k < length [Ref_Create (Some 3), Ref_Move 0]. overwritten 3 ([Ref_Create (Some 3), Ref_Move 0] ! k)
      (fold ref_step (take k [Ref_Create (Some 3), Ref_Move 0]) ref_empty) = 0"
    by (auto simp: less_Suc_eq)
  with interface_counts[of "[Ref_Create (Some 3), Ref_Move 0]"] show ?thesis by blast
qed

text \<open>Move assignment to a reference that holds an interface leaks it: its count stays 1 when every reference is reset.\<close>
theorem interface_leak:
  assumes "i \<noteq> j"
  shows "counts (fold ref_step [Ref_Create (Some i), Ref_Create (Some j), Ref_Assign 0 1, Ref_Reset 0, Ref_Reset 1] ref_empty) i = 1"
  using assms by (simp add: ref_empty_def ref_create_def ref_assign_def ref_Reset_def ref_Release_def)

lemma interface_leak_witness:
  "counts (fold ref_step [Ref_Create (Some 1), Ref_Create (Some 2), Ref_Assign 0 1, Ref_Reset 0, Ref_Reset 1] ref_empty) 1 = 1"
  by (rule interface_leak) simp

end
