(* ===== verification/Ws_Manager.thy ===== *)
theory Ws_Manager
  imports Prelude "HOL-Library.Word" "HOL-Library.While_Combinator"
begin

text \<open>
  \<^verbatim>\<open>helpers/WsManager.h\<close>: the server side of a web socket connection (its messages, the queue of those that
  arrive before the connection has an id) and the manager that submits messages to connections.  The
  texts that Thunder's JSON classes produce and read are fields of the environment \<open>env\<close>, as is the
  build switch \<^verbatim>\<open>ENABLE_APP_GATEWAY_AUTOMATION\<close>.  A handler's own effects belong to its owner; the model keeps
  the calls it gets and how it ends.
\<close>

section \<open>Messages, the manager and a connection\<close>

record jrpc =
  Id_field :: "32 word option"
  Designator :: "string option"
  Parameters :: "string option"
  Result_field :: "string option"
  Error_field :: "(int \<times> string) option"

definition Message_Create :: jrpc where
  "Message_Create = \<lparr>Id_field = None, Designator = None, Parameters = None, Result_field = None, Error_field = None\<rparr>"

record AutomationMessage =
  ConnectionId :: "32 word"
  Type_field :: string
  Request :: "32 word option"
  Method_field :: "string option"
  Params :: "string option"
  Payload :: "string option"

record ConnectionUpdate =
  Update_Connection :: "32 word"
  AppId :: string
  Connected :: bool

record ws_env =
  automation :: bool
  automation_text :: "AutomationMessage \<Rightarrow> string"
  update_text :: "ConnectionUpdate \<Rightarrow> string"
  info_of :: "string \<Rightarrow> (int option \<times> string option) option"

datatype handler_end = Handler_Returns | Handler_Throws string | Handler_Throws_Unknown

type_synonym message_handler = "string \<Rightarrow> string \<Rightarrow> 32 word \<Rightarrow> 32 word \<Rightarrow> handler_end"

record ws_manager =
  messageHandler :: "message_handler option"
  authHandler :: "(32 word \<Rightarrow> string \<Rightarrow> bool) option"
  disconnectHandler :: bool
  mChannel :: bool
  submitted :: "(32 word \<times> jrpc) list"
  automationId :: "32 word"

text \<open>What became of a message: \<open>outcomes\<close> is the history of a connection.\<close>

datatype ws_outcome =
    No_Id | Evicted | No_Method | No_Handler | Handled string string | Failed string string string | Failed_Unknown string string

record connection =
  conn_id :: "32 word"
  ws_queue :: "jrpc list"
  sent :: "jrpc list"
  outcomes :: "(jrpc \<times> ws_outcome) list"

definition connection_init :: connection where
  "connection_init = \<lparr>conn_id = 0, ws_queue = [], sent = [], outcomes = []\<rparr>"

definition settle :: "jrpc \<Rightarrow> ws_outcome \<Rightarrow> connection \<Rightarrow> connection" where
  "settle m r s = s\<lparr>outcomes := outcomes s @ [(m, r)]\<rparr>"

section \<open>The connection\<close>

definition SendJSONRPCResponse :: "string \<Rightarrow> 32 word \<Rightarrow> connection \<Rightarrow> connection" where
  "SendJSONRPCResponse result requestId s =
     s\<lparr>sent := sent s @ [Message_Create\<lparr>Id_field := Some requestId, Result_field := Some result\<rparr>]\<rparr>"

definition err_no_method :: string where
  "err_no_method = ''{\"error\": \"Message MUST contain a method field\"}''"

definition err_no_handler :: string where
  "err_no_handler = ''{\"error\": \"Message handler not set\"}''"

definition err_exception :: "string \<Rightarrow> string" where
  "err_exception what = ''{\"error\": \"Processing exception\", \"details\": \"'' @ what @ ''\"}''"

definition err_unknown :: string where
  "err_unknown = ''{\"error\": \"Unknown processing exception\"}''"

definition AddToPending :: "jrpc \<Rightarrow> connection \<Rightarrow> connection" where
  "AddToPending element s =
     (let s = (if length (ws_queue s) = 10 then
         let firstElement = hd (ws_queue s) in
         settle firstElement Evicted
           (SendJSONRPCResponse err_no_method (the (Id_field firstElement)) (s\<lparr>ws_queue := tl (ws_queue s)\<rparr>))
       else s) in
      s\<lparr>ws_queue := ws_queue s @ [element]\<rparr>)"

definition message_params :: "jrpc \<Rightarrow> string" where
  "message_params m = (case Parameters m of None \<Rightarrow> ''{}'' | Some p \<Rightarrow> if p = [] then ''{}'' else p)"

text \<open>The synchronous part of \<^verbatim>\<open>ProcessMessage\<close> with its two \<^verbatim>\<open>catch\<close> clauses.\<close>

definition run_handler :: " ws_manager \<Rightarrow> jrpc \<Rightarrow> string \<Rightarrow> string \<Rightarrow> 32 word \<Rightarrow> connection \<Rightarrow> connection" where
  "run_handler M m methodName params requestId s =
     (case messageHandler M of
        None \<Rightarrow> settle m No_Handler (SendJSONRPCResponse err_no_handler requestId s)
      | Some handler \<Rightarrow>
          (case handler methodName params requestId (conn_id s) of
             Handler_Returns \<Rightarrow> settle m (Handled methodName params) s
           | Handler_Throws what \<Rightarrow>
               settle m (Failed methodName params what) (SendJSONRPCResponse (err_exception what) requestId s)
           | Handler_Throws_Unknown \<Rightarrow>
               settle m (Failed_Unknown methodName params) (SendJSONRPCResponse err_unknown requestId s)))"

definition channel_Submit :: "32 word \<Rightarrow> jrpc \<Rightarrow> ws_manager \<Rightarrow> ws_manager" where
  "channel_Submit c m M = M\<lparr>submitted := submitted M @ [(c, m)]\<rparr>"

definition automation_note :: "string \<Rightarrow> string \<Rightarrow> jrpc" where
  "automation_note designator payload = Message_Create\<lparr>Designator := Some designator, Parameters := Some payload\<rparr>"

definition forward_request :: "ws_env \<Rightarrow> 32 word \<Rightarrow> 32 word \<Rightarrow> string \<Rightarrow> string \<Rightarrow> ws_manager \<Rightarrow> ws_manager" where
  "forward_request env connectionId requestId methodName params M =
     (if automation env \<and> 0 < automationId M then
        channel_Submit (automationId M)
          (automation_note ''automationUpdate'' (automation_text env
            \<lparr>ConnectionId = connectionId, Type_field = ''request'', Request = Some requestId,
             Method_field = Some methodName, Params = Some params, Payload = None\<rparr>)) M
      else M)"

definition ProcessMessage :: "ws_env \<Rightarrow> jrpc \<Rightarrow> 32 word \<Rightarrow> connection \<times> ws_manager \<Rightarrow> connection \<times> ws_manager" where
  "ProcessMessage env m connectionId = (\<lambda>(s, M).
     (case Id_field m of
        None \<Rightarrow> (settle m No_Id s, M)
      | Some requestId \<Rightarrow>
          if conn_id s = 0 then (AddToPending m s, M)
          else (case Designator m of
            None \<Rightarrow> (settle m No_Method (SendJSONRPCResponse err_no_method requestId s), M)
          | Some methodName \<Rightarrow>
              let params = message_params m in
              (run_handler M m methodName params requestId s,
               forward_request env connectionId requestId methodName params M))))"

definition Received :: "ws_env \<Rightarrow> jrpc option \<Rightarrow> connection \<times> ws_manager \<Rightarrow> connection \<times> ws_manager" where
  "Received env jsonObject = (\<lambda>(s, M).
     (case jsonObject of
        None \<Rightarrow> (s, M)
      | Some message \<Rightarrow> ProcessMessage env message (conn_id s) (s, M)))"

text \<open>
  \<^verbatim>\<open>Id(id)\<close> and its loop over the pending messages; every queued message is valid.  The loop need not end,
  so its result is an option.
\<close>

definition drain_step :: "ws_env \<Rightarrow> connection \<times> ws_manager \<Rightarrow> connection \<times> ws_manager" where
  "drain_step env = (\<lambda>(s, M).
     (case ws_queue s of
        [] \<Rightarrow> (s, M)
      | message # _ \<Rightarrow>
          let (s, M) = ProcessMessage env message (conn_id s) (s, M) in
          (s\<lparr>ws_queue := tl (ws_queue s)\<rparr>, M)))"

definition Id_assign :: "ws_env \<Rightarrow> 32 word \<Rightarrow> connection \<times> ws_manager \<Rightarrow> (connection \<times> ws_manager) option" where
  "Id_assign env i = (\<lambda>(s, M).
     while_option (\<lambda>(s, M). ws_queue s \<noteq> []) (drain_step env) (s\<lparr>conn_id := i\<rparr>, M))"

text \<open>\<^verbatim>\<open>StateChange\<close>: the call of the handlers, and whether the connection is closed.\<close>

datatype link_state = Link_Open | Link_Suspended | Link_Other

datatype state_change = Authenticated "32 word" bool | Unauthenticated | Disconnect_Note "32 word" | No_Change

definition connection_StateChange :: "link_state \<Rightarrow> string \<Rightarrow> ws_manager \<Rightarrow> connection \<Rightarrow> state_change \<times> bool" where
  "connection_StateChange link query M s =
     (case link of
        Link_Open \<Rightarrow>
          (case authHandler M of
             Some auth \<Rightarrow> (let authResult = auth (conn_id s) query in (Authenticated (conn_id s) authResult, \<not> authResult))
           | None \<Rightarrow> (Unauthenticated, False))
      | Link_Suspended \<Rightarrow> (if disconnectHandler M then (Disconnect_Note (conn_id s), False) else (No_Change, False))
      | Link_Other \<Rightarrow> (No_Change, False))"

section \<open>The manager\<close>

definition ForwardToAutomation :: "ws_env \<Rightarrow> string \<Rightarrow> string \<Rightarrow> ws_manager \<Rightarrow> ws_manager" where
  "ForwardToAutomation env designator payload M =
     (if automation env \<and> 0 < automationId M
      then channel_Submit (automationId M) (automation_note designator payload) M else M)"

definition SetMessageHandler :: "message_handler option \<Rightarrow> ws_manager \<Rightarrow> ws_manager" where
  "SetMessageHandler handler M = M\<lparr>messageHandler := handler\<rparr>"

definition SetAuthHandler :: "(32 word \<Rightarrow> string \<Rightarrow> bool) option \<Rightarrow> ws_manager \<Rightarrow> ws_manager" where
  "SetAuthHandler handler M = M\<lparr>authHandler := handler\<rparr>"

definition SetDisconnectHandler :: "bool \<Rightarrow> ws_manager \<Rightarrow> ws_manager" where
  "SetDisconnectHandler handler M = M\<lparr>disconnectHandler := handler\<rparr>"

definition SetAutomationId :: "32 word \<Rightarrow> ws_manager \<Rightarrow> ws_manager" where
  "SetAutomationId i M = M\<lparr>automationId := i\<rparr>"

text \<open>
  The last step of the three senders: the submission, and the copy for the automation server unless the message went to
  it.  The channel is a null pointer before \<^verbatim>\<open>Start\<close>; a use of it is \<open>None\<close>.
\<close>

definition send_and_forward :: "ws_env \<Rightarrow> 32 word \<Rightarrow> jrpc \<Rightarrow> AutomationMessage \<Rightarrow> ws_manager \<Rightarrow> (bool \<times> ws_manager) option" where
  "send_and_forward env connectionId m a M =
     (if \<not> mChannel M then None
      else
        let M = channel_Submit connectionId m M in
        Some (True,
          if automation env \<and> 0 < automationId M \<and> connectionId \<noteq> automationId M
          then ForwardToAutomation env ''automationUpdate'' (automation_text env a) M else M))"

definition response_message :: "ws_env \<Rightarrow> string \<Rightarrow> 32 word \<Rightarrow> jrpc" where
  "response_message env result requestId =
     (case info_of env result of
        Some (Some code, Some text) \<Rightarrow> Message_Create\<lparr>Id_field := Some requestId, Error_field := Some (code, text)\<rparr>
      | _ \<Rightarrow> Message_Create\<lparr>Id_field := Some requestId, Result_field := Some result\<rparr>)"

definition SendMessageToConnection :: "ws_env \<Rightarrow> 32 word \<Rightarrow> string \<Rightarrow> 32 word \<Rightarrow> ws_manager \<Rightarrow> (bool \<times> ws_manager) option" where
  "SendMessageToConnection env connectionId result requestId =
     send_and_forward env connectionId (response_message env result requestId)
       \<lparr>ConnectionId = connectionId, Type_field = ''response'', Request = Some requestId,
        Method_field = None, Params = None, Payload = Some result\<rparr>"

definition DispatchNotificationToConnection ::
  "ws_env \<Rightarrow> 32 word \<Rightarrow> string \<Rightarrow> string \<Rightarrow> ws_manager \<Rightarrow> (bool \<times> ws_manager) option" where
  "DispatchNotificationToConnection env connectionId designator payload =
     send_and_forward env connectionId (automation_note designator payload)
       \<lparr>ConnectionId = connectionId, Type_field = ''notification'', Request = None,
        Method_field = Some designator, Params = Some payload, Payload = None\<rparr>"

definition SendRequestToConnection ::
  "ws_env \<Rightarrow> 32 word \<Rightarrow> string \<Rightarrow> 32 word \<Rightarrow> string \<Rightarrow> ws_manager \<Rightarrow> (bool \<times> ws_manager) option" where
  "SendRequestToConnection env connectionId designator requestId params =
     send_and_forward env connectionId
       (Message_Create\<lparr>Id_field := Some requestId, Designator := Some designator, Parameters := Some params\<rparr>)
       \<lparr>ConnectionId = connectionId, Type_field = ''request'', Request = Some requestId,
        Method_field = Some designator, Params = Some params, Payload = None\<rparr>"

definition UpdateConnection :: "ws_env \<Rightarrow> 32 word \<Rightarrow> string \<Rightarrow> bool \<Rightarrow> ws_manager \<Rightarrow> ws_manager" where
  "UpdateConnection env connectionId appId connected M =
     (if automation env \<and> 0 < automationId M
      then ForwardToAutomation env ''connectionUpdate''
        (update_text env \<lparr>Update_Connection = connectionId, AppId = appId, Connected = connected\<rparr>) M
      else M)"

text \<open>\<^verbatim>\<open>Start\<close>: \<open>created\<close> tells whether the constructor of the channel returns or throws.\<close>

definition Start :: "bool \<Rightarrow> ws_manager \<Rightarrow> bool \<times> ws_manager" where
  "Start created M = (if created then (True, M\<lparr>mChannel := True\<rparr>) else (False, M))"

text \<open>\<^verbatim>\<open>Close\<close>: the connection that is closed; the channel knows \<open>clients\<close> only, and a null pointer is not tested.\<close>

definition Close_client :: "32 word list \<Rightarrow> 32 word \<Rightarrow> ws_manager \<Rightarrow> 32 word option" where
  "Close_client clients connectionId M = (if mChannel M \<and> connectionId \<in> set clients then Some connectionId else None)"

text \<open>The destructors.\<close>

definition manager_destroy :: "ws_manager \<Rightarrow> ws_manager" where
  "manager_destroy M = M\<lparr>mChannel := False\<rparr>"

definition connection_destroy :: "connection \<Rightarrow> connection" where
  "connection_destroy s = s\<lparr>ws_queue := []\<rparr>"

section \<open>What becomes of a message\<close>

definition verdict :: " ws_manager \<Rightarrow> 32 word \<Rightarrow> jrpc \<Rightarrow> ws_outcome" where
  "verdict M i m =
     (case Id_field m of
        None \<Rightarrow> No_Id
      | Some requestId \<Rightarrow>
          (case Designator m of
             None \<Rightarrow> No_Method
           | Some method \<Rightarrow>
               (case messageHandler M of
                  None \<Rightarrow> No_Handler
                | Some handler \<Rightarrow>
                    (case handler method (message_params m) requestId i of
                       Handler_Returns \<Rightarrow> Handled method (message_params m)
                     | Handler_Throws what \<Rightarrow> Failed method (message_params m) what
                     | Handler_Throws_Unknown \<Rightarrow> Failed_Unknown method (message_params m)))))"

definition answer :: "ws_outcome \<Rightarrow> string option" where
  "answer r = (case r of
     No_Id \<Rightarrow> None | Evicted \<Rightarrow> Some err_no_method | No_Method \<Rightarrow> Some err_no_method | No_Handler \<Rightarrow> Some err_no_handler
   | Handled _ _ \<Rightarrow> None | Failed _ _ what \<Rightarrow> Some (err_exception what) | Failed_Unknown _ _ \<Rightarrow> Some err_unknown)"

definition ws_answers :: "(jrpc \<times> ws_outcome) list \<Rightarrow> jrpc list" where
  "ws_answers rs = concat (map (\<lambda>(m, r). case answer r of
     None \<Rightarrow> [] | Some e \<Rightarrow> [Message_Create\<lparr>Id_field := Id_field m, Result_field := Some e\<rparr>]) rs)"

lemma ws_answers_append [simp]: "ws_answers (xs @ ys) = ws_answers xs @ ws_answers ys"
  by (simp add: ws_answers_def)

lemma ws_answers_Nil [simp]: "ws_answers [] = []"
  by (simp add: ws_answers_def)

text \<open>The effect on a connection of settling messages, in closed form.\<close>

definition settled :: "(jrpc \<times> ws_outcome) list \<Rightarrow> connection \<Rightarrow> connection" where
  "settled rs s = s\<lparr>outcomes := outcomes s @ rs, sent := sent s @ ws_answers rs\<rparr>"

lemma settled_fields [simp]:
  "conn_id (settled rs s) = conn_id s" "ws_queue (settled rs s) = ws_queue s"
  "outcomes (settled rs s) = outcomes s @ rs" "sent (settled rs s) = sent s @ ws_answers rs"
  by (simp_all add: settled_def)

lemma settled_settled: "settled ys (settled xs s) = settled (xs @ ys) s"
  by (simp add: settled_def)

lemma settled_queue: "(settled xs s)\<lparr>ws_queue := q\<rparr> = settled xs (s\<lparr>ws_queue := q\<rparr>)"
  by (simp add: settled_def)

lemma process_settles:
  "Id_field m = None \<or> conn_id s \<noteq> 0 \<Longrightarrow>
   fst (ProcessMessage env m c (s, M)) = settled [(m, verdict M (conn_id s) m)] s"
  by (auto simp: ProcessMessage_def run_handler_def settle_def settled_def verdict_def ws_answers_def answer_def
      SendJSONRPCResponse_def Let_def split: option.splits handler_end.splits)

lemma process_manager:
  "messageHandler (snd (ProcessMessage env m c (s, M))) = messageHandler M"
  by (simp add: ProcessMessage_def forward_request_def channel_Submit_def Let_def split: option.split)

lemma verdict_cong:
  assumes "messageHandler M' = messageHandler M"
  shows "verdict M' i m = verdict M i m"
  unfolding verdict_def assms ..

lemma process_pending:
  "Id_field m \<noteq> None \<Longrightarrow> conn_id s = 0 \<Longrightarrow> ProcessMessage env m c (s, M) = (AddToPending m s, M)"
  by (auto simp: ProcessMessage_def)

lemma AddToPending_eq:
  assumes "\<forall>m \<in> set (ws_queue s). Id_field m \<noteq> None"
  shows "AddToPending m s =
    (if length (ws_queue s) = 10
     then settled [(hd (ws_queue s), Evicted)] (s\<lparr>ws_queue := tl (ws_queue s) @ [m]\<rparr>)
     else s\<lparr>ws_queue := ws_queue s @ [m]\<rparr>)"
  using assms by (cases "ws_queue s")
    (auto simp: AddToPending_def settled_def settle_def SendJSONRPCResponse_def ws_answers_def answer_def Let_def)

section \<open>The id loop\<close>

lemma drain_step_settles:
  assumes "ws_queue s = m # ms" and "conn_id s \<noteq> 0"
  shows "fst (drain_step env (s, M)) = settled [(m, verdict M (conn_id s) m)] (s\<lparr>ws_queue := ms\<rparr>) \<and>
    messageHandler (snd (drain_step env (s, M))) = messageHandler M"
proof -
  have "fst (ProcessMessage env m (conn_id s) (s, M)) = settled [(m, verdict M (conn_id s) m)] s"
    using assms(2) by (intro process_settles) simp
  then show ?thesis using process_manager[of env m "conn_id s" s M] assms
    by (auto simp: drain_step_def case_prod_unfold Let_def settled_def)
qed

lemma drain_loop:
  "conn_id s \<noteq> 0 \<Longrightarrow> ws_queue s = ms \<Longrightarrow>
   \<exists>M'. while_option (\<lambda>(s, M). ws_queue s \<noteq> []) (drain_step env) (s, M) =
     Some (settled (map (\<lambda>m. (m, verdict M (conn_id s) m)) ms) (s\<lparr>ws_queue := []\<rparr>), M') \<and>
     messageHandler M' = messageHandler M"
proof (induction ms arbitrary: s M)
  case Nil
  then show ?case by (subst while_option_unfold) (simp add: settled_def)
next
  case (Cons m ms)
  obtain s1 M1 where step: "drain_step env (s, M) = (s1, M1)" by (cases "drain_step env (s, M)")
  with drain_step_settles[OF Cons(3,2), of env M] have
    s1: "s1 = settled [(m, verdict M (conn_id s) m)] (s\<lparr>ws_queue := ms\<rparr>)" and M1: "messageHandler M1 = messageHandler M"
    by simp_all
  from Cons(1)[of s1 M1] Cons(2) obtain M' where
    "while_option (\<lambda>(s, M). ws_queue s \<noteq> []) (drain_step env) (s1, M1) =
       Some (settled (map (\<lambda>m. (m, verdict M1 (conn_id s) m)) ms) (s1\<lparr>ws_queue := []\<rparr>), M')"
    "messageHandler M' = messageHandler M1"
    by (auto simp: s1)
  moreover have "settled (map (\<lambda>m. (m, verdict M1 (conn_id s) m)) ms) (s1\<lparr>ws_queue := []\<rparr>) =
      settled (map (\<lambda>m. (m, verdict M (conn_id s) m)) (m # ms)) (s\<lparr>ws_queue := []\<rparr>)"
    by (simp add: s1 verdict_cong[OF M1] settled_queue settled_settled)
  ultimately show ?case
    by (subst while_option_unfold) (simp add: step Cons(3) M1)
qed

lemma received_pending:
  "\<forall>m \<in> set ms. Id_field m \<noteq> None \<Longrightarrow>
   fold (\<lambda>m. Received env (Some m)) ms (connection_init, M) =
     (settled (map (\<lambda>m. (m, Evicted)) (take (length ms - 10) ms))
        (connection_init\<lparr>ws_queue := drop (length ms - 10) ms\<rparr>), M)"
proof (induction ms rule: rev_induct)
  case Nil
  then show ?case by (simp add: settled_def connection_init_def)
next
  case (snoc m ms)
  let ?s = "settled (map (\<lambda>m. (m, Evicted)) (take (length ms - 10) ms))
        (connection_init\<lparr>ws_queue := drop (length ms - 10) ms\<rparr>)"
  have ids: "\<forall>m \<in> set (ws_queue ?s). Id_field m \<noteq> None"
    using snoc(2) by (auto dest: in_set_dropD)
  have id0: "conn_id ?s = 0" by (simp add: connection_init_def)
  have "fold (\<lambda>m. Received env (Some m)) (ms @ [m]) (connection_init, M) = (AddToPending m ?s, M)"
    using snoc id0 by (simp add: Received_def process_pending)
  also have "AddToPending m ?s = settled (map (\<lambda>m. (m, Evicted)) (take (length (ms @ [m]) - 10) (ms @ [m])))
        (connection_init\<lparr>ws_queue := drop (length (ms @ [m]) - 10) (ms @ [m])\<rparr>)"
  proof (cases "length ms < 10")
    case True
    then show ?thesis using AddToPending_eq[OF ids, of m] by (simp add: settled_def)
  next
    case False
    let ?n = "length ms - 10"
    have "length (ws_queue ?s) = 10" using False by simp
    moreover have "take (Suc ?n) ms = take ?n ms @ [hd (drop ?n ms)]" using False by (simp add: take_hd_drop)
    moreover have "length (ms @ [m]) - 10 = Suc ?n" using False by simp
    moreover have "tl (drop ?n ms) = drop (Suc ?n) ms" by (simp add: drop_Suc tl_drop)
    ultimately show ?thesis using AddToPending_eq[OF ids, of m] False by (simp add: settled_def)
  qed
  finally show ?case .
qed

text \<open>C20: Requests that arrive before the connection has its id: the last ten are kept, every earlier one is
  answered with an error.  When the id (not zero) is assigned the loop ends, the kept requests are processed in the
  order of their arrival, with that id, and nothing is left pending.\<close>
theorem pending_last_ten:
  assumes "\<forall>m \<in> set ms. Id_field m \<noteq> None" and "i \<noteq> 0"
  shows "\<exists>s M'. Id_assign env i (fold (\<lambda>m. Received env (Some m)) ms (connection_init, M)) = Some (s, M') \<and>
    conn_id s = i \<and> ws_queue s = [] \<and>
    outcomes s = map (\<lambda>m. (m, Evicted)) (take (length ms - 10) ms) @
      map (\<lambda>m. (m, verdict M i m)) (drop (length ms - 10) ms) \<and>
    sent s = ws_answers (outcomes s)"
proof -
  let ?q = "drop (length ms - 10) ms"
  let ?s = "settled (map (\<lambda>m. (m, Evicted)) (take (length ms - 10) ms)) (connection_init\<lparr>ws_queue := ?q\<rparr>)"
  have "conn_id (?s\<lparr>conn_id := i\<rparr>) \<noteq> 0" "ws_queue (?s\<lparr>conn_id := i\<rparr>) = ?q" using assms(2) by simp_all
  from drain_loop[OF this, of env M] obtain M' where
    "Id_assign env i (fold (\<lambda>m. Received env (Some m)) ms (connection_init, M)) =
      Some (settled (map (\<lambda>m. (m, verdict M i m)) ?q) (?s\<lparr>conn_id := i, ws_queue := []\<rparr>), M')"
    by (auto simp: received_pending[OF assms(1)] Id_assign_def)
  then show ?thesis by (auto simp: connection_init_def settled_def)
qed

definition ws_test_env :: ws_env where
  "ws_test_env = \<lparr>automation = True, automation_text = (\<lambda>a. Type_field a), update_text = (\<lambda>_. []),
     info_of = (\<lambda>_. None)\<rparr>"

lemma pending_last_ten_witness:
  "\<exists>s M'. Id_assign ws_test_env 7 (fold (\<lambda>m. Received ws_test_env (Some m))
      (map (\<lambda>n. Message_Create\<lparr>Id_field := Some (of_nat n), Designator := Some ''m''\<rparr>) [0..<12])
      (connection_init, \<lparr>messageHandler = None, authHandler = None, disconnectHandler = False, mChannel = True, submitted = [], automationId = 0\<rparr>)) =
    Some (s, M') \<and> ws_queue s = [] \<and> length (outcomes s) = 12"
  using pending_last_ten[of "map (\<lambda>n. Message_Create\<lparr>Id_field := Some (of_nat n), Designator := Some ''m''\<rparr>) [0..<12]" 7
      ws_test_env "\<lparr>messageHandler = None, authHandler = None, disconnectHandler = False, mChannel = True, submitted = [], automationId = 0\<rparr>"]
  by fastforce

text \<open>With the id 0 the loop of \<^verbatim>\<open>Id\<close> puts each message back into the queue it takes it from.\<close>

lemma drain_step_rotates:
  assumes "ws_queue s = m # ms" and "conn_id s = 0" and "length (m # ms) < 10" and "\<forall>m \<in> set (ws_queue s). Id_field m \<noteq> None"
  shows "drain_step env (s, M) = (s\<lparr>ws_queue := ms @ [m]\<rparr>, M)"
  using assms AddToPending_eq[OF assms(4), of m] by (simp add: drain_step_def process_pending)

text \<open>Were the id 0 with requests pending (fewer than ten), \<^verbatim>\<open>Id\<close> would never return.\<close>
theorem Id_zero_loops:
  assumes q: "ws_queue s \<noteq> []" "length (ws_queue s) < 10" "\<forall>m \<in> set (ws_queue s). Id_field m \<noteq> None"
  shows "Id_assign env 0 (s, M) = None"
proof -
  let ?P = "\<lambda>x. conn_id (fst x) = 0 \<and> ws_queue (fst x) \<noteq> [] \<and> length (ws_queue (fst x)) < 10 \<and>
    (\<forall>m \<in> set (ws_queue (fst x)). Id_field m \<noteq> None)"
  have step: "?P (drain_step env x)" if P: "?P x" for x
  proof -
    obtain s M m ms where x: "x = (s, M)" "ws_queue s = m # ms" using P by (cases x; cases "ws_queue (fst x)") auto
    from P x drain_step_rotates[of s m ms env M] show ?thesis by auto
  qed
  have "?P ((drain_step env ^^ k) (s\<lparr>conn_id := 0\<rparr>, M))" for k
    using q by (induction k) (simp_all add: step)
  then have all: "(\<lambda>(s, M). ws_queue s \<noteq> []) ((drain_step env ^^ k) (s\<lparr>conn_id := 0\<rparr>, M))" for k
    by (simp add: case_prod_unfold)
  show ?thesis
  proof (cases "Id_assign env 0 (s, M)")
    case (Some x)
    then have "\<not> (\<lambda>(s, M). ws_queue s \<noteq> []) x"
      using while_option_stop unfolding Id_assign_def by fastforce
    moreover obtain k where "x = (drain_step env ^^ k) (s\<lparr>conn_id := 0\<rparr>, M)"
      using Some while_option_stop2 unfolding Id_assign_def by fastforce
    ultimately show ?thesis using all[of k] by simp
  qed simp
qed

lemma Id_zero_loops_witness:
  "Id_assign ws_test_env 0 (connection_init\<lparr>ws_queue := [Message_Create\<lparr>Id_field := Some 1\<rparr>]\<rparr>,
     \<lparr>messageHandler = None, authHandler = None, disconnectHandler = False, mChannel = True, submitted = [], automationId = 0\<rparr>) = None"
  by (rule Id_zero_loops) (simp_all add: Message_Create_def)

section \<open>Threads\<close>

text \<open>
  Messages may arrive on one thread while the id is assigned on another.  \<^verbatim>\<open>ProcessMessage\<close> reads \<^verbatim>\<open>_id\<close> before it
  takes the lock in \<^verbatim>\<open>AddToPending\<close>; \<open>deciding\<close> holds the messages between the two.  \<open>Drain\<close> is one round of the
  loop in \<^verbatim>\<open>Id\<close>; ids are not 0.
\<close>

record ws_shared =
  conn :: connection
  mgr :: ws_manager
  deciding :: "jrpc list"

datatype ws_event = Arrive jrpc | Enqueue nat | Assign "32 word" | Drain

definition with_conn :: "connection \<times> ws_manager \<Rightarrow> ws_shared \<Rightarrow> ws_shared" where
  "with_conn x w = w\<lparr>conn := fst x, mgr := snd x\<rparr>"

primrec ws_step :: "ws_env \<Rightarrow> ws_event \<Rightarrow> ws_shared \<Rightarrow> ws_shared" where
  "ws_step env (Arrive m) w =
     (if Id_field m \<noteq> None \<and> conn_id (conn w) = 0 then w\<lparr>deciding := deciding w @ [m]\<rparr>
      else with_conn (Received env (Some m) (conn w, mgr w)) w)"
| "ws_step env (Enqueue n) w =
     (if n < length (deciding w) then
        w\<lparr>conn := AddToPending (deciding w ! n) (conn w), deciding := take n (deciding w) @ drop (Suc n) (deciding w)\<rparr>
      else w)"
| "ws_step env (Assign i) w = (if i = 0 then w else w\<lparr>conn := (conn w)\<lparr>conn_id := i\<rparr>\<rparr>)"
| "ws_step env Drain w = (if conn_id (conn w) = 0 then w else with_conn (drain_step env (conn w, mgr w)) w)"

definition ws_ok :: "ws_shared \<Rightarrow> bool" where
  "ws_ok w \<longleftrightarrow> sent (conn w) = ws_answers (outcomes (conn w)) \<and> length (ws_queue (conn w)) \<le> 10 \<and>
     (\<forall>m \<in> set (ws_queue (conn w)) \<union> set (deciding w). Id_field m \<noteq> None)"

definition ws_messages :: "ws_shared \<Rightarrow> jrpc multiset" where
  "ws_messages w = mset (map fst (outcomes (conn w))) + mset (ws_queue (conn w)) + mset (deciding w)"

fun arrived :: "ws_event \<Rightarrow> ws_shared \<Rightarrow> jrpc multiset" where
  "arrived (Arrive m) w = {#m#}"
| "arrived _ w = {#}"

lemma AddToPending_keeps:
  assumes "\<forall>m \<in> set (ws_queue s). Id_field m \<noteq> None" and "Id_field m \<noteq> None" and "length (ws_queue s) \<le> 10"
    and "sent s = ws_answers (outcomes s)"
  shows "sent (AddToPending m s) = ws_answers (outcomes (AddToPending m s)) \<and>
    length (ws_queue (AddToPending m s)) \<le> 10 \<and> (\<forall>m \<in> set (ws_queue (AddToPending m s)). Id_field m \<noteq> None) \<and>
    mset (map fst (outcomes (AddToPending m s))) + mset (ws_queue (AddToPending m s)) =
      mset (map fst (outcomes s)) + mset (ws_queue s) + {#m#}"
  using assms AddToPending_eq[OF assms(1), of m] by (cases "ws_queue s") auto

lemma ws_step_keeps:
  assumes "ws_ok w"
  shows "ws_ok (ws_step env e w) \<and> ws_messages (ws_step env e w) = ws_messages w + arrived e w"
proof (cases e)
  case (Arrive m)
  show ?thesis
  proof (cases "Id_field m \<noteq> None \<and> conn_id (conn w) = 0")
    case True
    then show ?thesis using assms Arrive by (auto simp: ws_ok_def ws_messages_def)
  next
    case False
    then have "fst (ProcessMessage env m (conn_id (conn w)) (conn w, mgr w)) =
        settled [(m, verdict (mgr w) (conn_id (conn w)) m)] (conn w)" by (intro process_settles) auto
    then show ?thesis using assms Arrive False
      by (auto simp: ws_ok_def ws_messages_def with_conn_def Received_def)
  qed
next
  case (Enqueue n)
  show ?thesis
  proof (cases "n < length (deciding w)")
    case True
    let ?m = "deciding w ! n"
    have "Id_field ?m \<noteq> None" using True assms by (simp add: ws_ok_def)
    then have keeps: "sent (AddToPending ?m (conn w)) = ws_answers (outcomes (AddToPending ?m (conn w))) \<and>
      length (ws_queue (AddToPending ?m (conn w))) \<le> 10 \<and>
      (\<forall>m \<in> set (ws_queue (AddToPending ?m (conn w))). Id_field m \<noteq> None) \<and>
      mset (map fst (outcomes (AddToPending ?m (conn w)))) + mset (ws_queue (AddToPending ?m (conn w))) =
        mset (map fst (outcomes (conn w))) + mset (ws_queue (conn w)) + {#?m#}"
      using assms by (intro AddToPending_keeps) (auto simp: ws_ok_def)
    have "mset (deciding w) = {#?m#} + mset (take n (deciding w) @ drop (Suc n) (deciding w))"
      using arg_cong[OF id_take_nth_drop[OF True], of mset] by simp
    moreover have "set (take n (deciding w) @ drop (Suc n) (deciding w)) \<subseteq> set (deciding w)"
      by (auto dest: in_set_takeD in_set_dropD)
    ultimately show ?thesis using keeps assms True Enqueue by (auto simp: ws_ok_def ws_messages_def)
  qed (use assms Enqueue in simp)
next
  case (Assign i)
  then show ?thesis using assms by (simp add: ws_ok_def ws_messages_def)
next
  case Drain
  show ?thesis
  proof (cases "conn_id (conn w) = 0 \<or> ws_queue (conn w) = []")
    case True
    then show ?thesis using assms Drain by (auto simp: drain_step_def with_conn_def split: list.split)
  next
    case False
    then obtain m ms where q: "ws_queue (conn w) = m # ms" by (cases "ws_queue (conn w)") auto
    with False drain_step_settles[OF q, of env "mgr w"] assms Drain show ?thesis
      by (auto simp: ws_ok_def ws_messages_def with_conn_def)
  qed
qed

interpretation wl: ledger "ws_step env" ws_ok ws_messages arrived for env
  by standard (simp_all add: ws_step_keeps)

definition ws_start :: " ws_manager \<Rightarrow> ws_shared" where
  "ws_start M = \<lparr>conn = connection_init, mgr = M, deciding = []\<rparr>"

lemma ws_start_ok: "ws_ok (ws_start M)"
  by (simp add: ws_ok_def ws_start_def connection_init_def)

text \<open>C23: However messages, the assignment of the id and the rounds of its loop interleave: every message that
  arrived is settled, pending or about to be put into the queue, and only one of these (no message is
  lost, none is processed twice); what was sent is the answers to the settled messages in their order; at most
  ten are pending.\<close>
theorem ws_ledger:
  fixes M :: ws_manager and es :: "ws_event list" and env :: ws_env
  defines "w \<equiv> fold (ws_step env) es (ws_start M)"
  shows "ws_messages w = credits (ws_step env) arrived es (ws_start M) \<and>
    sent (conn w) = ws_answers (outcomes (conn w)) \<and> length (ws_queue (conn w)) \<le> 10"
  using wl.run_balance[OF ws_start_ok, of env es M] wl.run_inv[OF ws_start_ok, of env es M]
  unfolding w_def by (simp add: ws_ok_def ws_messages_def ws_start_def connection_init_def)

lemma stuck_arrivals:
  "conn_id (conn w) \<noteq> 0 \<Longrightarrow>
   ws_queue (conn (fold (\<lambda>m. ws_step env (Arrive m)) ms w)) = ws_queue (conn w) \<and>
   conn_id (conn (fold (\<lambda>m. ws_step env (Arrive m)) ms w)) = conn_id (conn w)"
proof (induction ms arbitrary: w)
  case (Cons m ms)
  have "fst (ProcessMessage env m (conn_id (conn w)) (conn w, mgr w)) =
      settled [(m, verdict (mgr w) (conn_id (conn w)) m)] (conn w)"
    using Cons(2) by (intro process_settles) simp
  then have "ws_queue (conn (ws_step env (Arrive m) w)) = ws_queue (conn w) \<and>
      conn_id (conn (ws_step env (Arrive m) w)) = conn_id (conn w)"
    using Cons(2) by (simp add: with_conn_def Received_def)
  with Cons show ?case by simp
qed simp

text \<open>The window between the test of the id and the queue: a request that passes the test just before the id
  is assigned and enters the queue after the loop of \<^verbatim>\<open>Id\<close> stays there, whatever arrives afterwards; it is
  neither handled nor answered.\<close>
theorem pending_missed:
  assumes "Id_field m \<noteq> None" and "i \<noteq> 0"
  shows "ws_queue (conn (fold (\<lambda>m. ws_step env (Arrive m)) ms
    (fold (ws_step env) [Arrive m, Assign i, Drain, Enqueue 0] (ws_start M)))) = [m]"
proof -
  let ?w = "fold (ws_step env) [Arrive m, Assign i, Drain, Enqueue 0] (ws_start M)"
  have "ws_queue (conn ?w) = [m]" "conn_id (conn ?w) = i"
    using assms by (auto simp: ws_start_def connection_init_def with_conn_def drain_step_def AddToPending_def)
  with stuck_arrivals[of ?w env ms] assms(2) show ?thesis by simp
qed

lemma pending_missed_witness:
  "ws_queue (conn (fold (\<lambda>m. ws_step ws_test_env (Arrive m)) []
    (fold (ws_step ws_test_env) [Arrive (Message_Create\<lparr>Id_field := Some 1\<rparr>), Assign 5, Drain, Enqueue 0]
      (ws_start \<lparr>messageHandler = None, authHandler = None, disconnectHandler = False, mChannel = True, submitted = [], automationId = 0\<rparr>)))) =
   [Message_Create\<lparr>Id_field := Some 1\<rparr>]"
  by (rule pending_missed) (simp_all add: Message_Create_def)

section \<open>The automation server\<close>

lemma send_and_forward_copies:
  assumes "mChannel M"
  shows "\<exists>copy. send_and_forward env c m a M = Some (True, M\<lparr>submitted := submitted M @ (c, m) # copy\<rparr>) \<and>
    length copy = (if automation env \<and> 0 < automationId M \<and> c \<noteq> automationId M then 1 else 0) \<and>
    fst ` set copy \<subseteq> {automationId M}"
proof (cases "automation env \<and> 0 < automationId M \<and> c \<noteq> automationId M")
  case True
  with assms show ?thesis
    by (intro exI[of _ "[(automationId M, automation_note ''automationUpdate'' (automation_text env a))]"])
       (simp add: send_and_forward_def ForwardToAutomation_def channel_Submit_def)
next
  case False
  with assms show ?thesis
    by (intro exI[of _ "[]"]) (auto simp: send_and_forward_def channel_Submit_def)
qed

text \<open>Responses, notifications and requests to a connection go to it first; the automation server, when there is
  one, gets one copy of those that were not for itself and none of its own.  A request that the automation server
  sends is forwarded back to it: the copy in \<^verbatim>\<open>ProcessMessage\<close> has no such test.\<close>
theorem automation_copies:
  fixes M :: ws_manager
  assumes "mChannel M"
  shows "(\<forall>(send, m) \<in> {(SendMessageToConnection env c result r, response_message env result r),
        (DispatchNotificationToConnection env c designator payload, automation_note designator payload),
        (SendRequestToConnection env c designator r payload,
          Message_Create\<lparr>Id_field := Some r, Designator := Some designator, Parameters := Some payload\<rparr>)}.
      \<exists>copy. send M = Some (True, M\<lparr>submitted := submitted M @ (c, m) # copy\<rparr>) \<and>
        length copy = (if automation env \<and> 0 < automationId M \<and> c \<noteq> automationId M then 1 else 0) \<and>
        fst ` set copy \<subseteq> {automationId M}) \<and>
    (\<forall>s m requestId name. conn_id s = automationId M \<and> 0 < automationId M \<and> automation env \<and>
      Id_field m = Some requestId \<and> Designator m = Some name \<longrightarrow>
      fst (last (submitted (snd (ProcessMessage env m (conn_id s) (s, M))))) = conn_id s)"
proof -
  have "fst (last (submitted (snd (ProcessMessage env m (conn_id s) (s, M))))) = conn_id s"
    if "conn_id s = automationId M" "0 < automationId M" "automation env" "Id_field m = Some r" "Designator m = Some name"
    for s :: connection and m r name
    using that by (auto simp: ProcessMessage_def forward_request_def channel_Submit_def Let_def)
  with send_and_forward_copies[OF assms] show ?thesis
    by (simp add: SendMessageToConnection_def DispatchNotificationToConnection_def SendRequestToConnection_def)
qed

lemma automation_copies_witness:
  "\<exists>copy. DispatchNotificationToConnection ws_test_env 3 ''d'' ''p''
      \<lparr>messageHandler = None, authHandler = None, disconnectHandler = False, mChannel = True, submitted = [], automationId = 9\<rparr> =
    Some (True, \<lparr>messageHandler = None, authHandler = None, disconnectHandler = False, mChannel = True,
      submitted = (3, automation_note ''d'' ''p'') # copy, automationId = 9\<rparr>) \<and> length copy = 1"
  using automation_copies[of "\<lparr>messageHandler = None, authHandler = None, disconnectHandler = False, mChannel = True, submitted = [], automationId = 9\<rparr>"
      ws_test_env 3 "[]" 0 "''d''" "''p''"]
  by (auto simp: ws_test_env_def)

end
