(* ===== verification/Ws_Link.thy ===== *)
theory Ws_Link
  imports Prelude "HOL-Library.Word" "HOL-Library.While_Combinator"
begin

unbundle bit_operations_syntax

text \<open>
  \<^verbatim>\<open>helpers/WebSocketLink.h\<close> (\<^verbatim>\<open>HWebSocketLinkType::HandlerType\<close>): the state of a link that starts as a web server and is
  upgraded to a web socket, its queue of outgoing messages, and the frames in what it receives.  The socket below
  (\<^verbatim>\<open>ACTUALLINK\<close>) and Thunder's frame codec are not in the repository: the socket's state is part of
  the record, and the decoder of a frame is a parameter.
\<close>

section \<open>The state of the link\<close>

definition WEBSERVER :: "8 word" where "WEBSERVER = 0x01"
definition UPGRADING :: "8 word" where "UPGRADING = 0x02"
definition WEBSOCKET :: "8 word" where "WEBSOCKET = 0x04"
definition SUSPENDED :: "8 word" where "SUSPENDED = 0x08"
definition ACTIVITY :: "8 word" where "ACTIVITY = 0x10"

lemmas link_bits = WEBSERVER_def UPGRADING_def WEBSOCKET_def SUSPENDED_def ACTIVITY_def

text \<open>The one message of the upgrade is a shared object: the queue holds a reference to it.\<close>

datatype out_element = Upgrade_Message | Out_Element nat

datatype link_note = Trigger | Parent_StateChange "8 word" | Parent_Received | Parent_Send nat | Parent_Flushed out_element | Socket_Close

record ws_link =
  link_state :: "8 word"
  socket_open :: bool
  socket_suspended :: bool
  socket_closed :: bool
  link_queue :: "out_element list"
  link_started :: "out_element list"
  link_sent :: "out_element list"
  deserializing :: bool
  parent_idle :: bool
  link_path :: string
  link_query :: string
  link_protocol :: "string list"
  message_code :: nat
  message_text :: string
  link_notes :: "link_note list"

definition add_note :: "link_note \<Rightarrow> ws_link \<Rightarrow> ws_link" where
  "add_note n l = l\<lparr>link_notes := link_notes l @ [n]\<rparr>"

definition state_has :: "8 word \<Rightarrow> ws_link \<Rightarrow> bool" where
  "state_has b l = (link_state l AND b \<noteq> 0)"

definition link_IsOpen :: "ws_link \<Rightarrow> bool" where
  "link_IsOpen l = (socket_open l \<and> \<not> state_has SUSPENDED l)"

definition link_IsSuspended :: "ws_link \<Rightarrow> bool" where
  "link_IsSuspended l = (socket_suspended l \<or> state_has SUSPENDED l)"

definition IsWebServer :: "ws_link \<Rightarrow> bool" where "IsWebServer l = state_has WEBSERVER l"
definition IsUpgrading :: "ws_link \<Rightarrow> bool" where "IsUpgrading l = state_has UPGRADING l"
definition IsWebSocket :: "ws_link \<Rightarrow> bool" where "IsWebSocket l = state_has WEBSOCKET l"

definition ResetActivity :: "ws_link \<Rightarrow> ws_link" where
  "ResetActivity l = l\<lparr>link_state := link_state l AND NOT ACTIVITY\<rparr>"

definition HasActivity :: "ws_link \<Rightarrow> bool" where
  "HasActivity l = state_has ACTIVITY l"

text \<open>\<^verbatim>\<open>_state = (_state & 0xF0) | phase\<close>.\<close>

definition enter_phase :: "8 word \<Rightarrow> ws_link \<Rightarrow> ws_link" where
  "enter_phase b l = l\<lparr>link_state := (link_state l AND 0xF0) OR b\<rparr>"

section \<open>The serializer\<close>

definition serializer_Submit :: "out_element \<Rightarrow> ws_link \<Rightarrow> bool \<times> ws_link" where
  "serializer_Submit element l =
     (let l = l\<lparr>link_queue := link_queue l @ [element]\<rparr> in
      if length (link_queue l) = 1 then (True, l\<lparr>link_started := link_started l @ [element]\<rparr>) else (False, l))"

definition link_Submit :: "out_element \<Rightarrow> ws_link \<Rightarrow> ws_link" where
  "link_Submit element l =
     (if \<not> link_IsSuspended l \<and> link_IsOpen l then
        (case serializer_Submit element l of (triggered, l) \<Rightarrow> if triggered then add_note Trigger l else l)
      else l)"

definition link_Ping :: "ws_link \<Rightarrow> ws_link" where
  "link_Ping l = add_note Trigger l"

definition STATUS_SWITCH_PROTOCOL :: nat where "STATUS_SWITCH_PROTOCOL = 101"
definition STATUS_INTERNAL_SERVER_ERROR :: nat where "STATUS_INTERNAL_SERVER_ERROR = 500"

text \<open>\<^verbatim>\<open>UpgradeCompleted\<close>: of the server (\<open>True\<close>), and of the client, which waits for the response.\<close>

definition UpgradeCompleted :: "bool \<Rightarrow> ws_link \<Rightarrow> ws_link" where
  "UpgradeCompleted server l =
     (if server \<and> message_code l = STATUS_SWITCH_PROTOCOL
      then let l = enter_phase WEBSOCKET l in add_note (Parent_StateChange (link_state l)) l else l)"

definition serialized_element :: "bool \<Rightarrow> out_element \<Rightarrow> ws_link \<Rightarrow> ws_link" where
  "serialized_element server e l =
     (case e of Upgrade_Message \<Rightarrow> UpgradeCompleted server l | Out_Element n \<Rightarrow> add_note (Parent_Send n) l)"

text \<open>\<^verbatim>\<open>SerializerImpl::Serialized\<close>: the first element has been written.\<close>

definition Serialized :: "bool \<Rightarrow> ws_link \<Rightarrow> ws_link" where
  "Serialized server l =
     (case link_queue l of
        [] \<Rightarrow> l
      | realItem # rest \<Rightarrow>
          let l = l\<lparr>link_queue := rest, link_sent := link_sent l @ [realItem]\<rparr>;
              l = serialized_element server realItem l in
          (if \<not> link_IsSuspended l \<and> link_queue l \<noteq> []
           then add_note Trigger (l\<lparr>link_started := link_started l @ [hd (link_queue l)]\<rparr>) else l))"

definition serializer_Flush :: "ws_link \<Rightarrow> ws_link" where
  "serializer_Flush l =
     l\<lparr>link_notes := link_notes l @ map Parent_Flushed (link_queue l), link_sent := link_sent l @ link_queue l, link_queue := []\<rparr>"

text \<open>\<^verbatim>\<open>StateChange\<close> of the socket.\<close>

definition link_StateChange :: "ws_link \<Rightarrow> ws_link" where
  "link_StateChange l =
     (let l = (if socket_closed l then serializer_Flush l else l) in add_note (Parent_StateChange (link_state l)) l)"

section \<open>Closing\<close>

definition all_idle :: "ws_link \<Rightarrow> bool" where
  "all_idle l = (link_queue l = [] \<and> \<not> deserializing l \<and> parent_idle l)"

definition close_now :: "ws_link \<Rightarrow> bool" where
  "close_now l = (link_IsSuspended l \<and> all_idle l)"

text \<open>
  The loop of \<^verbatim>\<open>CheckForClose\<close>: \<open>checks k\<close> is what the test says at the k-th time.  State: the time that is left, the
  number of sleeps, and whether the socket was closed.
\<close>

definition infinite_time :: "32 word" where "infinite_time = 0xFFFFFFFF"

definition close_round :: "(nat \<Rightarrow> bool) \<Rightarrow> 32 word \<times> nat \<times> bool \<Rightarrow> 32 word \<times> nat \<times> bool" where
  "close_round checks = (\<lambda>(waitTime, k, closed).
     (let sleepTime = (if waitTime > 100 then 100 else waitTime);
          waitTime = (if waitTime \<noteq> infinite_time then waitTime - sleepTime else waitTime) in
      if checks k then (0, Suc k, True) else (waitTime, Suc k, closed)))"

definition close_loop :: "(nat \<Rightarrow> bool) \<Rightarrow> 32 word \<Rightarrow> (32 word \<times> nat \<times> bool) option" where
  "close_loop checks waitTime = while_option (\<lambda>s. fst s > 0) (close_round checks) (waitTime, 0, False)"

definition CheckForClose :: "(nat \<Rightarrow> bool) \<Rightarrow> 32 word \<Rightarrow> ws_link \<Rightarrow> (bool \<times> ws_link) option" where
  "CheckForClose checks waitTime l =
     (if close_now l then Some (True, add_note Socket_Close l)
      else (case close_loop checks waitTime of
          None \<Rightarrow> None
        | Some (_, _, closed) \<Rightarrow> Some (closed, if closed then add_note Socket_Close l else l)))"

definition link_Close :: "(nat \<Rightarrow> bool) \<Rightarrow> 32 word \<Rightarrow> ws_link \<Rightarrow> (bool \<times> ws_link) option" where
  "link_Close checks waitTime l =
     CheckForClose checks waitTime
       (if \<not> link_IsSuspended l then l\<lparr>link_state := link_state l OR SUSPENDED\<rparr> else l)"

section \<open>The upgrade\<close>

text \<open>What a request holds, if it asks for an upgrade; \<open>abort\<close>: what the parent's \<^verbatim>\<open>StateChange\<close> does with it
  (\<^verbatim>\<open>AbortUpgrade\<close>).\<close>

record upgrade_request =
  req_upgrade :: bool
  req_protocol :: "string list"
  req_path :: string
  req_query :: "string option"

definition AbortUpgrade :: "nat \<times> string \<Rightarrow> ws_link \<Rightarrow> ws_link" where
  "AbortUpgrade = (\<lambda>(status, reason) l. l\<lparr>message_code := status, message_text := reason\<rparr>)"

definition server_ReceivedWebSocket :: "(nat \<times> string) option \<Rightarrow> upgrade_request \<Rightarrow> ws_link \<Rightarrow> ws_link" where
  "server_ReceivedWebSocket abort element l =
     (if req_upgrade element then
        let l = (if \<not> state_has WEBSERVER l
            then l\<lparr>message_code := STATUS_INTERNAL_SERVER_ERROR, message_text := ''State of the link can not be upgraded.''\<rparr>
            else
              let l = (enter_phase UPGRADING l)\<lparr>link_protocol := req_protocol element, link_path := req_path element,
                    link_query := (case req_query element of None \<Rightarrow> [] | Some q \<Rightarrow> q),
                    message_text := [], message_code := STATUS_SWITCH_PROTOCOL\<rparr>;
                  l = add_note (Parent_StateChange (link_state l)) l;
                  l = (case abort of None \<Rightarrow> l | Some a \<Rightarrow> AbortUpgrade a l) in
              if message_code l \<noteq> STATUS_SWITCH_PROTOCOL
              then (enter_phase WEBSERVER l)\<lparr>link_path := [], link_query := [], link_protocol := []\<rparr> else l) in
        add_note Trigger (snd (serializer_Submit Upgrade_Message l))
      else add_note Parent_Received l)"

definition client_Upgrade :: "string \<Rightarrow> string \<Rightarrow> string \<Rightarrow> ws_link \<Rightarrow> bool \<times> ws_link" where
  "client_Upgrade protocol path query l =
     (if state_has WEBSERVER l then
        let l = (enter_phase UPGRADING l)\<lparr>link_query := query, link_path := path, link_protocol := [protocol]\<rparr> in
        (True, add_note Trigger (snd (serializer_Submit Upgrade_Message l)))
      else (False, l))"

text \<open>The client's response: accepted with the right key, forbidden, or anything else.\<close>

datatype upgrade_response = Accepted_Key | Forbidden | Other_Response

definition client_ReceivedWebSocket :: "upgrade_response \<Rightarrow> ws_link \<Rightarrow> (bool \<times> ws_link) option" where
  "client_ReceivedWebSocket element l =
     (case element of
        Accepted_Key \<Rightarrow>
          (let l = enter_phase WEBSOCKET l in Some (False, add_note Trigger (add_note (Parent_StateChange (link_state l)) l)))
      | Forbidden \<Rightarrow> link_Close (\<lambda>_. False) 0 l
      | Other_Response \<Rightarrow> Some (False, add_note Parent_Received l))"

section \<open>Frames\<close>

record decoded =
  headerSize :: nat
  frame_data :: "8 word list"
  FrameType :: "8 word"
  IsCompleteMessage :: bool

text \<open>The types of control frames of RFC 6455.\<close>

definition FRAME_CLOSE :: "8 word" where "FRAME_CLOSE = 0x08"
definition FRAME_PING :: "8 word" where "FRAME_PING = 0x09"
definition FRAME_PONG :: "8 word" where "FRAME_PONG = 0x0A"

datatype frame_act = Send_Pong | Send_Close | Pong_Received | Unknown_Command "8 word" | Deliver "8 word list"

definition frame_at :: "8 word list \<Rightarrow> nat \<Rightarrow> nat" where
  "frame_at dataFrame i = (if i < length dataFrame then unat (dataFrame ! i) else 0)"

text \<open>The length of a control frame's payload, read again from the frame's header, which lies inside the data.\<close>

definition payloadSizeInControlFrame :: "8 word list \<Rightarrow> nat \<Rightarrow> nat \<Rightarrow> nat" where
  "payloadSizeInControlFrame dataFrame result header =
     (if 1 < header then
        let size = frame_at dataFrame (result + 1) mod 128 in
        if size = 126 then
          (if 3 < header then frame_at dataFrame (result + 2) * 256 + frame_at dataFrame (result + 3) else 0)
        else if size = 127 then
          (if 9 < header
           then fold (\<lambda>i p. p * 256 + frame_at dataFrame (result + i)) (rev [2..<9]) (frame_at dataFrame (result + 9))
           else 0)
        else size
      else 0)"

definition control_act :: "8 word \<Rightarrow> frame_act" where
  "control_act t =
     (if t = FRAME_PING then Send_Pong else if t = FRAME_CLOSE then Send_Close
      else if t = FRAME_PONG then Pong_Received else Unknown_Command t)"

text \<open>One round of the loop of \<^verbatim>\<open>ReceiveData\<close>; \<open>result\<close> is a \<^verbatim>\<open>uint16_t\<close>.\<close>

type_synonym frame_state = "nat \<times> bool \<times> frame_act list"

definition receive_round :: "(8 word list \<Rightarrow> decoded) \<Rightarrow> 8 word list \<Rightarrow> frame_state \<Rightarrow> frame_state" where
  "receive_round decode dataFrame = (\<lambda>(result, tooSmall, acts).
     (let d = decode (drop result dataFrame);
          tooSmall = (headerSize d = 0 \<and> frame_data d = []) in
      if tooSmall then (result, True, acts)
      else if FrameType d AND 0xF0 \<noteq> 0 then (length dataFrame, False, acts)
      else if FrameType d AND 0x08 \<noteq> 0 then
        ((result + (headerSize d + payloadSizeInControlFrame dataFrame result (headerSize d)) mod 2 ^ 16) mod 2 ^ 16, False,
         if IsCompleteMessage d then acts @ [control_act (FrameType d)] else acts)
      else ((result + (headerSize d + length (frame_data d))) mod 2 ^ 16, False, acts @ [Deliver (frame_data d)])))"

definition receive_frames :: "(8 word list \<Rightarrow> decoded) \<Rightarrow> 8 word list \<Rightarrow> frame_state option" where
  "receive_frames decode dataFrame =
     while_option (\<lambda>(result, tooSmall, _). result < length dataFrame \<and> \<not> tooSmall) (receive_round decode dataFrame) (0, False, [])"

text \<open>\<^verbatim>\<open>ReceiveData\<close> and \<^verbatim>\<open>SendData\<close>: the size, what was done, and the link.  Before the upgrade the data goes to the
  parser of requests, which takes \<open>parsed\<close> bytes; \<open>payload n\<close> are the (at most n) bytes the parent sends.\<close>

definition link_ReceiveData ::
  "(8 word list \<Rightarrow> decoded) \<Rightarrow> nat \<Rightarrow> 8 word list \<Rightarrow> ws_link \<Rightarrow> (nat \<times> frame_act list \<times> ws_link) option" where
  "link_ReceiveData decode parsed dataFrame l =
     (let l = l\<lparr>link_state := link_state l OR ACTIVITY\<rparr> in
      case (if state_has WEBSOCKET l
            then map_option (\<lambda>(result, _, acts). (result, acts)) (receive_frames decode dataFrame) else Some (parsed, [])) of
        None \<Rightarrow> None
      | Some (result, acts) \<Rightarrow> Some (result, acts, if result = 0 \<and> close_now l then add_note Socket_Close l else l))"

definition link_SendData ::
  "(8 word list \<Rightarrow> 8 word list) \<Rightarrow> (nat \<Rightarrow> 8 word list) \<Rightarrow> 8 word list \<Rightarrow> nat \<Rightarrow> ws_link \<Rightarrow> 8 word list \<times> ws_link" where
  "link_SendData encode payload serialized maxSendSize l =
     (let l = l\<lparr>link_state := link_state l OR ACTIVITY\<rparr>;
          result = (if state_has WEBSOCKET l then (if 4 < maxSendSize then encode (payload (maxSendSize - 4)) else []) else serialized) in
      (result, if result = [] \<and> close_now l then add_note Socket_Close l else l))"

section \<open>Well-formed frames are taken one by one\<close>

text \<open>A frame as it arrives: its bytes and what the decoder says of them, whatever follows.\<close>

definition act_of :: "decoded \<Rightarrow> frame_act" where
  "act_of d = (if FrameType d AND 0x08 \<noteq> 0 then control_act (FrameType d) else Deliver (frame_data d))"

definition frame_ok :: "(8 word list \<Rightarrow> decoded) \<Rightarrow> 8 word list \<times> decoded \<Rightarrow> bool" where
  "frame_ok decode = (\<lambda>(bytes, d). (\<forall>rest. decode (bytes @ rest) = d) \<and> 0 < headerSize d \<and>
     length bytes = headerSize d + length (frame_data d) \<and> FrameType d AND 0xF0 = 0 \<and>
     (FrameType d AND 0x08 \<noteq> 0 \<longrightarrow> IsCompleteMessage d \<and> 1 < headerSize d \<and> length (frame_data d) < 126 \<and>
        unat (bytes ! 1) mod 128 = length (frame_data d)))"

lemma control_length:
  assumes "frame_ok decode (bytes, d)" and "FrameType d AND 0x08 \<noteq> 0"
  shows "payloadSizeInControlFrame (done @ bytes @ rest) (length done) (headerSize d) = length (frame_data d)"
proof -
  have "1 < length bytes" and "1 < headerSize d" and "length (frame_data d) < 126"
    and "unat (bytes ! 1) mod 128 = length (frame_data d)"
    using assms by (auto simp: frame_ok_def)
  moreover have "(done @ bytes @ rest) ! Suc (length done) = bytes ! 1"
    using \<open>1 < length bytes\<close> by (simp add: nth_append)
  ultimately show ?thesis by (simp add: payloadSizeInControlFrame_def frame_at_def Let_def)
qed

lemma receive_round_frame:
  assumes ok: "frame_ok decode (bytes, d)" and short: "length (done @ bytes @ rest) < 2 ^ 16"
  shows "receive_round decode (done @ bytes @ rest) (length done, False, acts) =
    (length (done @ bytes), False, acts @ [act_of d])"
proof -
  have d: "decode (bytes @ rest) = d" and h: "0 < headerSize d" and t: "FrameType d AND 0xF0 = 0"
    and len: "length bytes = headerSize d + length (frame_data d)"
    using ok by (auto simp: frame_ok_def)
  show ?thesis
  proof (cases "FrameType d AND 0x08 = 0")
    case True
    then show ?thesis using d h t len short by (simp add: receive_round_def Let_def act_of_def add.assoc)
  next
    case False
    then have "IsCompleteMessage d" using ok by (simp add: frame_ok_def)
    with False show ?thesis using d h t len short control_length[OF ok False, of "done" rest]
      by (simp add: receive_round_def Let_def act_of_def add.assoc)
  qed
qed

lemma receive_frames_from:
  "\<forall>f \<in> set fs. frame_ok decode f \<Longrightarrow> length (done @ concat (map fst fs)) < 2 ^ 16 \<Longrightarrow>
   while_option (\<lambda>(result, tooSmall, _). result < length (done @ concat (map fst fs)) \<and> \<not> tooSmall)
     (receive_round decode (done @ concat (map fst fs))) (length done, False, acts) =
   Some (length (done @ concat (map fst fs)), False, acts @ map (act_of \<circ> snd) fs)"
proof (induction fs arbitrary: "done" acts)
  case Nil
  then show ?case by (subst while_option_unfold) simp
next
  case (Cons f fs)
  obtain bytes d where f: "f = (bytes, d)" by (cases f)
  with Cons(2) have ok: "frame_ok decode (bytes, d)" by simp
  then have "0 < length bytes" by (auto simp: frame_ok_def)
  moreover have "receive_round decode (done @ bytes @ concat (map fst fs)) (length done, False, acts) =
      (length (done @ bytes), False, acts @ [act_of d])"
    using Cons(3) by (intro receive_round_frame[OF ok]) (simp add: f)
  ultimately show ?case using Cons(1)[of "done @ bytes" "acts @ [act_of d]"] Cons(2,3)
    by (subst while_option_unfold) (simp add: f)
qed

text \<open>C25: Of data that holds whole frames (control frames with a short length), fewer than 65536 bytes in all, every frame is taken once, in order:
  the payload of a data frame is delivered, a ping is answered by a pong and a close by a close; all bytes are used.\<close>
theorem receive_frames_spec:
  assumes "\<forall>f \<in> set fs. frame_ok decode f" and "length (concat (map fst fs)) < 2 ^ 16"
  shows "receive_frames decode (concat (map fst fs)) = Some (length (concat (map fst fs)), False, map (act_of \<circ> snd) fs)"
  using receive_frames_from[OF assms(1), of "[]" "[]"] assms(2) by (simp add: receive_frames_def)

text \<open>A decoder of unmasked frames with a short length.\<close>

definition short_decoder :: "8 word list \<Rightarrow> decoded" where
  "short_decoder bs = (case bs of
     a # n # r \<Rightarrow> \<lparr>headerSize = 2, frame_data = take (unat n mod 128) r, FrameType = a AND 0x0F, IsCompleteMessage = True\<rparr>
   | _ \<Rightarrow> \<lparr>headerSize = 0, frame_data = [], FrameType = 0, IsCompleteMessage = False\<rparr>)"

lemma receive_frames_spec_witness:
  "receive_frames short_decoder (concat (map fst
      [([0x81, 2, 7, 8], \<lparr>headerSize = 2, frame_data = [7, 8], FrameType = 1, IsCompleteMessage = True\<rparr>),
       ([0x89, 1, 5], \<lparr>headerSize = 2, frame_data = [5], FrameType = 9, IsCompleteMessage = True\<rparr>)])) =
    Some (7, False, [Deliver [7, 8], Send_Pong])"
  using receive_frames_spec[of
      "[([0x81, 2, 7, 8], \<lparr>headerSize = 2, frame_data = [7, 8], FrameType = 1, IsCompleteMessage = True\<rparr>),
       ([0x89, 1, 5], \<lparr>headerSize = 2, frame_data = [5], FrameType = 9, IsCompleteMessage = True\<rparr>)]" short_decoder]
  by (simp add: frame_ok_def short_decoder_def act_of_def control_act_def FRAME_PING_def)

lemma sum_eight: "(\<Sum>i<8. g i) = g 0 + g 1 + g 2 + g 3 + g 4 + g 5 + g 6 + g (7 :: nat)" for g :: "nat \<Rightarrow> nat"
proof -
  have "{..<8} = {0, 1, 2, 3, 4, 5, 6, 7 :: nat}" by auto
  then show ?thesis by simp
qed

text \<open>The 64-bit length of a control frame is put together from its last byte to its first, the reverse of the order on the wire.\<close>

lemma control_length_reversed:
  assumes "frame_at dataFrame (result + 1) mod 128 = 127" and "9 < header"
  shows "payloadSizeInControlFrame dataFrame result header = (\<Sum>i<8. frame_at dataFrame (result + 2 + i) * 256 ^ i)"
proof -
  have idx: "result + 2 + 0 = result + 2" "result + 2 + 1 = result + 3" "result + 2 + 2 = result + 4" "result + 2 + 3 = result + 5"
    "result + 2 + 4 = result + 6" "result + 2 + 5 = result + 7" "result + 2 + 6 = result + 8" "result + 2 + 7 = result + 9" by simp_all
  show ?thesis
    using assms unfolding sum_eight idx by (simp add: payloadSizeInControlFrame_def Let_def algebra_simps)
qed

text \<open>A control frame with a 64-bit length, which the code puts together in the reverse of the order on the wire: when that length and the
  header add up to a multiple of 65536, the position does not move and the loop never ends (with the link's lock held).\<close>
theorem control_frame_loops:
  assumes "dataFrame \<noteq> []" and "FrameType (decode dataFrame) AND 0xF0 = 0" and "FrameType (decode dataFrame) AND 0x08 \<noteq> 0"
    and "frame_at dataFrame 1 mod 128 = 127" and "9 < headerSize (decode dataFrame)"
    and "2 ^ 16 dvd headerSize (decode dataFrame) + (\<Sum>i<8. frame_at dataFrame (2 + i) * 256 ^ i)"
  shows "receive_frames decode dataFrame = None"
proof -
  have "payloadSizeInControlFrame dataFrame 0 (headerSize (decode dataFrame)) = (\<Sum>i<8. frame_at dataFrame (2 + i) * 256 ^ i)"
    using control_length_reversed[of dataFrame 0 "headerSize (decode dataFrame)"] assms(4,5) by simp
  then have "\<exists>acts'. receive_round decode dataFrame (0, False, acts) = (0, False, acts')" for acts
    using assms by (auto simp: receive_round_def Let_def)
  then have "\<exists>acts. (receive_round decode dataFrame ^^ k) (0, False, []) = (0, False, acts)" for k
    by (induction k) fastforce+
  then have all: "(\<lambda>(result, tooSmall, _). result < length dataFrame \<and> \<not> tooSmall) ((receive_round decode dataFrame ^^ k) (0, False, []))" for k
    using assms(1) by (metis (mono_tags, lifting) case_prod_conv length_greater_0_conv)
  show ?thesis
  proof (cases "receive_frames decode dataFrame")
    case (Some x)
    then have "\<not> (\<lambda>(result, tooSmall, _). result < length dataFrame \<and> \<not> tooSmall) x"
      using while_option_stop unfolding receive_frames_def by fastforce
    moreover obtain k where "x = (receive_round decode dataFrame ^^ k) (0, False, [])"
      using Some while_option_stop2 unfolding receive_frames_def by fastforce
    ultimately show ?thesis using all[of k] by simp
  qed simp
qed

lemma control_frame_loops_witness:
  "receive_frames (\<lambda>_. \<lparr>headerSize = 10, frame_data = [], FrameType = 9, IsCompleteMessage = True\<rparr>)
     [0x89, 127, 0xF6, 0xFF, 0, 0, 0, 0, 0, 0] = None"
  by (rule control_frame_loops) (simp_all add: frame_at_def sum_eight)

section \<open>Closing ends\<close>

text \<open>After k rounds without success a finite time has become shorter by k times a tenth of a second.\<close>

lemma close_round_time:
  assumes "w \<noteq> infinite_time" and "0 < w" and "\<not> checks k"
  shows "\<exists>w'. close_round checks (w, k, c) = (w', Suc k, c) \<and> w' \<noteq> infinite_time \<and> unat w' = unat w - 100"
proof -
  have le: "(if w > 100 then 100 else w) \<le> w" by (simp add: word_le_nat_alt word_less_nat_alt)
  have "unat (w - (if w > 100 then 100 else w)) = unat w - unat (if w > 100 then 100 else w)"
    using unat_sub[OF le] .
  then have n: "unat (w - (if w > 100 then 100 else w)) = unat w - 100"
    by (auto simp: word_less_nat_alt split: if_splits)
  moreover have bound: "unat w < 2 ^ LENGTH(32)" by (rule unsigned_less)
  moreover have "unat w < unat infinite_time"
    using assms(1) bound by (simp add: infinite_time_def word_unat_eq_iff)
  ultimately have "w - (if w > 100 then 100 else w) \<noteq> infinite_time" by (metis diff_le_self not_le)
  with n assms show ?thesis by (simp add: close_round_def Let_def)
qed

lemma close_loop_finite:
  "w \<noteq> infinite_time \<Longrightarrow> \<exists>r. while_option (\<lambda>s. fst s > 0) (close_round checks) (w, k, c) = Some r"
proof (induction "unat w" arbitrary: w k c rule: less_induct)
  case less
  show ?case
  proof (cases "w = 0")
    case True
    then show ?thesis by (subst while_option_unfold) simp
  next
    case False
    then have w: "0 < w" by (simp add: word_gt_0)
    show ?thesis
    proof (cases "checks k")
      case True
      then have "close_round checks (w, k, c) = (0, Suc k, True)" by (simp add: close_round_def Let_def)
      moreover have "while_option (\<lambda>s. fst s > 0) (close_round checks) (0, Suc k, True) = Some (0, Suc k, True)"
        by (subst while_option_unfold) simp
      ultimately have "while_option (\<lambda>s. fst s > 0) (close_round checks) (w, k, c) = Some (0, Suc k, True)"
        using w by (subst while_option_unfold) simp
      then show ?thesis by blast
    next
      case no: False
      from close_round_time[of w checks k c, OF less(2) w no] obtain w' where
        w': "close_round checks (w, k, c) = (w', Suc k, c)" "w' \<noteq> infinite_time" "unat w' = unat w - 100" by blast
      have "unat w' < unat w" using w w'(3) by (simp add: word_less_nat_alt)
      from less(1)[OF this w'(2), of "Suc k" c] show ?thesis using w w'(1) by (subst while_option_unfold) simp
    qed
  qed
qed

lemma close_loop_waits:
  assumes "\<And>j. j < n \<Longrightarrow> \<not> checks (k + j)" and "checks (k + n)"
  shows "while_option (\<lambda>s. fst s > 0) (close_round checks) (infinite_time, k, c) = Some (0, Suc (k + n), True)"
  using assms
proof (induction n arbitrary: k)
  case 0
  have "while_option (\<lambda>s. fst s > 0) (close_round checks) (0, Suc k, True) = Some (0, Suc k, True)"
    by (subst while_option_unfold) simp
  with 0 show ?case by (subst while_option_unfold) (simp add: close_round_def infinite_time_def Let_def)
next
  case (Suc n)
  have "\<not> checks k" using Suc(2)[of 0] by simp
  then have "close_round checks (infinite_time, k, c) = (infinite_time, Suc k, c)"
    by (simp add: close_round_def Let_def)
  moreover have "while_option (\<lambda>s. fst s > 0) (close_round checks) (infinite_time, Suc k, c) = Some (0, Suc (k + Suc n), True)"
    using Suc(1)[of "Suc k"] Suc(2)[of "Suc _"] Suc(3) by simp
  ultimately show ?case by (subst while_option_unfold) (simp add: infinite_time_def)
qed

lemma close_loop_for_ever:
  assumes "\<And>k. \<not> checks k"
  shows "close_loop checks infinite_time = None"
proof (cases "close_loop checks infinite_time")
  case (Some x)
  have "(close_round checks ^^ j) (infinite_time, 0, False) = (infinite_time, j, False)" for j
    by (induction j) (simp_all add: close_round_def assms Let_def)
  moreover obtain j where "x = (close_round checks ^^ j) (infinite_time, 0, False)"
    using Some while_option_stop2 unfolding close_loop_def by fastforce
  moreover have "\<not> fst x > 0"
    using Some while_option_stop unfolding close_loop_def by fastforce
  ultimately show ?thesis by (simp add: infinite_time_def)
qed simp

text \<open>Closing with a finite time always returns; with \<^verbatim>\<open>Core::infinite\<close> it returns exactly if the link becomes idle or
  closed at some time.\<close>
theorem close_returns:
  "(waitTime \<noteq> infinite_time \<longrightarrow> link_Close checks waitTime l \<noteq> None) \<and>
   (close_loop checks infinite_time \<noteq> None \<longleftrightarrow> (\<exists>k. checks k))"
proof -
  have "CheckForClose checks waitTime l \<noteq> None" if fin: "waitTime \<noteq> infinite_time" for l
  proof -
    obtain w k c where "close_loop checks waitTime = Some (w, k, c)"
      using close_loop_finite[OF fin, of checks 0 False] unfolding close_loop_def by (metis prod_cases3)
    then show ?thesis by (simp add: CheckForClose_def del: not_None_eq)
  qed
  moreover have "close_loop checks infinite_time \<noteq> None" if c: "checks k" for k
  proof -
    define n where "n = (LEAST k. checks k)"
    have "checks (0 + n)" unfolding n_def add_0 using c by (rule LeastI)
    moreover have "\<not> checks (0 + j)" if "j < n" for j using that unfolding n_def add_0 by (rule not_less_Least)
    ultimately have "close_loop checks infinite_time = Some (0, Suc (0 + n), True)"
      unfolding close_loop_def by (intro close_loop_waits) blast+
    then show ?thesis by (simp del: not_None_eq)
  qed
  moreover have "(\<exists>k. checks k) \<or> close_loop checks infinite_time = None" by (metis close_loop_for_ever)
  ultimately show ?thesis unfolding link_Close_def by (metis (no_types))
qed

section \<open>The upgrade and the queue\<close>

lemma phase_bits:
  "b \<in> {WEBSERVER, UPGRADING, WEBSOCKET} \<Longrightarrow> ((x AND 0xF0) OR b) AND SUSPENDED = 0"
  by (auto simp: link_bits word_ao_dist and.assoc)

text \<open>Entering a phase clears the mark that the link is being closed: a server link that is closed while the response to the upgrade is
  still in the queue is open again, as a web socket, once the response has been written.\<close>
theorem upgrade_reopens:
  assumes "link_queue l = [Upgrade_Message]" and "message_code l = STATUS_SWITCH_PROTOCOL"
    and "socket_open l" and "\<not> socket_suspended l" and "link_Close checks 0 l = Some (c, l')"
  shows "link_IsSuspended l' \<and> \<not> link_IsOpen l' \<and>
    \<not> link_IsSuspended (Serialized True l') \<and> link_IsOpen (Serialized True l') \<and> IsWebSocket (Serialized True l')"
proof -
  let ?s = "link_state l'"
  have "l' = (if \<not> link_IsSuspended l then l\<lparr>link_state := link_state l OR SUSPENDED\<rparr> else l)"
    using assms(1,5) by (auto simp: link_Close_def CheckForClose_def close_now_def all_idle_def close_loop_def while_option_unfold)
  then have l': "link_queue l' = [Upgrade_Message]" "message_code l' = STATUS_SWITCH_PROTOCOL" "socket_open l'"
      "\<not> socket_suspended l'" "state_has SUSPENDED l'"
    using assms by (auto simp: link_IsSuspended_def state_has_def link_bits word_ao_dist split: if_splits)
  have "((?s AND 0xF0) OR WEBSOCKET) AND SUSPENDED = 0" by (rule phase_bits) simp
  moreover have "((?s AND 0xF0) OR WEBSOCKET) AND WEBSOCKET \<noteq> 0" by (simp add: link_bits word_ao_dist)
  ultimately show ?thesis using l'
    by (simp add: Serialized_def serialized_element_def UpgradeCompleted_def enter_phase_def add_note_def Let_def
        link_IsSuspended_def link_IsOpen_def IsWebSocket_def state_has_def)
qed

definition link_init :: ws_link where
  "link_init = \<lparr>link_state = WEBSERVER, socket_open = True, socket_suspended = False, socket_closed = False, link_queue = [],
     link_started = [], link_sent = [], deserializing = False, parent_idle = True, link_path = [], link_query = [],
     link_protocol = [], message_code = 0, message_text = [], link_notes = []\<rparr>"

lemma upgrade_reopens_witness:
  "let l = server_ReceivedWebSocket None \<lparr>req_upgrade = True, req_protocol = [''notification''], req_path = ''/jsonrpc'', req_query = None\<rparr> link_init
   in \<exists>l'. link_Close (\<lambda>_. False) 0 l = Some (False, l') \<and> link_IsSuspended l' \<and> link_IsOpen (Serialized True l')"
proof -
  let ?l = "server_ReceivedWebSocket None \<lparr>req_upgrade = True, req_protocol = [''notification''], req_path = ''/jsonrpc'', req_query = None\<rparr> link_init"
  have q: "link_queue ?l = [Upgrade_Message]" "message_code ?l = STATUS_SWITCH_PROTOCOL" "socket_open ?l" "\<not> socket_suspended ?l"
    by (simp_all add: server_ReceivedWebSocket_def link_init_def state_has_def link_bits enter_phase_def add_note_def serializer_Submit_def
        STATUS_SWITCH_PROTOCOL_def Let_def)
  then have "\<exists>l'. link_Close (\<lambda>_. False) 0 ?l = Some (False, l')"
    by (simp add: link_Close_def CheckForClose_def close_now_def all_idle_def close_loop_def while_option_unfold)
  with upgrade_reopens[OF q] show ?thesis by (auto simp: Let_def)
qed

text \<open>The messages a link has taken over, along a run.\<close>

datatype link_event = L_Submit nat | L_Written | L_Socket_Closed | L_Request "(nat \<times> string) option" upgrade_request | L_Close

primrec link_step :: "bool \<Rightarrow> link_event \<Rightarrow> ws_link \<Rightarrow> ws_link" where
  "link_step server (L_Submit n) l = link_Submit (Out_Element n) l"
| "link_step server L_Written l = Serialized server l"
| "link_step server L_Socket_Closed l = link_StateChange (l\<lparr>socket_open := False, socket_closed := True\<rparr>)"
| "link_step server (L_Request abort element) l = server_ReceivedWebSocket abort element l"
| "link_step server L_Close l = l\<lparr>link_state := link_state l OR SUSPENDED\<rparr>"

fun accepted_now :: "link_event \<Rightarrow> ws_link \<Rightarrow> out_element list" where
  "accepted_now (L_Submit n) l = (if \<not> link_IsSuspended l \<and> link_IsOpen l then [Out_Element n] else [])"
| "accepted_now (L_Request abort element) l = (if req_upgrade element then [Upgrade_Message] else [])"
| "accepted_now _ l = []"

fun accepted :: "bool \<Rightarrow> link_event list \<Rightarrow> ws_link \<Rightarrow> out_element list" where
  "accepted server [] l = []"
| "accepted server (e # es) l = accepted_now e l @ accepted server es (link_step server e l)"

lemmas link_defs = add_note_def serializer_Submit_def enter_phase_def AbortUpgrade_def UpgradeCompleted_def serialized_element_def Let_def

lemma serialized_element_queue [simp]:
  "link_queue (serialized_element server e l) = link_queue l" "link_sent (serialized_element server e l) = link_sent l"
  by (simp_all add: link_defs split: out_element.split)

lemma link_step_queue:
  "link_sent (link_step server e l) @ link_queue (link_step server e l) = link_sent l @ link_queue l @ accepted_now e l"
proof (cases e)
  case (L_Submit n)
  then show ?thesis by (simp add: link_Submit_def link_defs)
next
  case L_Written
  then show ?thesis by (auto simp: Serialized_def add_note_def Let_def split: list.split)
next
  case L_Socket_Closed
  then show ?thesis by (simp add: link_StateChange_def serializer_Flush_def add_note_def Let_def)
next
  case (L_Request abort element)
  then show ?thesis by (auto simp: server_ReceivedWebSocket_def link_defs split: option.split)
next
  case L_Close
  then show ?thesis by simp
qed

text \<open>Whatever is submitted, written, requested and closed: the messages that have left the queue followed by those in it are the messages
  accepted, in their order; none is lost, doubled or overtaken.\<close>
theorem link_in_order:
  "link_sent (fold (link_step server) es link_init) @ link_queue (fold (link_step server) es link_init) = accepted server es link_init"
proof -
  have "link_sent (fold (link_step server) es l) @ link_queue (fold (link_step server) es l) =
      link_sent l @ link_queue l @ accepted server es l" for l
    by (induction es arbitrary: l) (simp_all add: link_step_queue)
  then show ?thesis by (simp add: link_init_def)
qed

end
