(* ===== verification/Ws_Stream.thy ===== *)
theory Ws_Stream
  imports Prelude "HOL-Library.Word"
begin

text \<open>
  \<^verbatim>\<open>helpers/StreamJSONOneShot.h\<close>: messages that are written to a link piece by piece, and elements that are read from it.  How an
  element is written and read is Thunder's: \<open>serialize m offset n\<close> gives at most n bytes and the new offset (0 when
  the element is done), \<open>deserialize e offset bytes\<close> the element, the bytes it used and the new offset.
\<close>

section \<open>The stream\<close>

record ('m, 'e) stream =
  sendQueue :: "'m list"
  send_offset :: nat
  sent_messages :: "'m list"
  current :: "'e option"
  receive_offset :: nat
  received :: "'e list"
  channel_open :: bool
  triggers :: nat

definition stream_Submit :: "'m \<Rightarrow> ('m, 'e) stream \<Rightarrow> ('m, 'e) stream" where
  "stream_Submit entry s =
     (if channel_open s then
        let s = s\<lparr>sendQueue := sendQueue s @ [entry]\<rparr> in
        if length (sendQueue s) = 1 then s\<lparr>triggers := triggers s + 1\<rparr> else s
      else s)"

definition stream_SendData ::
  "('m \<Rightarrow> nat \<Rightarrow> nat \<Rightarrow> 8 word list \<times> nat) \<Rightarrow> nat \<Rightarrow> ('m, 'e) stream \<Rightarrow> 8 word list \<times> ('m, 'e) stream" where
  "stream_SendData serialize maxSendSize s =
     (case sendQueue s of
        [] \<Rightarrow> ([], s)
      | m # ms \<Rightarrow>
          let (bytes, off) = serialize m (send_offset s) maxSendSize;
              s = s\<lparr>send_offset := off\<rparr> in
          (bytes,
           if off = 0 \<or> length bytes \<noteq> maxSendSize
           then s\<lparr>sent_messages := sent_messages s @ [m], sendQueue := ms, send_offset := 0\<rparr> else s))"

definition stream_ReceiveData ::
  "'e \<Rightarrow> ('e \<Rightarrow> nat \<Rightarrow> 8 word list \<Rightarrow> 'e \<times> nat \<times> nat) \<Rightarrow> 8 word list \<Rightarrow> ('m, 'e) stream \<Rightarrow> nat \<times> ('m, 'e) stream" where
  "stream_ReceiveData fresh deserialize bytes s =
     (let s = (if current s = None then s\<lparr>current := Some fresh, receive_offset := 0\<rparr> else s) in
      case current s of
        None \<Rightarrow> (0, s)
      | Some e \<Rightarrow>
          let (e, loaded, off) = deserialize e (receive_offset s) bytes;
              s = s\<lparr>current := Some e, receive_offset := off\<rparr> in
          (loaded,
           if off = 0 \<or> loaded \<noteq> length bytes
           then s\<lparr>received := received s @ [e], current := None\<rparr> else s))"

definition stream_IsIdle :: "('m, 'e) stream \<Rightarrow> bool" where
  "stream_IsIdle s = (sendQueue s = [] \<and> current s = None)"

section \<open>What goes over the link\<close>

text \<open>An element is written by consecutive pieces of its (non-empty) text, as large as there is room.\<close>

definition writes_text :: "('m \<Rightarrow> 8 word list) \<Rightarrow> ('m \<Rightarrow> nat \<Rightarrow> nat \<Rightarrow> 8 word list \<times> nat) \<Rightarrow> bool" where
  "writes_text text_of serialize \<longleftrightarrow> (\<forall>m off n. text_of m \<noteq> [] \<and> serialize m off n =
     (take n (drop off (text_of m)), if length (text_of m) \<le> off + n then 0 else off + n))"

definition unsent :: "('m \<Rightarrow> 8 word list) \<Rightarrow> ('m, 'e) stream \<Rightarrow> 8 word list" where
  "unsent text_of s = drop (send_offset s) (concat (map text_of (sendQueue s)))"

definition stream_ok :: "('m \<Rightarrow> 8 word list) \<Rightarrow> ('m, 'e) stream \<Rightarrow> bool" where
  "stream_ok text_of s \<longleftrightarrow>
     (case sendQueue s of [] \<Rightarrow> send_offset s = 0 | m # _ \<Rightarrow> send_offset s < length (text_of m))"

fun send_run ::
  "('m \<Rightarrow> nat \<Rightarrow> nat \<Rightarrow> 8 word list \<times> nat) \<Rightarrow> nat list \<Rightarrow> ('m, 'e) stream \<Rightarrow> 8 word list \<times> ('m, 'e) stream" where
  "send_run serialize [] s = ([], s)"
| "send_run serialize (n # ns) s =
     (let (bytes, s) = stream_SendData serialize n s; (more, s) = send_run serialize ns s in (bytes @ more, s))"

lemma SendData_step:
  assumes w: "writes_text text_of serialize" and ok: "stream_ok text_of s" and n: "0 < n"
  shows "stream_ok text_of (snd (stream_SendData serialize n s)) \<and>
    unsent text_of s = fst (stream_SendData serialize n s) @ unsent text_of (snd (stream_SendData serialize n s)) \<and>
    sent_messages (snd (stream_SendData serialize n s)) @ sendQueue (snd (stream_SendData serialize n s)) = sent_messages s @ sendQueue s \<and>
    (sendQueue s \<noteq> [] \<longrightarrow> fst (stream_SendData serialize n s) \<noteq> [])"
proof (cases "sendQueue s")
  case Nil
  then show ?thesis using ok by (simp add: stream_SendData_def)
next
  case (Cons m ms)
  let ?t = "text_of m" and ?o = "send_offset s"
  have o: "?o < length ?t" using ok Cons by (simp add: stream_ok_def)
  have ser: "serialize m ?o n = (take n (drop ?o ?t), if length ?t \<le> ?o + n then 0 else ?o + n)"
    and ne: "\<And>m. text_of m \<noteq> []" using w by (simp_all add: writes_text_def)
  have ok': "stream_ok text_of (s'\<lparr>sendQueue := ms, send_offset := 0\<rparr>)" for s' :: "('a, 'b) stream"
    using ne by (simp add: stream_ok_def split: list.split)
  show ?thesis
  proof (cases "length ?t \<le> ?o + n")
    case True
    then have "take n (drop ?o ?t) = drop ?o ?t" by simp
    moreover have "drop ?o (?t @ concat (map text_of ms)) = drop ?o ?t @ concat (map text_of ms)" using o by simp
    ultimately show ?thesis using True Cons o ok'[of "s\<lparr>send_offset := 0, sent_messages := _\<rparr>"]
      by (auto simp: stream_SendData_def ser unsent_def stream_ok_def ne split: list.split)
  next
    case False
    then have len: "length (take n (drop ?o ?t)) = n" by simp
    have "drop ?o ?t = take n (drop ?o ?t) @ drop (?o + n) ?t" by (simp add: add.commute append_take_drop_id flip: drop_drop)
    then show ?thesis using False Cons o n len
      by (auto simp: stream_SendData_def ser unsent_def stream_ok_def)
  qed
qed

lemma send_run_steps:
  assumes w: "writes_text text_of serialize"
  shows "stream_ok text_of s \<Longrightarrow> \<forall>n \<in> set ns. 0 < n \<Longrightarrow>
    stream_ok text_of (snd (send_run serialize ns s)) \<and>
    unsent text_of s = fst (send_run serialize ns s) @ unsent text_of (snd (send_run serialize ns s)) \<and>
    sent_messages (snd (send_run serialize ns s)) @ sendQueue (snd (send_run serialize ns s)) = sent_messages s @ sendQueue s \<and>
    (sendQueue (snd (send_run serialize ns s)) \<noteq> [] \<longrightarrow> length ns \<le> length (fst (send_run serialize ns s)))"
proof (induction ns arbitrary: s)
  case (Cons n ns)
  let ?s = "snd (stream_SendData serialize n s)"
  have n: "0 < n" using Cons(3) by simp
  note step = SendData_step[OF w Cons(2) n]
  have IH: "stream_ok text_of (snd (send_run serialize ns ?s)) \<and>
    unsent text_of ?s = fst (send_run serialize ns ?s) @ unsent text_of (snd (send_run serialize ns ?s)) \<and>
    sent_messages (snd (send_run serialize ns ?s)) @ sendQueue (snd (send_run serialize ns ?s)) = sent_messages ?s @ sendQueue ?s \<and>
    (sendQueue (snd (send_run serialize ns ?s)) \<noteq> [] \<longrightarrow> length ns \<le> length (fst (send_run serialize ns ?s)))"
    using step Cons(3) by (intro Cons.IH) auto
  have empty: "sendQueue s = [] \<Longrightarrow> sendQueue (snd (send_run serialize ns ?s)) = []"
    by (induction ns) (simp_all add: stream_SendData_def Let_def case_prod_unfold)
  have "send_run serialize (n # ns) s =
      (fst (stream_SendData serialize n s) @ fst (send_run serialize ns ?s), snd (send_run serialize ns ?s))"
    by (simp add: case_prod_unfold Let_def)
  moreover have "sendQueue (snd (send_run serialize ns ?s)) \<noteq> [] \<longrightarrow>
      Suc (length ns) \<le> length (fst (stream_SendData serialize n s)) + length (fst (send_run serialize ns ?s))"
    using IH step empty by (cases "fst (stream_SendData serialize n s)") auto
  ultimately show ?case using step IH by simp
qed simp


definition two_bytes :: "nat \<Rightarrow> nat \<Rightarrow> nat \<Rightarrow> 8 word list \<times> nat" where
  "two_bytes m off n = (take n (drop off [of_nat m, 10]), if 2 \<le> off + n then 0 else off + n)"

definition two_messages :: "(nat, nat) stream" where
  "two_messages = \<lparr>sendQueue = [5, 6], send_offset = 0, sent_messages = [], current = None, receive_offset = 0,
     received = [], channel_open = True, triggers = 0\<rparr>"


end
