(* ===== verification/Ws_JsonRpc.thy ===== *)
theory Ws_JsonRpc
  imports Json "HOL-Library.Word"
begin

text \<open>
  \<^verbatim>\<open>helpers/WebSockets/JsonRpc\<close> and \<^verbatim>\<open>CommunicationInterface\<close>: requests, responses and notifications, and the interfaces that
  match what arrives on a web socket with what was asked.  Reading and writing the texts of messages is Thunder's and
  part of the environment.  Threads are sequences of steps: a request is sent, messages arrive, a waiting
  thread wakes up or gives up after five seconds.
\<close>

section \<open>Messages\<close>

record rpc_message =
  rpc_JSONRPC :: "string option"
  rpc_Id :: "32 word option"
  rpc_Designator :: "string option"
  rpc_Parameters :: "string option"
  rpc_Result :: "string option"
  rpc_Error :: "(int option \<times> string option) option"

record rpc_env =
  DefaultVersion :: string
  Method_of :: "rpc_message \<Rightarrow> string"
  message_text :: "rpc_message \<Rightarrow> string"
  message_of :: "string \<Rightarrow> rpc_message"
  json_of :: "string \<Rightarrow> jobject option"
  error_text :: "int option \<times> string option \<Rightarrow> string"
  rpc_js :: json_lib

definition version_ok :: "rpc_env \<Rightarrow> rpc_message \<Rightarrow> bool" where
  "version_ok E m = (rpc_JSONRPC m = Some (DefaultVersion E))"

definition generateId :: "32 word \<Rightarrow> 32 word" where
  "generateId idSequence = idSequence + 1"

text \<open>\<^verbatim>\<open>Request::create\<close>: the answer, the message and the sequence number.\<close>

definition Request_create ::
  "rpc_env \<Rightarrow> string \<Rightarrow> jobject \<Rightarrow> 32 word \<Rightarrow> rpc_message \<Rightarrow> bool \<times> rpc_message \<times> 32 word" where
  "Request_create E method parameters idSequence m =
     (if \<not> version_ok E m then (False, m, idSequence)
      else if method = [] then (False, m, idSequence)
      else
        let m = m\<lparr>rpc_Designator := Some method\<rparr>;
            paramsString = js_ToString (rpc_js E) parameters;
            m = (if paramsString \<noteq> [] then m\<lparr>rpc_Parameters := Some paramsString\<rparr> else m);
            i = generateId idSequence in
        (True, m\<lparr>rpc_Id := Some i\<rparr>, i))"

definition getId :: "rpc_message \<Rightarrow> 32 word" where
  "getId m = (case rpc_Id m of None \<Rightarrow> 0 | Some i \<Rightarrow> i)"

definition Response_isValid :: "rpc_env \<Rightarrow> rpc_message \<Rightarrow> bool" where
  "Response_isValid E m =
     (if \<not> version_ok E m then False
      else if rpc_Id m = None then False
      else if rpc_Result m = None \<and> rpc_Error m = None then False
      else if rpc_Result m \<noteq> None \<and> rpc_Error m \<noteq> None then False
      else (case rpc_Error m of None \<Rightarrow> True | Some (code, text) \<Rightarrow> code \<noteq> None \<and> text \<noteq> None))"

definition Notification_isValid :: "rpc_env \<Rightarrow> rpc_message \<Rightarrow> bool" where
  "Notification_isValid E m =
     (if \<not> version_ok E m then False else if Method_of E m = [] then False else rpc_Id m = None)"

section \<open>The JSON-RPC interface\<close>

text \<open>The entry of a request holds what its promise was set to.  \<open>broken\<close>: setting a promise twice throws out of the
  handler of the message.\<close>

record rpc_interface =
  responseToPromise :: "32 word \<Rightarrow> string option option"
  notificationHandler :: bool
  notified :: "rpc_message list"
  broken :: bool
  finished :: "(32 word \<times> string option \<times> bool) list"

definition rpc_init :: rpc_interface where
  "rpc_init = \<lparr>responseToPromise = Map.empty, notificationHandler = False, notified = [], broken = False, finished = []\<rparr>"

definition setNotificationHandler :: "bool \<Rightarrow> rpc_interface \<Rightarrow> rpc_interface" where
  "setNotificationHandler handler s = s\<lparr>notificationHandler := handler\<rparr>"

definition isRequestProcessingOngoing :: "32 word \<Rightarrow> rpc_interface \<Rightarrow> bool" where
  "isRequestProcessingOngoing i s = (responseToPromise s i \<noteq> None)"

definition createFutureResponse :: "32 word \<Rightarrow> rpc_interface \<Rightarrow> bool \<times> rpc_interface" where
  "createFutureResponse i s =
     (if responseToPromise s i \<noteq> None then (False, s)
      else (True, s\<lparr>responseToPromise := (responseToPromise s)(i := Some None)\<rparr>))"

definition removePromise :: "32 word \<Rightarrow> rpc_interface \<Rightarrow> rpc_interface" where
  "removePromise i s = s\<lparr>responseToPromise := (responseToPromise s)(i := None)\<rparr>"

definition handleNotification :: "rpc_env \<Rightarrow> string \<Rightarrow> rpc_interface \<Rightarrow> rpc_interface" where
  "handleNotification E message s =
     (let notif = message_of E message in
      if \<not> Notification_isValid E notif then s
      else if \<not> notificationHandler s then s
      else s\<lparr>notified := notified s @ [notif]\<rparr>)"

definition handleResponse :: "32 word \<Rightarrow> string \<Rightarrow> rpc_interface \<Rightarrow> rpc_interface" where
  "handleResponse i message s =
     (case responseToPromise s i of
        None \<Rightarrow> s
      | Some None \<Rightarrow> s\<lparr>responseToPromise := (responseToPromise s)(i := Some (Some message))\<rparr>
      | Some (Some _) \<Rightarrow> s\<lparr>broken := True\<rparr>)"

definition rpc_onMessage :: "rpc_env \<Rightarrow> string \<Rightarrow> rpc_interface \<Rightarrow> rpc_interface" where
  "rpc_onMessage E message s =
     (case json_of E message of
        None \<Rightarrow> s
      | Some json \<Rightarrow>
          if HasLabel json ''id'' then
            (if HasLabel json ''method'' then s
             else (case jget json ''id'' of
                 JNumber n \<Rightarrow> handleResponse (word_of_int n) message s
               | _ \<Rightarrow> s))
          else handleNotification E message s)"

text \<open>\<^verbatim>\<open>getBoolParameter\<close>.\<close>

definition bool_parameter :: "json_lib \<Rightarrow> json \<Rightarrow> bool" where
  "bool_parameter lib v =
     (case v of JBool _ \<Rightarrow> js_Boolean lib v | _ \<Rightarrow> js_String lib v = ''true'' \<or> js_String lib v = ''1'')"

definition processResponse :: "rpc_env \<Rightarrow> 32 word \<Rightarrow> string \<Rightarrow> bool" where
  "processResponse E i responseString =
     (let deviceResponse = message_of E responseString in
      if Response_isValid E deviceResponse \<and> getId deviceResponse = i then
        (case rpc_Result deviceResponse of
           None \<Rightarrow> False
         | Some result \<Rightarrow>
             let parameters = js_FromString (rpc_js E) result in
             HasLabel parameters ''success'' \<and> bool_parameter (rpc_js E) (jget parameters ''success''))
      else False)"

text \<open>\<^verbatim>\<open>sendRequest\<close> up to the wait (\<open>None\<close>: it waits; \<open>Some\<close> its answer); \<open>sent\<close> tells
  whether the endpoint could send.  Then what \<^verbatim>\<open>getAsyncResponse\<close> does when the future is ready, or not within its time.\<close>

definition sendRequest :: "bool \<Rightarrow> 32 word \<Rightarrow> rpc_interface \<Rightarrow> bool option \<times> rpc_interface" where
  "sendRequest sent i s =
     (if isRequestProcessingOngoing i s then (Some False, s)
      else
        let (ok, s) = createFutureResponse i s in
        if \<not> ok then (Some False, s)
        else if sent then (None, s) else (Some False, removePromise i s))"

definition rpc_finish :: "32 word \<Rightarrow> string option \<Rightarrow> bool \<Rightarrow> rpc_interface \<Rightarrow> rpc_interface" where
  "rpc_finish i message r s = s\<lparr>finished := finished s @ [(i, message, r)]\<rparr>"

definition wake :: "rpc_env \<Rightarrow> 32 word \<Rightarrow> rpc_interface \<Rightarrow> rpc_interface" where
  "wake E i s =
     (case responseToPromise s i of
        Some (Some message) \<Rightarrow> rpc_finish i (Some message) (processResponse E i message) (removePromise i s)
      | _ \<Rightarrow> s)"

definition give_up :: "32 word \<Rightarrow> rpc_interface \<Rightarrow> rpc_interface" where
  "give_up i s =
     (case responseToPromise s i of
        Some None \<Rightarrow> rpc_finish i None False (removePromise i s)
      | _ \<Rightarrow> s)"

datatype rpc_event = Send_Request "32 word" bool | Message_In string | Wake "32 word" | Give_Up "32 word"

primrec rpc_step :: "rpc_env \<Rightarrow> rpc_event \<Rightarrow> rpc_interface \<Rightarrow> rpc_interface" where
  "rpc_step E (Send_Request i sent) s =
     (case sendRequest sent i s of (None, s) \<Rightarrow> s | (Some r, s) \<Rightarrow> rpc_finish i None r s)"
| "rpc_step E (Message_In message) s = rpc_onMessage E message s"
| "rpc_step E (Wake i) s = wake E i s"
| "rpc_step E (Give_Up i) s = give_up i s"

section \<open>Every request ends once, with its own response\<close>

definition requests :: "rpc_interface \<Rightarrow> 32 word multiset" where
  "requests s = mset_set (dom (responseToPromise s)) + mset (map fst (finished s))"

definition asked :: "rpc_event \<Rightarrow> rpc_interface \<Rightarrow> 32 word multiset" where
  "asked e s = (case e of Send_Request i _ \<Rightarrow> {#i#} | _ \<Rightarrow> {#})"

text \<open>What \<open>finished\<close> says: success only for a valid response to the very request.\<close>

definition answered_ok :: "rpc_env \<Rightarrow> 32 word \<times> string option \<times> bool \<Rightarrow> bool" where
  "answered_ok E = (\<lambda>(i, message, r). r = (case message of None \<Rightarrow> False | Some t \<Rightarrow> processResponse E i t))"

definition rpc_ok :: "rpc_env \<Rightarrow> rpc_interface \<Rightarrow> bool" where
  "rpc_ok E s \<longleftrightarrow> (\<forall>x \<in> set (finished s). answered_ok E x)"

lemma handleResponse_keeps:
  "dom (responseToPromise (handleResponse i m s)) = dom (responseToPromise s) \<and> finished (handleResponse i m s) = finished s"
  by (auto simp: handleResponse_def split: option.split)

lemma handleNotification_keeps:
  "responseToPromise (handleNotification E m s) = responseToPromise s \<and> finished (handleNotification E m s) = finished s"
  by (simp add: handleNotification_def Let_def)

lemma message_keeps:
  "dom (responseToPromise (rpc_onMessage E m s)) = dom (responseToPromise s) \<and> finished (rpc_onMessage E m s) = finished s"
  by (simp add: rpc_onMessage_def handleResponse_keeps handleNotification_keeps split: option.split json.split)

lemma requests_finish: "responseToPromise s i \<noteq> None \<Longrightarrow> requests (rpc_finish i m r (removePromise i s)) = requests s"
  using mset_set.remove[of "dom (responseToPromise s)" i] by (simp add: requests_def rpc_finish_def removePromise_def domIff)

lemma rpc_ok_finish: "rpc_ok E s \<Longrightarrow> answered_ok E (i, m, r) \<Longrightarrow> rpc_ok E (rpc_finish i m r (removePromise i s))"
  by (simp add: rpc_ok_def rpc_finish_def removePromise_def)

lemma wake_keeps: "requests (wake E i s) = requests s \<and> (rpc_ok E s \<longrightarrow> rpc_ok E (wake E i s))"
  by (auto simp: wake_def requests_finish intro!: rpc_ok_finish split: option.split) (simp_all add: answered_ok_def)

lemma give_up_keeps: "requests (give_up i s) = requests s \<and> (rpc_ok E s \<longrightarrow> rpc_ok E (give_up i s))"
  by (auto simp: give_up_def requests_finish intro!: rpc_ok_finish split: option.split) (simp_all add: answered_ok_def)

lemma send_keeps:
  "requests (rpc_step E (Send_Request i sent) s) = requests s + {#i#} \<and>
   (rpc_ok E s \<longrightarrow> rpc_ok E (rpc_step E (Send_Request i sent) s))"
proof (cases "responseToPromise s i")
  case None
  then have "i \<notin> dom (responseToPromise s)" by (simp add: domIff)
  with None show ?thesis
    by (auto simp: sendRequest_def isRequestProcessingOngoing_def createFutureResponse_def requests_def
        rpc_finish_def removePromise_def rpc_ok_def answered_ok_def)
next
  case (Some x)
  then show ?thesis
    by (simp add: sendRequest_def isRequestProcessingOngoing_def requests_def rpc_finish_def rpc_ok_def answered_ok_def)
qed

lemma rpc_step_keeps: "requests (rpc_step E e s) = requests s + asked e s \<and> (rpc_ok E s \<longrightarrow> rpc_ok E (rpc_step E e s))"
proof (cases e)
  case (Send_Request i sent)
  then show ?thesis using send_keeps[of E i sent s] by (simp add: asked_def)
next
  case (Message_In m)
  then show ?thesis using message_keeps[of E m s] by (simp add: requests_def asked_def rpc_ok_def)
next
  case (Wake i)
  then show ?thesis using wake_keeps[of E i s] by (simp add: asked_def)
next
  case (Give_Up i)
  then show ?thesis using give_up_keeps[of i s E] by (simp add: asked_def)
qed

interpretation rl: ledger "rpc_step E" "rpc_ok E" requests asked for E
  by standard (simp_all add: rpc_step_keeps)

lemma rpc_init_ok: "rpc_ok E rpc_init"
  by (simp add: rpc_ok_def rpc_init_def)


text \<open>A response that comes twice before the waiting thread has woken up sets the promise twice: the exception leaves the
  handler of the message.  One that comes after the request has ended, or for a request that was never made, changes
  nothing.\<close>
theorem response_twice:
  assumes "json_of E message = Some json" and "HasLabel json ''id''" and "\<not> HasLabel json ''method''"
    and "jget json ''id'' = JNumber n"
  shows "(responseToPromise s (word_of_int n) = None \<longrightarrow> rpc_onMessage E message s = s) \<and>
    (responseToPromise s (word_of_int n) = Some None \<longrightarrow> broken (rpc_onMessage E message (rpc_onMessage E message s)))"
  using assms by (simp add: rpc_onMessage_def handleResponse_def)

definition rpc_test :: rpc_env where
  "rpc_test = \<lparr>DefaultVersion = ''2.0'', Method_of = (\<lambda>_. []), message_text = (\<lambda>_. []),
     message_of = (\<lambda>_. \<lparr>rpc_JSONRPC = Some ''2.0'', rpc_Id = Some 1, rpc_Designator = None, rpc_Parameters = None,
       rpc_Result = Some ''r'', rpc_Error = None\<rparr>),
     json_of = (\<lambda>_. Some [(''id'', JNumber 1)]), error_text = (\<lambda>_. []), rpc_js = plain_json\<rparr>"


lemma response_twice_witness:
  "broken (fold (rpc_step rpc_test) [Send_Request 1 True, Message_In ''m'', Message_In ''m''] rpc_init)"
  using response_twice[of rpc_test "''m''" "[(''id'', JNumber 1)]" 1
      "rpc_step rpc_test (Send_Request 1 True) rpc_init"]
  by (simp add: rpc_test_def sendRequest_def isRequestProcessingOngoing_def createFutureResponse_def rpc_init_def)

section \<open>The command interface\<close>

text \<open>
  \<^verbatim>\<open>CommandInterface\<close> keeps the last message.  \<open>before\<close> are the messages that arrive between the sending and the wait,
  \<open>during\<close> those during the wait, which the first of them ends; otherwise it ends after five seconds.  The
  answer tells whether it timed out, which the code does not look at.
\<close>

definition command_onMessage :: "string \<Rightarrow> string \<Rightarrow> string" where
  "command_onMessage message lastResponse = message"

definition sendCommand :: "bool \<Rightarrow> string list \<Rightarrow> string list \<Rightarrow> string \<Rightarrow> bool \<times> string \<times> bool" where
  "sendCommand sent before during lastResponse =
     (if sent then
        let lastResponse = fold command_onMessage before lastResponse;
            timed_out = (during = []);
            response = fold command_onMessage (take 1 during) lastResponse in
        (True, response, timed_out)
      else (False, [], False))"

text \<open>A command that was sent always succeeds: with the message that ended the wait; without one with a message that
  came before the wait, after the full five seconds; and without any message with the answer to an earlier
  command.\<close>
theorem sendCommand_spec:
  "sendCommand True before (m # ms) old = (True, m, False) \<and>
   sendCommand True (before @ [r]) [] old = (True, r, True) \<and>
   sendCommand True [] [] old = (True, old, True) \<and>
   sendCommand False before ms old = (False, [], False)"
  by (simp add: sendCommand_def command_onMessage_def)

section \<open>Ping and pong\<close>

text \<open>
  \<^verbatim>\<open>PingPongEnabled\<close> on an endpoint: timers that will ping, pings without an answer, pings sent, and how often the connection was
  closed for a missing answer.  \<open>connected\<close>, \<open>sent\<close>: what the library answers.
\<close>

record ping_pong =
  ping_timers :: nat
  outstanding :: nat
  pings :: nat
  ping_closes :: nat

definition startPing :: "bool \<Rightarrow> ping_pong \<Rightarrow> ping_pong" where
  "startPing connected p = (if connected then p\<lparr>ping_timers := ping_timers p + 1\<rparr> else p)"

definition ping_fires :: "bool \<Rightarrow> bool \<Rightarrow> ping_pong \<Rightarrow> ping_pong" where
  "ping_fires is_open sent p =
     (if ping_timers p = 0 then p
      else
        let p = p\<lparr>ping_timers := ping_timers p - 1\<rparr> in
        if is_open \<and> sent then p\<lparr>pings := pings p + 1, outstanding := outstanding p + 1\<rparr> else p)"

definition onPong :: "ping_pong \<Rightarrow> ping_pong" where
  "onPong p = (if outstanding p = 0 then p\<lparr>ping_timers := ping_timers p + 1\<rparr>
     else p\<lparr>ping_timers := ping_timers p + 1, outstanding := outstanding p - 1\<rparr>)"

definition onPongTimeout :: "ping_pong \<Rightarrow> ping_pong" where
  "onPongTimeout p = p\<lparr>ping_closes := ping_closes p + 1, outstanding := outstanding p - 1\<rparr>"

definition ping_round :: "ping_pong \<Rightarrow> ping_pong" where
  "ping_round p = (onPong ^^ ping_timers p) ((ping_fires True True ^^ ping_timers p) p)"

lemma ping_fires_pow:
  "n \<le> ping_timers p \<Longrightarrow> (ping_fires True True ^^ n) p =
     p\<lparr>ping_timers := ping_timers p - n, pings := pings p + n, outstanding := outstanding p + n\<rparr>"
  by (induction n) (simp_all add: ping_fires_def Let_def)

lemma onPong_pow:
  "n \<le> outstanding p \<Longrightarrow> (onPong ^^ n) p = p\<lparr>ping_timers := ping_timers p + n, outstanding := outstanding p - n\<rparr>"
  by (induction n) (simp_all add: onPong_def)

text \<open>Nothing stops the timer of a connection that has ended: when a connection is opened again within the interval the timers of
  both ping the new one, and so it goes on; after k openings it is pinged k times in each interval.\<close>
theorem ping_chains:
  "pings ((ping_round ^^ n) ((startPing True ^^ k) \<lparr>ping_timers = 0, outstanding = 0, pings = 0, ping_closes = 0\<rparr>)) = n * k"
proof -
  have start: "(startPing True ^^ k) \<lparr>ping_timers = 0, outstanding = 0, pings = 0, ping_closes = 0\<rparr> =
      \<lparr>ping_timers = k, outstanding = 0, pings = 0, ping_closes = 0\<rparr>" for k
    by (induction k) (simp_all add: startPing_def)
  have round: "ping_round \<lparr>ping_timers = k, outstanding = 0, pings = m, ping_closes = 0\<rparr> =
      \<lparr>ping_timers = k, outstanding = 0, pings = m + k, ping_closes = 0\<rparr>" for m
    by (simp add: ping_round_def ping_fires_pow onPong_pow)
  have "(ping_round ^^ n) \<lparr>ping_timers = k, outstanding = 0, pings = 0, ping_closes = 0\<rparr> =
      \<lparr>ping_timers = k, outstanding = 0, pings = n * k, ping_closes = 0\<rparr>"
    by (induction n) (simp_all add: round add.commute)
  then show ?thesis by (simp add: start)
qed

end
