(* ===== verification/Ws_Endpoint.thy ===== *)
theory Ws_Endpoint
  imports Prelude
begin

text \<open>
  \<^verbatim>\<open>helpers/WebSockets/WSEndpoint.cpp\<close> with its roles (\<^verbatim>\<open>Client\<close>, \<^verbatim>\<open>SingleClientServer\<close>) and encryptions: an endpoint that owns one
  connection of the \<^verbatim>\<open>websocketpp\<close> library and a thread for its event loop.  Connections are numbers; which are open is
  the library's state (\<open>opened\<close>), the results of its calls are arguments.
\<close>

section \<open>The endpoint\<close>

datatype endpoint_note =
    Initialized bool bool | Connection_Closed | Message_Received string | Ping_Started nat | Null_Dereference

datatype tls_error = Tls_Failure | Other_Error

record endpoint =
  connectionHandler :: "nat option"
  opened :: "nat list"
  listening :: bool
  eventLoopThread :: bool
  sent_to :: "(nat \<times> string) list"
  endpoint_notes :: "endpoint_note list"

definition endpoint_init :: endpoint where
  "endpoint_init = \<lparr>connectionHandler = None, opened = [], listening = False, eventLoopThread = False, sent_to = [], endpoint_notes = []\<rparr>"

definition tell :: "endpoint_note \<Rightarrow> endpoint \<Rightarrow> endpoint" where
  "tell n e = e\<lparr>endpoint_notes := endpoint_notes e @ [n]\<rparr>"

text \<open>\<^verbatim>\<open>closeConnection\<close>: only a connection that exists and is open is closed; \<open>closed\<close>: whether the library can.\<close>

definition closeConnection :: "bool \<Rightarrow> endpoint \<Rightarrow> endpoint" where
  "closeConnection closed e =
     (case connectionHandler e of
        None \<Rightarrow> e
      | Some c \<Rightarrow> if c \<in> set (opened e) \<and> closed then e\<lparr>opened := removeAll c (opened e)\<rparr> else e)"

definition startEventLoop :: "endpoint \<Rightarrow> endpoint" where
  "startEventLoop e = (if \<not> eventLoopThread e then e\<lparr>eventLoopThread := True\<rparr> else e)"

definition stopEventLoop :: "endpoint \<Rightarrow> endpoint" where
  "stopEventLoop e = (if eventLoopThread e then e\<lparr>eventLoopThread := False\<rparr> else e)"

definition endpoint_destroy :: "bool \<Rightarrow> endpoint \<Rightarrow> endpoint" where
  "endpoint_destroy closed e = stopEventLoop (closeConnection closed e)"

text \<open>\<^verbatim>\<open>send\<close>: the library refuses a connection that is not open.\<close>

definition endpoint_send :: "string \<Rightarrow> endpoint \<Rightarrow> bool \<times> endpoint" where
  "endpoint_send message e =
     (if message = [] then (False, e)
      else (case connectionHandler e of
          None \<Rightarrow> (False, e)
        | Some c \<Rightarrow> if c \<in> set (opened e) then (True, e\<lparr>sent_to := sent_to e @ [(c, message)]\<rparr>) else (False, e)))"

definition endpoint_onMessage :: "bool \<Rightarrow> string \<Rightarrow> endpoint \<Rightarrow> endpoint" where
  "endpoint_onMessage opcode_ok payload e = (if \<not> opcode_ok then e else tell (Message_Received payload) e)"

definition onOpen :: "nat \<Rightarrow> endpoint \<Rightarrow> endpoint" where
  "onOpen handler e = tell (Ping_Started handler) (tell (Initialized True True) (e\<lparr>connectionHandler := Some handler\<rparr>))"

text \<open>\<^verbatim>\<open>setAuthenticationState\<close> of the two encryptions.\<close>

definition authenticated :: "bool \<Rightarrow> tls_error \<Rightarrow> bool" where
  "authenticated tls err = (if tls then err \<noteq> Tls_Failure else True)"

text \<open>\<open>err\<close> is \<open>None\<close> if the library no longer knows the connection, which the code does not test.\<close>

definition onFail :: "bool \<Rightarrow> tls_error option \<Rightarrow> endpoint \<Rightarrow> endpoint" where
  "onFail tls err e =
     (case err of None \<Rightarrow> tell Null_Dereference e | Some x \<Rightarrow> tell (Initialized False (authenticated tls x)) e)"

definition onClose :: "nat \<Rightarrow> endpoint \<Rightarrow> endpoint" where
  "onClose handler e = tell Connection_Closed e"

section \<open>Roles\<close>

definition addProtocolToAddress :: "bool \<Rightarrow> string \<Rightarrow> string" where
  "addProtocolToAddress tls address = (if tls then ''wss://'' else ''ws://'') @ address"

definition client_connect :: "bool \<Rightarrow> endpoint \<Rightarrow> bool \<times> endpoint" where
  "client_connect prepared e = (if \<not> prepared then (False, e) else (True, startEventLoop e))"

definition client_disconnect :: "bool \<Rightarrow> endpoint \<Rightarrow> endpoint" where
  "client_disconnect closed e = closeConnection closed e"

definition server_start :: "bool \<Rightarrow> bool \<Rightarrow> endpoint \<Rightarrow> bool \<times> endpoint" where
  "server_start listens accepts e =
     (if \<not> listens then (False, e)
      else let e = e\<lparr>listening := True\<rparr> in if \<not> accepts then (False, e) else (True, startEventLoop e))"

definition server_stop :: "bool \<Rightarrow> bool \<Rightarrow> endpoint \<Rightarrow> endpoint" where
  "server_stop stopped closed e = (if \<not> stopped then e else closeConnection closed (e\<lparr>listening := False\<rparr>))"

section \<open>More than one client\<close>

text \<open>What the library does to the endpoint: a connection is opened, a message arrives, a connection is closed by its peer.\<close>

datatype endpoint_event = Opens nat | Message bool string | Closes nat | Send string

primrec endpoint_step :: "endpoint_event \<Rightarrow> endpoint \<Rightarrow> endpoint" where
  "endpoint_step (Opens c) e = onOpen c (e\<lparr>opened := opened e @ [c]\<rparr>)"
| "endpoint_step (Message opcode_ok payload) e = endpoint_onMessage opcode_ok payload e"
| "endpoint_step (Closes c) e = onClose c (e\<lparr>opened := removeAll c (opened e)\<rparr>)"
| "endpoint_step (Send message) e = snd (endpoint_send message e)"

fun last_opened :: "endpoint_event list \<Rightarrow> nat option \<Rightarrow> nat option" where
  "last_opened [] c = c"
| "last_opened (Opens c' # es) c = last_opened es (Some c')"
| "last_opened (_ # es) c = last_opened es c"

fun open_now :: "endpoint_event list \<Rightarrow> nat list \<Rightarrow> nat list" where
  "open_now [] cs = cs"
| "open_now (Opens c # es) cs = open_now es (cs @ [c])"
| "open_now (Closes c # es) cs = open_now es (removeAll c cs)"
| "open_now (_ # es) cs = open_now es cs"

lemma run_connections:
  "connectionHandler (fold endpoint_step es e) = last_opened es (connectionHandler e) \<and>
   opened (fold endpoint_step es e) = open_now es (opened e)"
proof (induction es arbitrary: e)
  case (Cons ev es)
  show ?case using Cons.IH[of "endpoint_step ev e"]
    by (cases ev) (simp_all add: onOpen_def onClose_def tell_def endpoint_onMessage_def endpoint_send_def split: option.split)
qed simp

text \<open>The server for a single client takes every client: what it sends goes to the one that connected last, even while others are
  open; when that one has gone nothing can be sent, although others are open; and stopping closes only
  that one, so that every other connection stays open.\<close>
theorem single_client_server:
  fixes es :: "endpoint_event list"
  defines "e \<equiv> fold endpoint_step es endpoint_init"
  shows "(m \<noteq> [] \<longrightarrow> fst (endpoint_send m e) = (\<exists>c. last_opened es None = Some c \<and> c \<in> set (open_now es []))) \<and>
    sent_to (snd (endpoint_send m e)) = sent_to e @
      (if fst (endpoint_send m e) then [(the (last_opened es None), m)] else []) \<and>
    set (opened (server_stop True True e)) = set (open_now es []) - set_option (last_opened es None)"
  using run_connections[of es endpoint_init] unfolding e_def
  by (auto simp: endpoint_send_def server_stop_def closeConnection_def endpoint_init_def split: option.split)

lemma single_client_server_witness:
  "opened (server_stop True True (fold endpoint_step [Opens 1, Opens 2] endpoint_init)) = [1] \<and>
   fst (endpoint_send ''x'' (fold endpoint_step [Opens 1, Opens 2, Closes 2] endpoint_init)) = False"
  using single_client_server[of "''x''" "[Opens 1, Opens 2, Closes 2]"]
  by (simp add: server_stop_def closeConnection_def onOpen_def tell_def endpoint_init_def)

end
