(* ===== verification/Plugin_Scene.thy ===== *)
theory Plugin_Scene
  imports Prelude
begin

text \<open>
  \<^verbatim>\<open>SceneSet\<close>: starts the reference application when the plugin is activated.  The world holds the reference counts of the
  service and of the application manager, the handlers registered there and the applications launched.  What the
  configuration names (\<open>None\<close> if it does not), whether the manager is there and the results of its launches
  are arguments.
\<close>

section \<open>The plugin\<close>

record scene_world =
  service_refs :: int
  manager_refs :: int
  notifications :: nat
  scene_launches :: "string list"

record scene_set =
  mrefAppName :: string
  mService :: bool
  mAppManager :: bool

definition SCENESET_DEFAULT_APPNAME :: string where
  "SCENESET_DEFAULT_APPNAME = ''rdk-reference-app''"

definition SceneSet_init :: scene_set where
  "SceneSet_init = \<lparr>mrefAppName = SCENESET_DEFAULT_APPNAME, mService = False, mAppManager = False\<rparr>"

text \<open>The message in the log tells how the launch ended.\<close>

datatype launch_log = Launched_Ok | Launch_Failed | No_Manager

definition StartReferenceApp :: "hresult \<Rightarrow> scene_set \<times> scene_world \<Rightarrow> launch_log \<times> scene_world" where
  "StartReferenceApp result = (\<lambda>(p, w).
     (if mAppManager p
      then (if result = ERROR_NONE then Launched_Ok else Launch_Failed,
            w\<lparr>scene_launches := scene_launches w @ [mrefAppName p]\<rparr>)
      else (No_Manager, w)))"

text \<open>A string of the configuration that is not set reads as the empty string.\<close>

definition SceneSet_Initialize ::
  "string option \<Rightarrow> bool \<Rightarrow> hresult \<Rightarrow> scene_set \<times> scene_world \<Rightarrow> string \<times> scene_set \<times> scene_world" where
  "SceneSet_Initialize refAppName available result = (\<lambda>(p, w).
     (let w = w\<lparr>service_refs := service_refs w + 1\<rparr>;
          p = p\<lparr>mService := True, mrefAppName := (case refAppName of None \<Rightarrow> [] | Some n \<Rightarrow> n)\<rparr>;
          (p, w) = (if mrefAppName p \<noteq> [] \<and> available
            then (p\<lparr>mAppManager := True\<rparr>, w\<lparr>manager_refs := manager_refs w + 1\<rparr>)
            else if mrefAppName p \<noteq> [] then (p\<lparr>mAppManager := False\<rparr>, w) else (p, w)) in
      if \<not> mAppManager p then ([], p, w)
      else
        let w = w\<lparr>manager_refs := manager_refs w + 1, notifications := notifications w + 1\<rparr> in
        ([], p, snd (StartReferenceApp result (p, w)))))"

definition SceneSet_Deinitialize :: "scene_set \<times> scene_world \<Rightarrow> scene_set \<times> scene_world" where
  "SceneSet_Deinitialize = (\<lambda>(p, w).
     (if mService p then
        let (p, w) = (if mAppManager p
          then (p\<lparr>mAppManager := False\<rparr>, w\<lparr>notifications := notifications w - 1, manager_refs := manager_refs w - 1\<rparr>) else (p, w)) in
        (p\<lparr>mService := False\<rparr>, w\<lparr>service_refs := service_refs w - 1\<rparr>)
      else (p, w)))"

section \<open>Activations\<close>

text \<open>One activation after the other, each with the name configured, the presence of the manager and the result.\<close>

definition activation :: "string option \<times> bool \<times> hresult \<Rightarrow> scene_set \<times> scene_world \<Rightarrow> scene_set \<times> scene_world" where
  "activation = (\<lambda>(name, available, result) s. SceneSet_Deinitialize (snd (SceneSet_Initialize name available result s)))"

definition starts :: "string option \<times> bool \<times> hresult \<Rightarrow> string list" where
  "starts = (\<lambda>(name, available, _). case name of None \<Rightarrow> [] | Some n \<Rightarrow> if n \<noteq> [] \<and> available then [n] else [])"

lemma activation_effect:
  "\<not> mService p \<Longrightarrow> \<not> mAppManager p \<Longrightarrow> \<exists>p'. activation a (p, w) =
     (p', w\<lparr>manager_refs := manager_refs w + int (length (starts a)), scene_launches := scene_launches w @ starts a\<rparr>) \<and>
     \<not> mService p' \<and> \<not> mAppManager p'"
  by (cases a)
     (auto simp: activation_def SceneSet_Initialize_def SceneSet_Deinitialize_def StartReferenceApp_def starts_def Let_def
        split: option.splits)

lemma activations_effect:
  "\<not> mService p \<Longrightarrow> \<not> mAppManager p \<Longrightarrow> \<exists>p'. fold activation as (p, w) =
     (p', w\<lparr>manager_refs := manager_refs w + int (length (concat (map starts as))),
            scene_launches := scene_launches w @ concat (map starts as)\<rparr>)"
proof (induction as arbitrary: p w)
  case (Cons a as)
  from activation_effect[OF Cons(2,3), of a w] obtain p' where
    a: "activation a (p, w) = (p', w\<lparr>manager_refs := manager_refs w + int (length (starts a)), scene_launches := scene_launches w @ starts a\<rparr>)"
    and p': "\<not> mService p'" "\<not> mAppManager p'" by blast
  from Cons(1)[OF p', of "w\<lparr>manager_refs := manager_refs w + int (length (starts a)), scene_launches := scene_launches w @ starts a\<rparr>"]
  show ?case by (auto simp: a add.assoc)
qed simp

text \<open>However often the plugin is activated and deactivated: each activation that names an application, with the manager there,
  launches that application once; one whose configuration names none launches nothing (the default name is never
  used); the service and the handlers are released, but of the two references taken on the manager only
  one is, so that one is leaked with each launch.\<close>
theorem SceneSet_activations:
  fixes w :: scene_world and as :: "(string option \<times> bool \<times> hresult) list"
  defines "s \<equiv> snd (fold activation as (SceneSet_init, w))"
  shows "scene_launches s = scene_launches w @ concat (map starts as) \<and> service_refs s = service_refs w \<and>
    notifications s = notifications w \<and> manager_refs s = manager_refs w + int (length (concat (map starts as)))"
  using activations_effect[of SceneSet_init as w] unfolding s_def by (auto simp: SceneSet_init_def)

end
