(* ===== verification/Plugin_NativeJS.thy ===== *)
theory Plugin_NativeJS
  imports Prelude "HOL-Library.Word"
begin

text \<open>
  \<^verbatim>\<open>NativeJS\<close>: the plugin that hands requests to a JavaScript renderer, which a thread of the implementation creates and runs.
  The renderer is not in the repository: the model keeps the calls it gets (its answers are arguments).  \<open>mRenderThread\<close>
  is the state of the \<^verbatim>\<open>std::thread\<close>; destroying or overwriting one that can still be joined ends the program.
\<close>

section \<open>The implementation\<close>

datatype renderer_call =
    R_createApplication string | R_runApplication "32 word" string | R_runJavaScript "32 word" string
  | R_getApplications | R_terminateApplication "32 word" | R_terminate

text \<open>The thread: never started or joined, before it creates the renderer, inside \<^verbatim>\<open>run\<close>, and at its end.\<close>

datatype render_thread = No_Thread | Starting string | Running string | Ended

record native_js =
  mNativeJSRenderer :: bool
  mRenderThread :: render_thread
  gPendingIdOptionsRequest :: string
  gPendingUrl :: string
  renderer_calls :: "renderer_call list"
  aborted :: bool

definition native_init :: native_js where
  "native_init = \<lparr>mNativeJSRenderer = False, mRenderThread = No_Thread, gPendingIdOptionsRequest = [], gPendingUrl = [],
     renderer_calls = [], aborted = False\<rparr>"

definition native_Initialize :: "string \<Rightarrow> native_js \<Rightarrow> hresult \<times> native_js" where
  "native_Initialize waylandDisplay n =
     (ERROR_NONE, if mRenderThread n = No_Thread then n\<lparr>mRenderThread := Starting waylandDisplay\<rparr> else n\<lparr>aborted := True\<rparr>)"

text \<open>The thread's function in two steps: the creation of the renderer, and what follows when \<^verbatim>\<open>run\<close> returns.\<close>

definition thread_create :: "native_js \<Rightarrow> native_js" where
  "thread_create n = (case mRenderThread n of
     Starting display \<Rightarrow> n\<lparr>mNativeJSRenderer := True, mRenderThread := Running display\<rparr> | _ \<Rightarrow> n)"

definition thread_end :: "native_js \<Rightarrow> native_js" where
  "thread_end n = (case mRenderThread n of
     Running display \<Rightarrow> n\<lparr>mNativeJSRenderer := False, mRenderThread := Ended\<rparr> | _ \<Rightarrow> n)"

definition call_renderer :: "renderer_call \<Rightarrow> native_js \<Rightarrow> native_js" where
  "call_renderer c n = n\<lparr>renderer_calls := renderer_calls n @ [c]\<rparr>"

text \<open>\<^verbatim>\<open>Deinitialize\<close>: \<^verbatim>\<open>terminate\<close> lets \<^verbatim>\<open>run\<close> return, and \<^verbatim>\<open>join\<close> waits for the thread.\<close>

definition native_Deinitialize :: "native_js \<Rightarrow> hresult \<times> native_js" where
  "native_Deinitialize n =
     (ERROR_NONE,
      if mNativeJSRenderer n
      then (thread_end (call_renderer R_terminate n))\<lparr>mRenderThread := No_Thread\<rparr> else n)"

definition CreateApplication :: "(string \<Rightarrow> 32 word) \<Rightarrow> string \<Rightarrow> native_js \<Rightarrow> (hresult \<times> 32 word option) \<times> native_js" where
  "CreateApplication created options n =
     (if mNativeJSRenderer n then ((ERROR_NONE, Some (created options)), call_renderer (R_createApplication options) n)
      else ((ERROR_NONE, None), n\<lparr>gPendingIdOptionsRequest := options\<rparr>))"

definition RunApplication :: "32 word \<Rightarrow> string \<Rightarrow> native_js \<Rightarrow> hresult \<times> native_js" where
  "RunApplication i url n =
     (ERROR_NONE, if mNativeJSRenderer n then call_renderer (R_runApplication i url) n else n\<lparr>gPendingUrl := url\<rparr>)"

definition RunJavaScript :: "32 word \<Rightarrow> string \<Rightarrow> native_js \<Rightarrow> hresult \<times> native_js" where
  "RunJavaScript i code n = (ERROR_NONE, if mNativeJSRenderer n then call_renderer (R_runJavaScript i code) n else n)"

definition GetApplications :: "native_js \<Rightarrow> hresult \<times> native_js" where
  "GetApplications n = (ERROR_NONE, if mNativeJSRenderer n then call_renderer R_getApplications n else n)"

definition TerminateApplication :: "32 word \<Rightarrow> native_js \<Rightarrow> hresult \<times> native_js" where
  "TerminateApplication i n = (ERROR_NONE, if mNativeJSRenderer n then call_renderer (R_terminateApplication i) n else n)"

text \<open>The destructor, with that of the member thread.\<close>

definition native_destroy :: "native_js \<Rightarrow> native_js" where
  "native_destroy n = n\<lparr>mNativeJSRenderer := False, aborted := aborted n \<or> mRenderThread n \<noteq> No_Thread\<rparr>"

section \<open>The plugin\<close>

record native_plugin =
  plugin_service :: bool
  plugin_native :: "native_js option"
  registered :: bool

text \<open>\<open>impl\<close>: whether the implementation can be made; \<open>display\<close> and \<open>environment\<close>: the
  configured display and that of \<^verbatim>\<open>WAYLAND_DISPLAY\<close>.\<close>

definition native_display :: "string option \<Rightarrow> string option \<Rightarrow> string" where
  "native_display display environment =
     (case display of Some d \<Rightarrow> d | None \<Rightarrow> (case environment of Some d \<Rightarrow> d | None \<Rightarrow> []))"

definition NativeJS_Initialize :: "bool \<Rightarrow> string option \<Rightarrow> string option \<Rightarrow> native_plugin \<Rightarrow> string \<times> native_plugin" where
  "NativeJS_Initialize impl display environment p =
     (if \<not> impl
      then (''NativeJS implementation could not be instantiated.'', p\<lparr>plugin_service := False, plugin_native := None\<rparr>)
      else ([], p\<lparr>plugin_service := True, registered := True,
        plugin_native := Some (snd (native_Initialize (native_display display environment) native_init))\<rparr>))"

text \<open>The plugin holds the only reference, so that its release destroys the implementation.\<close>

definition NativeJS_Deinitialize :: "native_plugin \<Rightarrow> native_js option \<times> native_plugin" where
  "NativeJS_Deinitialize p =
     (case plugin_native p of
        None \<Rightarrow> (None, p)
      | Some n \<Rightarrow> (Some (native_destroy (snd (native_Deinitialize n))),
          p\<lparr>plugin_service := False, registered := False, plugin_native := None\<rparr>))"

section \<open>Requests and shutdown\<close>

datatype native_event =
    Create string | Run "32 word" string | Script "32 word" string | List_Apps | Terminate "32 word" | Thread_Create | Thread_End

primrec native_step :: "native_event \<Rightarrow> native_js \<Rightarrow> native_js" where
  "native_step (Create options) n = snd (CreateApplication (\<lambda>_. 0) options n)"
| "native_step (Run i url) n = snd (RunApplication i url n)"
| "native_step (Script i code) n = snd (RunJavaScript i code n)"
| "native_step List_Apps n = snd (GetApplications n)"
| "native_step (Terminate i) n = snd (TerminateApplication i n)"
| "native_step Thread_Create n = thread_create n"
| "native_step Thread_End n = thread_end n"

fun call_of :: "native_event \<Rightarrow> renderer_call option" where
  "call_of (Create options) = Some (R_createApplication options)"
| "call_of (Run i url) = Some (R_runApplication i url)"
| "call_of (Script i code) = Some (R_runJavaScript i code)"
| "call_of List_Apps = Some R_getApplications"
| "call_of (Terminate i) = Some (R_terminateApplication i)"
| "call_of _ = None"

definition native_ok :: "native_js \<Rightarrow> bool" where
  "native_ok n \<longleftrightarrow> \<not> aborted n \<and> mNativeJSRenderer n = (\<exists>d. mRenderThread n = Running d) \<and> mRenderThread n \<noteq> No_Thread"

lemmas native_defs = CreateApplication_def RunApplication_def RunJavaScript_def GetApplications_def TerminateApplication_def
  call_renderer_def

lemma native_step_ok: "native_ok n \<Longrightarrow> native_ok (native_step e n)"
  by (cases e) (auto simp: native_ok_def native_defs thread_create_def thread_end_def split: render_thread.splits)

interpretation nj: machine native_step native_ok
  by standard (rule native_step_ok)

lemma started_ok: "native_ok (snd (native_Initialize d native_init))"
  by (simp add: native_ok_def native_Initialize_def native_init_def)

text \<open>Which requests the renderer gets: those made while it exists.\<close>

fun served :: "bool \<times> bool \<Rightarrow> native_event list \<Rightarrow> renderer_call list" where
  "served x [] = []"
| "served (starting, running) (Thread_Create # es) = served (False, starting \<or> running) es"
| "served (starting, running) (Thread_End # es) = served (starting, False) es"
| "served (starting, running) (e # es) = (if running then [the (call_of e)] else []) @ served (starting, running) es"

definition phase :: "native_js \<Rightarrow> bool \<times> bool" where
  "phase n = ((case mRenderThread n of Starting d \<Rightarrow> True | _ \<Rightarrow> False), mNativeJSRenderer n)"

lemma served_calls:
  "native_ok n \<Longrightarrow> renderer_calls (fold native_step es n) = renderer_calls n @ served (phase n) es"
proof (induction es arbitrary: n)
  case (Cons e es)
  have "renderer_calls (native_step e n) @ served (phase (native_step e n)) es = renderer_calls n @ served (phase n) (e # es)"
    using Cons(2) by (cases e)
      (auto simp: native_ok_def phase_def native_defs thread_create_def thread_end_def split: render_thread.splits)
  with Cons(1)[OF native_step_ok[OF Cons(2)]] show ?case by simp
qed simp

text \<open>Whatever requests are made while the thread starts, runs and ends: the renderer gets those made while it exists, in order,
  and no other (the rest is dropped although answered with success); and when the plugin is deactivated the
  program survives exactly if the renderer exists at that moment, because only then the thread is joined before it is
  destroyed.\<close>
theorem NativeJS_lifetime:
  fixes es :: "native_event list" and display :: string
  defines "n \<equiv> fold native_step es (snd (native_Initialize display native_init))"
  shows "renderer_calls n = served (True, False) es \<and>
    (\<exists>n' p'. NativeJS_Deinitialize (\<lparr>plugin_service = True, plugin_native = Some n, registered = True\<rparr>) = (Some n', p') \<and>
      aborted n' = (\<not> mNativeJSRenderer n) \<and> plugin_native p' = None)"
proof -
  have ok: "native_ok n" unfolding n_def by (rule nj.run_inv) (rule started_ok)
  have "renderer_calls n = served (True, False) es"
    using served_calls[OF started_ok, of es display] unfolding n_def
    by (simp add: native_Initialize_def native_init_def phase_def)
  moreover have "aborted (native_destroy (snd (native_Deinitialize n))) = (\<not> mNativeJSRenderer n)"
    using ok by (auto simp: native_destroy_def native_Deinitialize_def native_ok_def call_renderer_def thread_end_def)
  ultimately show ?thesis by (simp add: NativeJS_Deinitialize_def)
qed

end
