(* ===== verification/Analytics_Backend.thy ===== *)
theory Analytics_Backend
  imports Prelude "HOL-Library.List_Lexorder" "HOL-Library.Char_ord"
begin

text \<open>
  How Analytics loads its backend: \<^verbatim>\<open>helpers/UtilsLibraryLoader.h\<close>, \<^verbatim>\<open>Backend/AnalyticsBackendLoader.cpp\<close>, and the
  life time of the backend inside \<^verbatim>\<open>AnalyticsImplementation\<close>, up to the destructors of its members; and the shell of the plugin,
  \<^verbatim>\<open>Analytics.cpp\<close>.  The dynamic linker counts how often a library is open; each time a library gets mapped the mapping has a new
  number.  An object lives in the mapping its library had when it was made; using or deleting it after that mapping is gone
  crashes.
\<close>

section \<open>The dynamic linker\<close>

record dl =
  open_count :: "string \<Rightarrow> nat"
  mapping_of :: "string \<Rightarrow> nat"
  mapped :: "nat \<Rightarrow> bool"
  next_mapping :: nat
  code_of :: "nat \<Rightarrow> nat"
  next_object :: nat
  dl_crashed :: bool

definition dlopen :: "string \<Rightarrow> dl \<Rightarrow> dl" where
  "dlopen path w =
     (if open_count w path > 0 then w\<lparr>open_count := (open_count w)(path := open_count w path + 1)\<rparr>
      else w\<lparr>open_count := (open_count w)(path := 1), mapping_of := (mapping_of w)(path := next_mapping w),
             mapped := (mapped w)(next_mapping w := True), next_mapping := next_mapping w + 1\<rparr>)"

definition dlclose :: "string \<Rightarrow> dl \<Rightarrow> dl" where
  "dlclose path w =
     (let w = w\<lparr>open_count := (open_count w)(path := open_count w path - 1)\<rparr> in
      if open_count w path = 0 then w\<lparr>mapped := (mapped w)(mapping_of w path := False)\<rparr> else w)"

text \<open>A virtual call or a destructor runs the code of the object.\<close>

definition run_code :: "nat \<Rightarrow> dl \<Rightarrow> dl" where
  "run_code ob w = (if mapped w (code_of w ob) then w else w\<lparr>dl_crashed := True\<rparr>)"

section \<open>The loaders\<close>

datatype load_error = NO_ERROR | LIBRARY_PATH_EMPTY | LIBRARY_LOAD_FAILURE

text \<open>
  The members of \<^verbatim>\<open>AnalyticsImplementation\<close> that matter: the handle of the \<^verbatim>\<open>LibraryLoader\<close>, the object of the
  \<^verbatim>\<open>AnalyticsBackendLoader\<close>, and \<^verbatim>\<open>mBackends\<close>.  The last two are shared pointers.
\<close>

record backends =
  mLibraryHandle :: "string option"
  mAnalyticsBackend :: "nat option"
  held_backends :: "(string, nat) omap"
  linker :: dl

text \<open>\<open>dir\<close>: the directory of libraries; \<open>opens\<close>: whether \<^verbatim>\<open>dlopen\<close> succeeds, else its error text.\<close>

definition LibraryLoader_Load ::
  "string \<Rightarrow> string + unit \<Rightarrow> string \<Rightarrow> backends \<Rightarrow> load_error \<times> string \<times> backends" where
  "LibraryLoader_Load dir opens libraryPath s =
     (if libraryPath = [] then (LIBRARY_PATH_EMPTY, ''Library path is empty.'', s)
      else
        let s = (case mLibraryHandle s of
              None \<Rightarrow> s
            | Some p \<Rightarrow> s\<lparr>linker := dlclose p (linker s), mLibraryHandle := None\<rparr>);
            fullPath = dir @ ''/'' @ libraryPath in
        (case opens of
           Inl err \<Rightarrow> (LIBRARY_LOAD_FAILURE, err, s)
         | Inr _ \<Rightarrow> (NO_ERROR, [], s\<lparr>mLibraryHandle := Some fullPath, linker := dlopen fullPath (linker s)\<rparr>)))"

definition LibraryLoader_destroy :: "backends \<Rightarrow> backends" where
  "LibraryLoader_destroy s =
     (case mLibraryHandle s of None \<Rightarrow> s | Some p \<Rightarrow> s\<lparr>linker := dlclose p (linker s)\<rparr>)"

text \<open>\<open>create\<close>: the error text if the library has no \<^verbatim>\<open>Create\<close>, else whether that function makes an object.\<close>

definition CreateShared :: "string + bool \<Rightarrow> backends \<Rightarrow> nat option \<times> string \<times> backends" where
  "CreateShared create s =
     (case mLibraryHandle s of
        None \<Rightarrow> (None, ''Library not loaded.'', s)
      | Some p \<Rightarrow>
          (case create of
             Inl err \<Rightarrow> (None, err, s)
           | Inr False \<Rightarrow> (None, [], s)
           | Inr True \<Rightarrow>
               let w = linker s in
               (Some (next_object w), [],
                s\<lparr>linker := w\<lparr>code_of := (code_of w)(next_object w := mapping_of w p), next_object := next_object w + 1\<rparr>\<rparr>)))"

text \<open>A shared pointer to \<open>ob\<close> has gone: the object is deleted unless another one is left.\<close>

definition release :: "nat option \<Rightarrow> backends \<Rightarrow> backends" where
  "release ob s =
     (case ob of
        None \<Rightarrow> s
      | Some k \<Rightarrow> (if mAnalyticsBackend s = Some k \<or> k \<in> snd ` set (held_backends s) then s else s\<lparr>linker := run_code k (linker s)\<rparr>))"

definition AnalyticsBackendLoader_Load ::
  "string \<Rightarrow> string + unit \<Rightarrow> string + bool \<Rightarrow> string \<Rightarrow> backends \<Rightarrow> hresult \<times> backends" where
  "AnalyticsBackendLoader_Load dir opens create path s =
     (if path = [] then (ERROR_GENERAL, s)
      else
        let (ret, _, s) = LibraryLoader_Load dir opens path s in
        if ret \<noteq> NO_ERROR then (ERROR_GENERAL, s)
        else
          let (ob, _, s) = CreateShared create s;
              s = release (mAnalyticsBackend s) (s\<lparr>mAnalyticsBackend := ob\<rparr>) in
          (if ob = None then ERROR_GENERAL else ERROR_NONE, s))"

section \<open>The life of a backend\<close>

text \<open>The part of \<^verbatim>\<open>Configure\<close> that loads: \<open>name\<close> is what the backend answers to \<^verbatim>\<open>Name\<close>.\<close>

definition configure_backend ::
  "string \<Rightarrow> string + unit \<Rightarrow> string + bool \<Rightarrow> string \<Rightarrow> string \<Rightarrow> backends \<Rightarrow> backends" where
  "configure_backend dir opens create path name s =
     (let (ret, s) = AnalyticsBackendLoader_Load dir opens create path s in
      if ret \<noteq> ERROR_NONE then s
      else (case mAnalyticsBackend s of
          None \<Rightarrow> s
        | Some ob \<Rightarrow>
            let s = s\<lparr>linker := run_code ob (linker s)\<rparr> in
            release (map_of (held_backends s) name) (s\<lparr>held_backends := omap_put name ob (held_backends s)\<rparr>)))"

text \<open>An event goes to the first backend.\<close>

definition send_to_first :: "backends \<Rightarrow> backends" where
  "send_to_first s = (case held_backends s of [] \<Rightarrow> s | (_, ob) # _ \<Rightarrow> s\<lparr>linker := run_code ob (linker s)\<rparr>)"

text \<open>The members are destroyed in the reverse order of their declaration: the loader (its object, then the library), then the
  map of backends.\<close>

definition destroy_members :: "backends \<Rightarrow> backends" where
  "destroy_members s =
     (let s = release (mAnalyticsBackend s) (s\<lparr>mAnalyticsBackend := None\<rparr>);
          s = LibraryLoader_destroy s in
      s\<lparr>held_backends := [], linker := fold run_code (map snd (held_backends s)) (linker s)\<rparr>)"

datatype backend_op = Load_Backend "string + unit" "string + bool" string string | Send_Event

primrec backend_step :: "string \<Rightarrow> backend_op \<Rightarrow> backends \<Rightarrow> backends" where
  "backend_step dir (Load_Backend opens create path name) s = configure_backend dir opens create path name s"
| "backend_step dir Send_Event s = send_to_first s"

definition backends_init :: backends where
  "backends_init = \<lparr>mLibraryHandle = None, mAnalyticsBackend = None, held_backends = [],
     linker = \<lparr>open_count = (\<lambda>_. 0), mapping_of = (\<lambda>_. 0), mapped = (\<lambda>_. False), next_mapping = 0, code_of = (\<lambda>_. 0),
       next_object = 0, dl_crashed = False\<rparr>\<rparr>"
definition backends_ok :: "backends \<Rightarrow> bool" where
  "backends_ok s \<longleftrightarrow>
     (\<forall>p. open_count (linker s) p = (if mLibraryHandle s = Some p then 1 else 0)) \<and>
     (\<forall>m. mapped (linker s) m = (\<exists>p. mLibraryHandle s = Some p \<and> mapping_of (linker s) p = m)) \<and>
     (\<forall>ob. mAnalyticsBackend s = Some ob \<longrightarrow> ob \<in> snd ` set (held_backends s)) \<and>
     (held_backends s = [] \<longrightarrow> \<not> dl_crashed (linker s))"

lemma run_code_fields [simp]:
  "open_count (run_code ob w) = open_count w" "mapping_of (run_code ob w) = mapping_of w" "mapped (run_code ob w) = mapped w"
  "code_of (run_code ob w) = code_of w" "next_object (run_code ob w) = next_object w" "next_mapping (run_code ob w) = next_mapping w"
  "dl_crashed (run_code ob w) \<longleftrightarrow> dl_crashed w \<or> \<not> mapped w (code_of w ob)"
  by (simp_all add: run_code_def)

lemma release_fields [simp]:
  "mLibraryHandle (release x s) = mLibraryHandle s" "mAnalyticsBackend (release x s) = mAnalyticsBackend s"
  "held_backends (release x s) = held_backends s" "open_count (linker (release x s)) = open_count (linker s)"
  "mapping_of (linker (release x s)) = mapping_of (linker s)" "mapped (linker (release x s)) = mapped (linker s)"
  "code_of (linker (release x s)) = code_of (linker s)"
  by (simp_all add: release_def split: option.split)

lemma release_None [simp]: "release None s = s"
  by (simp add: release_def)

lemma release_held: "k \<in> snd ` set (held_backends s) \<Longrightarrow> release (Some k) s = s"
  by (simp add: release_def)

lemma omap_put_value: "v \<in> snd ` set (omap_put k v m)"
  by (induction k v m rule: omap_put.induct) auto

lemma dlclose_only:
  assumes "open_count w p = 1" and "\<forall>m. mapped w m = (mapping_of w p = m)"
  shows "open_count (dlclose p w) = (open_count w)(p := 0) \<and> mapped (dlclose p w) = (\<lambda>_. False) \<and> mapping_of (dlclose p w) = mapping_of w \<and>
    dl_crashed (dlclose p w) = dl_crashed w \<and> code_of (dlclose p w) = code_of w"
  using assms by (auto simp: dlclose_def Let_def fun_eq_iff)

lemma Load_ok:
  assumes "backends_ok s"
  shows "backends_ok (snd (snd (LibraryLoader_Load dir opens path s))) \<and>
    held_backends (snd (snd (LibraryLoader_Load dir opens path s))) = held_backends s \<and>
    (fst (LibraryLoader_Load dir opens path s) = NO_ERROR \<longrightarrow> mLibraryHandle (snd (snd (LibraryLoader_Load dir opens path s))) \<noteq> None)"
proof -
  define s1 where "s1 = (case mLibraryHandle s of None \<Rightarrow> s | Some p \<Rightarrow> s\<lparr>linker := dlclose p (linker s), mLibraryHandle := None\<rparr>)"
  have s1: "backends_ok s1 \<and> mLibraryHandle s1 = None \<and> held_backends s1 = held_backends s"
  proof (cases "mLibraryHandle s")
    case None
    with assms show ?thesis by (simp add: s1_def)
  next
    case (Some p)
    with assms have "open_count (linker s) p = 1" "\<forall>m. mapped (linker s) m = (mapping_of (linker s) p = m)"
      by (simp_all add: backends_ok_def)
    from dlclose_only[OF this] Some assms show ?thesis by (auto simp: s1_def backends_ok_def)
  qed
  then have "backends_ok (s1\<lparr>mLibraryHandle := Some f, linker := dlopen f (linker s1)\<rparr>)" for f
    by (auto simp: backends_ok_def dlopen_def)
  with s1 assms show ?thesis
    by (simp add: LibraryLoader_Load_def Let_def flip: s1_def split: sum.split)
qed

lemma CreateShared_ok:
  assumes "backends_ok s"
  shows "backends_ok (snd (snd (CreateShared create s))) \<and>
    held_backends (snd (snd (CreateShared create s))) = held_backends s \<and>
    mAnalyticsBackend (snd (snd (CreateShared create s))) = mAnalyticsBackend s \<and>
    (\<forall>ob. fst (CreateShared create s) = Some ob \<longrightarrow>
      mapped (linker (snd (snd (CreateShared create s)))) (code_of (linker (snd (snd (CreateShared create s)))) ob))"
  using assms by (auto simp: CreateShared_def backends_ok_def Let_def split: option.split sum.split bool.split)

text \<open>Loading a backend: it fails and keeps the map of backends, or a new object, whose code is there, is in it.\<close>

lemma configure_ok:
  assumes "backends_ok s"
  shows "backends_ok (configure_backend dir opens create path name s)"
proof -
  obtain ret err s1 where l: "LibraryLoader_Load dir opens path s = (ret, err, s1)" by (metis prod.exhaust)
  obtain ob err' s2 where c: "CreateShared create s1 = (ob, err', s2)" by (metis prod.exhaust)
  from Load_ok[OF assms, of dir opens path] l have s1: "backends_ok s1" "held_backends s1 = held_backends s" by simp_all
  from CreateShared_ok[OF s1(1), of create] c have s2: "backends_ok s2" "mAnalyticsBackend s2 = mAnalyticsBackend s1"
    "ob = Some k \<Longrightarrow> mapped (linker s2) (code_of (linker s2) k)" for k by simp_all
  define s3 where "s3 = release (mAnalyticsBackend s2) (s2\<lparr>mAnalyticsBackend := ob\<rparr>)"
  have r: "AnalyticsBackendLoader_Load dir opens create path s =
      (if path = [] then (ERROR_GENERAL, s) else if ret \<noteq> NO_ERROR then (ERROR_GENERAL, s1)
       else (if ob = None then ERROR_GENERAL else ERROR_NONE, s3))"
    by (simp add: AnalyticsBackendLoader_Load_def l c s3_def)
  have held: "held_backends s2 \<noteq> []" if "mAnalyticsBackend s2 = Some k" for k
    using s2(1) that by (auto simp: backends_ok_def)
  have s3: "backends_ok s3" if "ob = None"
  proof (cases "mAnalyticsBackend s2")
    case None
    with that s2(1) show ?thesis by (simp add: s3_def backends_ok_def)
  next
    case (Some k)
    with that s2(1) held show ?thesis by (auto simp: s3_def backends_ok_def)
  qed
  have "backends_ok (release x (s3\<lparr>linker := run_code k (linker s3), held_backends := omap_put name k (held_backends s3)\<rparr>))"
    if "ob = Some k" for x k
    using s2(1) omap_put_value[of k name "held_backends s2"] that by (auto simp: s3_def backends_ok_def)
  with r s1(1) s3 assms show ?thesis
    by (cases ob) (auto simp: configure_backend_def s3_def split: option.split)
qed

lemma send_ok: "backends_ok s \<Longrightarrow> backends_ok (send_to_first s)"
  by (auto simp: backends_ok_def send_to_first_def split: list.split)

lemma backend_step_ok: "backends_ok s \<Longrightarrow> backends_ok (backend_step dir e s)"
  by (cases e) (simp_all add: configure_ok send_ok)

interpretation bk: machine "backend_step dir" backends_ok for dir
  by standard (rule backend_step_ok)

lemma backends_init_ok: "backends_ok backends_init"
  by (simp add: backends_ok_def backends_init_def)

lemma run_codes_crash:
  "\<forall>m. \<not> mapped w m \<Longrightarrow> dl_crashed (fold run_code obs w) = (dl_crashed w \<or> obs \<noteq> [])"
  by (induction obs arbitrary: w) auto

text \<open>Once the loader is destroyed nothing is mapped.\<close>

lemma destroy_unmaps:
  assumes "backends_ok s"
  shows "(\<forall>m. \<not> mapped (linker (LibraryLoader_destroy s)) m) \<and>
    dl_crashed (linker (LibraryLoader_destroy s)) = dl_crashed (linker s)"
proof (cases "mLibraryHandle s")
  case None
  with assms show ?thesis by (simp add: LibraryLoader_destroy_def backends_ok_def)
next
  case (Some p)
  with assms have "open_count (linker s) p = 1" "\<forall>m. mapped (linker s) m = (mapping_of (linker s) p = m)"
    by (simp_all add: backends_ok_def)
  from dlclose_only[OF this] Some show ?thesis by (simp add: LibraryLoader_destroy_def)
qed

lemma destroy_crashes:
  assumes "backends_ok s"
  shows "dl_crashed (linker (destroy_members s)) = (held_backends s \<noteq> [])"
proof -
  define s1 where "s1 = release (mAnalyticsBackend s) (s\<lparr>mAnalyticsBackend := None\<rparr>)"
  have "s1 = s\<lparr>mAnalyticsBackend := None\<rparr>"
  proof (cases "mAnalyticsBackend s")
    case (Some k)
    with assms have "k \<in> snd ` set (held_backends (s\<lparr>mAnalyticsBackend := None\<rparr>))" by (simp add: backends_ok_def)
    then show ?thesis unfolding s1_def Some by (rule release_held)
  qed (simp add: s1_def)
  with assms have ok: "backends_ok s1" and held: "held_backends s1 = held_backends s" "linker s1 = linker s"
    by (simp_all add: backends_ok_def)
  have h: "held_backends (LibraryLoader_destroy s1) = held_backends s1"
    by (simp add: LibraryLoader_destroy_def split: option.split)
  have "linker (destroy_members s) = fold run_code (map snd (held_backends s1)) (linker (LibraryLoader_destroy s1))"
    by (simp add: destroy_members_def Let_def h flip: s1_def)
  with destroy_unmaps[OF ok] held assms show ?thesis
    by (simp add: run_codes_crash) (auto simp: backends_ok_def)
qed

lemma no_load_keeps: "held_backends s = [] \<Longrightarrow> send_to_first s = s"
  by (simp add: send_to_first_def)

lemma sends_keep:
  "\<forall>ob \<in> snd ` set (held_backends s). mapped (linker s) (code_of (linker s) ob) \<Longrightarrow> \<not> dl_crashed (linker s) \<Longrightarrow>
   \<not> dl_crashed (linker ((send_to_first ^^ n) s))"
proof (induction n arbitrary: s)
  case (Suc n)
  have "\<not> dl_crashed (linker (send_to_first s))"
    "\<forall>ob \<in> snd ` set (held_backends (send_to_first s)). mapped (linker (send_to_first s)) (code_of (linker (send_to_first s)) ob)"
    using Suc(2,3) by (auto simp: send_to_first_def split: list.split)
  from Suc(1)[OF this(2,1)] show ?case by (simp add: funpow_swap1)
qed simp

text \<open>Loading once: the backend has its code until the object is destroyed.\<close>

lemma first_configure:
  "\<not> dl_crashed (linker ((send_to_first ^^ n) (configure_backend dir opens create path name backends_init)))"
proof (rule sends_keep)
  let ?s = "configure_backend dir opens create path name backends_init"
  have p: "\<forall>ob \<in> snd ` set (held_backends ?s). mapped (linker ?s) (code_of (linker ?s) ob)" "\<not> dl_crashed (linker ?s)"
    by (auto simp: configure_backend_def AnalyticsBackendLoader_Load_def LibraryLoader_Load_def CreateShared_def
        backends_init_def dlopen_def Let_def split: sum.split bool.split)
  show "\<forall>ob \<in> snd ` set (held_backends ?s). mapped (linker ?s) (code_of (linker ?s) ob)" by (rule p(1))
  show "\<not> dl_crashed (linker ?s)" by (rule p(2))
qed

text \<open>
  C11: The backend outlives its library.  Whatever is loaded and sent, with nothing else that keeps the library open: destroying the plugin object closes the library before
  \<^verbatim>\<open>mBackends\<close> deletes the backend, so that it runs code that is gone exactly if a backend has been loaded; a
  single load and any number of events are safe until then, and nothing crashes while no backend is there.
\<close>
theorem backend_outlives_library:
  fixes es :: "backend_op list" and dir :: string
  defines "s \<equiv> fold (backend_step dir) es backends_init"
  shows "dl_crashed (linker (destroy_members s)) = (held_backends s \<noteq> []) \<and>
    \<not> (held_backends s = [] \<and> dl_crashed (linker s)) \<and>
    \<not> dl_crashed (linker ((send_to_first ^^ n) (configure_backend dir opens create path name backends_init)))"
proof -
  have "backends_ok s" unfolding s_def by (rule bk.run_inv) (rule backends_init_ok)
  then show ?thesis using destroy_crashes first_configure by (simp add: backends_ok_def)
qed

text \<open>A second load closes the library of the backend in use: if it fails, the next event calls code that is gone.\<close>

lemma reload_dangles:
  assumes "path \<noteq> []" and "path' \<noteq> []"
  shows "dl_crashed (linker (fold (backend_step dir)
    [Load_Backend (Inr ()) (Inr True) path name, Load_Backend (Inl err) create path' name', Send_Event] backends_init))"
  using assms by (simp add: configure_backend_def AnalyticsBackendLoader_Load_def LibraryLoader_Load_def CreateShared_def
      backends_init_def dlopen_def dlclose_def send_to_first_def Let_def)

section \<open>The plugin\<close>

text \<open>
  The references on the implementation, the connection to its process if it runs out of process (\<open>Some id\<close>),
  and what the framework was asked: the methods registered, connections ended, the plugin deactivated.
\<close>

record an_world =
  implementation_refs :: int
  configuration_refs :: int
  connection_refs :: int
  methods_registered :: bool
  terminated :: "nat list"
  deactivations :: nat

record an_plugin =
  plugin_mService :: bool
  plugin_mConnectionId :: nat
  plugin_mAnalytics :: bool

definition Analytics_plugin_init :: an_plugin where
  "Analytics_plugin_init = \<lparr>plugin_mService = False, plugin_mConnectionId = 0, plugin_mAnalytics = False\<rparr>"

text \<open>\<open>root\<close>: the identifier of the connection (0 in process) if the implementation can be made; \<open>configurable\<close>: whether
  it can be configured.\<close>

definition Analytics_Initialize :: "nat option \<Rightarrow> bool \<Rightarrow> an_plugin \<times> an_world \<Rightarrow> string \<times> an_plugin \<times> an_world" where
  "Analytics_Initialize root configurable = (\<lambda>(p, w).
     (let p = p\<lparr>plugin_mService := True\<rparr> in
      case root of
        None \<Rightarrow> (''Could not retrieve the Analytics interface.'', p\<lparr>plugin_mAnalytics := False\<rparr>, w)
      | Some i \<Rightarrow>
          let w = w\<lparr>implementation_refs := implementation_refs w + 1\<rparr>;
              w = (if configurable
                then (let w = w\<lparr>configuration_refs := configuration_refs w + 1\<rparr> in w\<lparr>configuration_refs := configuration_refs w - 1\<rparr>)
                else w) in
          ([], p\<lparr>plugin_mConnectionId := i, plugin_mAnalytics := True\<rparr>, w\<lparr>methods_registered := True\<rparr>)))"

text \<open>\<open>remote\<close>: whether the framework knows the connection.\<close>

definition Analytics_Deinitialize :: "bool \<Rightarrow> an_plugin \<times> an_world \<Rightarrow> an_plugin \<times> an_world" where
  "Analytics_Deinitialize remote = (\<lambda>(p, w).
     (if \<not> plugin_mAnalytics p then (p, w)
      else
        let w = w\<lparr>methods_registered := False\<rparr>;
            w = (if remote then w\<lparr>connection_refs := connection_refs w + 1\<rparr> else w);
            w = w\<lparr>implementation_refs := implementation_refs w - 1\<rparr>;
            p = p\<lparr>plugin_mAnalytics := False\<rparr> in
        (p, if remote then w\<lparr>terminated := terminated w @ [plugin_mConnectionId p], connection_refs := connection_refs w - 1\<rparr> else w)))"

definition Analytics_Deactivated :: "nat \<Rightarrow> an_plugin \<times> an_world \<Rightarrow> an_plugin \<times> an_world" where
  "Analytics_Deactivated i = (\<lambda>(p, w).
     (p, if i = plugin_mConnectionId p then w\<lparr>deactivations := deactivations w + 1\<rparr> else w))"

text \<open>Activating and deactivating leaves no reference behind, whether or not the implementation can be made and configured; its
  process is ended exactly if it has one, and its methods are gone.\<close>

lemma Analytics_activation:
  assumes "\<not> plugin_mAnalytics p" and "Analytics_Initialize root configurable (p, w) = (answer, p', w')"
  shows "(answer = []) = (root \<noteq> None) \<and> implementation_refs w' = implementation_refs w + (if root = None then 0 else 1) \<and>
    (\<exists>p''. Analytics_Deinitialize remote (p', w') =
      (p'', w\<lparr>methods_registered := methods_registered w \<and> root = None,
              terminated := terminated w @ (case root of Some i \<Rightarrow> if remote then [i] else [] | None \<Rightarrow> [])\<rparr>) \<and>
      \<not> plugin_mAnalytics p'')"
  using assms by (auto simp: Analytics_Initialize_def Analytics_Deinitialize_def Let_def split: option.splits if_splits)

end
