(* ===== verification/Utils_Synchro.thy ===== *)
theory Utils_Synchro
  imports Prelude
begin

text \<open>
  \<^verbatim>\<open>helpers/UtilsSynchro.hpp\<close> and \<^verbatim>\<open>helpers/UtilsSynchroIarm.hpp\<close>: methods called with the lock of their class held, the guards that
  release and take that lock, and the table of handlers of IARM events.  One thread is followed: \<open>depth c\<close> is how often
  it has locked the recursive mutex of class \<open>c\<close>, \<open>locked_api\<close> is the flag \<^verbatim>\<open>isThreadUsingLockedApi\<close>.  Unlocking a mutex that
  the thread does not own is undefined behaviour and is marked.  What a method does is an argument, a list of \<open>act\<close>.
\<close>

section \<open>Locked methods and guards\<close>

record sync =
  locked_api :: bool
  depth :: "nat \<Rightarrow> int"
  lock_guards :: "(nat \<times> bool) list"
  undefined_unlock :: bool
  invokes :: "(nat \<times> int) list"

definition mutex_lock :: "nat \<Rightarrow> sync \<Rightarrow> sync" where
  "mutex_lock c s = s\<lparr>depth := (depth s)(c := depth s c + 1)\<rparr>"

definition mutex_unlock :: "nat \<Rightarrow> sync \<Rightarrow> sync" where
  "mutex_unlock c s =
     (if depth s c \<le> 0 then s\<lparr>undefined_unlock := True\<rparr> else s\<lparr>depth := (depth s)(c := depth s c - 1)\<rparr>)"

text \<open>
  What code that runs in a method does: call another locked method, open the scope of an \<^verbatim>\<open>UnlockApiGuard\<close> or of a
  \<^verbatim>\<open>LockApiGuard\<close>, use the innermost \<^verbatim>\<open>LockApiGuard\<close>, call another plugin (\<open>Invoke c\<close> keeps a note of
  the lock of \<open>c\<close> at that moment), throw, or catch what a part of it throws.
\<close>

datatype act =
    Api_Call nat "act list" | Unlock_Scope nat "act list" | Lock_Scope nat "act list"
  | Guard_unlock | Guard_lock | Invoke nat | Throw | Catch "act list"

definition UnlockApiGuard_enter :: "nat \<Rightarrow> sync \<Rightarrow> sync" where
  "UnlockApiGuard_enter c s = (if locked_api s then mutex_unlock c s else s)"

definition UnlockApiGuard_leave :: "nat \<Rightarrow> sync \<Rightarrow> sync" where
  "UnlockApiGuard_leave c s = (if locked_api s then mutex_lock c s else s)"

definition LockApiGuard_enter :: "nat \<Rightarrow> sync \<Rightarrow> sync" where
  "LockApiGuard_enter c s = (mutex_lock c s)\<lparr>lock_guards := (c, True) # lock_guards s\<rparr>"

definition LockApiGuard_leave :: "sync \<Rightarrow> sync" where
  "LockApiGuard_leave s =
     (case lock_guards s of
        [] \<Rightarrow> s
      | (c, owns) # gs \<Rightarrow> (if owns then mutex_unlock c s else s)\<lparr>lock_guards := gs\<rparr>)"

text \<open>\<^verbatim>\<open>unlock\<close> and \<^verbatim>\<open>lock\<close> of a \<^verbatim>\<open>std::unique_lock\<close> throw if it does not, or does already, own the mutex.\<close>

definition LockApiGuard_unlock :: "sync \<Rightarrow> bool \<times> sync" where
  "LockApiGuard_unlock s =
     (case lock_guards s of
        (c, True) # gs \<Rightarrow> (False, (mutex_unlock c s)\<lparr>lock_guards := (c, False) # gs\<rparr>)
      | _ \<Rightarrow> (True, s))"

definition LockApiGuard_lock :: "sync \<Rightarrow> bool \<times> sync" where
  "LockApiGuard_lock s =
     (case lock_guards s of
        (c, False) # gs \<Rightarrow> (False, (mutex_lock c s)\<lparr>lock_guards := (c, True) # gs\<rparr>)
      | _ \<Rightarrow> (True, s))"

text \<open>The wrapper of \<^verbatim>\<open>getFunctionToCall\<close> before and after the method: the flag is cleared on both ways out, before
  the \<^verbatim>\<open>lock_guard\<close> releases the mutex.\<close>

definition api_enter :: "nat \<Rightarrow> sync \<Rightarrow> sync" where
  "api_enter c s = (mutex_lock c (s\<lparr>locked_api := True\<rparr>))\<lparr>lock_guards := []\<rparr>"

definition api_leave :: "nat \<Rightarrow> (nat \<times> bool) list \<Rightarrow> sync \<Rightarrow> sync" where
  "api_leave c guards s = mutex_unlock c (s\<lparr>locked_api := False, lock_guards := guards\<rparr>)"

text \<open>Running: whether it ends with an exception, and the state.\<close>

fun run :: "act \<Rightarrow> sync \<Rightarrow> bool \<times> sync" and runs :: "act list \<Rightarrow> sync \<Rightarrow> bool \<times> sync" where
  "run (Api_Call c body) s = apsnd (api_leave c (lock_guards s)) (runs body (api_enter c s))"
| "run (Unlock_Scope c body) s = apsnd (UnlockApiGuard_leave c) (runs body (UnlockApiGuard_enter c s))"
| "run (Lock_Scope c body) s = apsnd LockApiGuard_leave (runs body (LockApiGuard_enter c s))"
| "run Guard_unlock s = LockApiGuard_unlock s"
| "run Guard_lock s = LockApiGuard_lock s"
| "run (Invoke c) s = (False, s\<lparr>invokes := invokes s @ [(c, depth s c)]\<rparr>)"
| "run Throw s = (True, s)"
| "run (Catch body) s = (False, snd (runs body s))"
| "runs [] s = (False, s)"
| "runs (a # as) s = (let (thrown, s) = run a s in if thrown then (True, s) else runs as s)"

section \<open>The discipline that the guards promise\<close>

text \<open>The reference: a method holds the lock of its class, but in the scope of an \<^verbatim>\<open>UnlockApiGuard\<close>, whatever else runs.\<close>

fun ideal :: "act \<Rightarrow> sync \<Rightarrow> bool \<times> sync" and ideals :: "act list \<Rightarrow> sync \<Rightarrow> bool \<times> sync" where
  "ideal (Api_Call c body) s =
     apsnd (\<lambda>s'. mutex_unlock c (s'\<lparr>lock_guards := lock_guards s\<rparr>)) (ideals body ((mutex_lock c s)\<lparr>lock_guards := []\<rparr>))"
| "ideal (Unlock_Scope c body) s = apsnd (mutex_lock c) (ideals body (mutex_unlock c s))"
| "ideal (Lock_Scope c body) s = apsnd LockApiGuard_leave (ideals body (LockApiGuard_enter c s))"
| "ideal Guard_unlock s = LockApiGuard_unlock s"
| "ideal Guard_lock s = LockApiGuard_lock s"
| "ideal (Invoke c) s = (False, s\<lparr>invokes := invokes s @ [(c, depth s c)]\<rparr>)"
| "ideal Throw s = (True, s)"
| "ideal (Catch body) s = (False, snd (ideals body s))"
| "ideals [] s = (False, s)"
| "ideals (a # as) s = (let (thrown, s) = ideal a s in if thrown then (True, s) else ideals as s)"

text \<open>No locked method is called in it.\<close>

fun no_calls :: "act \<Rightarrow> bool" where
  "no_calls (Api_Call c body) = False"
| "no_calls (Unlock_Scope c body) = list_all no_calls body"
| "no_calls (Lock_Scope c body) = list_all no_calls body"
| "no_calls (Catch body) = list_all no_calls body"
| "no_calls _ = True"

text \<open>The unlocking scopes are those of class \<open>c\<close>, nested no deeper than its lock is held (\<open>d\<close> times); the guards that lock are left
  to their scopes.\<close>

fun fits :: "nat \<Rightarrow> nat \<Rightarrow> act \<Rightarrow> bool" where
  "fits c d (Api_Call c' body) = list_all (fits c (if c' = c then Suc d else d)) body"
| "fits c d (Unlock_Scope c' body) = (c' = c \<and> d > 0 \<and> list_all (fits c (d - 1)) body)"
| "fits c d (Lock_Scope c' body) = list_all (fits c (if c' = c then Suc d else d)) body"
| "fits c d (Catch body) = list_all (fits c d) body"
| "fits c d Guard_unlock = False"
| "fits c d Guard_lock = False"
| "fits c d _ = True"

lemma mutex_simps [simp]:
  "locked_api (mutex_lock c s) = locked_api s" "locked_api (mutex_unlock c s) = locked_api s"
  "lock_guards (mutex_lock c s) = lock_guards s" "lock_guards (mutex_unlock c s) = lock_guards s"
  "invokes (mutex_lock c s) = invokes s" "invokes (mutex_unlock c s) = invokes s"
  "depth (mutex_lock c s) = (depth s)(c := depth s c + 1)"
  "undefined_unlock (mutex_lock c s) = undefined_unlock s"
  by (simp_all add: mutex_lock_def mutex_unlock_def)

lemma mutex_unlock_owned:
  "0 < depth s c \<Longrightarrow> depth (mutex_unlock c s) = (depth s)(c := depth s c - 1) \<and>
     undefined_unlock (mutex_unlock c s) = undefined_unlock s"
  by (simp add: mutex_unlock_def)

lemma guard_flag [simp]:
  "locked_api (LockApiGuard_enter c s) = locked_api s" "locked_api (LockApiGuard_leave s) = locked_api s"
  "locked_api (snd (LockApiGuard_unlock s)) = locked_api s" "locked_api (snd (LockApiGuard_lock s)) = locked_api s"
  by (auto simp: LockApiGuard_enter_def LockApiGuard_leave_def LockApiGuard_unlock_def LockApiGuard_lock_def
      split: list.split prod.split bool.split)

lemma run_is_ideal:
  "no_calls a \<Longrightarrow> locked_api s \<Longrightarrow> run a s = ideal a s \<and> locked_api (snd (ideal a s))"
  "list_all no_calls as \<Longrightarrow> locked_api s \<Longrightarrow> runs as s = ideals as s \<and> locked_api (snd (ideals as s))"
proof (induction a s and as s rule: run_runs.induct)
  case (2 c body s)
  then have "runs body (mutex_unlock c s) = ideals body (mutex_unlock c s) \<and> locked_api (snd (ideals body (mutex_unlock c s)))"
    by (simp add: UnlockApiGuard_enter_def)
  with 2(3) show ?case
    by (cases "ideals body (mutex_unlock c s)") (simp add: UnlockApiGuard_enter_def UnlockApiGuard_leave_def)
next
  case (3 c body s)
  then show ?case by (cases "ideals body (LockApiGuard_enter c s)") simp
next
  case (10 a as s)
  then show ?case by (cases "ideal a s") simp
qed simp_all
definition kept :: "sync \<Rightarrow> sync \<Rightarrow> bool" where
  "kept s s' \<longleftrightarrow> depth s' = depth s \<and> undefined_unlock s' = undefined_unlock s \<and> lock_guards s' = lock_guards s"

lemma ideal_kept:
  "fits c d a \<Longrightarrow> int d \<le> depth s c \<Longrightarrow> \<forall>k. 0 \<le> depth s k \<Longrightarrow> kept s (snd (ideal a s))"
  "list_all (fits c d) as \<Longrightarrow> int d \<le> depth s c \<Longrightarrow> \<forall>k. 0 \<le> depth s k \<Longrightarrow> kept s (snd (ideals as s))"
proof (induction a s and as s arbitrary: d and d rule: ideal_ideals.induct)
  case (1 c' body s)
  have "kept ((mutex_lock c' s)\<lparr>lock_guards := []\<rparr>) (snd (ideals body ((mutex_lock c' s)\<lparr>lock_guards := []\<rparr>)))"
    using 1(2-4) by (intro 1(1)[of "if c' = c then Suc d else d"]) (auto simp: order.trans)
  with 1(4) show ?case
    by (auto simp: kept_def mutex_unlock_def fun_eq_iff not_le add_pos_nonneg dest: spec[of _ c'])
next
  case (2 c' body s)
  have o: "0 < depth s c'" "c' = c" using 2(2,3) by auto
  have "kept (mutex_unlock c' s) (snd (ideals body (mutex_unlock c' s)))"
    using 2(2-4) o by (intro 2(1)[of "d - 1"]) (auto simp: mutex_unlock_owned)
  with o show ?case by (simp add: kept_def mutex_unlock_owned)
next
  case (3 c' body s)
  have "kept (LockApiGuard_enter c' s) (snd (ideals body (LockApiGuard_enter c' s)))"
    using 3(2-4) by (intro 3(1)[of "if c' = c then Suc d else d"]) (auto simp: LockApiGuard_enter_def order.trans)
  with 3(4) show ?case
    by (auto simp: kept_def LockApiGuard_enter_def LockApiGuard_leave_def mutex_unlock_def fun_eq_iff not_le add_pos_nonneg
        dest: spec[of _ c'])
next
  case (10 a as s)
  obtain t s' where r: "ideal a s = (t, s')" by fastforce
  with 10(1)[of d] 10(3-5) have k: "kept s s'" by simp
  with 10(2)[OF r[symmetric] refl, of d] r 10(3-5) show ?case by (cases t) (auto simp: kept_def)
qed (auto simp: kept_def)


definition idle_thread :: sync where
  "idle_thread = \<lparr>locked_api = False, depth = (\<lambda>_. 0), lock_guards = [], undefined_unlock = False, invokes = []\<rparr>"




section \<open>Handlers of IARM events\<close>

text \<open>
  An event is named by its owner and number; handlers are numbers, \<open>None\<close> is a null pointer.  The bus knows for which events the
  generic handler of the class is registered; it calls that handler, which waits for the lock of the class (\<open>pending\<close>)
  before it looks the event up.  \<open>ok\<close>: the answer of the bus.
\<close>

type_synonym iarm_event = "string \<times> nat"

record iarm =
  registered_handlers :: "iarm_event \<Rightarrow> nat option option"
  bus_handlers :: "iarm_event set"
  pending :: "iarm_event list"
  handled :: "(iarm_event \<times> nat) list"
  null_called :: bool

definition iarm_init :: iarm where
  "iarm_init = \<lparr>registered_handlers = (\<lambda>_. None), bus_handlers = {}, pending = [], handled = [], null_called = False\<rparr>"

definition RegisterLockedIarmEventHandler :: "iarm_event \<Rightarrow> nat option \<Rightarrow> bool \<Rightarrow> iarm \<Rightarrow> iarm" where
  "RegisterLockedIarmEventHandler k handler ok m =
     m\<lparr>registered_handlers := (registered_handlers m)(k := Some handler),
       bus_handlers := (if ok then insert k (bus_handlers m) else bus_handlers m)\<rparr>"

text \<open>A handler that is not the registered one is reported, and removed all the same.  \<^verbatim>\<open>operator[]\<close> makes an entry that
  is erased at once.\<close>

definition RemoveLockedEventHandler :: "iarm_event \<Rightarrow> nat option \<Rightarrow> bool \<Rightarrow> iarm \<Rightarrow> bool \<times> iarm" where
  "RemoveLockedEventHandler k handler ok m =
     (handler \<noteq> (case registered_handlers m k of None \<Rightarrow> None | Some h \<Rightarrow> h),
      m\<lparr>registered_handlers := (registered_handlers m)(k := None),
        bus_handlers := (if ok then bus_handlers m - {k} else bus_handlers m)\<rparr>)"

definition bus_event :: "iarm_event \<Rightarrow> iarm \<Rightarrow> iarm" where
  "bus_event k m = (if k \<in> bus_handlers m then m\<lparr>pending := pending m @ [k]\<rparr> else m)"

definition generic_iarm_handler :: "iarm \<Rightarrow> iarm" where
  "generic_iarm_handler m =
     (case pending m of
        [] \<Rightarrow> m
      | k # ks \<Rightarrow>
          let handler = (case registered_handlers m k of None \<Rightarrow> None | Some h \<Rightarrow> h);
              m = m\<lparr>pending := ks, registered_handlers := (registered_handlers m)(k := Some handler)\<rparr> in
          (case handler of
             None \<Rightarrow> m\<lparr>null_called := True\<rparr>
           | Some h \<Rightarrow> m\<lparr>handled := handled m @ [(k, h)]\<rparr>))"

datatype iarm_op = Iarm_Register iarm_event "nat option" bool | Iarm_Remove iarm_event "nat option" bool | Iarm_Event iarm_event | Iarm_Handle

primrec iarm_step :: "iarm_op \<Rightarrow> iarm \<Rightarrow> iarm" where
  "iarm_step (Iarm_Register k h ok) m = RegisterLockedIarmEventHandler k h ok m"
| "iarm_step (Iarm_Remove k h ok) m = snd (RemoveLockedEventHandler k h ok m)"
| "iarm_step (Iarm_Event k) m = bus_event k m"
| "iarm_step Iarm_Handle m = generic_iarm_handler m"

text \<open>The contract: a table of handlers, and an event goes to the handler that is registered for it when it is handled.\<close>

fun spec_step :: "iarm_op \<Rightarrow> (iarm_event \<Rightarrow> nat option) \<times> iarm_event list \<times> (iarm_event \<times> nat) list \<Rightarrow>
    (iarm_event \<Rightarrow> nat option) \<times> iarm_event list \<times> (iarm_event \<times> nat) list" where
  "spec_step (Iarm_Register k h _) (t, p, out) = (t(k := h), p, out)"
| "spec_step (Iarm_Remove k _ _) (t, p, out) = (t(k := None), p, out)"
| "spec_step (Iarm_Event k) (t, p, out) = (t, if t k = None then p else p @ [k], out)"
| "spec_step Iarm_Handle (t, [], out) = (t, [], out)"
| "spec_step Iarm_Handle (t, k # p, out) = (t, p, out @ [(k, the (t k))])"

text \<open>The bus does what it is asked, no null pointer is registered, and no handler is removed while an event for it waits.\<close>

fun orderly :: "iarm_op \<Rightarrow> iarm \<Rightarrow> bool" where
  "orderly (Iarm_Register k h ok) m = (ok \<and> h \<noteq> None)"
| "orderly (Iarm_Remove k h ok) m = (ok \<and> k \<notin> set (pending m))"
| "orderly _ m = True"

definition iarm_abs :: "iarm \<Rightarrow> (iarm_event \<Rightarrow> nat option) \<times> iarm_event list \<times> (iarm_event \<times> nat) list" where
  "iarm_abs m = (\<lambda>k. Option.bind (registered_handlers m k) id, pending m, handled m)"

definition iarm_ok :: "iarm \<Rightarrow> bool" where
  "iarm_ok m \<longleftrightarrow> \<not> null_called m \<and> bus_handlers m = {k. registered_handlers m k \<noteq> None} \<and>
     (\<forall>k. registered_handlers m k \<noteq> Some None) \<and> set (pending m) \<subseteq> bus_handlers m"

lemma iarm_step_ok:
  assumes "iarm_ok m" and "orderly e m"
  shows "iarm_ok (iarm_step e m) \<and> iarm_abs (iarm_step e m) = spec_step e (iarm_abs m)"
proof (cases e)
  case (Iarm_Register k h ok)
  with assms show ?thesis
    by (auto simp: iarm_ok_def iarm_abs_def RegisterLockedIarmEventHandler_def fun_eq_iff)
next
  case (Iarm_Remove k h ok)
  with assms show ?thesis
    by (auto simp: iarm_ok_def iarm_abs_def RemoveLockedEventHandler_def fun_eq_iff)
next
  case (Iarm_Event k)
  with assms show ?thesis
    by (cases "registered_handlers m k"; cases "the (registered_handlers m k)")
      (auto simp: iarm_ok_def iarm_abs_def bus_event_def simp del: split_paired_All)
next
  case Iarm_Handle
  show ?thesis
  proof (cases "pending m")
    case Nil
    with Iarm_Handle assms show ?thesis by (simp add: iarm_abs_def generic_iarm_handler_def)
  next
    case (Cons k ks)
    with assms have "registered_handlers m k \<noteq> None" "registered_handlers m k \<noteq> Some None"
      by (auto simp: iarm_ok_def simp del: split_paired_All)
    then obtain h where h: "registered_handlers m k = Some (Some h)" by (cases "registered_handlers m k") auto
    then have "(registered_handlers m)(k \<mapsto> Some h) = registered_handlers m" by (simp add: fun_upd_idem)
    with h Iarm_Handle Cons assms(1) show ?thesis
      by (auto simp: iarm_ok_def iarm_abs_def generic_iarm_handler_def simp del: split_paired_All)
  qed
qed

lemma iarm_run:
  "iarm_ok m \<Longrightarrow> \<forall>i < length es. orderly (es ! i) (fold iarm_step (take i es) m) \<Longrightarrow>
   iarm_ok (fold iarm_step es m) \<and> iarm_abs (fold iarm_step es m) = fold spec_step es (iarm_abs m)"
proof (induction es arbitrary: m)
  case (Cons e es)
  have o: "orderly e m" using Cons(3)[rule_format, of 0] by simp
  have "\<forall>i < length es. orderly (es ! i) (fold iarm_step (take i es) (iarm_step e m))"
  proof (intro allI impI)
    fix i assume "i < length es"
    then show "orderly (es ! i) (fold iarm_step (take i es) (iarm_step e m))" using Cons(3)[rule_format, of "Suc i"] by simp
  qed
  with Cons(1)[of "iarm_step e m"] iarm_step_ok[OF Cons(2) o] show ?case by simp
qed simp

text \<open>Through registrations, removals, events and their handling in any order, the generic handler refines the table: each event is given
  to the handler registered for it at that moment, and no null pointer is called, as long as the bus does what it is asked and no handler is
  removed while an event for it waits for the lock.\<close>
theorem iarm_handlers_refine:
  assumes "\<forall>i < length es. orderly (es ! i) (fold iarm_step (take i es) iarm_init)"
  shows "\<not> null_called (fold iarm_step es iarm_init) \<and>
    iarm_abs (fold iarm_step es iarm_init) = fold spec_step es ((\<lambda>_. None), [], [])"
proof -
  have "iarm_ok iarm_init" by (simp add: iarm_ok_def iarm_init_def)
  from iarm_run[OF this assms] show ?thesis by (simp add: iarm_ok_def iarm_abs_def iarm_init_def)
qed

lemma iarm_handlers_refine_witness:
  "handled (fold iarm_step [Iarm_Register (''a'', 1) (Some 7) True, Iarm_Event (''a'', 1), Iarm_Handle] iarm_init) = [((''a'', 1), 7)]"
proof -
  let ?es = "[Iarm_Register (''a'', 1) (Some 7) True, Iarm_Event (''a'', 1), Iarm_Handle]"
  have "\<forall>i < length ?es. orderly (?es ! i) (fold iarm_step (take i ?es) iarm_init)"
    by (auto simp: less_Suc_eq)
  from iarm_handlers_refine[OF this] show ?thesis by (simp add: iarm_abs_def)
qed

text \<open>An event that waits for the lock while its handler is removed calls a null pointer.\<close>

lemma iarm_removed_while_waiting:
  "null_called (fold iarm_step [Iarm_Register k (Some h) True, Iarm_Event k, Iarm_Remove k (Some h) True, Iarm_Handle] iarm_init)"
  by (simp add: iarm_init_def RegisterLockedIarmEventHandler_def bus_event_def RemoveLockedEventHandler_def
      generic_iarm_handler_def)

end
