(* ===== verification/Utils_Files.thy ===== *)
theory Utils_Files
  imports Json Utils_Strings
begin

text \<open>
  The helpers for files and processes: \<^verbatim>\<open>UtilsFile.h\<close> (\<^verbatim>\<open>MoveFile\<close>, \<^verbatim>\<open>getLastLine\<close>),
  \<^verbatim>\<open>UtilssyncPersistFile.h\<close> (\<^verbatim>\<open>persistJsonSettings\<close>) and \<^verbatim>\<open>UtilsProcess.h\<close>.  Files belong to the framework: what
  its calls answer is a parameter (\<open>file_lib\<close>); a disk maps paths to contents.
\<close>

section \<open>Moving a file\<close>

text \<open>
  \<open>fl_read i n\<close>: how many of the \<open>n\<close> bytes left the i-th read gives (never more than are left or than the buffer takes;
  nothing at the end of the file, or on an error); \<open>fl_write i n\<close>: how many of the \<open>n\<close> bytes offered the i-th write takes, none
  on an error.
\<close>

type_synonym bytes = "8 word list"

record file_lib =
  fl_open :: "string \<Rightarrow> bool"
  fl_create :: "string \<Rightarrow> bool"
  fl_destroy :: "string \<Rightarrow> bool"
  fl_read :: "nat \<Rightarrow> nat \<Rightarrow> nat"
  fl_write :: "nat \<Rightarrow> nat \<Rightarrow> nat"

record disk =
  disk_files :: "string \<Rightarrow> bytes option"
  made_paths :: "string list"

definition bufLen :: nat where "bufLen = 1024"

text \<open>The inner loop: writing the block read, piece by piece.\<close>

function write_loop :: "(nat \<Rightarrow> nat \<Rightarrow> nat) \<Rightarrow> nat \<Rightarrow> bytes \<Rightarrow> bytes \<Rightarrow> bool \<times> nat \<times> bytes" where
  "write_loop wr i ptr out =
     (let n = min (wr i (length ptr)) (length ptr) in
      if n = 0 then (False, Suc i, out)
      else if drop n ptr = [] then (True, Suc i, out @ take n ptr)
      else write_loop wr (Suc i) (drop n ptr) (out @ take n ptr))"
  by pat_completeness auto

termination
  by (relation "measure (\<lambda>(_, _, ptr, _). length ptr)") auto

declare write_loop.simps [simp del]

function copy_loop :: "file_lib \<Rightarrow> nat \<Rightarrow> nat \<Rightarrow> bytes \<Rightarrow> bytes \<Rightarrow> bool \<times> bytes" where
  "copy_loop lib i j rest out =
     (let len = min (fl_read lib i (length rest)) (min bufLen (length rest)) in
      if len = 0 then (True, out)
      else
        (case write_loop (fl_write lib) j (take len rest) out of
           (False, _, out) \<Rightarrow> (False, out)
         | (True, j, out) \<Rightarrow> copy_loop lib (Suc i) j (drop len rest) out))"
  by pat_completeness auto

termination
  by (relation "measure (\<lambda>(_, _, _, rest, _). length rest)") auto

declare copy_loop.simps [simp del]

definition PathName :: "string \<Rightarrow> string" where
  "PathName p = rev (dropWhile (\<lambda>c. c \<noteq> CHR ''/'') (rev p))"

definition file_Destroy :: "file_lib \<Rightarrow> string \<Rightarrow> disk \<Rightarrow> disk" where
  "file_Destroy lib p d = (if fl_destroy lib p then d\<lparr>disk_files := (disk_files d)(p := None)\<rparr> else d)"

definition MoveFile :: "file_lib \<Rightarrow> string \<Rightarrow> string \<Rightarrow> disk \<Rightarrow> bool \<times> disk" where
  "MoveFile lib from to d =
     (let d = d\<lparr>made_paths := made_paths d @ [PathName to]\<rparr> in
      case disk_files d from of
        None \<Rightarrow> (False, d)
      | Some content \<Rightarrow>
          (if disk_files d to \<noteq> None \<or> \<not> fl_open lib from \<or> \<not> fl_create lib to then (False, d)
           else
             let (result, out) = copy_loop lib 0 0 content [];
                 d = d\<lparr>disk_files := (disk_files d)(to \<mapsto> out)\<rparr> in
             (result, if result then file_Destroy lib from d else file_Destroy lib to d)))"

lemma write_loop_result:
  "ptr \<noteq> [] \<Longrightarrow> write_loop wr i ptr out = (ok, j, out') \<Longrightarrow>
     (ok \<longrightarrow> out' = out @ ptr) \<and> ((\<forall>i n. 0 < n \<longrightarrow> 0 < wr i n) \<longrightarrow> ok)"
proof (induction wr i ptr out arbitrary: ok j out' rule: write_loop.induct)
  case (1 wr i ptr out)
  let ?n = "min (wr i (length ptr)) (length ptr)"
  show ?case
  proof (cases "?n = 0 \<or> drop ?n ptr = []")
    case True
    then show ?thesis using 1(2,3) by (auto simp: write_loop.simps[of wr i ptr out] Let_def min_def split: if_splits)
  next
    case False
    with 1(3) have "write_loop wr (Suc i) (drop ?n ptr) (out @ take ?n ptr) = (ok, j, out')"
      by (simp add: write_loop.simps[of wr i ptr out] Let_def)
    from 1(1)[OF refl _ _ _ this] False show ?thesis by (metis append.assoc append_take_drop_id)
  qed
qed

text \<open>The copy is a prefix; it is all, unless a read fails; it succeeds unless a write fails.\<close>

lemma copy_loop_result:
  "copy_loop lib i j rest out = (ok, out') \<Longrightarrow>
     (ok \<longrightarrow> (\<exists>k. out' = out @ take k rest) \<and> ((\<forall>i n. 0 < n \<longrightarrow> 0 < fl_read lib i n) \<longrightarrow> out' = out @ rest)) \<and>
     ((\<forall>i n. 0 < n \<longrightarrow> 0 < fl_write lib i n) \<longrightarrow> ok)"
proof (induction lib i j rest out arbitrary: ok out' rule: copy_loop.induct)
  case (1 lib i j rest out)
  define len where "len = min (fl_read lib i (length rest)) (min bufLen (length rest))"
  show ?case
  proof (cases "len = 0")
    case True
    then have "ok \<and> out' = out" using 1(2) by (simp add: copy_loop.simps[of lib i j rest out] len_def)
    moreover have "rest = []" if "\<forall>i n. 0 < n \<longrightarrow> 0 < fl_read lib i n"
      using True that[rule_format, of "length rest" i] by (auto simp: len_def bufLen_def min_def split: if_splits)
    ultimately show ?thesis by (auto intro: exI[of _ 0])
  next
    case False
    obtain ok1 j1 out1 where w: "write_loop (fl_write lib) j (take len rest) out = (ok1, j1, out1)" by (metis prod.exhaust)
    have "take len rest \<noteq> []" using False by (simp add: len_def)
    note w1 = write_loop_result[OF this w]
    show ?thesis
    proof (cases ok1)
      case False
      with w 1(2) \<open>len \<noteq> 0\<close> w1 show ?thesis
        by (auto simp: copy_loop.simps[of lib i j rest out] simp flip: len_def)
    next
      case True
      have c: "copy_loop lib (Suc i) j1 (drop len rest) out1 = (ok, out')"
        using w 1(2) \<open>len \<noteq> 0\<close> True by (simp add: copy_loop.simps[of lib i j rest out] Let_def flip: len_def)
      have t: "out @ take len rest @ take k (drop len rest) = out @ take (len + k) rest" for k by (simp add: take_add)
      have "write_loop (fl_write lib) j (take len rest) out = (True, j1, out1)" using w True by simp
      from 1(1)[OF len_def False this[symmetric] refl refl c] w1 True show ?thesis
        by (metis t append.assoc append_take_drop_id)
    qed
  qed
qed

definition plain_files :: file_lib where
  "plain_files = \<lparr>fl_open = (\<lambda>_. True), fl_create = (\<lambda>_. True), fl_destroy = (\<lambda>_. True), fl_read = (\<lambda>_ n. n), fl_write = (\<lambda>_ n. n)\<rparr>"


text \<open>A read that fails after the first block loses the rest: the move succeeds and the source is destroyed.\<close>

lemma MoveFile_loses:
  assumes "disk_files d from = Some content" and "disk_files d to = None" and "bufLen < length content"
  defines "lib \<equiv> plain_files\<lparr>fl_read := \<lambda>i n. if i = 0 then n else 0\<rparr>"
  shows "fst (MoveFile lib from to d) \<and> disk_files (snd (MoveFile lib from to d)) = (disk_files d)(to \<mapsto> take bufLen content, from := None)"
proof -
  have n: "take bufLen content \<noteq> []" "min (length content) (min bufLen (length content)) = bufLen" "bufLen \<noteq> 0"
    using assms(3) by (auto simp: bufLen_def)
  have "write_loop (\<lambda>_ n. n) 0 (take bufLen content) [] = (True, 1, take bufLen content)"
    using assms(3) by (auto simp: write_loop.simps Let_def bufLen_def)
  moreover have "copy_loop lib 1 1 rest out = (True, out)" for rest out
    by (simp add: copy_loop.simps lib_def)
  ultimately have "copy_loop lib 0 0 content [] = (True, take bufLen content)"
    using n by (subst copy_loop.simps) (simp add: lib_def plain_files_def Let_def)
  then show ?thesis using assms(1,2) by (simp add: MoveFile_def file_Destroy_def lib_def plain_files_def)
qed

section \<open>The last line\<close>

definition newline_char :: char where "newline_char = CHR 0x0A"

text \<open>\<^verbatim>\<open>getline\<close> until it fails: a last piece that is empty is not a line.\<close>

fun text_lines :: "string \<Rightarrow> string \<Rightarrow> string list" where
  "text_lines acc [] = (if acc = [] then [] else [acc])"
| "text_lines acc (c # cs) = (if c = newline_char then acc # text_lines [] cs else text_lines (acc @ [c]) cs)"

definition last_line_step :: "string \<Rightarrow> bool \<times> string \<Rightarrow> bool \<times> string" where
  "last_line_step read_line r = (if read_line \<noteq> [] then (True, read_line) else r)"

definition getLastLine :: "string \<Rightarrow> string \<Rightarrow> bool \<times> string" where
  "getLastLine input res_str =
     (if input = [] then (False, res_str) else fold last_line_step (text_lines [] input) (False, res_str))"

text \<open>Which text is the last line of \<open>s\<close>.\<close>

definition is_last_line :: "string \<Rightarrow> string \<Rightarrow> bool" where
  "is_last_line s line \<longleftrightarrow> line \<noteq> [] \<and> newline_char \<notin> set line \<and>
     (\<exists>pre post. s = pre @ line @ post \<and> set post \<subseteq> {newline_char} \<and> (pre = [] \<or> last pre = newline_char))"

lemma fold_last_line:
  "fold last_line_step ls r = (if \<forall>l \<in> set ls. l = [] then r else (True, last (filter (\<lambda>l. l \<noteq> []) ls)))"
  by (induction ls arbitrary: r) (auto simp: last_line_step_def filter_empty_conv)

lemma is_last_line_prefix:
  "is_last_line cs line \<Longrightarrow> is_last_line (acc @ newline_char # cs) line"
  unfolding is_last_line_def
proof (elim conjE exE, intro conjI)
  fix pre post
  assume "cs = pre @ line @ post" "set post \<subseteq> {newline_char}" "pre = [] \<or> last pre = newline_char"
  then show "\<exists>pre post. acc @ newline_char # cs = pre @ line @ post \<and> set post \<subseteq> {newline_char} \<and> (pre = [] \<or> last pre = newline_char)"
    by (intro exI[of _ "acc @ newline_char # pre"] exI[of _ post]) (auto simp: last_append)
qed

lemma text_lines_end:
  "newline_char \<notin> set acc \<Longrightarrow>
   ((\<forall>l \<in> set (text_lines acc s). l = []) = (set (acc @ s) \<subseteq> {newline_char})) \<and>
   ((\<exists>l \<in> set (text_lines acc s). l \<noteq> []) \<longrightarrow> is_last_line (acc @ s) (last (filter (\<lambda>l. l \<noteq> []) (text_lines acc s))))"
proof (induction acc s rule: text_lines.induct)
  case (1 acc)
  then show ?case by (cases acc) (auto simp: is_last_line_def intro!: exI[of _ "[]"])
next
  case (2 acc c cs)
  show ?case
  proof (cases "c = newline_char")
    case True
    have IH: "(\<forall>l \<in> set (text_lines [] cs). l = []) = (set cs \<subseteq> {newline_char})"
      "(\<exists>l \<in> set (text_lines [] cs). l \<noteq> []) \<Longrightarrow> is_last_line cs (last (filter (\<lambda>l. l \<noteq> []) (text_lines [] cs)))"
      using 2(1)[OF True] by simp_all
    have "acc \<noteq> [] \<Longrightarrow> \<not> set acc \<subseteq> {newline_char}" using 2(3) by (cases acc) auto
    moreover have "is_last_line (acc @ c # cs) acc" if "acc \<noteq> []" "set cs \<subseteq> {newline_char}"
      using that True 2(3) unfolding is_last_line_def by (intro conjI exI[of _ "[]"] exI[of _ "c # cs"]) auto
    ultimately show ?thesis
      using True IH is_last_line_prefix[of cs _ acc]
      by (cases "\<forall>l \<in> set (text_lines [] cs). l = []"; cases "acc = []") (auto simp: filter_empty_conv)
  next
    case False
    with 2(2,3) show ?thesis by simp
  qed
qed

text \<open>The last line of a text: a piece without newlines that starts a line and that only newlines follow; there is none exactly if
  the text has nothing but newlines, and then the argument stays.\<close>
theorem getLastLine_spec:
  "if set input \<subseteq> {newline_char} then getLastLine input res_str = (False, res_str)
   else \<exists>line. getLastLine input res_str = (True, line) \<and> is_last_line input line"
proof (cases "\<forall>l \<in> set (text_lines [] input). l = []")
  case True
  with text_lines_end[of "[]" input] show ?thesis by (simp add: getLastLine_def fold_last_line)
next
  case False
  then have "input \<noteq> []" by auto
  with False text_lines_end[of "[]" input] show ?thesis by (auto simp: getLastLine_def fold_last_line)
qed

text \<open>The description promises what \<^verbatim>\<open>tr -s '\r' '\n' | tail -n 1\<close> does, but a carriage return ends no line.\<close>

lemma getLastLine_keeps_cr:
  "getLastLine (''a'' @ [CHR 0x0D] @ ''b'') [] = (True, ''a'' @ [CHR 0x0D] @ ''b'')"
  by (simp add: getLastLine_def last_line_step_def newline_char_def)

section \<open>Settings as JSON in a file\<close>

text \<open>
  The states of the file during a call (\<open>None\<close>: there is no file): after opening or creating it, after it is destroyed, after it is created
  again, after the object is written.  \<open>opens\<close> and \<open>creates\<close>: whether the file can be opened, and created.
\<close>

definition persistJsonSettings ::
  "json_lib \<Rightarrow> bool \<Rightarrow> bool \<Rightarrow> string \<Rightarrow> json \<Rightarrow> string option \<Rightarrow> string option list" where
  "persistJsonSettings lib opens creates strKey jsValue content =
     (let opened = (content \<noteq> None \<and> opens);
          content1 = (if opened then content else if creates then Some [] else content);
          cecSetting = (if opened \<or> creates then js_FromString lib (the content1) else []);
          cecSetting1 = jset (cstr strKey) jsValue cecSetting in
      [content1, None] @ (if creates then [Some [], Some (js_ToString lib cecSetting1)] else [None]))"

definition persist_all :: "json_lib \<Rightarrow> (string \<times> string) list \<Rightarrow> string option \<Rightarrow> string option" where
  "persist_all lib kvs content = fold (\<lambda>(k, v) c. last (persistJsonSettings lib True True k (JString v) c)) kvs content"

lemma string_object_update: "string_object ob \<Longrightarrow> string_object (jset k (JString v) ob)"
  by (induction ob) (auto simp: string_object_def)

lemma persist_one:
  assumes "json_faithful lib" and "js_FromString lib [] = []" and "string_object (case content of None \<Rightarrow> [] | Some t \<Rightarrow> js_FromString lib t)"
  shows "last (persistJsonSettings lib True True k (JString v) content) =
      Some (js_ToString lib (jset (cstr k) (JString v) (case content of None \<Rightarrow> [] | Some t \<Rightarrow> js_FromString lib t)))"
  using assms by (auto simp: persistJsonSettings_def Let_def split: option.split)

text \<open>Settings persisted one after the other, starting without a file or with one that holds strings, are those found in it
  afterwards: each key has the value persisted last, the others are as before.  But every call passes through a state in which there
  is no file at all, so that a loss of power there loses all settings.\<close>
theorem settings_survive:
  assumes "json_faithful lib" and "js_FromString lib [] = []" and "string_object (case content of None \<Rightarrow> [] | Some t \<Rightarrow> js_FromString lib t)"
  shows "(case persist_all lib kvs content of None \<Rightarrow> [] | Some t \<Rightarrow> js_FromString lib t) =
      fold (\<lambda>(k, v). jset (cstr k) (JString v)) kvs (case content of None \<Rightarrow> [] | Some t \<Rightarrow> js_FromString lib t) \<and>
    None \<in> set (persistJsonSettings lib opens creates key jsv content)"
proof (rule conjI)
  show "(case persist_all lib kvs content of None \<Rightarrow> [] | Some t \<Rightarrow> js_FromString lib t) =
      fold (\<lambda>(k, v). jset (cstr k) (JString v)) kvs (case content of None \<Rightarrow> [] | Some t \<Rightarrow> js_FromString lib t)"
    using assms(3)
  proof (induction kvs arbitrary: content)
    case (Cons kv kvs)
    obtain k v where kv: "kv = (k, v)" by force
    let ?ob = "jset (cstr k) (JString v) (case content of None \<Rightarrow> [] | Some t \<Rightarrow> js_FromString lib t)"
    have s: "string_object ?ob" using Cons(2) by (rule string_object_update)
    then have f: "js_FromString lib (js_ToString lib ?ob) = ?ob" using assms(1) by (simp add: json_faithful_def)
    from Cons(1)[of "Some (js_ToString lib ?ob)"] persist_one[OF assms(1,2) Cons(2), of k v] s f kv
    show ?case by (simp add: persist_all_def)
  qed (simp add: persist_all_def)
  show "None \<in> set (persistJsonSettings lib opens creates key jsv content)"
    by (simp add: persistJsonSettings_def Let_def)
qed

lemma settings_survive_witness:
  "(case persist_all text_json [(''a'', ''1''), (''a'', ''2'')] None of None \<Rightarrow> [] | Some t \<Rightarrow> js_FromString text_json t) =
     [(''a'', JString ''2'')]"
proof -
  have "js_FromString text_json [] = []" by (simp add: text_json_def)
  from settings_survive[OF text_json_faithful this, of None "[(''a'', ''1''), (''a'', ''2'')]"]
  show ?thesis by (simp add: string_object_def cstr_def nul_def)
qed

section \<open>Processes\<close>

text \<open>\<open>None\<close>: the table of processes cannot be opened.  \<open>kills tid\<close>: whether the signal can be sent.\<close>

record process =
  tid :: int
  ppid :: int
  cmd :: string

definition killProcess :: "(int \<Rightarrow> bool) \<Rightarrow> process list option \<Rightarrow> string \<Rightarrow> bool \<times> int list" where
  "killProcess kills procs input_pname =
     (case procs of
        None \<Rightarrow> (False, [])
      | Some ps \<Rightarrow> fold (\<lambda>p (ret, sent). if cmd p = input_pname \<and> kills (tid p) then (True, sent @ [tid p]) else (ret, sent)) ps (False, []))"

definition getChildProcessIDs :: "process list option \<Rightarrow> int \<Rightarrow> int list \<Rightarrow> bool \<times> int list" where
  "getChildProcessIDs procs input_ppid processIds =
     (case procs of
        None \<Rightarrow> (False, processIds)
      | Some ps \<Rightarrow> fold (\<lambda>p (ret, ids). if ppid p = input_ppid then (True, ids @ [tid p]) else (ret, ids)) ps (False, processIds))"

lemma fold_collect:
  "fold (\<lambda>p (ret, ids). if P p then (True, ids @ [g p]) else (ret, ids)) ps (r, out) =
     (r \<or> filter P ps \<noteq> [], out @ map g (filter P ps))"
  by (induction ps arbitrary: r out) auto

text \<open>Every process of that name that can be signalled is, once, in the order of the table; all children are listed.\<close>

lemma process_helpers:
  "killProcess kills (Some ps) name =
     (\<exists>p \<in> set ps. cmd p = name \<and> kills (tid p), map tid (filter (\<lambda>p. cmd p = name \<and> kills (tid p)) ps)) \<and>
   getChildProcessIDs (Some ps) parent ids =
     (\<exists>p \<in> set ps. ppid p = parent, ids @ map tid (filter (\<lambda>p. ppid p = parent) ps))"
  by (simp add: killProcess_def getChildProcessIDs_def fold_collect filter_empty_conv Bex_def)

end
