(* ===== verification/Utils_Access.thy ===== *)
theory Utils_Access
  imports Json "HOL-Library.Word"
begin

text \<open>
  How plugins reach each other and the bus: \<^verbatim>\<open>helpers/UtilsController.h\<close> (the security token, states and activation of
  plugins), \<^verbatim>\<open>helpers/UtilsJsonrpcDirectLink.h\<close> (calls to a dispatcher in the process) and \<^verbatim>\<open>helpers/UtilsIarm.h\<close> (connecting to
  IARM).  What curl, the security agent, the framework and the bus answer are arguments.
\<close>

section \<open>The security token\<close>

text \<open>
  The request for the configuration of the controller: whether the handle and its options could be set up, whether the request was carried
  out, the code of the response (0 if it could not be had), the text of the response.
\<close>

record curl_answer =
  curl_ready :: bool
  curl_performed :: bool
  http_code :: int
  json_response :: string

definition isThunderSecurityConfigured :: "json_lib \<Rightarrow> curl_answer \<Rightarrow> bool" where
  "isThunderSecurityConfigured lib c =
     (if \<not> curl_ready c then False
      else if curl_performed c \<and> http_code c = 200
      then
        let responseJson = js_FromString lib (json_response c) in
        if HasLabel responseJson ''subsystems''
        then list_ex (\<lambda>subsystem. js_String lib subsystem = ''Security'') (js_Array lib (jget responseJson ''subsystems''))
        else False
      else False)"

text \<open>The static variables, and how often the library was asked for a token.\<close>

record token_state =
  sToken :: string
  sThunderSecurityChecked :: bool
  tokens_asked :: nat

definition token_init :: token_state where
  "token_init = \<lparr>sToken = [], sThunderSecurityChecked = False, tokens_asked = 0\<rparr>"

text \<open>\<open>answer\<close>: what \<^verbatim>\<open>GetSecurityToken\<close> returns, and the text in its buffer.  If it fails the argument is not assigned.\<close>

definition getSecurityToken ::
  "json_lib \<Rightarrow> curl_answer \<Rightarrow> int \<times> string \<Rightarrow> string \<Rightarrow> token_state \<Rightarrow> string \<times> token_state" where
  "getSecurityToken lib c answer token s =
     (if sThunderSecurityChecked s then (sToken s, s)
      else
        let s = s\<lparr>sThunderSecurityChecked := True\<rparr> in
        if \<not> isThunderSecurityConfigured lib c then (sToken s, s)
        else
          let s = s\<lparr>tokens_asked := tokens_asked s + 1\<rparr>; (ret, buffer) = answer in
          if ret < 0 then (token, s) else (buffer, s\<lparr>sToken := buffer\<rparr>))"

text \<open>The query with which a client of the controller is made.\<close>

definition client_query :: "json_lib \<Rightarrow> curl_answer \<Rightarrow> int \<times> string \<Rightarrow> token_state \<Rightarrow> string \<times> token_state" where
  "client_query lib c answer s = apfst (\<lambda>token. ''token='' @ token) (getSecurityToken lib c answer [] s)"

fun client_queries :: "json_lib \<Rightarrow> (curl_answer \<times> int \<times> string) list \<Rightarrow> token_state \<Rightarrow> string list \<times> token_state" where
  "client_queries lib [] s = ([], s)"
| "client_queries lib ((c, answer) # cs) s =
     (let (q, s) = client_query lib c answer s; (qs, s) = client_queries lib cs s in (q # qs, s))"

text \<open>\<^verbatim>\<open>GetThunderSecurityToken\<close> of the direct link: \<open>None\<close> if there is no security agent, else its result and what it left in the
  string.\<close>

definition GetThunderSecurityToken :: "(hresult \<times> string) option \<Rightarrow> string \<Rightarrow> hresult \<times> string" where
  "GetThunderSecurityToken security token =
     (case security of
        None \<Rightarrow> (ERROR_NONE, token)
      | Some (r, text) \<Rightarrow> if r = ERROR_NONE then (ERROR_NONE, text) else (ERROR_GENERAL, text))"

record link_token =
  sThunderSecurityToken :: string
  sThunderSecurityTokenAcquired :: bool

definition GetThunderControllerClient :: "(hresult \<times> string) option \<Rightarrow> link_token \<Rightarrow> string \<times> link_token" where
  "GetThunderControllerClient security s =
     (let s = (if \<not> sThunderSecurityTokenAcquired s
            then (let (r, t) = GetThunderSecurityToken security (sThunderSecurityToken s) in
                  s\<lparr>sThunderSecurityToken := t, sThunderSecurityTokenAcquired := (r = ERROR_NONE)\<rparr>)
            else s) in
      (sThunderSecurityToken s, s))"

fun link_tokens :: "(hresult \<times> string) option list \<Rightarrow> link_token \<Rightarrow> string list" where
  "link_tokens [] s = []"
| "link_tokens (a # as) s = (let (t, s) = GetThunderControllerClient a s in t # link_tokens as s)"

lemma queries_checked:
  "sThunderSecurityChecked s \<Longrightarrow> client_queries lib cs s = (replicate (length cs) (''token='' @ sToken s), s)"
  by (induction cs) (auto simp: client_query_def getSecurityToken_def)

text \<open>The text that the first client gets.\<close>

definition first_token :: "json_lib \<Rightarrow> curl_answer \<times> int \<times> string \<Rightarrow> string" where
  "first_token lib = (\<lambda>(c, ret, buffer). if isThunderSecurityConfigured lib c \<and> 0 \<le> ret then buffer else [])"

definition token_settled :: "(hresult \<times> string) option \<Rightarrow> bool" where
  "token_settled a = (case a of None \<Rightarrow> True | Some (r, _) \<Rightarrow> r = ERROR_NONE)"

definition answered :: "(hresult \<times> string) option \<Rightarrow> string \<Rightarrow> string" where
  "answered a t = (case a of None \<Rightarrow> t | Some (_, text) \<Rightarrow> text)"

lemma client_once:
  "GetThunderControllerClient a \<lparr>sThunderSecurityToken = t, sThunderSecurityTokenAcquired = False\<rparr> =
     (answered a t, \<lparr>sThunderSecurityToken = answered a t, sThunderSecurityTokenAcquired = token_settled a\<rparr>)"
  by (auto simp: GetThunderControllerClient_def GetThunderSecurityToken_def answered_def token_settled_def split: option.split)

lemma tokens_acquired:
  "sThunderSecurityTokenAcquired s \<Longrightarrow> link_tokens as s = replicate (length as) (sThunderSecurityToken s)"
  by (induction as) (simp_all add: GetThunderControllerClient_def)

lemma link_tokens_fail:
  "\<forall>a \<in> set as. \<not> token_settled a \<Longrightarrow> k \<le> length as \<Longrightarrow>
   link_tokens (as @ b # bs) \<lparr>sThunderSecurityToken = t, sThunderSecurityTokenAcquired = False\<rparr> =
     map (\<lambda>a. answered a []) as @
       link_tokens (b # bs) \<lparr>sThunderSecurityToken = (if as = [] then t else answered (last as) []), sThunderSecurityTokenAcquired = False\<rparr>"
proof (induction as arbitrary: t k)
  case (Cons a as)
  then have "\<not> token_settled a" by simp
  then have a: "answered a t = answered a []" by (auto simp: token_settled_def answered_def split: option.splits)
  from Cons(2) Cons(1)[of 0 "answered a []"] \<open>\<not> token_settled a\<close> a show ?case
    by (cases "as = []") (simp_all add: client_once)
qed simp

text \<open>
  The two ways to a token.  Clients made with a link all get the token of the first try: whatever comes later, the library is asked at
  most once, and when that fails every later client goes without a token.  A direct link tries again until the agent
  gives a token or is not there; from then on all links use that token, an empty one included.
\<close>
theorem tokens_cached:
  assumes "\<forall>a \<in> set as. \<not> token_settled a" and "token_settled b"
  shows "fst (client_queries lib (c # cs) token_init) = replicate (Suc (length cs)) (''token='' @ first_token lib c) \<and>
    tokens_asked (snd (client_queries lib (c # cs) token_init)) \<le> 1 \<and>
    link_tokens (as @ b # bs) \<lparr>sThunderSecurityToken = [], sThunderSecurityTokenAcquired = False\<rparr> =
      map (\<lambda>a. answered a []) as @
      replicate (Suc (length bs)) (answered b (if as = [] then [] else answered (last as) []))"
proof -
  obtain cu ret buffer where c: "c = (cu, ret, buffer)" by (metis prod.exhaust)
  define s where "s = snd (client_query lib cu (ret, buffer) token_init)"
  have s: "client_query lib cu (ret, buffer) token_init = (''token='' @ first_token lib c, s)" "sThunderSecurityChecked s"
    "sToken s = first_token lib c" "tokens_asked s \<le> 1"
    by (simp_all add: c s_def client_query_def getSecurityToken_def token_init_def first_token_def Let_def)
  then have "client_queries lib (c # cs) token_init = (replicate (Suc (length cs)) (''token='' @ first_token lib c), s)"
    by (simp add: c[symmetric] queries_checked) (simp add: c queries_checked)
  moreover have "link_tokens (b # bs) \<lparr>sThunderSecurityToken = t, sThunderSecurityTokenAcquired = False\<rparr> =
      replicate (Suc (length bs)) (answered b t)" for t
    using assms(2) by (simp add: client_once tokens_acquired)
  ultimately show ?thesis using s(4) link_tokens_fail[OF assms(1), of 0 b bs "[]"] by simp
qed

lemma tokens_cached_witness:
  "link_tokens [Some (ERROR_GENERAL, []), Some (ERROR_NONE, ''t''), None] \<lparr>sThunderSecurityToken = [], sThunderSecurityTokenAcquired = False\<rparr> =
     [[], ''t'', ''t'']"
  using tokens_cached[of "[Some (ERROR_GENERAL, [])]" "Some (ERROR_NONE, ''t'')" plain_json "(\<lparr>curl_ready = False, curl_performed = False, http_code = 0, json_response = []\<rparr>, 0, [])" "[]" "[None]"]
  by (simp add: token_settled_def answered_def)
section \<open>Calls to a dispatcher\<close>

text \<open>A link to the dispatcher of a plugin, and the calls made on it: channel, identifier, token, designator and parameters.\<close>

type_synonym dispatched = "32 word \<times> 32 word \<times> string \<times> string \<times> string"

record direct_link =
  mId :: "32 word"
  mCallSign :: string
  mThunderSecurityToken :: string
  mDispatcher :: bool
  dispatcher_refs :: int
  dispatched_calls :: "dispatched list"

definition JSONRPCDirectLink :: "bool \<Rightarrow> bool \<Rightarrow> string \<Rightarrow> string \<Rightarrow> direct_link" where
  "JSONRPCDirectLink service dispatcher callsign token =
     \<lparr>mId = 0, mCallSign = callsign, mThunderSecurityToken = token, mDispatcher = (service \<and> dispatcher),
      dispatcher_refs = (if service \<and> dispatcher then 1 else 0), dispatched_calls = []\<rparr>"

definition direct_link_destroy :: "direct_link \<Rightarrow> direct_link" where
  "direct_link_destroy l = (if mDispatcher l then l\<lparr>dispatcher_refs := dispatcher_refs l - 1\<rparr> else l)"

text \<open>
  \<open>parameters\<close>: their text unless they cannot be serialized; \<open>local\<close>: whether the dispatcher is in this process; \<open>answer\<close>: its
  result and response; \<open>parse\<close>: reading the response into the argument, with success or not.
\<close>

definition direct_Invoke ::
  "string \<Rightarrow> string option \<Rightarrow> bool \<Rightarrow> hresult \<times> string \<Rightarrow> ('r \<Rightarrow> string \<Rightarrow> bool \<times> 'r) \<Rightarrow> 'r \<Rightarrow> direct_link \<Rightarrow> hresult \<times> 'r \<times> direct_link" where
  "direct_Invoke name parameters local answer parse response l =
     (if \<not> mDispatcher l then (ERROR_GENERAL, response, l)
      else
        let l = l\<lparr>mId := mId l + 1\<rparr>; designator = mCallSign l @ ''.1.'' @ name in
        case parameters of
          None \<Rightarrow> (ERROR_GENERAL, response, l)
        | Some parametersStr \<Rightarrow>
            (if \<not> local then (ERROR_BAD_REQUEST, response, l)
             else
               let l = l\<lparr>dispatched_calls := dispatched_calls l @ [(- 1, mId l, mThunderSecurityToken l, designator, parametersStr)]\<rparr>;
                   (result, responseStr) = answer;
                   (ok, response) = parse response responseStr in
               (if ok then result else ERROR_GENERAL, response, l)))"

text \<open>A call with its circumstances, and a sequence of calls on one link.\<close>

record 'r link_call =
  lc_name :: string
  lc_parameters :: "string option"
  lc_local :: bool
  lc_answer :: "hresult \<times> string"
  lc_parse :: "'r \<Rightarrow> string \<Rightarrow> bool \<times> 'r"

definition link_invoke :: "'r link_call \<Rightarrow> 'r \<Rightarrow> direct_link \<Rightarrow> hresult \<times> 'r \<times> direct_link" where
  "link_invoke c = direct_Invoke (lc_name c) (lc_parameters c) (lc_local c) (lc_answer c) (lc_parse c)"

definition link_run :: "'r \<Rightarrow> 'r link_call list \<Rightarrow> direct_link \<Rightarrow> direct_link" where
  "link_run r cs l = fold (\<lambda>c l. snd (snd (link_invoke c r l))) cs l"

text \<open>The call that the dispatcher sees for the k-th call on a link.\<close>

definition seen_call :: "string \<Rightarrow> string \<Rightarrow> nat \<Rightarrow> 'r link_call \<Rightarrow> dispatched list" where
  "seen_call callsign token k c =
     (case lc_parameters c of
        Some p \<Rightarrow> if lc_local c then [(- 1, of_nat k, token, callsign @ ''.1.'' @ lc_name c, p)] else []
      | None \<Rightarrow> [])"

lemma invoke_effect:
  "mDispatcher l \<Longrightarrow> snd (snd (link_invoke c r l)) =
     l\<lparr>mId := mId l + 1,
       dispatched_calls := dispatched_calls l @
         (case lc_parameters c of
            Some p \<Rightarrow> if lc_local c then [(- 1, mId l + 1, mThunderSecurityToken l, mCallSign l @ ''.1.'' @ lc_name c, p)] else []
          | None \<Rightarrow> [])\<rparr>"
  by (simp add: link_invoke_def direct_Invoke_def Let_def split: option.split prod.split)

lemma link_run_calls:
  "mDispatcher l \<Longrightarrow> mId l = of_nat n \<Longrightarrow>
   dispatched_calls (link_run r cs l) =
     dispatched_calls l @ concat (map (\<lambda>(k, c). seen_call (mCallSign l) (mThunderSecurityToken l) k c) (zip [Suc n..<Suc (n + length cs)] cs))"
proof (induction cs arbitrary: l n)
  case (Cons c cs)
  let ?l = "snd (snd (link_invoke c r l))"
  have l: "mDispatcher ?l" "mId ?l = of_nat (Suc n)" "mCallSign ?l = mCallSign l" "mThunderSecurityToken ?l = mThunderSecurityToken l"
    using Cons(2,3) by (simp_all add: invoke_effect add.commute)
  have "dispatched_calls ?l = dispatched_calls l @ seen_call (mCallSign l) (mThunderSecurityToken l) (Suc n) c"
    using Cons(2,3) by (simp add: invoke_effect seen_call_def add.commute split: option.split)
  moreover have "[Suc n..<Suc (n + length (c # cs))] = Suc n # [Suc (Suc n)..<Suc (Suc n + length cs)]"
    by (subst upt_conv_Cons) (simp_all del: upt_Suc)
  ultimately show ?case using Cons(1)[OF l(1,2)] l(3,4) by (simp add: link_run_def del: upt_Suc)
qed (simp add: link_run_def)

text \<open>
  A call over a direct link answers success exactly if there is a dispatcher in this process, the parameters can be serialized, the method succeeds
  and its response can be read; and a response that cannot be read hides the error of the method.  The dispatcher sees the calls
  in order, with the token of the link and the designator of the plugin, under the number of the call (calls whose parameters
  fail included); the destructor gives the dispatcher back.
\<close>
theorem direct_link_calls:
  fixes l :: direct_link and c :: "'r link_call"
  assumes "l = JSONRPCDirectLink service dispatcher callsign token"
  shows "(case link_invoke c r (link_run r cs l) of (result, response, _) \<Rightarrow>
      result = (if \<not> (service \<and> dispatcher) \<or> lc_parameters c = None then ERROR_GENERAL
        else if \<not> lc_local c then ERROR_BAD_REQUEST
        else if fst (lc_parse c r (snd (lc_answer c))) then fst (lc_answer c) else ERROR_GENERAL)) \<and>
    dispatched_calls (link_run r cs l) =
      (if service \<and> dispatcher then concat (map (\<lambda>(k, c). seen_call callsign token k c) (zip [1..<Suc (length cs)] cs)) else []) \<and>
    dispatcher_refs (direct_link_destroy (link_run r cs l)) = 0"
proof -
  have d: "mDispatcher (link_run r cs l) = (service \<and> dispatcher) \<and> dispatcher_refs (link_run r cs l) = dispatcher_refs l"
  proof -
    have "mDispatcher (link_run r cs l') = mDispatcher l' \<and> dispatcher_refs (link_run r cs l') = dispatcher_refs l'" for l'
    proof (induction cs arbitrary: l')
      case (Cons c cs)
      have "mDispatcher (snd (snd (link_invoke c r l'))) = mDispatcher l' \<and>
          dispatcher_refs (snd (snd (link_invoke c r l'))) = dispatcher_refs l'"
        by (cases "mDispatcher l'") (simp_all add: invoke_effect, simp add: link_invoke_def direct_Invoke_def)
      with Cons show ?case by (simp add: link_run_def)
    qed (simp add: link_run_def)
    then show ?thesis by (simp add: assms JSONRPCDirectLink_def)
  qed
  have "dispatched_calls (link_run r cs l) = []" if "\<not> (service \<and> dispatcher)"
  proof -
    have "snd (snd (link_invoke c r l)) = l" for c :: "'r link_call"
      using that by (auto simp: assms link_invoke_def direct_Invoke_def JSONRPCDirectLink_def)
    then have "link_run r cs l = l" by (induction cs) (simp_all add: link_run_def)
    then show ?thesis by (simp add: assms JSONRPCDirectLink_def)
  qed
  moreover have "dispatched_calls (link_run r cs l) = concat (map (\<lambda>(k, c). seen_call callsign token k c) (zip [1..<Suc (length cs)] cs))"
    if "service \<and> dispatcher"
    using link_run_calls[of l 0 r cs] that unfolding One_nat_def by (simp add: assms JSONRPCDirectLink_def del: upt_Suc)
  moreover have "dispatcher_refs (direct_link_destroy (link_run r cs l)) = 0"
    using d by (auto simp: direct_link_destroy_def assms JSONRPCDirectLink_def)
  ultimately show ?thesis using d
    by (auto simp: link_invoke_def direct_Invoke_def Let_def split: option.split prod.split)
qed

lemma direct_link_calls_witness:
  "dispatched_calls (link_run () [\<lparr>lc_name = ''m'', lc_parameters = Some ''p'', lc_local = True, lc_answer = (ERROR_NONE, []), lc_parse = (\<lambda>r _. (True, r))\<rparr>]
      (JSONRPCDirectLink True True ''c'' ''t'')) = [(- 1, 1, ''t'', ''c.1.m'', ''p'')]"
  using direct_link_calls[OF refl, where cs = "[\<lparr>lc_name = ''m'', lc_parameters = Some ''p'', lc_local = True, lc_answer = (ERROR_NONE, []), lc_parse = (\<lambda>r _. (True, r))\<rparr>]"
      and r = "()" and service = True and dispatcher = True and callsign = "''c''" and token = "''t''"]
  by (simp add: seen_call_def)

section \<open>States and activation of plugins\<close>

text \<open>\<open>shell\<close>: the state of the plugin, or the result of activating it, if its shell can be had.  The count is that of the references taken on
  shells.\<close>

definition plugin_getServiceState :: "'s option \<Rightarrow> 's \<times> int \<Rightarrow> hresult \<times> 's \<times> int" where
  "plugin_getServiceState shell = (\<lambda>(state, refs).
     (case shell of
        None \<Rightarrow> (ERROR_UNAVAILABLE, state, refs)
      | Some st \<Rightarrow> (let refs = refs + 1 in (ERROR_NONE, st, refs - 1))))"

text \<open>The activation runs as a job of the worker pool, for which the caller waits: \<open>None\<close> is a caller that waits for ever, since
  no thread takes the job.\<close>

definition activatePlugin_job :: "hresult option \<Rightarrow> int \<Rightarrow> hresult \<times> int" where
  "activatePlugin_job shell refs =
     (case shell of
        None \<Rightarrow> (ERROR_UNAVAILABLE, refs)
      | Some r \<Rightarrow> (let refs = refs + 1 in (r, refs - 1)))"

definition activatePlugin :: "bool \<Rightarrow> hresult option \<Rightarrow> int \<Rightarrow> (hresult \<times> int) option" where
  "activatePlugin job_runs shell refs = (if job_runs then Some (activatePlugin_job shell refs) else None)"

section \<open>Connecting to IARM\<close>

datatype iarm_result = IARM_SUCCESS | IARM_INVALID_STATE | IARM_FAILURE

text \<open>What the bus answers to the k-th try: to \<^verbatim>\<open>IARM_Bus_Init\<close>, \<^verbatim>\<open>IARM_Bus_Connect\<close>, and whether the process is then registered.\<close>

record iarm_bus =
  bus_registered :: int
  bus_init :: "nat \<Rightarrow> iarm_result"
  bus_connect :: "nat \<Rightarrow> iarm_result"
  bus_connected :: "nat \<Rightarrow> int"

definition isConnected :: "int \<Rightarrow> bool" where
  "isConnected isRegistered = (isRegistered = 1)"

definition iarm_try :: "iarm_bus \<Rightarrow> nat \<Rightarrow> bool" where
  "iarm_try b k =
     (if bus_init b k \<noteq> IARM_FAILURE
      then (if bus_connect b k \<noteq> IARM_FAILURE then isConnected (bus_connected b k) else False)
      else False)"

text \<open>The loop from the try \<open>retryCount\<close> on: the result, the number of tries made, the sleeps in microseconds.\<close>

function iarm_loop :: "iarm_bus \<Rightarrow> nat \<Rightarrow> bool \<times> nat \<times> nat list" where
  "iarm_loop b retryCount =
     (if iarm_try b retryCount then (True, Suc retryCount, [])
      else
        let (result, tries, sleeps) = (if retryCount < 20 then iarm_loop b (Suc retryCount) else (False, Suc retryCount, [])) in
        (result, tries, 100000 # sleeps))"
  by pat_completeness auto

termination
  by (relation "measure (\<lambda>(_, k). 21 - k)") auto

declare iarm_loop.simps [simp del]

definition IARM_init :: "iarm_bus \<Rightarrow> bool \<times> nat \<times> nat list" where
  "IARM_init b = (if isConnected (bus_registered b) then (True, 0, []) else iarm_loop b 0)"

lemma iarm_loop_result:
  "k \<le> 20 \<Longrightarrow> iarm_loop b k =
     (case List.find (iarm_try b) [k..<21] of
        None \<Rightarrow> (False, 21, replicate (21 - k) 100000)
      | Some j \<Rightarrow> (True, Suc j, replicate (j - k) 100000))"
proof (induction b k rule: iarm_loop.induct)
  case (1 b k)
  have u: "[k..<21] = k # [Suc k..<21]" using 1(2) by (simp add: upt_conv_Cons)
  show ?case
  proof (cases "iarm_try b k")
    case True
    then show ?thesis by (simp add: iarm_loop.simps[of b k] u)
  next
    case False
    show ?thesis
    proof (cases "k < 20")
      case True
      then have IH: "iarm_loop b (Suc k) = (case List.find (iarm_try b) [Suc k..<21] of
          None \<Rightarrow> (False, 21, replicate (21 - Suc k) 100000) | Some j \<Rightarrow> (True, Suc j, replicate (j - Suc k) 100000))"
        using 1(1)[OF False True] by simp
      show ?thesis
      proof (cases "List.find (iarm_try b) [Suc k..<21]")
        case None
        have "21 - k = Suc (21 - Suc k)" using True by simp
        with None IH False True show ?thesis by (simp only: iarm_loop.simps[of b k] u) simp
      next
        case (Some j)
        then have "j \<in> set [Suc k..<21]" by (auto simp: find_Some_iff in_set_conv_nth)
        then have "j - k = Suc (j - Suc k)" by auto
        with Some IH False True show ?thesis by (simp only: iarm_loop.simps[of b k] u) simp
      qed
    next
      case k: False
      then have "[Suc k..<21] = []" "21 - k = 1" "Suc k = 21" using 1(2) by simp_all
      with k False show ?thesis by (simp only: iarm_loop.simps[of b k] u) simp
    qed
  qed
qed

text \<open>Connecting to the bus ends after at most 21 tries and 2.1 seconds of sleep: with success at the first try after which the process
  is registered, and without a try if it is already.\<close>
theorem IARM_init_bounds:
  "(case IARM_init b of (result, tries, sleeps) \<Rightarrow>
     result = (isConnected (bus_registered b) \<or> (\<exists>k \<le> 20. iarm_try b k)) \<and>
     tries \<le> 21 \<and> sum_list sleeps \<le> 2100000 \<and>
     (result \<and> \<not> isConnected (bus_registered b) \<longrightarrow>
        0 < tries \<and> iarm_try b (tries - 1) \<and> (\<forall>k < tries - 1. \<not> iarm_try b k) \<and> length sleeps = tries - 1) \<and>
     (\<not> result \<longrightarrow> tries = 21 \<and> length sleeps = 21))"
proof (cases "isConnected (bus_registered b)")
  case True
  then show ?thesis by (simp add: IARM_init_def)
next
  case False
  show ?thesis
  proof (cases "List.find (iarm_try b) [0..<21]")
    case None
    then have "\<forall>k < 21. \<not> iarm_try b k" by (auto simp: find_None_iff)
    with None False show ?thesis by (auto simp: IARM_init_def iarm_loop_result sum_list_replicate simp del: upt_Suc)
  next
    case (Some j)
    then have j: "iarm_try b j" "j < 21" "\<forall>k < j. \<not> iarm_try b k"
      by (auto simp: find_Some_iff)
    with Some False show ?thesis
      by (auto simp: IARM_init_def iarm_loop_result sum_list_replicate simp del: upt_Suc intro!: exI[of _ j])
  qed
qed

end
