(* ===== verification/Shell_Rialto.thy ===== *)
theory Shell_Rialto
  imports Prelude
begin

text \<open>
  \<^verbatim>\<open>RDKShell/RialtoConnector.cpp\<close>: sessions of the Rialto media server, and threads that wait for the state of a
  session.  The server manager is a library: its answers are arguments, the calls made to it are kept.  Time is that of
  the steady clock in nanoseconds.  A thread that waits holds the mutex while it looks at the map, and sleeps in
  \<^verbatim>\<open>wait_for\<close> otherwise; \<^verbatim>\<open>notify_one\<close> wakes one sleeping thread, which one is not the program's choice.
\<close>

section \<open>Sessions\<close>

text \<open>The states that the source names; \<open>zero\<close> below is the one that a new entry of the map gets.\<close>

datatype server_state = ACTIVE | INACTIVE | NOT_RUNNING | SERVER_ERROR | Other_State nat

datatype rialto_call = Initiate string server_state string string | Change_State string server_state

record waiter =
  w_app :: string
  w_state :: server_state
  w_end :: int
  w_until :: int
  w_notified :: bool

text \<open>An answer of \<^verbatim>\<open>waitForStateChange\<close>: to whom, what for, which, whether the session was in the state at that moment, and how long
  before the end of the time allowed.\<close>

record wait_answer =
  a_waiter :: nat
  a_app :: string
  a_state :: server_state
  a_status :: bool
  a_held :: bool
  a_left :: int

record rialto =
  isInitialized :: bool
  appStateMap :: "string \<Rightarrow> server_state option"
  rialto_calls :: "rialto_call list"
  null_service :: bool
  r_now :: int
  r_waiters :: "nat \<Rightarrow> waiter option"
  r_answers :: "wait_answer list"

definition RialtoConnector :: rialto where
  "RialtoConnector = \<lparr>isInitialized = False, appStateMap = (\<lambda>_. None), rialto_calls = [], null_service = False,
     r_now = 0, r_waiters = (\<lambda>_. None), r_answers = []\<rparr>"

definition rialto_initialize :: "rialto \<Rightarrow> rialto" where
  "rialto_initialize m = m\<lparr>isInitialized := True\<rparr>"

text \<open>A call of the server manager; there is none before the connector is initialized.\<close>

definition manager_call :: "rialto_call \<Rightarrow> bool \<Rightarrow> rialto \<Rightarrow> bool \<times> rialto" where
  "manager_call c answer m =
     (if isInitialized m then (answer, m\<lparr>rialto_calls := rialto_calls m @ [c]\<rparr>) else (False, m\<lparr>null_service := True\<rparr>))"

definition createAppSession :: "string \<Rightarrow> string \<Rightarrow> string \<Rightarrow> bool \<Rightarrow> rialto \<Rightarrow> bool \<times> rialto" where
  "createAppSession callsign displayName appId = manager_call (Initiate callsign ACTIVE appId displayName)"

definition getCurrentAppState :: "string \<Rightarrow> rialto \<Rightarrow> server_state" where
  "getCurrentAppState callsign m = (case appStateMap m callsign of Some st \<Rightarrow> st | None \<Rightarrow> SERVER_ERROR)"

definition resumeSession :: "string \<Rightarrow> bool \<Rightarrow> rialto \<Rightarrow> bool \<times> rialto" where
  "resumeSession callsign answer m =
     (if getCurrentAppState callsign m = INACTIVE then manager_call (Change_State callsign ACTIVE) answer m else (False, m))"

definition suspendSession :: "string \<Rightarrow> bool \<Rightarrow> rialto \<Rightarrow> bool \<times> rialto" where
  "suspendSession callsign answer m =
     (if getCurrentAppState callsign m = ACTIVE then manager_call (Change_State callsign INACTIVE) answer m else (False, m))"

definition deactivateSession :: "string \<Rightarrow> bool \<Rightarrow> rialto \<Rightarrow> bool \<times> rialto" where
  "deactivateSession callsign answer m =
     (let st = getCurrentAppState callsign m in
      if st = ACTIVE \<or> st = INACTIVE then manager_call (Change_State callsign NOT_RUNNING) answer m else (False, m))"

section \<open>Waiting\<close>

definition sleeping :: "rialto \<Rightarrow> nat \<Rightarrow> bool" where
  "sleeping m i = (\<exists>w. r_waiters m i = Some w \<and> \<not> w_notified w)"

text \<open>\<open>woken\<close>: the sleeping thread that \<^verbatim>\<open>notify_one\<close> picks.\<close>

definition rialto_stateChanged :: "string \<Rightarrow> server_state \<Rightarrow> nat \<Rightarrow> rialto \<Rightarrow> rialto" where
  "rialto_stateChanged appId st woken m =
     (let m = m\<lparr>appStateMap := (appStateMap m)(appId \<mapsto> st)\<rparr> in
      case r_waiters m woken of
        None \<Rightarrow> m
      | Some w \<Rightarrow> m\<lparr>r_waiters := (r_waiters m)(woken \<mapsto> w\<lparr>w_notified := True\<rparr>)\<rparr>)"

definition ns_per_ms :: int where "ns_per_ms = 1000000"

definition wait_return :: "nat \<Rightarrow> waiter \<Rightarrow> bool \<Rightarrow> rialto \<Rightarrow> rialto" where
  "wait_return i w status m =
     m\<lparr>r_waiters := (r_waiters m)(i := None),
       r_answers := r_answers m @ [\<lparr>a_waiter = i, a_app = w_app w, a_state = w_state w, a_status = status, a_held = (appStateMap m (w_app w) = Some (w_state w)),
         a_left = w_end w - r_now m\<rparr>]\<rparr>"

text \<open>
  One round of the loop: \<open>d1\<close> is the time until the condition of the loop reads the clock, \<open>d2\<close> that until the
  remaining time is computed (and cut down to milliseconds).  \<^verbatim>\<open>operator[]\<close> makes an entry for an application that has none.
\<close>

definition wait_round :: "server_state \<Rightarrow> nat \<Rightarrow> nat \<Rightarrow> nat \<Rightarrow> waiter \<Rightarrow> rialto \<Rightarrow> rialto" where
  "wait_round zero d1 d2 i w m =
     (let m = m\<lparr>r_now := r_now m + int d1\<rparr> in
      if r_now m < w_end w then
        let m = (if appStateMap m (w_app w) = None then m\<lparr>appStateMap := (appStateMap m)(w_app w \<mapsto> zero)\<rparr> else m) in
        if appStateMap m (w_app w) = Some (w_state w) then wait_return i w True m
        else
          let m = m\<lparr>r_now := r_now m + int d2\<rparr>;
              remainingTime = (if w_end w < r_now m then - ((r_now m - w_end w) div ns_per_ms) else (w_end w - r_now m) div ns_per_ms) in
          if remainingTime \<le> 0 then wait_return i w False m
          else m\<lparr>r_waiters := (r_waiters m)(i \<mapsto> w\<lparr>w_until := r_now m + remainingTime * ns_per_ms, w_notified := False\<rparr>)\<rparr>
      else wait_return i w False m)"

definition waitForStateChange :: "server_state \<Rightarrow> nat \<Rightarrow> nat \<Rightarrow> nat \<Rightarrow> string \<Rightarrow> server_state \<Rightarrow> int \<Rightarrow> rialto \<Rightarrow> rialto" where
  "waitForStateChange zero d1 d2 i appId st timeoutMillis m =
     wait_round zero d1 d2 i
       \<lparr>w_app = appId, w_state = st, w_end = r_now m + timeoutMillis * ns_per_ms, w_until = 0, w_notified = False\<rparr> m"

text \<open>A sleeping thread goes on when it has been notified or its time has passed (or, allowed by the library, without a
  reason).\<close>

datatype rialto_event =
    R_Changed string server_state nat
  | R_Wait nat string server_state int nat nat
  | R_Wake nat nat nat
  | R_Tick nat

primrec rialto_step :: "server_state \<Rightarrow> rialto_event \<Rightarrow> rialto \<Rightarrow> rialto" where
  "rialto_step zero (R_Changed appId st woken) m = rialto_stateChanged appId st woken m"
| "rialto_step zero (R_Wait i appId st timeout d1 d2) m =
     (if r_waiters m i = None then waitForStateChange zero d1 d2 i appId st timeout m else m)"
| "rialto_step zero (R_Wake i d1 d2) m =
     (case r_waiters m i of None \<Rightarrow> m | Some w \<Rightarrow> wait_round zero d1 d2 i w m)"
| "rialto_step zero (R_Tick d) m = m\<lparr>r_now := r_now m + int d\<rparr>"

text \<open>What can happen: a notification wakes a thread that sleeps, if there is one; a thread goes on for a reason.\<close>

fun rialto_can :: "rialto_event \<Rightarrow> rialto \<Rightarrow> bool" where
  "rialto_can (R_Changed _ _ woken) m = (sleeping m woken \<or> (\<forall>i. \<not> sleeping m i))"
| "rialto_can (R_Wake i _ _) m = (case r_waiters m i of None \<Rightarrow> False | Some w \<Rightarrow> w_notified w \<or> w_until w \<le> r_now m)"
| "rialto_can _ m = True"

fun possible :: "server_state \<Rightarrow> rialto_event list \<Rightarrow> rialto \<Rightarrow> bool" where
  "possible zero [] m = True"
| "possible zero (e # es) m = (rialto_can e m \<and> possible zero es (rialto_step zero e m))"

definition answer_ok :: "wait_answer \<Rightarrow> bool" where
  "answer_ok a \<longleftrightarrow> (if a_status a then a_held a \<and> 0 < a_left a else a_left a < ns_per_ms)"

definition rialto_ok :: "rialto \<Rightarrow> bool" where
  "rialto_ok m \<longleftrightarrow> (\<forall>a \<in> set (r_answers m). answer_ok a)"

lemma wait_round_ok: "rialto_ok m \<Longrightarrow> rialto_ok (wait_round zero d1 d2 i w m)"
  by (auto simp: rialto_ok_def answer_ok_def wait_round_def wait_return_def Let_def ns_per_ms_def split: if_splits)

lemma rialto_answers_same: "r_answers m' = r_answers m \<Longrightarrow> rialto_ok m \<Longrightarrow> rialto_ok m'"
  by (simp add: rialto_ok_def)

lemma rialto_step_ok:
  assumes "rialto_ok m"
  shows "rialto_ok (rialto_step zero e m)"
proof (cases e)
  case (R_Changed appId st woken)
  then have "r_answers (rialto_step zero e m) = r_answers m"
    by (simp add: rialto_stateChanged_def Let_def split: option.split)
  then show ?thesis using assms by (rule rialto_answers_same)
next
  case (R_Tick d)
  then have "r_answers (rialto_step zero e m) = r_answers m" by simp
  then show ?thesis using assms by (rule rialto_answers_same)
qed (use assms in \<open>auto simp: wait_round_ok waitForStateChange_def split: option.split\<close>)

interpretation rw: machine "rialto_step zero" rialto_ok for zero
  by standard (rule rialto_step_ok)
lemma RialtoConnector_ok: "rialto_ok RialtoConnector"
  by (simp add: rialto_ok_def RialtoConnector_def)

text \<open>A thread alone in waiting is answered with success when it goes on after its state was announced and before its time is up.\<close>

lemma single_waiter:
  assumes "r_waiters m i = Some w" and "r_now m + int d1 < w_end w"
  shows "\<exists>a. r_answers (rialto_step zero (R_Wake i d1 d2) (rialto_step zero (R_Changed (w_app w) (w_state w) i) m)) = r_answers m @ [a] \<and>
    a_waiter a = i \<and> a_status a"
  using assms by (auto simp: rialto_stateChanged_def wait_round_def wait_return_def Let_def)

text \<open>
  Two threads wait; the state that thread 1 waits for is announced, the notification goes to thread 0, which waits for another
  application and sleeps on.  Thread 1 is not woken before its time is up.
\<close>

definition lost_wakeup :: "string \<Rightarrow> string \<Rightarrow> server_state \<Rightarrow> server_state \<Rightarrow> rialto_event list" where
  "lost_wakeup app0 app1 st0 st1 =
     [R_Wait 0 app0 st0 5000 0 0, R_Wait 1 app1 st1 5000 0 0, R_Changed app1 st1 0, R_Wake 0 0 0, R_Tick 5000000000, R_Wake 1 0 0]"

lemma lost_wakeup_run:
  assumes "app0 \<noteq> app1" and "st0 \<noteq> zero" and "st1 \<noteq> zero"
  shows "possible zero (lost_wakeup app0 app1 st0 st1) RialtoConnector \<and>
    r_answers (fold (rialto_step zero) (lost_wakeup app0 app1 st0 st1) RialtoConnector) =
      [\<lparr>a_waiter = 1, a_app = app1, a_state = st1, a_status = False, a_held = True, a_left = 0\<rparr>]"
  using assms
  by (simp add: lost_wakeup_def RialtoConnector_def waitForStateChange_def wait_round_def wait_return_def
      rialto_stateChanged_def ns_per_ms_def Let_def sleeping_def)

text \<open>The states announced, and what is known of the map and the answers from them.\<close>

fun announced :: "rialto_event \<Rightarrow> (string \<times> server_state) set" where
  "announced (R_Changed appId st _) = {(appId, st)}"
| "announced _ = {}"

definition known :: "server_state \<Rightarrow> (string \<times> server_state) set \<Rightarrow> rialto \<Rightarrow> bool" where
  "known zero A m \<longleftrightarrow> (\<forall>app st. appStateMap m app = Some st \<longrightarrow> st = zero \<or> (app, st) \<in> A) \<and>
     (\<forall>a \<in> set (r_answers m). a_status a \<longrightarrow> a_state a = zero \<or> (a_app a, a_state a) \<in> A)"

lemma known_round: "known zero A m \<Longrightarrow> known zero A (wait_round zero d1 d2 i w m)"
  by (auto simp: known_def wait_round_def wait_return_def Let_def)

lemma known_step: "known zero A m \<Longrightarrow> known zero (A \<union> announced e) (rialto_step zero e m)"
proof (cases e)
  case (R_Changed appId st woken)
  assume "known zero A m"
  with R_Changed show ?thesis by (auto simp: known_def rialto_stateChanged_def Let_def split: option.split)
next
  case (R_Tick d)
  assume "known zero A m"
  with R_Tick show ?thesis by (simp add: known_def)
qed (auto simp: known_round waitForStateChange_def split: option.split)

lemma known_run: "known zero A m \<Longrightarrow> known zero (A \<union> \<Union> (announced ` set es)) (fold (rialto_step zero) es m)"
proof (induction es arbitrary: A m)
  case (Cons e es)
  from Cons(1)[OF known_step[OF Cons(2)], of e] show ?case by (simp add: Un_assoc)
qed simp

text \<open>C21: However announcements, waits and wake-ups interleave: success is answered only if the session of exactly that name is in the
  state asked for, which was announced (or is that of a new entry), and before the time is up; failure only in the last millisecond
  or later.\<close>
theorem rialto_waits:
  assumes "a \<in> set (r_answers (fold (rialto_step zero) es RialtoConnector))"
  shows "if a_status a then a_held a \<and> 0 < a_left a \<and> (a_state a = zero \<or> (\<exists>woken. R_Changed (a_app a) (a_state a) woken \<in> set es))
    else a_left a < ns_per_ms"
proof -
  have "rialto_ok (fold (rialto_step zero) es RialtoConnector)" by (rule rw.run_inv) (rule RialtoConnector_ok)
  moreover have "known zero ({} \<union> \<Union> (announced ` set es)) (fold (rialto_step zero) es RialtoConnector)"
    by (rule known_run) (simp add: known_def RialtoConnector_def)
  moreover have "\<exists>woken. e = R_Changed app st woken" if "(app, st) \<in> announced e" for e app st
    using that by (cases e) auto
  then have "\<exists>woken. R_Changed app st woken \<in> set es" if "e \<in> set es" "(app, st) \<in> announced e" for e app st
    using that by metis
  ultimately show ?thesis using assms by (auto simp: rialto_ok_def answer_ok_def known_def)
qed

lemma rialto_waits_witness:
  "a_held \<lparr>a_waiter = 1, a_app = ''a'', a_state = ACTIVE, a_status = True, a_held = True, a_left = 1000000\<rparr>"
proof -
  let ?es = "[R_Changed ''a'' ACTIVE 0, R_Wait 1 ''a'' ACTIVE 1 0 0]"
  have "\<lparr>a_waiter = 1, a_app = ''a'', a_state = ACTIVE, a_status = True, a_held = True, a_left = 1000000\<rparr>
      \<in> set (r_answers (fold (rialto_step SERVER_ERROR) ?es RialtoConnector))"
    by (simp add: RialtoConnector_def waitForStateChange_def wait_round_def wait_return_def rialto_stateChanged_def ns_per_ms_def Let_def)
  from rialto_waits[OF this] show ?thesis by simp
qed

text \<open>A wake-up can be lost: with two threads waiting for different sessions there is a run, in which every step can happen,
  that answers failure to a thread although its session has been in the state for the whole time but an instant; a thread that waits
  alone is answered with success.\<close>
theorem wakeup_lost:
  assumes "app0 \<noteq> app1" and "st0 \<noteq> zero" and "st1 \<noteq> zero"
  shows "(\<exists>es a. possible zero es RialtoConnector \<and> R_Changed app1 st1 0 \<in> set es \<and>
      r_answers (fold (rialto_step zero) es RialtoConnector) = [a] \<and>
      a_waiter a = 1 \<and> \<not> a_status a \<and> a_held a) \<and>
    (\<forall>m i w d1 d2. r_waiters m i = Some w \<and> r_now m + int d1 < w_end w \<longrightarrow>
      (\<exists>a. r_answers (rialto_step zero (R_Wake i d1 d2) (rialto_step zero (R_Changed (w_app w) (w_state w) i) m)) =
        r_answers m @ [a] \<and> a_waiter a = i \<and> a_status a))"
proof (rule conjI)
  have "R_Changed app1 st1 0 \<in> set (lost_wakeup app0 app1 st0 st1)" by (simp add: lost_wakeup_def)
  with lost_wakeup_run[OF assms]
  show "\<exists>es a. possible zero es RialtoConnector \<and> R_Changed app1 st1 0 \<in> set es \<and>
      r_answers (fold (rialto_step zero) es RialtoConnector) = [a] \<and> a_waiter a = 1 \<and> \<not> a_status a \<and> a_held a"
    by (intro exI[of _ "lost_wakeup app0 app1 st0 st1"]) simp
qed (use single_waiter in blast)

lemma wakeup_lost_witness:
  "\<exists>es a. possible (Other_State 0) es RialtoConnector \<and> R_Changed ''b'' ACTIVE 0 \<in> set es \<and>
      r_answers (fold (rialto_step (Other_State 0)) es RialtoConnector) = [a] \<and> a_waiter a = 1 \<and> \<not> a_status a \<and> a_held a"
  by (rule wakeup_lost[of "''a''" "''b''" ACTIVE, THEN conjunct1]) simp_all

text \<open>Sessions: a state is asked for only from the state it follows, and only a connector that is initialized can be asked.\<close>

lemma session_calls:
  assumes "isInitialized m"
  shows "rialto_calls (snd (suspendSession c r m)) = rialto_calls m @ (if appStateMap m c = Some ACTIVE then [Change_State c INACTIVE] else [])"
    and "rialto_calls (snd (resumeSession c r m)) = rialto_calls m @ (if appStateMap m c = Some INACTIVE then [Change_State c ACTIVE] else [])"
    and "rialto_calls (snd (deactivateSession c r m)) =
      rialto_calls m @ (if appStateMap m c \<in> {Some ACTIVE, Some INACTIVE} then [Change_State c NOT_RUNNING] else [])"
  using assms by (auto simp: suspendSession_def resumeSession_def deactivateSession_def getCurrentAppState_def manager_call_def Let_def
      split: option.splits)

end
