(* ===== verification/Shell_Hibernate.thy ===== *)
theory Shell_Hibernate
  imports Json Utils_Strings "HOL-Library.Multiset"
begin

text \<open>
  Hibernation in RDKShell, the branches of \<^verbatim>\<open>RDKShell.cpp\<close> under \<^verbatim>\<open>HIBERNATE_SUPPORT_ENABLED\<close> and
  \<^verbatim>\<open>HIBERNATE_NATIVE_APPS_ON_SUSPENDED\<close>: the requests to hibernate and restore, the threads that serve them, the counter that
  blocks hibernation while the focus of an application is taken away, and the record of applications that are suspended or hibernated.
  The controller and the states of plugins are arguments; threads interleave between the calls that lock a mutex.
\<close>

section \<open>State\<close>

text \<open>The thread of a request: before it looks at the counter, asleep in \<^verbatim>\<open>wait_for\<close>, past the wait.\<close>

datatype hib_phase = Hib_Begin | Hib_Asleep | Hib_Ready

record hib_thread =
  ht_callsign :: string
  ht_parameters :: jobject
  ht_phase :: hib_phase

text \<open>
  \<open>hb_focusing\<close>: the threads between \<^verbatim>\<open>setHibernateBlocked(true)\<close> and \<^verbatim>\<open>setHibernateBlocked(false)\<close>, with the application
  they call; \<open>hb_events\<close>: the payloads of \<^verbatim>\<open>onHibernated\<close> with the number of the request; \<open>hb_calls\<close>: the requests to the controller,
  with the counter at that moment.
\<close>

record hibernation =
  hb_blocked :: int
  hb_suspended :: "string \<Rightarrow> bool option"
  hb_launched :: "string set"
  hb_destroying :: "string set"
  hb_external :: "string set"
  hb_threads :: "(nat \<times> hib_thread) list"
  hb_next :: nat
  hb_focusing :: "(nat \<times> string) list"
  hb_events :: "(nat \<times> jobject) list"
  hb_calls :: "(jobject \<times> int) list"

definition hib_init :: hibernation where
  "hib_init = \<lparr>hb_blocked = 0, hb_suspended = (\<lambda>_. None), hb_launched = {}, hb_destroying = {}, hb_external = {},
     hb_threads = [], hb_next = 0, hb_focusing = [], hb_events = [], hb_calls = []\<rparr>"

section \<open>The requests\<close>

definition setHibernateBlocked :: "bool \<Rightarrow> hibernation \<Rightarrow> hibernation" where
  "setHibernateBlocked v h = h\<lparr>hb_blocked := (if v then hb_blocked h + 1 else hb_blocked h - 1)\<rparr>"

definition native_app :: "string \<Rightarrow> bool" where
  "native_app callsign =
     (str_find ''Netflix'' callsign \<noteq> None \<or> str_find ''Cobalt'' callsign \<noteq> None \<or>
      str_find ''Amazon'' callsign \<noteq> None \<or> str_find ''YouTube'' callsign \<noteq> None)"

definition hib_reply :: "bool \<Rightarrow> jobject \<Rightarrow> hresult \<times> jobject" where
  "hib_reply status response = (if status then ERROR_NONE else ERROR_GENERAL, jset ''success'' (JBool status) response)"

text \<open>\<open>state\<close>: the status and the answer of the plugin asked for its state.\<close>

definition hibernateWrapper :: "json_lib \<Rightarrow> nat \<times> string \<Rightarrow> jobject \<Rightarrow> hibernation \<Rightarrow> (hresult \<times> jobject) \<times> hibernation" where
  "hibernateWrapper lib state parameters h =
     (if HasLabel parameters ''callsign''
      then
        let callsign = js_String lib (jget parameters ''callsign'') in
        if callsign \<in> hb_destroying h \<or> callsign \<in> hb_external h
        then (hib_reply False [(''message'', JString ''failed to hibernate application, is being destroyed'')], h)
        else if native_app callsign \<and> (fst state \<noteq> 0 \<or> snd state \<noteq> ''suspended'')
        then (hib_reply False [(''message'', JString ''failed to hibernate native application, not suspended'')], h)
        else (hib_reply True [],
          h\<lparr>hb_threads := hb_threads h @ [(hb_next h, \<lparr>ht_callsign = callsign, ht_parameters = parameters, ht_phase = Hib_Begin\<rparr>)],
            hb_next := hb_next h + 1\<rparr>)
      else (hib_reply False [], h))"

definition hib_phase_to :: "nat \<Rightarrow> hib_thread \<Rightarrow> hib_phase \<Rightarrow> hibernation \<Rightarrow> hibernation" where
  "hib_phase_to i t ph h = h\<lparr>hb_threads := AList.update i (t\<lparr>ht_phase := ph\<rparr>) (hb_threads h)\<rparr>"

definition hib_finish :: "nat \<Rightarrow> jobject \<Rightarrow> hibernation \<Rightarrow> hibernation" where
  "hib_finish i eventMsg h = h\<lparr>hb_threads := AList.delete i (hb_threads h), hb_events := hb_events h @ [(i, eventMsg)]\<rparr>"

text \<open>\<^verbatim>\<open>waitForHibernateUnblocked\<close>: a round of its loop, and its end when \<^verbatim>\<open>wait_for\<close> has timed out.\<close>

definition hib_look :: "nat \<Rightarrow> hib_thread \<Rightarrow> hibernation \<Rightarrow> hibernation" where
  "hib_look i t h = hib_phase_to i t (if hb_blocked h > 0 then Hib_Asleep else Hib_Ready) h"

definition hib_timeout :: "nat \<Rightarrow> hib_thread \<Rightarrow> hibernation \<Rightarrow> hibernation" where
  "hib_timeout i t h =
     (if hb_blocked h > 0
      then hib_finish i [(''success'', JBool False), (''message'', JString ''hibernation blocked'')] h
      else hib_phase_to i t Hib_Ready h)"

definition hibernate_request :: "hib_thread \<Rightarrow> jobject" where
  "hibernate_request t =
     (let request = [(''callsign'', JString (ht_callsign t)), (''timeout'', JNumber 20000)];
          request = (if HasLabel (ht_parameters t) ''timeout'' then jset ''timeout'' (jget (ht_parameters t) ''timeout'') request else request) in
      if HasLabel (ht_parameters t) ''procsequence''
      then jset ''procsequence'' (jget (ht_parameters t) ''procsequence'') request else request)"

definition hib_invoke :: "nat \<Rightarrow> nat \<times> jobject \<Rightarrow> hib_thread \<Rightarrow> hibernation \<Rightarrow> hibernation" where
  "hib_invoke i answer t h =
     (let h = h\<lparr>hb_calls := hb_calls h @ [(hibernate_request t, hb_blocked h)]\<rparr>; (errCode, result) = answer in
      if errCode > 0 then hib_finish i [(''success'', JBool False), (''message'', JObject result)] h
      else hib_finish i [(''callsign'', JString (ht_callsign t)), (''success'', JBool True)]
        (h\<lparr>hb_suspended := (hb_suspended h)(ht_callsign t \<mapsto> True)\<rparr>))"

text \<open>\<^verbatim>\<open>restoreWrapper\<close>: its answer, and what its thread asks the controller and reports.\<close>

definition restoreWrapper :: "json_lib \<Rightarrow> jobject \<Rightarrow> (hresult \<times> jobject) \<times> string option" where
  "restoreWrapper lib parameters =
     (if HasLabel parameters ''callsign'' then (hib_reply True [], Some (js_String lib (jget parameters ''callsign'')))
      else (hib_reply False [], None))"

definition restore_thread :: "string \<Rightarrow> nat \<times> jobject \<Rightarrow> jobject \<times> jobject" where
  "restore_thread callsign answer =
     ([(''callsign'', JString callsign)],
      if fst answer > 0 then [(''success'', JBool False), (''message'', JObject (snd answer))]
      else [(''callsign'', JString callsign), (''success'', JBool True)])"

section \<open>Focus and the states of applications\<close>

text \<open>Taking the focus from an application: skipped if it is suspended or hibernated; else hibernation is blocked before the lock of the
  record is released, and unblocked after the call.\<close>

definition focus_begin :: "nat \<Rightarrow> string \<Rightarrow> hibernation \<Rightarrow> hibernation" where
  "focus_begin j client h =
     (let skipFocus = (case hb_suspended h client of None \<Rightarrow> False | Some b \<Rightarrow> b) in
      if \<not> skipFocus then (setHibernateBlocked True h)\<lparr>hb_focusing := hb_focusing h @ [(j, client)]\<rparr> else h)"

definition focus_end :: "nat \<Rightarrow> hibernation \<Rightarrow> hibernation" where
  "focus_end k h =
     (if k < length (hb_focusing h)
      then (setHibernateBlocked False h)\<lparr>hb_focusing := take k (hb_focusing h) @ drop (Suc k) (hb_focusing h)\<rparr> else h)"

definition hib_StateChange :: "string \<Rightarrow> bool \<Rightarrow> hibernation \<Rightarrow> hibernation" where
  "hib_StateChange callsign isSuspended h = h\<lparr>hb_suspended := (hb_suspended h)(callsign \<mapsto> isSuspended)\<rparr>"

text \<open>Whether a suspended application is hibernated at once: \<open>rfc\<close> is the value of the feature if it can be read.\<close>

definition starts_with_true :: "string \<Rightarrow> bool" where
  "starts_with_true s = starts_with ''true'' (map tolower (cstr s))"

definition hibernates_on_suspend :: "string option \<Rightarrow> string \<Rightarrow> hibernation \<Rightarrow> bool" where
  "hibernates_on_suspend rfc callsign h =
     (case rfc of
        None \<Rightarrow> False
      | Some param \<Rightarrow> starts_with_true param \<and> callsign \<notin> hb_launched h \<and> native_app callsign)"

text \<open>A launch, a deactivation and a destruction forget what is recorded; a launch notes whether the application starts suspended.\<close>

definition hib_forget :: "string \<Rightarrow> hibernation \<Rightarrow> hibernation" where
  "hib_forget callsign h = h\<lparr>hb_suspended := (hb_suspended h)(callsign := None)\<rparr>"

definition hib_launch :: "string \<Rightarrow> bool \<Rightarrow> hibernation \<Rightarrow> hibernation" where
  "hib_launch callsign suspend h =
     (hib_forget callsign h)\<lparr>hb_launched := (if suspend then insert callsign (hb_launched h) else hb_launched h - {callsign})\<rparr>"

section \<open>Runs\<close>

datatype hib_event =
    H_Request "nat \<times> string" jobject | H_Look nat | H_Timeout nat | H_Invoke nat "nat \<times> jobject"
  | H_Focus nat string | H_Unfocus nat | H_State string bool | H_Forget string | H_Launch string bool
  | H_Destroy string bool | H_Destroyed string bool

text \<open>A step of a thread that is not at that point does nothing.\<close>

fun hib_step :: "json_lib \<Rightarrow> hib_event \<Rightarrow> hibernation \<Rightarrow> hibernation" where
  "hib_step lib (H_Request state p) h = snd (hibernateWrapper lib state p h)"
| "hib_step lib (H_Look i) h =
     (case map_of (hb_threads h) i of
        Some t \<Rightarrow> if ht_phase t \<noteq> Hib_Ready then hib_look i t h else h
      | None \<Rightarrow> h)"
| "hib_step lib (H_Timeout i) h =
     (case map_of (hb_threads h) i of Some t \<Rightarrow> if ht_phase t = Hib_Asleep then hib_timeout i t h else h | None \<Rightarrow> h)"
| "hib_step lib (H_Invoke i answer) h =
     (case map_of (hb_threads h) i of Some t \<Rightarrow> if ht_phase t = Hib_Ready then hib_invoke i answer t h else h | None \<Rightarrow> h)"
| "hib_step lib (H_Focus j client) h = focus_begin j client h"
| "hib_step lib (H_Unfocus k) h = focus_end k h"
| "hib_step lib (H_State c b) h = hib_StateChange c b h"
| "hib_step lib (H_Forget c) h = hib_forget c h"
| "hib_step lib (H_Launch c b) h = hib_launch c b h"
| "hib_step lib (H_Destroy c ext) h =
     (if ext then h\<lparr>hb_external := insert c (hb_external h)\<rparr> else h\<lparr>hb_destroying := insert c (hb_destroying h)\<rparr>)"
| "hib_step lib (H_Destroyed c ext) h =
     (if ext then h\<lparr>hb_external := hb_external h - {c}\<rparr> else h\<lparr>hb_destroying := hb_destroying h - {c}\<rparr>)"

definition hib_ok :: "hibernation \<Rightarrow> bool" where
  "hib_ok h \<longleftrightarrow> distinct (map fst (hb_threads h)) \<and> (\<forall>i \<in> fst ` set (hb_threads h). i < hb_next h) \<and>
     hb_blocked h = int (length (hb_focusing h))"

text \<open>Requests accepted are those whose thread runs and those reported.\<close>

definition hib_balance :: "hibernation \<Rightarrow> nat multiset" where
  "hib_balance h = mset (map fst (hb_threads h)) + mset (map fst (hb_events h))"

definition hib_accepted :: "json_lib \<Rightarrow> hib_event \<Rightarrow> hibernation \<Rightarrow> nat multiset" where
  "hib_accepted lib e h =
     (case e of
        H_Request state p \<Rightarrow> if fst (fst (hibernateWrapper lib state p h)) = ERROR_NONE then {#hb_next h#} else {#}
      | _ \<Rightarrow> {#})"
lemma phase_to_keys:
  "map_of (hb_threads h) i = Some t \<Longrightarrow> map fst (hb_threads (hib_phase_to i u ph h)) = map fst (hb_threads h)"
  using map_of_SomeD[of "hb_threads h" i t] by (force simp: hib_phase_to_def update_keys)

lemma phase_to_rest [simp]:
  "hb_events (hib_phase_to i t ph h) = hb_events h" "hb_blocked (hib_phase_to i t ph h) = hb_blocked h"
  "hb_next (hib_phase_to i t ph h) = hb_next h" "hb_focusing (hib_phase_to i t ph h) = hb_focusing h"
  by (simp_all add: hib_phase_to_def)

lemma finish_rest [simp]:
  "hb_blocked (hib_finish i m h) = hb_blocked h" "hb_next (hib_finish i m h) = hb_next h"
  "hb_focusing (hib_finish i m h) = hb_focusing h"
  by (simp_all add: hib_finish_def)

lemma phase_to_ok:
  assumes "hib_ok h" and "map_of (hb_threads h) i = Some t"
  shows "hib_ok (hib_phase_to i u ph h)" and "hib_balance (hib_phase_to i u ph h) = hib_balance h"
proof -
  note k = phase_to_keys[OF assms(2), of u ph]
  then have s: "fst ` set (hb_threads (hib_phase_to i u ph h)) = fst ` set (hb_threads h)" by (metis list.set_map)
  show "hib_ok (hib_phase_to i u ph h)" using assms(1) k s by (simp add: hib_ok_def)
  show "hib_balance (hib_phase_to i u ph h) = hib_balance h" using k by (simp add: hib_balance_def)
qed

lemma finish_ok:
  assumes "hib_ok h" and "map_of (hb_threads h) i = Some t"
  shows "hib_ok (hib_finish i m h)" and "hib_balance (hib_finish i m h) = hib_balance h"
proof -
  have i: "i \<in> set (map fst (hb_threads h))" using map_of_SomeD[OF assms(2)] by force
  have d: "distinct (map fst (hb_threads h))" using assms(1) by (simp add: hib_ok_def)
  have k: "map fst (hb_threads (hib_finish i m h)) = remove1 i (map fst (hb_threads h))"
    by (simp add: hib_finish_def delete_keys distinct_remove1_removeAll[OF d])
  then have "fst ` set (hb_threads (hib_finish i m h)) \<subseteq> fst ` set (hb_threads h)"
    by (metis list.set_map set_remove1_subset)
  with assms(1) k d show "hib_ok (hib_finish i m h)" unfolding hib_ok_def by (metis distinct_remove1 finish_rest subsetD)
  show "hib_balance (hib_finish i m h) = hib_balance h"
    using i k by (simp add: hib_balance_def hib_finish_def)
qed

lemma invoke_cases:
  "\<exists>m h'. hib_invoke i answer t h = hib_finish i m h' \<and> hb_threads h' = hb_threads h \<and> hb_events h' = hb_events h \<and>
     hb_blocked h' = hb_blocked h \<and> hb_next h' = hb_next h \<and> hb_focusing h' = hb_focusing h"
proof -
  obtain errCode result where a: "answer = (errCode, result)" by force
  let ?h = "h\<lparr>hb_calls := hb_calls h @ [(hibernate_request t, hb_blocked h)]\<rparr>"
  show ?thesis
  proof (cases "errCode > 0")
    case True
    then have "hib_invoke i answer t h = hib_finish i [(''success'', JBool False), (''message'', JObject result)] ?h"
      by (simp add: a hib_invoke_def)
    then show ?thesis by (intro exI conjI) (assumption | simp)+
  next
    case False
    then have "hib_invoke i answer t h = hib_finish i [(''callsign'', JString (ht_callsign t)), (''success'', JBool True)]
        (?h\<lparr>hb_suspended := (hb_suspended ?h)(ht_callsign t \<mapsto> True)\<rparr>)"
      by (simp add: a hib_invoke_def)
    then show ?thesis by (intro exI conjI) (assumption | simp)+
  qed
qed

lemma hib_same:
  "hb_threads h' = hb_threads h \<Longrightarrow> hb_events h' = hb_events h \<Longrightarrow> hb_next h' = hb_next h \<Longrightarrow>
   hb_blocked h' - int (length (hb_focusing h')) = hb_blocked h - int (length (hb_focusing h)) \<Longrightarrow>
   hib_ok h' = hib_ok h \<and> hib_balance h' = hib_balance h"
  by (auto simp: hib_ok_def hib_balance_def)

lemma request_step:
  assumes "hib_ok h"
  shows "hib_ok (snd (hibernateWrapper lib state p h)) \<and>
    hib_balance (snd (hibernateWrapper lib state p h)) = hib_balance h + hib_accepted lib (H_Request state p) h"
  using assms by (auto simp: hibernateWrapper_def hib_ok_def hib_balance_def hib_accepted_def hib_reply_def Let_def less_Suc_eq)

lemma hib_step_spec:
  assumes "hib_ok h"
  shows "hib_ok (hib_step lib e h) \<and> hib_balance (hib_step lib e h) = hib_balance h + hib_accepted lib e h"
proof -
  have other: "hib_ok h' \<and> hib_balance h' = hib_balance h"
    if "hb_threads h' = hb_threads h" "hb_events h' = hb_events h" "hb_next h' = hb_next h"
      "hb_blocked h' - int (length (hb_focusing h')) = hb_blocked h - int (length (hb_focusing h))" for h'
    using hib_same[OF that] assms by simp
  show ?thesis
  proof (cases e)
    case (H_Request state p)
    with request_step[OF assms] show ?thesis by simp
  next
    case (H_Look i)
    with assms phase_to_ok[OF assms] show ?thesis by (simp add: hib_accepted_def hib_look_def split: option.split)
  next
    case (H_Timeout i)
    with assms phase_to_ok[OF assms] finish_ok[OF assms] show ?thesis
      by (simp add: hib_accepted_def hib_timeout_def split: option.split)
  next
    case (H_Invoke i answer)
    show ?thesis
    proof (cases "map_of (hb_threads h) i")
      case (Some t)
      obtain m h' where h': "hib_invoke i answer t h = hib_finish i m h'" "hb_threads h' = hb_threads h" "hb_events h' = hb_events h"
        "hb_blocked h' = hb_blocked h" "hb_next h' = hb_next h" "hb_focusing h' = hb_focusing h"
        using invoke_cases by blast
      then have k: "hib_ok h'" "hib_balance h' = hib_balance h" "map_of (hb_threads h') i = Some t"
        using other[of h'] Some by simp_all
      from finish_ok[OF k(1,3), of m] k(2) h'(1) assms H_Invoke Some show ?thesis by (simp add: hib_accepted_def)
    qed (use H_Invoke assms in \<open>simp add: hib_accepted_def\<close>)
  next
    case (H_Focus j client)
    with other[of "focus_begin j client h"] show ?thesis
      by (simp add: hib_accepted_def focus_begin_def setHibernateBlocked_def Let_def)
  next
    case (H_Unfocus k)
    with other[of "focus_end k h"] show ?thesis by (auto simp: hib_accepted_def focus_end_def setHibernateBlocked_def)
  qed (use other[of "hib_step lib e h"] in
    \<open>auto simp: hib_accepted_def hib_StateChange_def hib_forget_def hib_launch_def\<close>)
qed

interpretation hb: ledger "hib_step lib" hib_ok hib_balance "hib_accepted lib" for lib
  by standard (use hib_step_spec in blast)+

lemma next_step: "mset [0..<hb_next (hib_step lib e h)] = mset [0..<hb_next h] + hib_accepted lib e h"
proof (cases e)
  case (H_Request state p)
  then show ?thesis by (simp add: hib_accepted_def hibernateWrapper_def hib_reply_def Let_def del: mset_upt)
next
  case (H_Invoke i answer)
  have "hb_next (hib_invoke i answer t h) = hb_next h" for t using invoke_cases[of i answer t h] by auto
  with H_Invoke show ?thesis by (simp add: hib_accepted_def split: option.split)
qed (auto simp: hib_accepted_def hib_look_def hib_timeout_def focus_begin_def focus_end_def setHibernateBlocked_def hib_StateChange_def
    hib_forget_def hib_launch_def Let_def split: option.split)

lemma hib_run:
  "hib_ok h \<Longrightarrow> hib_balance h = mset [0..<hb_next h] \<Longrightarrow>
   hib_balance (fold (hib_step lib) es h) = mset [0..<hb_next (fold (hib_step lib) es h)]"
proof (induction es arbitrary: h)
  case (Cons e es)
  from hib_step_spec[OF Cons(2), of lib e] next_step[of lib e h] Cons(1)[of "hib_step lib e h"] Cons(3) show ?case by simp
qed simp

lemma hib_init_ok: "hib_ok hib_init"
  by (simp add: hib_ok_def hib_init_def)

text \<open>C12: Through any interleaving of requests, their threads, changes of focus and reports of states: every request accepted is either
  under way or has been reported by \<^verbatim>\<open>onHibernated\<close>, exactly once; and the counter is the number of threads that
  take the focus from an application, so that it is never negative and 0 once they are done.\<close>
theorem hibernations_reported:
  fixes es :: "hib_event list" and lib :: json_lib
  defines "h \<equiv> fold (hib_step lib) es hib_init"
  shows "mset (map fst (hb_threads h)) + mset (map fst (hb_events h)) = mset [0..<hb_next h] \<and>
    hb_blocked h = int (length (hb_focusing h))"
proof -
  have "hib_ok h" unfolding h_def by (rule hb.run_inv) (rule hib_init_ok)
  moreover have "hib_balance h = mset [0..<hb_next h]"
    unfolding h_def by (rule hib_run[OF hib_init_ok]) (simp add: hib_balance_def hib_init_def)
  ultimately show ?thesis by (simp add: hib_ok_def hib_balance_def)
qed

lemma pass_unblocked:
  assumes "hib_ok h" and "map_of (hb_threads h) i = Some t" and "ht_phase t \<noteq> Hib_Ready"
    and "map_of (hb_threads (hib_step lib e h)) i = Some t'" and "ht_phase t' = Hib_Ready"
  shows "hb_focusing h = []"
proof -
  have b: "hb_focusing h = []" if "\<not> hb_blocked h > 0" using assms(1) that by (simp add: hib_ok_def)
  have same: "map_of (hb_threads h') i = Some t'" if "hb_threads h' = hb_threads h" "hib_step lib e h = h'" for h'
    using assms(4) that by simp
  have no: "map_of (hb_threads h) i \<noteq> Some t'" using assms(2,3,5) by auto
  have fin: "map_of (hb_threads (hib_finish k m h')) i \<noteq> Some t'" if "hb_threads h' = hb_threads h" for k m h'
    using no that by (simp add: hib_finish_def delete_conv')
  show ?thesis
  proof (cases e)
    case (H_Request state p)
    with assms(4) no assms(2) show ?thesis by (auto simp: hibernateWrapper_def Let_def map_of_append split: if_splits)
  next
    case (H_Look k)
    with assms no b show ?thesis
      by (auto simp: hib_look_def hib_phase_to_def update_conv' split: option.splits if_splits)
  next
    case (H_Timeout k)
    with assms no b fin[of h] show ?thesis
      by (auto simp: hib_timeout_def hib_phase_to_def update_conv' split: option.splits if_splits)
  next
    case (H_Invoke k answer)
    show ?thesis
    proof (cases "\<exists>u. map_of (hb_threads h) k = Some u \<and> ht_phase u = Hib_Ready")
      case True
      then obtain u where u: "map_of (hb_threads h) k = Some u" "ht_phase u = Hib_Ready" by blast
      obtain m h' where "hib_invoke k answer u h = hib_finish k m h'" "hb_threads h' = hb_threads h" using invoke_cases by blast
      with u H_Invoke assms(4) fin show ?thesis by simp
    next
      case False
      with H_Invoke assms(4) no show ?thesis by (auto split: option.splits)
    qed
  qed (use assms(4) no in \<open>auto simp: focus_begin_def focus_end_def setHibernateBlocked_def hib_StateChange_def
      hib_forget_def hib_launch_def Let_def split: if_splits\<close>)
qed

text \<open>
  The promise that no hibernation begins while the focus is taken from an application holds for the wait alone: a thread gets past
  it only while no application is called.  Between that and the request to the controller the focus can be taken from the
  application, so that it is hibernated during the call.
\<close>
theorem hibernation_race:
  "(\<forall>es e i t t' lib. map_of (hb_threads (fold (hib_step lib) es hib_init)) i = Some t \<and> ht_phase t \<noteq> Hib_Ready \<and>
      map_of (hb_threads (hib_step lib e (fold (hib_step lib) es hib_init))) i = Some t' \<and> ht_phase t' = Hib_Ready \<longrightarrow>
      hb_focusing (fold (hib_step lib) es hib_init) = []) \<and>
   (\<exists>es request. (request, 1) \<in> set (hb_calls (fold (hib_step plain_json) es hib_init)) \<and>
      request = [(''callsign'', JString ''app''), (''timeout'', JNumber 20000)] \<and>
      (0, ''app'') \<in> set (hb_focusing (fold (hib_step plain_json) es hib_init)))"
proof (rule conjI)
  show "\<forall>es e i t t' lib. map_of (hb_threads (fold (hib_step lib) es hib_init)) i = Some t \<and> ht_phase t \<noteq> Hib_Ready \<and>
      map_of (hb_threads (hib_step lib e (fold (hib_step lib) es hib_init))) i = Some t' \<and> ht_phase t' = Hib_Ready \<longrightarrow>
      hb_focusing (fold (hib_step lib) es hib_init) = []"
    by (metis hb.run_inv hib_init_ok pass_unblocked)
  let ?es = "[H_Request (0, ''suspended'') [(''callsign'', JString ''app'')], H_Look 0, H_Focus 0 ''app'', H_Invoke 0 (0, [])]"
  show "\<exists>es request. (request, 1) \<in> set (hb_calls (fold (hib_step plain_json) es hib_init)) \<and>
      request = [(''callsign'', JString ''app''), (''timeout'', JNumber 20000)] \<and>
      (0, ''app'') \<in> set (hb_focusing (fold (hib_step plain_json) es hib_init))"
    by (intro exI[of _ ?es] exI[of _ "[(''callsign'', JString ''app''), (''timeout'', JNumber 20000)]"])
      (simp add: hib_init_def hibernateWrapper_def native_app_def hib_look_def hib_phase_to_def focus_begin_def setHibernateBlocked_def
        hib_invoke_def hib_finish_def hibernate_request_def Let_def)
qed

lemma hibernation_race_witness:
  "hb_focusing (fold (hib_step plain_json) [H_Request (0, ''suspended'') [(''callsign'', JString ''app'')]] hib_init) = []"
  by (rule hibernation_race[THEN conjunct1, rule_format, where e = "H_Look 0" and i = 0
        and t = "\<lparr>ht_callsign = ''app'', ht_parameters = [(''callsign'', JString ''app'')], ht_phase = Hib_Begin\<rparr>"
        and t' = "\<lparr>ht_callsign = ''app'', ht_parameters = [(''callsign'', JString ''app'')], ht_phase = Hib_Ready\<rparr>"])
    (simp add: hib_init_def hibernateWrapper_def native_app_def hib_look_def hib_phase_to_def Let_def)

text \<open>A request is refused without a thread when its application is being destroyed, or is a native one that is not suspended; the reports
  of failures do not name the application.\<close>

lemma hibernate_refused:
  assumes "js_String lib (jget p ''callsign'') = c"
  shows "fst (fst (hibernateWrapper lib state p h)) = ERROR_NONE \<longleftrightarrow>
    HasLabel p ''callsign'' \<and> c \<notin> hb_destroying h \<and> c \<notin> hb_external h \<and>
    (native_app c \<longrightarrow> state = (0, ''suspended''))"
  using assms by (cases state) (auto simp: hibernateWrapper_def hib_reply_def Let_def)

lemma failure_unnamed:
  assumes "0 < errCode"
  shows "\<not> HasLabel (snd (last (hb_events (hib_invoke i (errCode, r) t h)))) ''callsign''"
  using assms by (simp add: hib_invoke_def hib_finish_def)

end
