(* ===== verification/Shell_Services.thy ===== *)
theory Shell_Services
  imports Json Utils_Strings Utils_Access "HOL-Library.Word"
begin

text \<open>
  How RDKShell reaches other services (\<^verbatim>\<open>RDKShell.cpp\<close>): the helpers for the shells of plugins, the link to a dispatcher in
  its three variants (by the version of Thunder it is compiled for), and the calls made at start-up when features are enabled
  (under \<^verbatim>\<open>RFC_ENABLED\<close>).  What the framework answers is an argument.
\<close>

section \<open>Shells of plugins\<close>

text \<open>The interface asked for is \<open>None\<close> if it cannot be had, else what its call answers.  The last number counts the references taken
  and not released.\<close>

definition query_service :: "'a option \<Rightarrow> ('a \<Rightarrow> hresult) \<Rightarrow> int \<Rightarrow> hresult \<times> int" where
  "query_service interface act refs =
     (case interface of
        None \<Rightarrow> (ERROR_UNAVAILABLE, refs)
      | Some x \<Rightarrow> (let refs = refs + 1 in (act x, refs - 1)))"

definition shell_getConfig :: "string option \<Rightarrow> string \<Rightarrow> int \<Rightarrow> hresult \<times> string \<times> int" where
  "shell_getConfig interface config refs =
     (let (result, refs) = query_service interface (\<lambda>_. ERROR_NONE) refs in
      (result, (case interface of None \<Rightarrow> config | Some line \<Rightarrow> line), refs))"

definition shell_setConfig :: "hresult option \<Rightarrow> int \<Rightarrow> hresult \<times> int" where
  "shell_setConfig interface refs = query_service interface id refs"

definition shell_getServiceState :: "'s option \<Rightarrow> 's \<Rightarrow> int \<Rightarrow> hresult \<times> 's \<times> int" where
  "shell_getServiceState interface state refs =
     (let (result, refs) = query_service interface (\<lambda>_. ERROR_NONE) refs in
      (result, (case interface of None \<Rightarrow> state | Some st \<Rightarrow> st), refs))"

definition store_getValue :: "(hresult \<times> string) option \<Rightarrow> string \<Rightarrow> int \<Rightarrow> hresult \<times> string \<times> int" where
  "store_getValue store v refs =
     (let (result, refs) = query_service store fst refs in
      (result, (case store of None \<Rightarrow> v | Some (_, text) \<Rightarrow> text), refs))"

text \<open>Cloning, activating and deactivating run as jobs of the worker pool, which the caller waits for.\<close>

definition worker_job :: "bool \<Rightarrow> hresult option \<Rightarrow> int \<Rightarrow> (hresult \<times> int) option" where
  "worker_job job_runs interface refs = (if job_runs then Some (query_service interface id refs) else None)"

definition shell_cloneService :: "bool \<Rightarrow> hresult option \<Rightarrow> int \<Rightarrow> (hresult \<times> int) option" where
  "shell_cloneService job_runs controller refs = worker_job job_runs controller refs"

definition shell_activate :: "bool \<Rightarrow> hresult option \<Rightarrow> int \<Rightarrow> (hresult \<times> int) option" where
  "shell_activate job_runs interface refs = worker_job job_runs interface refs"

definition shell_deactivate :: "bool \<Rightarrow> hresult option \<Rightarrow> int \<Rightarrow> (hresult \<times> int) option" where
  "shell_deactivate job_runs interface refs = worker_job job_runs interface refs"

lemma query_service_result:
  "query_service interface act refs = (case interface of None \<Rightarrow> ERROR_UNAVAILABLE | Some x \<Rightarrow> act x, refs)"
  by (simp add: query_service_def split: option.split)

text \<open>Activation answers as the helper of \<^verbatim>\<open>UtilsController.h\<close> does.\<close>

lemma shell_activate_helper: "shell_activate job_runs interface refs = activatePlugin job_runs interface refs"
  by (simp add: shell_activate_def worker_job_def activatePlugin_def activatePlugin_job_def query_service_def split: option.split)

section \<open>The link to a dispatcher\<close>

datatype thunder = Thunder_4_4 | Thunder_2_or_4_2 | Thunder_other

text \<open>The field \<^verbatim>\<open>Result\<close> of a message; reading it into the response is the parameter \<open>parse\<close>.\<close>

datatype result_field = Unset | Null_Result | Result_Text string

record link_message =
  msg_id :: "32 word"
  msg_designator :: string
  msg_parameters :: "string option"
  msg_result :: result_field
  msg_error :: "(nat \<times> string) option"

record shell_link =
  sl_mId :: "32 word"
  sl_mCallSign :: string
  sl_dispatcher :: bool
  sl_sent :: "link_message list"

text \<open>\<open>parameters\<close>: \<open>None\<close> if nothing is set, else their text unless they cannot be converted.\<close>

definition ToMessage :: "string option option \<Rightarrow> link_message \<Rightarrow> bool \<times> link_message" where
  "ToMessage parameters message =
     (case parameters of
        None \<Rightarrow> (True, message)
      | Some None \<Rightarrow> (False, message)
      | Some (Some values) \<Rightarrow> (True, if values \<noteq> [] then message\<lparr>msg_parameters := Some values\<rparr> else message))"

definition FromMessage :: "(result_field \<Rightarrow> bool) \<Rightarrow> bool \<Rightarrow> link_message \<Rightarrow> bool" where
  "FromMessage parse isResponseString message = (isResponseString \<or> parse (msg_result message))"

text \<open>What the dispatcher answers: that the answer comes later, success with an output, or an error.\<close>

datatype rpc_answer = Rpc_Later | Rpc_Done string | Rpc_Error nat string

datatype link_return = Ret_None | Ret_General | Ret_Code nat | Ret_Released

definition bad_request :: nat where "bad_request = 30"

text \<open>
  With Thunder 4.4 the message gets the outcome; a message that has been released is used all the same.  \<open>local\<close>: whether the
  dispatcher is in this process.
\<close>

definition message_44 :: "bool \<Rightarrow> rpc_answer \<Rightarrow> link_message \<Rightarrow> link_message option" where
  "message_44 local answer message =
     (case (if local then answer else Rpc_Error bad_request []) of
        Rpc_Later \<Rightarrow> None
      | Rpc_Done output \<Rightarrow> Some (message\<lparr>msg_result := (if output = [] then Null_Result else Result_Text output)\<rparr>)
      | Rpc_Error code output \<Rightarrow> Some (message\<lparr>msg_error := Some (code, output)\<rparr>))"

definition finish_44 :: "(result_field \<Rightarrow> bool) \<Rightarrow> bool \<Rightarrow> link_message option \<Rightarrow> link_return" where
  "finish_44 parse isResponseString message =
     (case message of
        None \<Rightarrow> if isResponseString then Ret_None else Ret_Released
      | Some m \<Rightarrow> if \<not> FromMessage parse isResponseString m then Ret_General else Ret_None)"

text \<open>With Thunder 2 and 4.2 the dispatcher answers with a message of its own, in which an error is set or a result.\<close>

definition finish_42 :: "(result_field \<Rightarrow> bool) \<Rightarrow> bool \<Rightarrow> link_message \<Rightarrow> link_return" where
  "finish_42 parse isResponseString resp =
     (case msg_error resp of
        Some (code, _) \<Rightarrow> Ret_Code code
      | None \<Rightarrow> if \<not> FromMessage parse isResponseString resp then Ret_General else Ret_None)"

definition answer_message :: "rpc_answer \<Rightarrow> link_message \<Rightarrow> link_message" where
  "answer_message answer message =
     (case answer of
        Rpc_Later \<Rightarrow> message
      | Rpc_Done output \<Rightarrow> message\<lparr>msg_result := (if output = [] then Null_Result else Result_Text output)\<rparr>
      | Rpc_Error code output \<Rightarrow> message\<lparr>msg_error := Some (code, output)\<rparr>)"

definition shell_link_Invoke ::
  "thunder \<Rightarrow> string \<Rightarrow> string option option \<Rightarrow> bool \<Rightarrow> rpc_answer \<Rightarrow> (result_field \<Rightarrow> bool) \<Rightarrow> bool \<Rightarrow> shell_link \<Rightarrow> link_return \<times> shell_link" where
  "shell_link_Invoke version name parameters local answer parse isResponseString l =
     (if \<not> sl_dispatcher l then (Ret_General, l)
      else
        let l = l\<lparr>sl_mId := sl_mId l + 1\<rparr>;
            message = snd (ToMessage parameters \<lparr>msg_id = sl_mId l, msg_designator = sl_mCallSign l @ ''.1.'' @ name,
              msg_parameters = None, msg_result = Unset, msg_error = None\<rparr>);
            l = (if version = Thunder_4_4 \<and> \<not> local then l else l\<lparr>sl_sent := sl_sent l @ [message]\<rparr>) in
        (case version of
           Thunder_4_4 \<Rightarrow> finish_44 parse isResponseString (message_44 local answer message)
         | Thunder_2_or_4_2 \<Rightarrow> finish_42 parse isResponseString (answer_message answer message)
         | Thunder_other \<Rightarrow> Ret_None, l))"

text \<open>\<^verbatim>\<open>Get\<close> and \<^verbatim>\<open>Set\<close> pass an object in which nothing is set as parameters, or as response.\<close>

definition shell_link_Get where
  "shell_link_Get version name = shell_link_Invoke version name None"

definition shell_link_Set where
  "shell_link_Set version name parameters local answer parse l = shell_link_Invoke version name parameters local answer parse False l"


definition some_link :: shell_link where
  "some_link = \<lparr>sl_mId = 0, sl_mCallSign = ''c'', sl_dispatcher = True, sl_sent = []\<rparr>"


section \<open>Calls at start-up\<close>

record startup_config =
  sc_rfc :: string
  sc_thunderApi :: string
  sc_params :: jobject

text \<open>An entry of the file, if it has the right form.\<close>

definition startup_entry :: "json_lib \<Rightarrow> json \<Rightarrow> startup_config option" where
  "startup_entry lib v =
     (case v of
        JObject _ \<Rightarrow>
          let configEntry = js_Object lib v in
          if \<not> (HasLabel configEntry ''RFC'' \<and> HasLabel configEntry ''thunderApi'') then None
          else (case (jget configEntry ''RFC'', jget configEntry ''thunderApi'') of
            (JString r, JString a) \<Rightarrow>
              let rfc = js_String lib (JString r); thunderApi = js_String lib (JString a) in
              if HasLabel configEntry ''params''
              then (case jget configEntry ''params'' of
                  JObject p \<Rightarrow> Some \<lparr>sc_rfc = rfc, sc_thunderApi = thunderApi, sc_params = js_Object lib (JObject p)\<rparr>
                | _ \<Rightarrow> None)
              else Some \<lparr>sc_rfc = rfc, sc_thunderApi = thunderApi, sc_params = []\<rparr>
          | _ \<Rightarrow> None)
      | _ \<Rightarrow> None)"

text \<open>\<open>text\<close>: the contents of the file that \<^verbatim>\<open>RDKSHELL_STARTUP_CONFIG\<close> names.\<close>

definition loadStartupConfig :: "json_lib \<Rightarrow> string option \<Rightarrow> startup_config list \<Rightarrow> startup_config list" where
  "loadStartupConfig lib text gStartupConfigs =
     (case text of
        None \<Rightarrow> gStartupConfigs
      | Some t \<Rightarrow>
          let startupConfigData = js_FromString lib t in
          if HasLabel startupConfigData ''rdkshellStartup''
          then (case jget startupConfigData ''rdkshellStartup'' of
              JArray a \<Rightarrow> fold (\<lambda>v cs. case startup_entry lib v of None \<Rightarrow> cs | Some c \<Rightarrow> cs @ [c]) (js_Array lib (JArray a)) gStartupConfigs
            | _ \<Rightarrow> gStartupConfigs)
          else gStartupConfigs)"

definition rfc_true :: "string \<Rightarrow> bool" where
  "rfc_true s = starts_with ''true'' (map tolower (cstr s))"

text \<open>\<open>rfc\<close>: the value of a feature if it can be read.  The result of a call is only printed.\<close>

definition invokeStartupThunderApis ::
  "(string \<Rightarrow> string option) \<Rightarrow> startup_config list \<Rightarrow> (string \<times> jobject) list \<times> startup_config list" where
  "invokeStartupThunderApis rfc gStartupConfigs =
     (fold (\<lambda>c calls. case rfc (sc_rfc c) of
          Some v \<Rightarrow> if rfc_true v then calls @ [(sc_thunderApi c, sc_params c)] else calls
        | None \<Rightarrow> calls) gStartupConfigs [], [])"

lemma fold_entries:
  "fold (\<lambda>v cs. case f v of None \<Rightarrow> cs | Some c \<Rightarrow> cs @ [c]) vs cs = cs @ List.map_filter f vs"
  by (induction vs arbitrary: cs) (auto simp: List.map_filter_simps split: option.split)

lemma fold_calls:
  "fold (\<lambda>c calls. case rfc (sc_rfc c) of
       Some v \<Rightarrow> if rfc_true v then calls @ [(sc_thunderApi c, sc_params c)] else calls
     | None \<Rightarrow> calls) cs calls =
   calls @ map (\<lambda>c. (sc_thunderApi c, sc_params c)) (filter (\<lambda>c. \<exists>v. rfc (sc_rfc c) = Some v \<and> rfc_true v) cs)"
  by (induction cs arbitrary: calls) (auto split: option.split)

text \<open>At start-up exactly the calls of the well-formed entries whose feature is on (its value begins with \<^verbatim>\<open>true\<close>) are made, in the order of
  the file, whatever the others are and however earlier calls end; afterwards nothing is kept.\<close>
theorem startup_calls:
  assumes "js_FromString lib text = doc" and "jget doc ''rdkshellStartup'' = JArray a" and "HasLabel doc ''rdkshellStartup''"
  shows "invokeStartupThunderApis rfc (loadStartupConfig lib (Some text) []) =
    (map (\<lambda>c. (sc_thunderApi c, sc_params c))
       (filter (\<lambda>c. \<exists>v. rfc (sc_rfc c) = Some v \<and> rfc_true v) (List.map_filter (startup_entry lib) (js_Array lib (JArray a)))), [])"
  using assms by (simp add: invokeStartupThunderApis_def loadStartupConfig_def fold_entries fold_calls)

definition startup_lib :: json_lib where
  "startup_lib = plain_json\<lparr>js_FromString := \<lambda>_.
     [(''rdkshellStartup'', JArray [JNull, JObject [(''RFC'', JString ''f''), (''thunderApi'', JString ''a'')]])]\<rparr>"

lemma startup_calls_witness:
  "invokeStartupThunderApis (\<lambda>_. Some ''True'') (loadStartupConfig startup_lib (Some []) []) = ([(''a'', [])], [])"
proof -
  have "invokeStartupThunderApis (\<lambda>_. Some ''True'') (loadStartupConfig startup_lib (Some []) []) =
    (map (\<lambda>c. (sc_thunderApi c, sc_params c))
       (filter (\<lambda>c. \<exists>v. Some ''True'' = Some v \<and> rfc_true v) (List.map_filter (startup_entry startup_lib)
         (js_Array startup_lib (JArray [JNull, JObject [(''RFC'', JString ''f''), (''thunderApi'', JString ''a'')]])))), [])"
    by (rule startup_calls[OF refl]) (simp_all add: startup_lib_def)
  moreover have "rfc_true ''True''" by code_simp
  ultimately show ?thesis by (simp add: startup_lib_def startup_entry_def List.map_filter_simps Let_def)
qed

end
