(* ===== verification/Ws_Tls.thy ===== *)
theory Ws_Tls
  imports Prelude
begin

text \<open>
  \<^verbatim>\<open>helpers/WebSockets/Encryption/TlsEnabled.h\<close>: the names of certificates and the TLS context made for a connection.  The context
  belongs to a library; the model keeps what it was told.  Which of its calls throw, and which files exist, are parameters.
\<close>

section \<open>Files and context\<close>

record tls_enabled =
  CAFileNames :: "string list"
  certFileName :: string
  keyFileName :: string

definition TlsEnabled :: tls_enabled where
  "TlsEnabled = \<lparr>CAFileNames = [], certFileName = [], keyFileName = []\<rparr>"

definition setCertFileName :: "string \<Rightarrow> tls_enabled \<Rightarrow> tls_enabled" where
  "setCertFileName name t = t\<lparr>certFileName := name\<rparr>"

definition setKeyFileName :: "string \<Rightarrow> tls_enabled \<Rightarrow> tls_enabled" where
  "setKeyFileName name t = t\<lparr>keyFileName := name\<rparr>"

definition setCAFileNames :: "string list \<Rightarrow> tls_enabled \<Rightarrow> tls_enabled" where
  "setCAFileNames names t = t\<lparr>CAFileNames := names\<rparr>"

datatype tls_option = Default_Workarounds | No_SSLv2 | No_SSLv3 | No_TLSv1 | No_TLSv1_1 | Single_DH_Use

record tls_context =
  tls_options :: "tls_option list"
  verifies_peer :: bool
  verify_callback :: bool
  default_paths :: bool
  authorities :: "string list"
  ecdh_auto :: bool
  certificate_chain :: "string option"
  private_key :: "string option"

definition fresh_context :: tls_context where
  "fresh_context = \<lparr>tls_options = [], verifies_peer = False, verify_callback = False, default_paths = False, authorities = [],
     ecdh_auto = False, certificate_chain = None, private_key = None\<rparr>"

record tls_lib =
  file_exists :: "string \<Rightarrow> bool"
  options_throw :: bool
  verify_mode_throws :: bool
  verify_callback_throws :: bool
  default_paths_throw :: bool
  authority_throws :: "string \<Rightarrow> bool"
  chain_throws :: bool
  key_throws :: bool

text \<open>An exception while authorities are loaded is caught there.\<close>

definition loadCertificateAuthorities :: "tls_lib \<Rightarrow> tls_enabled \<Rightarrow> tls_context \<Rightarrow> tls_context" where
  "loadCertificateAuthorities lib t ctx =
     (if CAFileNames t = [] then (if default_paths_throw lib then ctx else ctx\<lparr>default_paths := True\<rparr>)
      else fold (\<lambda>ca ctx.
          if \<not> file_exists lib ca then ctx
          else if authority_throws lib ca then ctx
          else ctx\<lparr>authorities := authorities ctx @ [ca]\<rparr>) (CAFileNames t) ctx)"

text \<open>An exception of another call ends the set-up; the context is returned as it is then.\<close>

definition onTlsInit :: "tls_lib \<Rightarrow> tls_enabled \<Rightarrow> tls_context" where
  "onTlsInit lib t =
     (if options_throw lib then fresh_context
      else
        let ctx = fresh_context\<lparr>tls_options := [Default_Workarounds, No_SSLv2, No_SSLv3, No_TLSv1, No_TLSv1_1, Single_DH_Use]\<rparr> in
        if verify_mode_throws lib then ctx
        else
          let ctx = ctx\<lparr>verifies_peer := True\<rparr> in
          if verify_callback_throws lib then ctx
          else
            let ctx = (loadCertificateAuthorities lib t (ctx\<lparr>verify_callback := True\<rparr>))\<lparr>ecdh_auto := True\<rparr> in
            if \<not> file_exists lib (certFileName t) then ctx
            else if chain_throws lib then ctx
            else
              let ctx = ctx\<lparr>certificate_chain := Some (certFileName t)\<rparr> in
              if \<not> file_exists lib (keyFileName t) then ctx
              else if key_throws lib then ctx
              else ctx\<lparr>private_key := Some (keyFileName t)\<rparr>)"

text \<open>The callback of the verification changes nothing.\<close>

definition logIfCertFailure :: "bool \<Rightarrow> bool" where
  "logIfCertFailure preverified = preverified"

section \<open>What a context promises\<close>

lemma load_authorities:
  "fold (\<lambda>ca ctx. if \<not> file_exists lib ca then ctx else if authority_throws lib ca then ctx
       else ctx\<lparr>authorities := authorities ctx @ [ca]\<rparr>) cas ctx =
     ctx\<lparr>authorities := authorities ctx @ filter (\<lambda>ca. file_exists lib ca \<and> \<not> authority_throws lib ca) cas\<rparr>"
  by (induction cas arbitrary: ctx) auto

lemma loaded:
  "loadCertificateAuthorities lib t ctx =
     ctx\<lparr>default_paths := default_paths ctx \<or> CAFileNames t = [] \<and> \<not> default_paths_throw lib,
         authorities := authorities ctx @ filter (\<lambda>ca. file_exists lib ca \<and> \<not> authority_throws lib ca) (CAFileNames t)\<rparr>"
  by (simp add: loadCertificateAuthorities_def load_authorities)

text \<open>
  Whatever files are missing and calls throw: the authorities of a context are those of the list that exist and can be loaded (the system's
  are used only if none is named), a private key is there only with its certificate chain, and the peer is verified, with the old protocols
  off, unless the very first calls throw; then the connection is made with a context that verifies nothing.
\<close>
theorem tls_context_spec:
  "verifies_peer (onTlsInit lib t) = (\<not> options_throw lib \<and> \<not> verify_mode_throws lib) \<and>
   (verifies_peer (onTlsInit lib t) \<longrightarrow> {No_SSLv2, No_SSLv3, No_TLSv1, No_TLSv1_1} \<subseteq> set (tls_options (onTlsInit lib t))) \<and>
   (private_key (onTlsInit lib t) \<noteq> None \<longrightarrow>
      certificate_chain (onTlsInit lib t) = Some (certFileName t) \<and> private_key (onTlsInit lib t) = Some (keyFileName t)) \<and>
   (\<forall>ca \<in> set (authorities (onTlsInit lib t)). ca \<in> set (CAFileNames t) \<and> file_exists lib ca) \<and>
   (verify_callback (onTlsInit lib t) \<longrightarrow>
      authorities (onTlsInit lib t) = filter (\<lambda>ca. file_exists lib ca \<and> \<not> authority_throws lib ca) (CAFileNames t)) \<and>
   (default_paths (onTlsInit lib t) \<longrightarrow> CAFileNames t = [])"
  by (simp add: onTlsInit_def loaded fresh_context_def Let_def)

lemma tls_context_spec_witness:
  "verifies_peer (onTlsInit \<lparr>file_exists = (\<lambda>_. False), options_throw = False, verify_mode_throws = False, verify_callback_throws = False,
     default_paths_throw = False, authority_throws = (\<lambda>_. False), chain_throws = False, key_throws = False\<rparr> TlsEnabled)"
  by (simp add: tls_context_spec)

text \<open>A certificate without its key: the chain is loaded and the context is used without a private key.\<close>

lemma chain_without_key:
  assumes "\<not> options_throw lib" "\<not> verify_mode_throws lib" "\<not> verify_callback_throws lib" "\<not> chain_throws lib"
    and "file_exists lib (certFileName t)" "\<not> file_exists lib (keyFileName t)"
  shows "certificate_chain (onTlsInit lib t) = Some (certFileName t)" and "private_key (onTlsInit lib t) = None"
  using assms by (simp_all add: onTlsInit_def loaded fresh_context_def Let_def)

end
