(* ===== verification/Spec2Isabelle.thy ===== *)
theory Spec2Isabelle
  imports Utils_Strings Json Analytics_SystemTime Analytics_Events Analytics_Store Web_Bridge Rust_Socket
    Shell_Methods Shell_Contract Shell_Life Shell_Outcomes Shell_Start Utils_Validator Utils_Search Front_Panel Rust_Adapter
    Utils_Delegate Utils_Settings Utils_Timer Utils_Interface Ws_Manager Ws_Link Ws_Stream Ws_JsonRpc Ws_Endpoint
    Plugin_Scene Plugin_NativeJS
    Analytics_Backend Utils_Synchro Utils_Files Utils_Access Shell_Rialto Shell_Hibernate Shell_Services Ws_Tls
begin

text \<open>
  A model of the plugins of \<^verbatim>\<open>entservices-infra\<close> (Thunder services in C++) and the theorems that
  make it correct.

  \<^bold>\<open>The program.\<close>  RDKShell (\<^verbatim>\<open>RDKShell/\<close>) manages the windows of the applications: methods called over
  JSON-RPC change the compositor, a render thread draws frames and serves the requests that have
  to run on it, and listeners report events.  Analytics (\<^verbatim>\<open>Analytics/\<close>) collects events of other
  plugins, waits until the system time is known, stamps the events and hands them to backends.
  WebBridge (\<^verbatim>\<open>WebBridge/\<close>) routes JSON-RPC messages to a JavaScript service and its answers and
  events back.  RustAdapter (\<^verbatim>\<open>RustAdapter/\<close>) talks to plugins written in Rust over a socket.  SceneSet
  (\<^verbatim>\<open>SceneSet/\<close>) starts the reference application, NativeJS (\<^verbatim>\<open>NativeJS/\<close>) hands requests to a JavaScript
  renderer.  The helpers (\<^verbatim>\<open>helpers/\<close>), among them web socket servers, are shared.

  \<^bold>\<open>Theories.\<close>
  \<^item> \<open>Prelude\<close>: ordered maps as sorted lists, and the interfaces \<open>work_queue\<close>, \<open>machine\<close>, \<open>ledger\<close>,
    \<open>registry\<close>.  \<open>Json\<close>: JSON values; the conversions of the framework are the parameter \<open>json_lib\<close>.
    \<open>Locked_State\<close>: programs in the state monad and the interface \<open>locking\<close> of a mutex.
  \<^item> \<open>Utils_Strings\<close>: \<^verbatim>\<open>helpers/UtilsString.h\<close>, \<^verbatim>\<open>UtilsisValidInt.h\<close>, \<^verbatim>\<open>UtilsConnections.h\<close>; decimal numbers.
  \<^item> \<open>Analytics_Events\<close>: the class \<^verbatim>\<open>AnalyticsImplementation\<close>; a run is a list of calls, iterations of
    the action loop and a shutdown.  \<open>Analytics_SystemTime\<close>: the class \<^verbatim>\<open>SystemTime\<close> with its event
    queue and the reading of the output of zdump.  \<open>Analytics_Store\<close>: \<^verbatim>\<open>LocalStore\<close> and
    \<^verbatim>\<open>DatabaseConnection\<close> over a database library that is a parameter.  \<open>Analytics_Backend\<close>: how the library of a
    backend is loaded (\<^verbatim>\<open>helpers/UtilsLibraryLoader.h\<close>, \<^verbatim>\<open>AnalyticsBackendLoader.cpp\<close>), the life of the backend in it,
    and the shell of the plugin (\<^verbatim>\<open>Analytics.cpp\<close>).
  \<^item> \<open>Web_Bridge\<close>: the class \<^verbatim>\<open>WebBridge\<close>, its observers, pending requests and time-outs.
  \<^item> \<open>Rust_Socket\<close>: the class \<^verbatim>\<open>SocketServer\<close>; system calls are parameters.  \<open>Rust_Adapter\<close>: the classes
    \<^verbatim>\<open>RustAdapter\<close>, \<^verbatim>\<open>LocalPlugin\<close> and \<^verbatim>\<open>RemotePlugin\<close>; a run is a sequence of calls to the adapters of one
    process.  The interface \<open>rust_plugin\<close> is interpreted on both kinds of plugins.
  \<^item> \<open>Utils_Validator\<close>: \<^verbatim>\<open>helpers/UtilsInputValidator.h\<close>.  \<open>Utils_Property\<close> and \<open>Utils_Search\<close>:
    \<^verbatim>\<open>helpers/UtilsgetFileContent.h\<close>, property files and the search for files.  \<open>Front_Panel\<close>: the class
    \<^verbatim>\<open>CFrontPanel\<close> of \<^verbatim>\<open>helpers/frontpanel.cpp\<close> with its blink timer.
  \<^item> \<open>Utils_Delegate\<close>: \<^verbatim>\<open>helpers/BaseEventDelegate.h\<close>, emitters and their references.  \<open>Utils_Settings\<close>:
    \<^verbatim>\<open>helpers/cSettings.h\<close>, settings and their file.  \<open>Utils_Timer\<close>: \<^verbatim>\<open>helpers/tptimer.h\<close>.  \<open>Utils_Interface\<close>:
    \<^verbatim>\<open>helpers/PluginInterfaceBuilder.h\<close>, queries with retries and the references that own an interface.
  \<^item> \<open>Ws_Manager\<close>: \<^verbatim>\<open>helpers/WsManager.h\<close>, the connections of a web socket server and its manager.  \<open>Ws_Link\<close>:
    \<^verbatim>\<open>helpers/WebSocketLink.h\<close>, the upgrade, the queue and the frames of a link.  \<open>Ws_Stream\<close>:
    \<^verbatim>\<open>helpers/StreamJSONOneShot.h\<close>.  \<open>Ws_JsonRpc\<close> and \<open>Ws_Endpoint\<close>: \<^verbatim>\<open>helpers/WebSockets/\<close>, requests and their
    responses, commands, pings, and the endpoint with its roles.  \<open>Ws_Tls\<close>: \<^verbatim>\<open>Encryption/TlsEnabled.h\<close>, the context of an encrypted
    connection.
  \<^item> \<open>Utils_Synchro\<close>: \<^verbatim>\<open>helpers/UtilsSynchro.hpp\<close> and \<^verbatim>\<open>UtilsSynchroIarm.hpp\<close>, methods called with a lock held and the guards that release
    it; what a method does is a tree of actions.  \<open>Utils_Files\<close>: \<^verbatim>\<open>UtilsFile.h\<close>, \<^verbatim>\<open>UtilssyncPersistFile.h\<close>, \<^verbatim>\<open>UtilsProcess.h\<close>.
    \<open>Utils_Access\<close>: \<^verbatim>\<open>UtilsController.h\<close>, \<^verbatim>\<open>UtilsJsonrpcDirectLink.h\<close>, \<^verbatim>\<open>UtilsIarm.h\<close>, tokens, calls within the process, the bus.
  \<^item> \<open>Plugin_Scene\<close>: the class \<^verbatim>\<open>SceneSet\<close>.  \<open>Plugin_NativeJS\<close>: \<^verbatim>\<open>NativeJS\<close> and \<^verbatim>\<open>NativeJSImplementation\<close>.
  \<^item> \<open>Shell_Core\<close>: the state of RDKShell (record \<open>shell\<close>: the globals of \<^verbatim>\<open>RDKShell.cpp\<close> and the members),
    the environment \<open>env\<close> (the compositor library, other plugins), and the primitives: locking
    \<^verbatim>\<open>gRdkShellMutex\<close>, calling the compositor, replying.  \<open>Shell_Render\<close>: one frame of the render
    thread and the operations that wait for it.  \<open>Shell_Clients\<close>, \<open>Shell_Geometry\<close>, \<open>Shell_Keys\<close>,
    \<open>Shell_Misc\<close>: the operations and the handlers (\<^verbatim>\<open>...Wrapper\<close>) of the methods, by subject.
    \<open>Shell_Apps\<close>: launching, suspending, resuming and destroying applications.  \<open>Shell_Factory\<close>: the
    factory application, the power state, requests served on threads of their own.  \<open>Shell_Monitor\<close>:
    \<^verbatim>\<open>MonitorClients\<close>, the notifications of suspended plugins, \<^verbatim>\<open>RdkShellListener\<close>.
    \<open>Shell_Methods\<close>: the table of registered methods, runs of all that happens to the plugin.
    \<open>Shell_Contract\<close>: creating and killing clients as a refinement of a set.  \<open>Shell_Life\<close>: what is kept
    of the applications, and the properties of launching.  \<open>Shell_Outcomes\<close>: destroying, the factory
    application, plugins that come and go.  \<open>Shell_Start\<close>: \<^verbatim>\<open>Initialize\<close> and \<^verbatim>\<open>Deinitialize\<close>.  Beside that state, as models of
    their own: \<open>Shell_Hibernate\<close>, requests to hibernate and their threads; \<open>Shell_Rialto\<close>, sessions of the media server and waiting
    for them (\<^verbatim>\<open>RialtoConnector.cpp\<close>); \<open>Shell_Services\<close>, the link to a dispatcher in its variants, the helpers for shells of plugins,
    the calls at start-up.

  \<^bold>\<open>What the theorems show.\<close>  For RDKShell: the discipline of the mutex over all sequences of
  requests, reports and frames, the absence of deadlock while the render thread runs, that no mark
  of a launch or a destruction stays, that a launch is reported once, the refinement of the set of
  clients, what a frame does, the treatment of incomplete requests, and the behaviour
  of the operations with loops or error paths.  For Analytics: conservation of events (a
  ledger), their order and stamps, liveness of the loop, the accuracy of the time zone.  For
  WebBridge: the round trip of a call, the registry of observers, the delivery of events,
  time-outs.  For the Rust adapter: framing for every way the stream is cut into chunks, the delivery of
  messages by both kinds of plugins, where messages of a plugin go.  For the front panel: what is shown while
  blinking, that the timer never throws.  For the validator and the property files: what is accepted
  and found, and when reading ends.  For the web sockets: that no message is lost or processed twice under any
  interleaving, that requests get their own responses, the order of messages and frames, the upgrade and closing.  For
  events and interfaces: that references are neither lost nor released too early.  For settings: that they
  survive in their file.  For SceneSet and NativeJS: what activation and shutdown leave behind.  For locked methods: what their guards
  promise, and where a nested call breaks it.  For files: that a move loses nothing unless a read fails.  For hibernation and media sessions:
  that every request is reported once, and what a wait guarantees.  For loaded libraries: when code is used after it is gone.  For the
  store and the other helpers: when operations succeed, round trips.  Where the code does something
  other than it means to, the theorem states what it does.

  \<^bold>\<open>Conventions.\<close>  Machine integers are words of their width; strings are lists of characters;
  \<^verbatim>\<open>std::map\<close> is a list sorted by key; errors are values.  Other threads run between the steps of
  a run, never inside a critical section.  A thread of RDKShell that has thrown, waits for ever
  or has divided by zero is marked in the field \<open>sh_status\<close> and does nothing from then on.

  \<^bold>\<open>Bounds and fuel.\<close>  No definition runs on fuel: all loops are recursions over the data they
  read, but for those that need not end: the reading of properties (a partial function), and the loops over pending
  messages, received frames and the waiting of a close (\<open>while_option\<close>); for these the theorems say when they
  return.  The loop of \<^verbatim>\<open>getLastWakeupKey\<close> has the code's own bound of twelve tries.  The loops over
  services of RDKShell count in 16 bits, so that fewer than 65536 services are assumed.

  \<^bold>\<open>Not modelled.\<close>  Of WebBridge what its \<^verbatim>\<open>Deinitialize\<close> forgets.  The branches of RDKShell for hibernation, Rialto and
  RFC are not compiled by default: they are modelled by themselves and not within the runs of \<open>Shell_Methods\<close>.  Access to RFC,
  telemetry and the macros of \<^verbatim>\<open>UtilsJsonRpc.h\<close> only call libraries.  The classes of web sockets that pass every call on to the channel
  are left out.  Logging and printing to the console are left out everywhere.
\<close>

end
